(* ===== verification/Prelude.thy ===== *)
theory Prelude
  imports Main "HOL-Library.Word" "HOL-Library.List_Lexorder" "HOL-Library.Multiset"
begin

text \<open>
  Shared vocabulary of the development: JavaScript strings, computations that may throw,
  positional number systems, and the list facts several components need.

  A JavaScript string is a sequence of 16-bit UTF-16 code units, so \<open>jstr\<close> is
  \<open>16 word list\<close> and \<open>js\<close> turns a HOL literal into one.  The library's lexicographic
  order on lists is then the order that the operator \<open><\<close> has on JavaScript strings.
  A thrown error is the left side of a sum; \<open>ebind\<close> sequences computations that may throw.
\<close>

type_synonym cunit = "16 word"
type_synonym jstr = "cunit list"
type_synonym byte = "8 word"

text \<open>Inversion facts: what is known when a computation returned a value.\<close>
named_theorems ok_iff

subsection \<open>Literals\<close>

definition jc :: "char \<Rightarrow> cunit" where
  "jc c = of_nat (of_char c)"

definition js :: "string \<Rightarrow> jstr" where
  "js s = map jc s"

lemma unat_jc [simp]: "unat (jc c) = of_char c"
proof -
  have "(of_char c :: nat) < 2 ^ 16"
    by (rule less_trans [OF nat_of_char_less_256]) simp
  then show ?thesis
    by (simp add: jc_def unat_of_nat take_bit_nat_eq_self)
qed

lemma jc_eq_iff [simp]: "jc c = jc d \<longleftrightarrow> c = d"
  by (metis unat_jc of_char_eq_iff)

lemma js_eq_iff [simp]: "js s = js t \<longleftrightarrow> s = t"
proof -
  have "inj jc" by (rule injI) simp
  then show ?thesis by (simp add: js_def inj_map_eq_map)
qed

lemma js_eq_Nil_iff [simp]: "js s = [] \<longleftrightarrow> s = []" "[] = js s \<longleftrightarrow> s = []"
  by (auto simp: js_def)

lemma length_js [simp]: "length (js s) = length s"
  by (simp add: js_def)

subsection \<open>Computations that may throw\<close>

definition ebind :: "'e + 'a \<Rightarrow> ('a \<Rightarrow> 'e + 'b) \<Rightarrow> 'e + 'b" where
  "ebind m f = (case m of Inl e \<Rightarrow> Inl e | Inr a \<Rightarrow> f a)"

definition guard :: "bool \<Rightarrow> 'e \<Rightarrow> 'e + unit" where
  "guard ok e = (if ok then Inr () else Inl e)"

fun traverse :: "('a \<Rightarrow> 'e + 'b) \<Rightarrow> 'a list \<Rightarrow> 'e + 'b list" where
  "traverse f [] = Inr []"
| "traverse f (x # xs) = ebind (f x) (\<lambda>y. ebind (traverse f xs) (\<lambda>ys. Inr (y # ys)))"

fun is_ok :: "'e + 'a \<Rightarrow> bool" where
  "is_ok (Inl e) = False"
| "is_ok (Inr a) = True"

lemma ebind_simps [simp]:
  "ebind (Inl e) f = Inl e"
  "ebind (Inr a) f = f a"
  by (simp_all add: ebind_def)

lemma ebind_ok [ok_iff]: "ebind m f = Inr y \<longleftrightarrow> (\<exists>x. m = Inr x \<and> f x = Inr y)"
  by (cases m) simp_all

lemma ebind_err: "ebind m f = Inl e \<longleftrightarrow> m = Inl e \<or> (\<exists>x. m = Inr x \<and> f x = Inl e)"
  by (cases m) auto

lemma ebind_cong [fundef_cong]:
  "m = m' \<Longrightarrow> (\<And>x. m' = Inr x \<Longrightarrow> f x = f' x) \<Longrightarrow> ebind m f = ebind m' f'"
  by (cases m') auto

lemma guard_ok [ok_iff]: "guard p e = Inr u \<longleftrightarrow> p"
  by (simp add: guard_def)

lemma guard_simps [simp]:
  "guard True e = Inr ()"
  "guard False e = Inl e"
  by (simp_all add: guard_def)

lemma guard_err [simp]: "guard p e = Inl e' \<longleftrightarrow> \<not> p \<and> e' = e"
  by (auto simp: guard_def)

text \<open>The value, or an error when there is none.\<close>

definition require :: "'e \<Rightarrow> 'a option \<Rightarrow> 'e + 'a" where
  "require e x = (case x of None \<Rightarrow> Inl e | Some a \<Rightarrow> Inr a)"

lemma require_ok [ok_iff]: "require e x = Inr a \<longleftrightarrow> x = Some a"
  by (simp add: require_def split: option.splits)

fun map_err :: "('e \<Rightarrow> 'f) \<Rightarrow> 'e + 'a \<Rightarrow> 'f + 'a" where
  "map_err f (Inl e) = Inl (f e)"
| "map_err f (Inr a) = Inr a"

lemma map_err_ok [simp]: "map_err f m = Inr a \<longleftrightarrow> m = Inr a"
  by (cases m) auto

lemma map_sum_ok [ok_iff]: "map_sum id f y = Inr z \<longleftrightarrow> (\<exists>a. y = Inr a \<and> z = f a)"
  by (cases y) auto

lemma is_ok_iff: "is_ok m \<longleftrightarrow> (\<exists>a. m = Inr a)"
  by (cases m) auto

lemma if_Inl_ok: "(if p then Inl e else m) = Inr y \<longleftrightarrow> \<not> p \<and> m = Inr y"
  by simp

lemma is_ok_ebind: "is_ok (ebind m f) \<longleftrightarrow> (\<exists>x. m = Inr x \<and> is_ok (f x))"
  by (cases m) auto

lemma traverse_ok_iff:
  "traverse f xs = Inr ys \<longleftrightarrow> list_all2 (\<lambda>x y. f x = Inr y) xs ys"
  by (induction xs arbitrary: ys) (auto simp: ebind_ok list_all2_Cons1)

lemma traverse_pure: "(\<And>x. x \<in> set xs \<Longrightarrow> f x = Inr (g x)) \<Longrightarrow> traverse f xs = Inr (map g xs)"
  by (induction xs) auto

subsection \<open>Positional number systems\<close>

definition value_be :: "nat \<Rightarrow> nat list \<Rightarrow> nat" where
  "value_be b ds = foldl (\<lambda>a d. a * b + d) 0 ds"

fun digits_be :: "nat \<Rightarrow> nat \<Rightarrow> nat list" where
  "digits_be b n = (if n = 0 \<or> b \<le> 1 then [] else digits_be b (n div b) @ [n mod b])"

declare digits_be.simps [simp del]

lemma digits_be_0 [simp]: "digits_be b 0 = []"
  by (simp add: digits_be.simps)

lemma digits_be_step: "0 < n \<Longrightarrow> 2 \<le> b \<Longrightarrow> digits_be b n = digits_be b (n div b) @ [n mod b]"
  by (subst digits_be.simps) auto

lemma value_be_Nil [simp]: "value_be b [] = 0"
  by (simp add: value_be_def)

lemma value_be_snoc [simp]: "value_be b (ds @ [d]) = value_be b ds * b + d"
  by (simp add: value_be_def)

lemma value_be_append: "value_be b (xs @ ys) = value_be b xs * b ^ length ys + value_be b ys"
  by (induction ys rule: rev_induct) (simp_all add: algebra_simps flip: append_assoc)

lemma value_be_replicate_0 [simp]: "value_be b (replicate k 0) = 0"
  by (induction k) (simp_all flip: replicate_append_same)

lemma value_be_Cons: "value_be b (d # ds) = d * b ^ length ds + value_be b ds"
  using value_be_append [of b "[d]" ds] by (simp add: value_be_def)

lemma value_digits_be: "2 \<le> b \<Longrightarrow> value_be b (digits_be b n) = n"
proof (induction n rule: less_induct)
  case (less n)
  show ?case
  proof (cases "n = 0")
    case False
    with less.prems have "n div b < n" by (simp add: div_less_dividend)
    with less False show ?thesis by (simp add: digits_be_step)
  qed simp
qed

lemma digits_be_less: "2 \<le> b \<Longrightarrow> d \<in> set (digits_be b n) \<Longrightarrow> d < b"
proof (induction n rule: less_induct)
  case (less n)
  show ?case
  proof (cases "n = 0")
    case False
    with less.prems have "n div b < n" by (simp add: div_less_dividend)
    with less False show ?thesis by (auto simp: digits_be_step)
  qed (use less in simp)
qed

lemma value_be_0_iff: "2 \<le> b \<Longrightarrow> value_be b ds = 0 \<longleftrightarrow> set ds \<subseteq> {0}"
  by (induction ds rule: rev_induct) auto

lemma digits_be_value:
  "2 \<le> b \<Longrightarrow> (\<forall>d \<in> set ds. d < b) \<Longrightarrow> ds = [] \<or> hd ds \<noteq> 0 \<Longrightarrow> digits_be b (value_be b ds) = ds"
proof (induction ds rule: rev_induct)
  case (snoc d ds)
  show ?case
  proof (cases "ds = []")
    case True
    with snoc.prems show ?thesis by (simp add: value_be_def digits_be_step)
  next
    case False
    with snoc.prems have "digits_be b (value_be b ds) = ds" by (intro snoc.IH) auto
    moreover have "0 < value_be b ds"
      using snoc.prems False value_be_0_iff [of b ds] by (cases ds) auto
    ultimately show ?thesis using snoc.prems
      by (simp add: digits_be_step)
  qed
qed simp

lemma hd_digits_be: "2 \<le> b \<Longrightarrow> 0 < n \<Longrightarrow> digits_be b n \<noteq> [] \<and> hd (digits_be b n) \<noteq> 0"
proof (induction n rule: less_induct)
  case (less n)
  show ?case
  proof (cases "n div b = 0")
    case True
    with less.prems show ?thesis by (simp add: digits_be_step) (simp add: div_eq_0_iff)
  next
    case False
    have "n div b < n" using less.prems by simp
    with less False have "digits_be b (n div b) \<noteq> [] \<and> hd (digits_be b (n div b)) \<noteq> 0" by blast
    with less.prems show ?thesis by (simp add: digits_be_step)
  qed
qed

subsection \<open>Decimal text, as \<open>String(n)\<close> prints an integer below \<open>1e21\<close>\<close>

definition digit_char :: "nat \<Rightarrow> cunit" where
  "digit_char d = 0x30 + of_nat d"

definition nat_str :: "nat \<Rightarrow> jstr" where
  "nat_str n = (if n = 0 then [0x30] else map digit_char (digits_be 10 n))"

definition int_str :: "int \<Rightarrow> jstr" where
  "int_str i = (if i < 0 then 0x2d # nat_str (nat (- i)) else nat_str (nat i))"

definition is_digit :: "cunit \<Rightarrow> bool" where
  "is_digit c \<longleftrightarrow> 0x30 \<le> c \<and> c \<le> 0x39"

definition digit_val :: "cunit \<Rightarrow> nat" where
  "digit_val c = unat (c - 0x30)"

lemma digit_val_char [simp]: "d < 10 \<Longrightarrow> digit_val (digit_char d) = d"
  by (simp add: digit_val_def digit_char_def unat_of_nat take_bit_nat_eq_self)

lemma is_digit_unat: "is_digit c \<longleftrightarrow> 48 \<le> unat c \<and> unat c \<le> 57"
  by (simp add: is_digit_def word_le_nat_alt)

lemma unat_digit_char: "d < 10 \<Longrightarrow> unat (digit_char d) = 48 + d"
proof -
  assume d: "d < 10"
  then have "unat (of_nat d :: cunit) = d"
    by (simp add: unat_of_nat take_bit_nat_eq_self)
  with d show ?thesis
    by (simp add: digit_char_def unat_plus_if')
qed

lemma is_digit_char [simp]: "d < 10 \<Longrightarrow> is_digit (digit_char d)"
  by (simp add: is_digit_unat unat_digit_char)

lemma digit_val_less: "is_digit c \<Longrightarrow> digit_val c < 10"
  by (simp add: is_digit_def digit_val_def) unat_arith

lemma digit_char_val [simp]: "digit_char (digit_val c) = c"
  by (simp add: digit_char_def digit_val_def)

lemma digit_char_eq_iff [simp]: "d < 10 \<Longrightarrow> e < 10 \<Longrightarrow> digit_char d = digit_char e \<longleftrightarrow> d = e"
  by (metis digit_val_char)

lemma nat_str_digits: "c \<in> set (nat_str n) \<Longrightarrow> is_digit c"
  using digits_be_less [of 10 _ n] by (auto simp: nat_str_def is_digit_def split: if_splits)
    (metis is_digit_char is_digit_def)+

lemma nat_str_ne [simp]: "nat_str n \<noteq> []"
  using hd_digits_be [of 10 n] by (auto simp: nat_str_def)

lemma value_nat_str: "value_be 10 (map digit_val (nat_str n)) = n"
proof (cases "n = 0")
  case True
  then show ?thesis by (simp add: nat_str_def value_be_def digit_val_def)
next
  case False
  have "map digit_val (map digit_char (digits_be 10 n)) = digits_be 10 n"
    using digits_be_less [of 10 _ n] by (auto intro!: map_idI)
  with False show ?thesis by (simp add: nat_str_def value_digits_be del: map_map)
qed

text \<open>The number a text of decimal digits denotes, as \<open>Number\<close> and \<open>BigInt\<close> read it.\<close>

definition decimal_value :: "jstr \<Rightarrow> nat" where
  "decimal_value s = value_be 10 (map digit_val s)"

lemma decimal_value_nat_str [simp]: "decimal_value (nat_str n) = n"
  by (simp add: decimal_value_def value_nat_str)

lemma decimal_value_append: "decimal_value (s @ t) = decimal_value s * 10 ^ length t + decimal_value t"
  by (simp add: decimal_value_def value_be_append)

lemma decimal_value_zeros [simp]: "decimal_value (replicate n 0x30) = 0"
  by (simp add: decimal_value_def digit_val_def)

text \<open>\<open>s.padStart(n, '0')\<close>\<close>

definition zero_pad :: "nat \<Rightarrow> jstr \<Rightarrow> jstr" where
  "zero_pad n s = replicate (n - length s) 0x30 @ s"

lemma length_zero_pad [simp]: "length (zero_pad n s) = max n (length s)"
  by (simp add: zero_pad_def)

lemma decimal_value_zero_pad [simp]: "decimal_value (zero_pad n s) = decimal_value s"
  by (simp add: zero_pad_def decimal_value_append)

lemma value_be_bound: "2 \<le> b \<Longrightarrow> \<forall>d \<in> set ds. d < b \<Longrightarrow> value_be b ds < b ^ length ds"
proof (induction ds rule: rev_induct)
  case (snoc d ds)
  then have "Suc (value_be b ds) \<le> b ^ length ds" "Suc d \<le> b" by auto
  then have "Suc (value_be b ds) * b \<le> b ^ length ds * b" by (intro mult_le_mono1)
  then show ?case using \<open>Suc d \<le> b\<close> by (simp add: ac_simps)
qed simp

lemma decimal_value_bound: "list_all is_digit s \<Longrightarrow> decimal_value s < 10 ^ length s"
  using value_be_bound [of 10 "map digit_val s"] by (auto simp: decimal_value_def list_all_iff digit_val_less)

lemma length_nat_str_le: "0 < k \<Longrightarrow> length (nat_str n) \<le> k \<longleftrightarrow> n < 10 ^ k"
proof
  assume "0 < k" "length (nat_str n) \<le> k"
  moreover have "decimal_value (nat_str n) < 10 ^ length (nat_str n)"
    by (rule decimal_value_bound) (simp add: list_all_iff nat_str_digits)
  ultimately show "n < 10 ^ k" by (simp add: less_le_trans power_increasing)
next
  assume k: "0 < k" and n: "n < 10 ^ k"
  show "length (nat_str n) \<le> k"
  proof (cases "n = 0")
    case True
    then show ?thesis using k by (simp add: nat_str_def)
  next
    case False
    obtain d ds where ds: "digits_be 10 n = d # ds" "d \<noteq> 0"
      using hd_digits_be [of 10 n] False by (cases "digits_be 10 n") auto
    have "10 ^ length ds \<le> value_be 10 (d # ds)" using ds(2) by (simp add: value_be_Cons trans_le_add1)
    then have "10 ^ length ds \<le> n" by (simp add: value_digits_be flip: ds(1))
    then have "(10::nat) ^ length ds < 10 ^ k" using n by (rule le_less_trans)
    then have "length ds < k" by (rule power_less_imp_less_exp [rotated]) simp
    then show ?thesis using False ds by (simp add: nat_str_def)
  qed
qed

lemma nat_str_inj [simp]: "nat_str m = nat_str n \<longleftrightarrow> m = n"
  by (metis value_nat_str)

lemma nat_str_canonical:
  assumes "ds \<noteq> []" "\<forall>c \<in> set ds. is_digit c" "hd ds \<noteq> 0x30 \<or> ds = [0x30]"
  shows "nat_str (value_be 10 (map digit_val ds)) = ds"
proof (cases "ds = [0x30]")
  case True
  then show ?thesis by (simp add: nat_str_def value_be_def digit_val_def)
next
  case False
  have hd0: "hd (map digit_val ds) \<noteq> 0"
  proof
    assume "hd (map digit_val ds) = 0"
    with assms(1) have "digit_val (hd ds) = 0" by (simp add: hd_map)
    then have "hd ds = digit_char 0" by (metis digit_char_val)
    with False assms(3) show False by (simp add: digit_char_def)
  qed
  have lt: "\<forall>d \<in> set (map digit_val ds). d < 10"
    using assms(2) by (auto simp: digit_val_less)
  have "value_be 10 (map digit_val ds) \<noteq> 0"
  proof
    assume "value_be 10 (map digit_val ds) = 0"
    then have "set (map digit_val ds) \<subseteq> {0}" by (simp add: value_be_0_iff)
    with hd0 assms(1) show False by (cases ds) auto
  qed
  with digits_be_value [OF _ lt] hd0 show ?thesis
    by (simp add: nat_str_def map_idI)
qed

lemma hd_nat_str_digit: "is_digit (hd (nat_str n))"
  using nat_str_digits [of "hd (nat_str n)" n] by simp

lemma hd_nat_str: "hd (nat_str n) \<noteq> 0x30 \<or> nat_str n = [0x30]"
proof (cases "n = 0")
  case True
  then show ?thesis by (simp add: nat_str_def)
next
  case False
  then have h: "digits_be 10 n \<noteq> []" "hd (digits_be 10 n) \<noteq> 0"
    using hd_digits_be [of 10 n] by auto
  then have "hd (digits_be 10 n) < 10"
    using digits_be_less [of 10 "hd (digits_be 10 n)" n] by simp
  then have "digit_val (hd (nat_str n)) = hd (digits_be 10 n)"
    using False h by (simp add: nat_str_def hd_map)
  with h(2) show ?thesis by (auto simp: digit_val_def)
qed

lemma minus_not_digit [simp]: "\<not> is_digit 0x2d"
  by (simp add: is_digit_def)

lemma int_str_inj [simp]: "int_str i = int_str j \<longleftrightarrow> i = j"
proof
  assume eq: "int_str i = int_str j"
  have h: "hd (nat_str n) \<noteq> 0x2d" for n
    using hd_nat_str_digit [of n] by (auto simp: is_digit_def)
  show "i = j"
  proof (cases "i < 0 \<longleftrightarrow> j < 0")
    case True
    with eq show ?thesis by (auto simp: int_str_def split: if_splits)
  next
    case False
    then obtain m n where "0x2d # nat_str m = nat_str n"
      using eq by (auto simp: int_str_def split: if_splits) (metis+)
    then show ?thesis using h [of n] by (metis list.sel(1))
  qed
qed simp

subsection \<open>Lists\<close>

lemma size_list_mset: "mset xs = mset ys \<Longrightarrow> size_list f xs = size_list f ys"
proof -
  have "size_list f xs = sum_list (map f xs) + length xs" for xs
    by (induction xs) auto
  moreover assume "mset xs = mset ys"
  ultimately show ?thesis
    by (metis mset_eq_length mset_map sum_mset_sum_list)
qed

lemma size_list_sort_key [simp]: "size_list f (sort_key g xs) = size_list f xs"
  by (rule size_list_mset) simp

lemma size_list_filter_le: "size_list f (filter p xs) \<le> size_list f xs"
  by (induction xs) auto

lemma find_Some_iff2: "find p xs = Some x \<Longrightarrow> p x \<and> x \<in> set xs"
  by (induction xs) (auto split: if_splits)

lemma find_eq_None_iff: "find p xs = None \<longleftrightarrow> (\<forall>x \<in> set xs. \<not> p x)"
  by (auto simp: find_None_iff)

text \<open>
  A digit string followed by something that is not a digit can be read back in one way only.
\<close>

definition no_digit_start :: "jstr \<Rightarrow> bool" where
  "no_digit_start s \<longleftrightarrow> (case s of [] \<Rightarrow> True | c # _ \<Rightarrow> \<not> is_digit c)"

lemma digits_prefix_unique:
  assumes "\<forall>c \<in> set a. is_digit c" "\<forall>c \<in> set b. is_digit c"
    and "no_digit_start r" "no_digit_start t" "a @ r = b @ t"
  shows "a = b \<and> r = t"
  using assms
proof (induction a arbitrary: b)
  case Nil
  then show ?case by (cases b) (auto simp: no_digit_start_def split: list.splits)
next
  case (Cons c a)
  then show ?case by (cases b) (auto simp: no_digit_start_def split: list.splits)
qed

end
