(* ===== verification/JsonValue.thy ===== *)
theory JsonValue
  imports Prelude
begin

text \<open>
  In-memory JavaScript values as the SDK handles them.

  A number is split the way \<open>Number.isInteger\<close>, \<open>Number.isFinite\<close> and the sign of zero
  observe it: \<open>JInt\<close> an integral finite double, \<open>JNegZero\<close> minus zero, \<open>JFrac m e\<close> the
  finite non-integral double \<open>m * 2 ^ -e\<close>, and the non-finite values.  An object is the list
  of its own enumerable members in \<open>Object.keys\<close> order.  Values are finite trees, which is
  what \<open>JSON.parse\<close> returns; \<open>wf_jval\<close> says that no object names a member twice, which
  every JavaScript object satisfies.
\<close>

datatype jnum = JInt int | JNegZero | JFrac int nat | JNaN | JInf bool

datatype jval =
    JUndef
  | JNull
  | JBool bool
  | JNum jnum
  | JBig int
  | JStr jstr
  | JFun
  | JArr "jval list"
  | JObj "(jstr \<times> jval) list"

fun wf_jval :: "jval \<Rightarrow> bool" where
  "wf_jval (JArr vs) = list_all wf_jval vs"
| "wf_jval (JObj kvs) = (distinct (map fst kvs) \<and> list_all (\<lambda>kv. wf_jval (snd kv)) kvs)"
| "wf_jval _ = True"

text \<open>Property access \<open>obj[key]\<close>, and \<open>obj[key] ?? null\<close> as the store writes it.\<close>

type_synonym members = "(jstr \<times> jval) list"

definition member :: "members \<Rightarrow> jstr \<Rightarrow> jval" where
  "member kvs k = (case map_of kvs k of None \<Rightarrow> JUndef | Some v \<Rightarrow> v)"

definition or_null :: "jval \<Rightarrow> jval" where
  "or_null v = (case v of JUndef \<Rightarrow> JNull | JNull \<Rightarrow> JNull | _ \<Rightarrow> v)"

definition member0 :: "members \<Rightarrow> jstr \<Rightarrow> jval" where
  "member0 kvs k = or_null (member kvs k)"

definition nullish :: "jval \<Rightarrow> bool" where
  "nullish v \<longleftrightarrow> v = JUndef \<or> v = JNull"

fun truthy :: "jval \<Rightarrow> bool" where
  "truthy JUndef = False"
| "truthy JNull = False"
| "truthy (JBool b) = b"
| "truthy (JNum n) = (n \<noteq> JInt 0 \<and> n \<noteq> JNegZero \<and> n \<noteq> JNaN)"
| "truthy (JBig i) = (i \<noteq> 0)"
| "truthy (JStr s) = (s \<noteq> [])"
| "truthy _ = True"

fun str_of :: "jval \<Rightarrow> jstr option" where
  "str_of (JStr s) = Some s"
| "str_of _ = None"

lemma str_of_eq_Some [simp]: "str_of v = Some s \<longleftrightarrow> v = JStr s"
  by (cases v) auto

lemma or_null_simps [simp]:
  "or_null JUndef = JNull" "or_null JNull = JNull" "or_null (JStr s) = JStr s"
  "or_null (JArr vs) = JArr vs" "or_null (JObj kvs) = JObj kvs" "or_null (JNum n) = JNum n"
  "or_null (JBool b) = JBool b"
  by (simp_all add: or_null_def)

lemma or_null_idem [simp]: "or_null (or_null v) = or_null v"
  by (cases v) (simp_all add: or_null_def)

lemma or_null_eq_Str [simp]: "or_null v = JStr s \<longleftrightarrow> v = JStr s"
  by (cases v) (simp_all add: or_null_def)

lemma or_null_eq_Null: "or_null v = JNull \<longleftrightarrow> nullish v"
  by (cases v) (simp_all add: or_null_def nullish_def)

lemma member_Nil [simp]: "member [] k = JUndef"
  by (simp add: member_def)

lemma member_Cons [simp]: "member ((k', v) # kvs) k = (if k = k' then v else member kvs k)"
  by (simp add: member_def)

lemma member_in_set: "member kvs k \<noteq> JUndef \<Longrightarrow> (k, member kvs k) \<in> set kvs"
  by (auto simp: member_def map_of_SomeD split: option.splits)

lemma member_eqI: "distinct (map fst kvs) \<Longrightarrow> (k, v) \<in> set kvs \<Longrightarrow> member kvs k = v"
  by (simp add: member_def)

lemma size_member_less: "(k, v) \<in> set kvs \<Longrightarrow> size v < size (JObj kvs)"
  by (induction kvs) auto

text \<open>\<open>v?.key\<close> for a name that no built-in prototype has: anything but an object yields undefined.\<close>

definition field :: "jval \<Rightarrow> jstr \<Rightarrow> jval" where
  "field v k = (case v of JObj kvs \<Rightarrow> member kvs k | _ \<Rightarrow> JUndef)"

lemma field_JObj [simp]: "field (JObj kvs) k = member kvs k"
  by (simp add: field_def)

fun array_of :: "jval \<Rightarrow> jval list option" where
  "array_of (JArr vs) = Some vs"
| "array_of _ = None"

fun object_of :: "jval \<Rightarrow> members option" where
  "object_of (JObj kvs) = Some kvs"
| "object_of _ = None"

lemma array_of_Some [simp]: "array_of v = Some vs \<longleftrightarrow> v = JArr vs"
  by (cases v) auto

lemma object_of_Some [simp]: "object_of v = Some kvs \<longleftrightarrow> v = JObj kvs"
  by (cases v) auto

text \<open>The operator \<open>===\<close>: arrays, objects and functions of different origin are never the same.\<close>

fun strict_eq :: "jval \<Rightarrow> jval \<Rightarrow> bool" where
  "strict_eq (JNum m) (JNum n) =
     (m \<noteq> JNaN \<and> n \<noteq> JNaN \<and> (if m = JNegZero then JInt 0 else m) = (if n = JNegZero then JInt 0 else n))"
| "strict_eq (JArr _) _ = False"
| "strict_eq (JObj _) _ = False"
| "strict_eq JFun _ = False"
| "strict_eq v w = (v = w)"

lemma strict_eq_JStr [simp]: "strict_eq v (JStr s) \<longleftrightarrow> v = JStr s" "strict_eq (JStr s) v \<longleftrightarrow> v = JStr s"
  by (cases v; auto)+

lemma strict_eq_JNull [simp]: "strict_eq v JNull \<longleftrightarrow> v = JNull" "strict_eq JNull v \<longleftrightarrow> v = JNull"
  by (cases v; auto)+

text \<open>The number of array and object levels around the deepest value.\<close>

fun depth :: "jval \<Rightarrow> nat" where
  "depth (JArr vs) = (if vs = [] then 0 else Suc (Max (set (map depth vs))))"
| "depth (JObj kvs) = (if kvs = [] then 0 else Suc (Max (set (map (\<lambda>kv. depth (snd kv)) kvs))))"
| "depth _ = 0"

text \<open>The children that \<open>Object.values\<close> and array iteration visit.\<close>

fun children :: "jval \<Rightarrow> jval list" where
  "children (JArr vs) = vs"
| "children (JObj kvs) = map snd kvs"
| "children _ = []"

lemma size_children_less: "c \<in> set (children v) \<Longrightarrow> size c < size v"
  by (cases v) (auto simp: less_Suc_eq_le intro: size_list_estimation' dest!: size_member_less)

lemma size_list_children: "size_list size (children v) \<le> size v"
proof (cases v)
  case (JObj kvs)
  have "size_list size (map snd kvs) \<le> size_list (size_prod (\<lambda>_. 0) size) kvs"
    by (induction kvs) auto
  with JObj show ?thesis by simp
qed auto

lemma depth_child: "c \<in> set (children v) \<Longrightarrow> depth c < depth v"
  by (cases v) (force simp: less_Suc_eq_le intro!: Max_ge)+

lemma depth_le_children: "(\<forall>c \<in> set (children v). depth c < n) \<Longrightarrow> depth v \<le> n"
  by (cases v) (auto simp: Suc_le_eq)

lemma depth_le_iff: "depth v \<le> n \<longleftrightarrow> (\<forall>c \<in> set (children v). depth c < n)"
  using depth_child [of _ v] depth_le_children [of v n] by fastforce

text \<open>
  A walk over a value with an explicit stack, as the Core-1 envelope and the store's router do it: the last
  pushed pair is visited first, and a value below the limit stops the walk.
\<close>

lemma size_list_rev [simp]: "size_list f (rev xs) = size_list f xs"
  by (rule size_list_mset) simp

lemma size_list_append [simp]: "size_list f (xs @ ys) = size_list f xs + size_list f ys"
  by (induction xs) auto

function nesting_loop :: "nat \<Rightarrow> (jval \<times> nat) list \<Rightarrow> bool" where
  "nesting_loop limit [] = True"
| "nesting_loop limit ((v, d) # pending) =
     (if d > limit then False
      else nesting_loop limit (rev (map (\<lambda>c. (c, d + 1)) (children v)) @ pending))"
  by pat_completeness auto
termination
proof (relation "measure (\<lambda>(_, ps). size_list (\<lambda>p. size (fst p)) ps)", goal_cases)
  case (2 limit v d pending)
  have "size_list (\<lambda>p. size (fst p)) (map (\<lambda>c. (c, d + 1)) cs) = size_list size cs" for cs :: "jval list"
    by (induction cs) auto
  then show ?case using size_list_children [of v] by simp
qed simp

lemma nesting_loop_iff: "nesting_loop limit pending \<longleftrightarrow> (\<forall>(v, d) \<in> set pending. d + depth v \<le> limit)"
proof (induction limit pending rule: nesting_loop.induct)
  case (2 limit v d pending)
  show ?case
  proof (cases "d > limit")
    case False
    then have "d + depth v \<le> limit \<longleftrightarrow> (\<forall>c \<in> set (children v). d + 1 + depth c \<le> limit)"
      using depth_le_iff [of v "limit - d"] by auto
    moreover have "(\<forall>(v, d) \<in> set (rev (map (\<lambda>c. (c, d + 1)) (children v)) @ pending). d + depth v \<le> limit) \<longleftrightarrow>
        (\<forall>c \<in> set (children v). d + 1 + depth c \<le> limit) \<and> (\<forall>(v, d) \<in> set pending. d + depth v \<le> limit)"
      by (simp only: set_append set_rev set_map ball_Un ball_simps prod.case)
    ultimately show ?thesis using 2 [OF False] False by (simp only: nesting_loop.simps if_False) simp
  qed simp
qed simp

end
