(* ===== verification/Canonical.thy ===== *)
theory Canonical
  imports JsonValue
begin

text \<open>
  \<^verbatim>\<open>sdk/src/canonical.ts\<close>: canonical JSON (RFC 8785 restricted to integers), the UTF-8 bytes that
  are hashed and signed, and the hexadecimal helpers.  An error carries the path string the code
  builds; \<open>serialize\<close> visits members in sorted order, so the first error in that order wins.
\<close>

datatype canon_error =
    FloatNotAllowed jstr
  | LoneSurrogate jstr
  | UnsafeName jstr
  | BigintNotAllowed jstr
  | UnsupportedType jstr

definition MAX_SAFE :: int where
  "MAX_SAFE = 9007199254740991"

definition is_high :: "cunit \<Rightarrow> bool" where
  "is_high c \<longleftrightarrow> 0xD800 \<le> c \<and> c \<le> 0xDBFF"

definition is_low :: "cunit \<Rightarrow> bool" where
  "is_low c \<longleftrightarrow> 0xDC00 \<le> c \<and> c \<le> 0xDFFF"

text \<open>
  The regular expression \<open>LONE_SURROGATE\<close>: a high surrogate not followed by a low one, or a low
  surrogate not preceded by a high one.  \<open>prev\<close>: the code unit before is a high surrogate.
\<close>

fun lone_from :: "bool \<Rightarrow> jstr \<Rightarrow> bool" where
  "lone_from prev [] = False"
| "lone_from prev (c # cs) =
     (is_high c \<and> (case cs of [] \<Rightarrow> True | d # _ \<Rightarrow> \<not> is_low d) \<or>
      is_low c \<and> \<not> prev \<or>
      lone_from (is_high c) cs)"

definition lone_surrogate :: "jstr \<Rightarrow> bool" where
  "lone_surrogate s = lone_from False s"

fun checkNumber :: "jnum \<Rightarrow> jstr \<Rightarrow> canon_error + unit" where
  "checkNumber (JInt i) path = guard (\<bar>i\<bar> \<le> MAX_SAFE) (FloatNotAllowed path)"
| "checkNumber JNegZero path = Inr ()"
| "checkNumber _ path = Inl (FloatNotAllowed path)"

definition checkString :: "jstr \<Rightarrow> jstr \<Rightarrow> canon_error + unit" where
  "checkString s path = guard (\<not> lone_surrogate s) (LoneSurrogate path)"

text \<open>A name with a quotation mark, a reverse solidus or a control character is refused.\<close>

definition name_unit_ok :: "cunit \<Rightarrow> bool" where
  "name_unit_ok c \<longleftrightarrow> c \<noteq> 0x22 \<and> c \<noteq> 0x5c \<and> 0x20 \<le> c"

definition checkName :: "jstr \<Rightarrow> jstr \<Rightarrow> canon_error + unit" where
  "checkName name path = guard (\<forall>c \<in> set name. name_unit_ok c) (UnsafeName path)"

definition idx_path :: "jstr \<Rightarrow> nat \<Rightarrow> jstr" where
  "idx_path path i = path @ js ''['' @ nat_str i @ js '']''"

definition key_path :: "jstr \<Rightarrow> jstr \<Rightarrow> jstr" where
  "key_path path k = path @ js ''.'' @ k"

fun assertNoFloats :: "jval \<Rightarrow> jstr \<Rightarrow> canon_error + unit"
and noFloats_items :: "jval list \<Rightarrow> jstr \<Rightarrow> nat \<Rightarrow> canon_error + unit"
and noFloats_members :: "members \<Rightarrow> jstr \<Rightarrow> canon_error + unit" where
  "assertNoFloats (JNum n) path = checkNumber n path"
| "assertNoFloats (JArr vs) path = noFloats_items vs path 0"
| "assertNoFloats (JObj kvs) path = noFloats_members kvs path"
| "assertNoFloats _ path = Inr ()"
| "noFloats_items [] path i = Inr ()"
| "noFloats_items (v # vs) path i =
     ebind (assertNoFloats v (idx_path path i)) (\<lambda>_. noFloats_items vs path (Suc i))"
| "noFloats_members [] path = Inr ()"
| "noFloats_members ((k, v) # kvs) path =
     ebind (if v = JUndef then Inr () else assertNoFloats v (key_path path k))
       (\<lambda>_. noFloats_members kvs path)"

subsection \<open>Serialisation\<close>

text \<open>\<open>JSON.stringify\<close> of a well-formed string.\<close>

definition hex_char :: "nat \<Rightarrow> cunit" where
  "hex_char d = (if d < 10 then 0x30 + of_nat d else 0x61 + of_nat (d - 10))"

definition json_escape :: "cunit \<Rightarrow> jstr" where
  "json_escape c =
     (if c = 0x22 then js [CHR 0x5c, CHR 0x22]
      else if c = 0x5c then js [CHR 0x5c, CHR 0x5c]
      else if c = 0x08 then js [CHR 0x5c, CHR ''b'']
      else if c = 0x09 then js [CHR 0x5c, CHR ''t'']
      else if c = 0x0a then js [CHR 0x5c, CHR ''n'']
      else if c = 0x0c then js [CHR 0x5c, CHR ''f'']
      else if c = 0x0d then js [CHR 0x5c, CHR ''r'']
      else if c < 0x20 then js [CHR 0x5c, CHR ''u'', CHR ''0'', CHR ''0''] @
        [hex_char (unat c div 16), hex_char (unat c mod 16)]
      else [c])"

definition json_quote :: "jstr \<Rightarrow> jstr" where
  "json_quote s = 0x22 # concat (map json_escape s) @ [0x22]"

fun join_comma :: "jstr list \<Rightarrow> jstr" where
  "join_comma [] = []"
| "join_comma [p] = p"
| "join_comma (p # q # ps) = p @ 0x2c # join_comma (q # ps)"

text \<open>\<open>Object.keys(obj).filter(k => obj[k] !== undefined).sort(compareKeys)\<close>, with the values.\<close>

definition sorted_members :: "members \<Rightarrow> members" where
  "sorted_members kvs = sort_key fst (filter (\<lambda>kv. snd kv \<noteq> JUndef) kvs)"

lemma size_list_sorted_members: "size_list f (sorted_members kvs) \<le> size_list f kvs"
  by (simp add: sorted_members_def size_list_filter_le)

definition num_text :: "jnum \<Rightarrow> jstr" where
  "num_text n = (case n of JInt i \<Rightarrow> int_str i | _ \<Rightarrow> js ''0'')"

function (sequential) serialize :: "jval \<Rightarrow> jstr \<Rightarrow> canon_error + jstr"
and serialize_items :: "jval list \<Rightarrow> jstr \<Rightarrow> nat \<Rightarrow> canon_error + jstr list"
and serialize_members :: "members \<Rightarrow> jstr \<Rightarrow> canon_error + jstr list" where
  "serialize JUndef path = Inr (js ''null'')"
| "serialize JNull path = Inr (js ''null'')"
| "serialize (JBool b) path = Inr (if b then js ''true'' else js ''false'')"
| "serialize (JNum n) path = ebind (checkNumber n path) (\<lambda>_. Inr (num_text n))"
| "serialize (JStr s) path = ebind (checkString s path) (\<lambda>_. Inr (json_quote s))"
| "serialize (JBig i) path = Inl (BigintNotAllowed path)"
| "serialize (JArr vs) path =
     ebind (serialize_items vs path 0) (\<lambda>parts. Inr (0x5b # join_comma parts @ [0x5d]))"
| "serialize (JObj kvs) path =
     ebind (serialize_members (sorted_members kvs) path)
       (\<lambda>parts. Inr (0x7b # join_comma parts @ [0x7d]))"
| "serialize JFun path = Inl (UnsupportedType path)"
| "serialize_items [] path i = Inr []"
| "serialize_items (v # vs) path i =
     ebind (serialize v (idx_path path i)) (\<lambda>p.
     ebind (serialize_items vs path (Suc i)) (\<lambda>ps. Inr (p # ps)))"
| "serialize_members [] path = Inr []"
| "serialize_members ((k, v) # kvs) path =
     ebind (checkString k (key_path path k)) (\<lambda>_.
     ebind (checkName k (key_path path k)) (\<lambda>_.
     ebind (serialize v (key_path path k)) (\<lambda>p.
     ebind (serialize_members kvs path) (\<lambda>ps. Inr ((json_quote k @ 0x3a # p) # ps)))))"
  by pat_completeness auto
termination
  by (relation "measure (\<lambda>x. case x of
        Inl (v, _) \<Rightarrow> size v
      | Inr (Inl (vs, _)) \<Rightarrow> size_list size vs
      | Inr (Inr (kvs, _)) \<Rightarrow> size_list (size_prod (\<lambda>_. 0) size) kvs)")
    (auto simp: less_Suc_eq_le size_list_sorted_members)

definition canonicalize :: "jval \<Rightarrow> canon_error + jstr" where
  "canonicalize v = serialize v (js ''$'')"

subsection \<open>Bytes: \<open>TextEncoder\<close> and hexadecimal text\<close>

text \<open>The code points of a string; a lone surrogate is read as U+FFFD.\<close>

fun code_points :: "jstr \<Rightarrow> nat list" where
  "code_points [] = []"
| "code_points [c] = [if is_high c \<or> is_low c then 0xFFFD else unat c]"
| "code_points (c # d # ds) =
     (if is_high c \<and> is_low d
      then (0x10000 + (unat c - 0xD800) * 0x400 + (unat d - 0xDC00)) # code_points ds
      else (if is_high c \<or> is_low c then 0xFFFD else unat c) # code_points (d # ds))"

definition utf8_point :: "nat \<Rightarrow> byte list" where
  "utf8_point p = map of_nat
     (if p < 0x80 then [p]
      else if p < 0x800 then [0xC0 + p div 64, 0x80 + p mod 64]
      else if p < 0x10000 then [0xE0 + p div 4096, 0x80 + p div 64 mod 64, 0x80 + p mod 64]
      else [0xF0 + p div 262144, 0x80 + p div 4096 mod 64, 0x80 + p div 64 mod 64, 0x80 + p mod 64])"

definition utf8_encode :: "jstr \<Rightarrow> byte list" where
  "utf8_encode s = concat (map utf8_point (code_points s))"

definition canonicalBytes :: "jval \<Rightarrow> canon_error + byte list" where
  "canonicalBytes v = ebind (canonicalize v) (\<lambda>s. Inr (utf8_encode s))"

definition byte_hex :: "byte \<Rightarrow> jstr" where
  "byte_hex b = [hex_char (unat b div 16), hex_char (unat b mod 16)]"

definition bytesToHex :: "byte list \<Rightarrow> jstr" where
  "bytesToHex bs = concat (map byte_hex bs)"

text \<open>
  \<open>parseInt(pair, 16)\<close> on two code units: leading white space is skipped, a sign is read, digits
  are read as far as they go; no digit at all is \<open>NaN\<close>, which a \<open>Uint8Array\<close> stores as 0,
  and any other value is stored modulo 256.
\<close>

definition hex_val :: "cunit \<Rightarrow> nat option" where
  "hex_val c =
     (if 0x30 \<le> c \<and> c \<le> 0x39 then Some (unat c - 0x30)
      else if 0x61 \<le> c \<and> c \<le> 0x66 then Some (unat c - 0x57)
      else if 0x41 \<le> c \<and> c \<le> 0x46 then Some (unat c - 0x37)
      else None)"

definition js_space :: "cunit \<Rightarrow> bool" where
  "js_space c \<longleftrightarrow> (0x09 \<le> c \<and> c \<le> 0x0d) \<or> c = 0x20 \<or> c = 0xA0 \<or> c = 0x1680 \<or>
     (0x2000 \<le> c \<and> c \<le> 0x200A) \<or> c = 0x2028 \<or> c = 0x2029 \<or> c = 0x202F \<or> c = 0x205F \<or>
     c = 0x3000 \<or> c = 0xFEFF"

fun hex_prefix :: "nat \<Rightarrow> jstr \<Rightarrow> nat" where
  "hex_prefix a [] = a"
| "hex_prefix a (c # cs) = (case hex_val c of None \<Rightarrow> a | Some d \<Rightarrow> hex_prefix (16 * a + d) cs)"

definition parse_hex_byte :: "jstr \<Rightarrow> byte" where
  "parse_hex_byte s =
     (case dropWhile js_space s of
        [] \<Rightarrow> 0
      | c # cs \<Rightarrow> if c = 0x2d then - of_nat (hex_prefix 0 cs)
                 else if c = 0x2b then of_nat (hex_prefix 0 cs)
                 else of_nat (hex_prefix 0 (c # cs)))"

fun hex_pairs :: "jstr \<Rightarrow> byte list" where
  "hex_pairs (a # b # s) = parse_hex_byte [a, b] # hex_pairs s"
| "hex_pairs _ = []"

datatype hex_error = OddLengthHex

definition hexToBytes :: "jstr \<Rightarrow> hex_error + byte list" where
  "hexToBytes hex = (if length hex mod 2 \<noteq> 0 then Inl OddLengthHex else Inr (hex_pairs hex))"

subsection \<open>Facts\<close>

lemma canonicalize_undef_null [simp]: "canonicalize JUndef = canonicalize JNull"
  by (simp add: canonicalize_def)

lemma unat_small_unit [simp]: "n < 65536 \<Longrightarrow> unat (of_nat n :: cunit) = n"
  by (simp add: unat_of_nat take_bit_nat_eq_self)

lemma unat_small_byte [simp]: "n < 256 \<Longrightarrow> unat (of_nat n :: byte) = n"
  by (simp add: unat_of_nat take_bit_nat_eq_self)

lemma hex_val_hex_char [simp]: "d < 16 \<Longrightarrow> hex_val (hex_char d) = Some d"
proof -
  assume "d < 16"
  then have "d = 0 \<or> d = 1 \<or> d = 2 \<or> d = 3 \<or> d = 4 \<or> d = 5 \<or> d = 6 \<or> d = 7 \<or> d = 8 \<or> d = 9 \<or>
     d = 10 \<or> d = 11 \<or> d = 12 \<or> d = 13 \<or> d = 14 \<or> d = 15" by arith
  then show ?thesis by (elim disjE) (simp_all add: hex_val_def hex_char_def)
qed

lemma hex_val_plain:
  "hex_val c = Some d \<Longrightarrow> \<not> js_space c \<and> c \<noteq> 0x2d \<and> c \<noteq> 0x2b"
  by (auto simp: hex_val_def js_space_def word_le_nat_alt split: if_splits)

lemma parse_byte_hex [simp]: "parse_hex_byte [hex_char (unat b div 16), hex_char (unat b mod 16)] = b"
proof -
  have "unat b < 256" using unsigned_less [of b] by simp
  then have d: "unat b div 16 < 16" by simp
  have h: "hex_val (hex_char (unat b div 16)) = Some (unat b div 16)"
    using d by (rule hex_val_hex_char)
  have "of_nat (16 * (unat b div 16) + unat b mod 16) = b"
    by (simp only: mult_div_mod_eq) simp
  with h hex_val_plain [OF h] show ?thesis
    by (simp add: parse_hex_byte_def)
qed

lemma hex_pairs_bytesToHex [simp]: "hex_pairs (bytesToHex bs) = bs"
  by (induction bs) (simp_all add: bytesToHex_def byte_hex_def)

lemma length_bytesToHex [simp]: "length (bytesToHex bs) = 2 * length bs"
  by (induction bs) (simp_all add: bytesToHex_def byte_hex_def)

text \<open>Bytes written as lower-case hexadecimal text by \<open>bytesToHex\<close> are read back by \<open>hexToBytes\<close>.\<close>

theorem hex_roundtrip: "hexToBytes (bytesToHex bs) = Inr bs"
  by (simp add: hexToBytes_def)

end
