(* ===== verification/CanonicalInj.thy ===== *)
theory CanonicalInj
  imports Canonical
begin

text \<open>
  What a canonical text determines.  \<open>norm\<close> forgets exactly what the serialiser ignores: the
  order of members, members that are undefined, the difference of \<open>undefined\<close> and \<open>null\<close> in
  value position, and the sign of zero.  Two values with the same canonical text, or the same
  canonical bytes, have the same \<open>norm\<close>, so a signature over the bytes fixes the content.
  The proof reads a text from the left: every piece the serialiser writes can be told from
  whatever follows it.
\<close>

function (sequential) norm :: "jval \<Rightarrow> jval" where
  "norm JUndef = JNull"
| "norm (JNum JNegZero) = JNum (JInt 0)"
| "norm (JArr vs) = JArr (map norm vs)"
| "norm (JObj kvs) = JObj (map (\<lambda>kv. (fst kv, norm (snd kv))) (sorted_members kvs))"
| "norm v = v"
  by pat_completeness auto
termination
proof (relation "measure size", goal_cases)
  case (3 kvs kv)
  then have "kv \<in> set kvs" by (simp add: sorted_members_def)
  then show ?case using size_member_less [of "fst kv" "snd kv" kvs] by simp
qed (auto simp: less_Suc_eq_le intro: size_list_estimation')

subsection \<open>Quoted strings\<close>

text \<open>The left inverse of the escaping of one code unit.\<close>

definition simple_unescape :: "cunit \<Rightarrow> cunit" where
  "simple_unescape e =
     (if e = jc (CHR ''b'') then 0x08 else if e = jc (CHR ''t'') then 0x09
      else if e = jc (CHR ''n'') then 0x0a else if e = jc (CHR ''f'') then 0x0c
      else if e = jc (CHR ''r'') then 0x0d else e)"

fun unescape :: "jstr \<Rightarrow> (cunit \<times> jstr) option" where
  "unescape [] = None"
| "unescape [c] = Some (c, [])"
| "unescape (c # e # s) =
     (if c \<noteq> 0x5c then Some (c, e # s)
      else if e \<noteq> jc (CHR ''u'') then Some (simple_unescape e, s)
      else (case s of
          a # b # h # l # s' \<Rightarrow> Some (of_nat (16 * the (hex_val h) + the (hex_val l)), s')
        | _ \<Rightarrow> None))"

lemma jc_numerals [simp]:
  "jc (CHR ''b'') = 0x62" "jc (CHR ''t'') = 0x74" "jc (CHR ''n'') = 0x6e" "jc (CHR ''f'') = 0x66"
  "jc (CHR ''r'') = 0x72" "jc (CHR ''u'') = 0x75" "jc (CHR ''0'') = 0x30" "jc (CHR 0x5c) = 0x5c"
  "jc (CHR 0x22) = 0x22"
  by (simp_all add: jc_def)

lemma unescape_escape: "unescape (json_escape c @ s) = Some (c, s)"
proof (cases "c < 0x20 \<and> c \<notin> {0x08, 0x09, 0x0a, 0x0c, 0x0d}")
  case True
  then have u: "unat c < 32" by (simp add: word_less_nat_alt)
  have "16 * (of_nat (unat c div 16) :: cunit) + of_nat (unat c mod 16)
      = of_nat (16 * (unat c div 16) + unat c mod 16)"
    by (simp only: of_nat_add of_nat_mult of_nat_numeral)
  also have "\<dots> = c"
    by (simp only: mult_div_mod_eq) simp
  finally have "16 * (of_nat (unat c div 16) :: cunit) + of_nat (unat c mod 16) = c" .
  moreover have "json_escape c = [0x5c, 0x75, 0x30, 0x30, hex_char (unat c div 16), hex_char (unat c mod 16)]"
    using True by (auto simp: json_escape_def js_def)
  ultimately show ?thesis using u by simp
next
  case False
  then show ?thesis
    by (cases s) (auto simp: json_escape_def js_def simple_unescape_def)
qed

lemma escape_prefix_unique: "json_escape c @ x = json_escape d @ y \<Longrightarrow> c = d \<and> x = y"
  by (metis unescape_escape option.inject prod.inject)

lemma escape_no_quote: "json_escape c @ x \<noteq> 0x22 # y"
  by (auto simp: json_escape_def js_def)

lemma escapes_prefix_unique:
  "concat (map json_escape s) @ 0x22 # r = concat (map json_escape t) @ 0x22 # q \<Longrightarrow> s = t \<and> r = q"
proof (induction s arbitrary: t)
  case Nil
  then show ?case
    by (cases t) (simp_all, metis escape_no_quote)
next
  case (Cons c s)
  show ?case
  proof (cases t)
    case Nil
    with Cons.prems show ?thesis by simp (metis escape_no_quote)
  next
    case (Cons d t')
    with Cons.prems have "json_escape c @ (concat (map json_escape s) @ 0x22 # r) =
        json_escape d @ (concat (map json_escape t') @ 0x22 # q)" by simp
    from escape_prefix_unique [OF this] Cons.IH [of t'] Cons show ?thesis by simp
  qed
qed

lemma quote_prefix_unique: "json_quote s @ r = json_quote t @ q \<Longrightarrow> s = t \<and> r = q"
  by (rule escapes_prefix_unique) (simp add: json_quote_def)

subsection \<open>Numbers\<close>

definition sep :: "jstr \<Rightarrow> bool" where
  "sep r \<longleftrightarrow> r = [] \<or> hd r \<in> {0x2c, 0x5d, 0x7d}"

lemma sep_simps [simp]: "sep []" "sep (0x2c # r)" "sep (0x5d # r)" "sep (0x7d # r)"
  by (simp_all add: sep_def)

lemma sep_no_digit: "sep r \<Longrightarrow> no_digit_start r"
  by (cases r) (auto simp: sep_def no_digit_start_def is_digit_def)

lemma nat_str_prefix_unique:
  "sep r \<Longrightarrow> sep q \<Longrightarrow> nat_str m @ r = nat_str n @ q \<Longrightarrow> m = n \<and> r = q"
  using digits_prefix_unique [of "nat_str m" "nat_str n" r q] nat_str_digits sep_no_digit by auto

lemma nat_str_not_minus: "nat_str n @ r \<noteq> 0x2d # q"
  using hd_nat_str_digit [of n] by (cases "nat_str n") (auto simp: is_digit_def dest: arg_cong [of _ _ hd])

lemma int_str_prefix_unique:
  "sep r \<Longrightarrow> sep q \<Longrightarrow> int_str i @ r = int_str j @ q \<Longrightarrow> i = j \<and> r = q"
  using nat_str_not_minus [of _ r] nat_str_not_minus [of _ q]
  by (auto simp: int_str_def dest: nat_str_prefix_unique split: if_splits dest: sym)

definition num_norm :: "jnum \<Rightarrow> jnum" where
  "num_norm n = (if n = JNegZero then JInt 0 else n)"

lemma num_text_prefix_unique:
  assumes "checkNumber m p = Inr ()" "checkNumber n q = Inr ()"
    and "sep r" "sep t" "num_text m @ r = num_text n @ t"
  shows "num_norm m = num_norm n \<and> r = t"
proof -
  have nt: "checkNumber m p = Inr () \<Longrightarrow> \<exists>i. num_text m = int_str i \<and> num_norm m = JInt i" for m p
    by (cases m) (auto simp: num_text_def num_norm_def int_str_def nat_str_def js_def jc_def)
  from nt [OF assms(1)] nt [OF assms(2)] assms(3-5) show ?thesis
    by (auto dest: int_str_prefix_unique)
qed

lemma norm_JNum [simp]: "norm (JNum n) = JNum (num_norm n)"
  by (cases n) (simp_all add: num_norm_def)

subsection \<open>First code units\<close>

lemma hd_num_text:
  "checkNumber n p = Inr () \<Longrightarrow> num_text n \<noteq> [] \<and> (is_digit (hd (num_text n)) \<or> hd (num_text n) = 0x2d)"
  using hd_nat_str_digit
  by (cases n) (auto simp: num_text_def int_str_def js_def jc_def is_digit_def split: if_splits)

text \<open>The kind of a value shows in the first code unit of its text.\<close>

fun first_class :: "jval \<Rightarrow> cunit \<Rightarrow> bool" where
  "first_class JUndef c = (c = 0x6e)"
| "first_class JNull c = (c = 0x6e)"
| "first_class (JBool b) c = (c = (if b then 0x74 else 0x66))"
| "first_class (JNum n) c = (is_digit c \<or> c = 0x2d)"
| "first_class (JStr s) c = (c = 0x22)"
| "first_class (JArr vs) c = (c = 0x5b)"
| "first_class (JObj kvs) c = (c = 0x7b)"
| "first_class _ c = False"

lemma serialize_first: "serialize v path = Inr s \<Longrightarrow> s \<noteq> [] \<and> first_class v (hd s)"
  by (cases v) (auto simp: ok_iff js_def jc_def json_quote_def dest: hd_num_text)

lemma serialize_first_Cons: "serialize v path = Inr s \<Longrightarrow> \<exists>c s'. s = c # s' \<and> first_class v c"
  by (drule serialize_first) (cases s, auto)

lemma first_class_not_sep: "first_class v c \<Longrightarrow> c \<notin> {0x2c, 0x5d, 0x7d, 0x3a}"
  by (cases v) (auto simp: is_digit_def split: if_splits)

subsection \<open>The serialiser is uniquely readable\<close>

text \<open>
  Comma-separated parts followed by a closing bracket: if each part can be told from what follows
  it, and no part begins with a comma or the bracket, the parts are determined.
\<close>

fun commas :: "jstr list \<Rightarrow> jstr \<Rightarrow> jstr" where
  "commas [] r = r"
| "commas (p # ps) r = 0x2c # p @ commas ps r"

lemma join_comma_Cons: "join_comma (p # ps) @ r = p @ commas ps r"
  by (induction ps arbitrary: p) auto

lemma sep_commas: "sep r \<Longrightarrow> sep (commas ps r)"
  by (cases ps) auto

definition closes :: "cunit \<Rightarrow> jstr \<Rightarrow> bool" where
  "closes b r \<longleftrightarrow> (\<exists>r'. r = b # r')"

lemma closes_sep: "closes b r \<Longrightarrow> b \<in> {0x5d, 0x7d} \<Longrightarrow> sep r"
  by (auto simp: closes_def sep_def)

definition uniq_readable :: "jval \<Rightarrow> bool" where
  "uniq_readable v \<longleftrightarrow> (\<forall>w path path' s s' r t.
     serialize v path = Inr s \<longrightarrow> serialize w path' = Inr s' \<longrightarrow> sep r \<longrightarrow> sep t \<longrightarrow> s @ r = s' @ t \<longrightarrow>
     norm v = norm w \<and> r = t)"

lemma uniq_readableD:
  "uniq_readable v \<Longrightarrow> serialize v path = Inr s \<Longrightarrow> serialize w path' = Inr s' \<Longrightarrow> sep r \<Longrightarrow> sep t \<Longrightarrow>
   s @ r = s' @ t \<Longrightarrow> norm v = norm w \<and> r = t"
  unfolding uniq_readable_def by blast

lemma items_commas_unique:
  assumes "\<forall>v \<in> set vs. uniq_readable v"
    and "serialize_items vs path i = Inr ps" "serialize_items ws path' j = Inr qs"
    and "closes 0x5d r" "closes 0x5d t" "commas ps r = commas qs t"
  shows "map norm vs = map norm ws \<and> r = t"
  using assms
proof (induction vs arbitrary: ws ps qs i j)
  case Nil
  then show ?case by (cases ws) (auto simp: ok_iff closes_def)
next
  case (Cons v vs)
  from Cons.prems(2) obtain p ps' where p: "serialize v (idx_path path i) = Inr p"
      "serialize_items vs path (Suc i) = Inr ps'" "ps = p # ps'"
    by (auto simp: ok_iff)
  show ?case
  proof (cases ws)
    case Nil
    with Cons.prems p show ?thesis by (auto simp: ok_iff closes_def)
  next
    case (Cons w ws')
    with Cons.prems(3) obtain q qs' where q: "serialize w (idx_path path' j) = Inr q"
        "serialize_items ws' path' (Suc j) = Inr qs'" "qs = q # qs'"
      by (auto simp: ok_iff)
    from Cons.prems(6) p q have "p @ commas ps' r = q @ commas qs' t" by simp
    with Cons.prems(1,4,5) p q have "norm v = norm w \<and> commas ps' r = commas qs' t"
      by (intro uniq_readableD [of v]) (auto intro!: sep_commas closes_sep)
    moreover from this have "map norm vs = map norm ws' \<and> r = t"
      using Cons.prems p q by (intro Cons.IH) auto
    ultimately show ?thesis using Cons by simp
  qed
qed

lemma items_unique:
  assumes "\<forall>v \<in> set vs. uniq_readable v"
    and "serialize_items vs path i = Inr ps" "serialize_items ws path' j = Inr qs"
    and "join_comma ps @ 0x5d # r = join_comma qs @ 0x5d # t"
  shows "map norm vs = map norm ws \<and> r = t"
proof -
  have first: "serialize_items (v # vs) path i = Inr ps \<Longrightarrow>
      \<exists>c x. join_comma ps @ y = c # x \<and> c \<noteq> 0x5d" for v vs path i ps y
    by (auto simp: ok_iff join_comma_Cons dest!: serialize_first_Cons first_class_not_sep)
  show ?thesis
  proof (cases vs)
    case Nil
    with assms(2) have ps: "ps = []" by simp
    have "ws = []"
    proof (rule ccontr)
      assume "ws \<noteq> []"
      then obtain w ws' where "ws = w # ws'" by (cases ws) auto
      with assms(3) first obtain c x where "join_comma qs @ 0x5d # t = c # x" "c \<noteq> 0x5d" by blast
      with ps assms(4) show False by simp
    qed
    with Nil ps assms(3,4) show ?thesis by simp
  next
    case (Cons v vs')
    with assms(2) first obtain c x where "join_comma ps @ 0x5d # r = c # x" "c \<noteq> 0x5d" by blast
    with assms(3,4) obtain w ws' where ws: "ws = w # ws'" by (cases ws) auto
    obtain p ps' q qs' where "ps = p # ps'" "qs = q # qs'"
      using assms(2,3) Cons ws by (auto simp: ok_iff)
    moreover from this have "commas ps (0x5d # r) = commas qs (0x5d # t)"
      using assms(4) by (simp add: join_comma_Cons)
    ultimately have "map norm vs = map norm ws \<and> 0x5d # r = 0x5d # t"
      using assms(1-3) by (intro items_commas_unique) (auto simp: closes_def)
    then show ?thesis by simp
  qed
qed

definition norm_members :: "members \<Rightarrow> members" where
  "norm_members kvs = map (\<lambda>kv. (fst kv, norm (snd kv))) kvs"

lemma members_commas_unique:
  assumes "\<forall>kv \<in> set kvs. uniq_readable (snd kv)"
    and "serialize_members kvs path = Inr ps" "serialize_members kws path' = Inr qs"
    and "closes 0x7d r" "closes 0x7d t" "commas ps r = commas qs t"
  shows "norm_members kvs = norm_members kws \<and> r = t"
  using assms
proof (induction kvs arbitrary: kws ps qs)
  case Nil
  then show ?case by (cases kws) (auto simp: ok_iff closes_def)
next
  case (Cons kv kvs)
  obtain k v where kv: "kv = (k, v)" by (cases kv)
  from Cons.prems(2) kv obtain p ps' where p: "serialize v (key_path path k) = Inr p"
      "serialize_members kvs path = Inr ps'" "ps = (json_quote k @ 0x3a # p) # ps'"
    by (auto simp: ok_iff)
  show ?case
  proof (cases kws)
    case Nil
    with Cons.prems p show ?thesis by (auto simp: ok_iff closes_def)
  next
    case (Cons kw kws')
    obtain l w where kw: "kw = (l, w)" by (cases kw)
    with Cons Cons.prems(3) obtain q qs' where q: "serialize w (key_path path' l) = Inr q"
        "serialize_members kws' path' = Inr qs'" "qs = (json_quote l @ 0x3a # q) # qs'"
      by (auto simp: ok_iff)
    from Cons.prems(6) p q
    have "json_quote k @ (0x3a # p @ commas ps' r) = json_quote l @ (0x3a # q @ commas qs' t)" by simp
    from quote_prefix_unique [OF this] have kl: "k = l" "p @ commas ps' r = q @ commas qs' t" by auto
    with Cons.prems(1,4,5) p q kv have "norm v = norm w \<and> commas ps' r = commas qs' t"
      by (intro uniq_readableD [of v]) (auto intro!: sep_commas closes_sep)
    moreover from this have "norm_members kvs = norm_members kws' \<and> r = t"
      using Cons.prems p q by (intro Cons.IH) auto
    ultimately show ?thesis using Cons kv kw kl by (simp add: norm_members_def)
  qed
qed

lemma members_unique:
  assumes "\<forall>kv \<in> set kvs. uniq_readable (snd kv)"
    and "serialize_members kvs path = Inr ps" "serialize_members kws path' = Inr qs"
    and "join_comma ps @ 0x7d # r = join_comma qs @ 0x7d # t"
  shows "norm_members kvs = norm_members kws \<and> r = t"
proof -
  have first: "serialize_members (kv # kvs) path = Inr ps \<Longrightarrow>
      \<exists>x. join_comma ps @ y = 0x22 # x" for kv kvs path ps y
    by (cases kv) (auto simp: ok_iff join_comma_Cons json_quote_def)
  show ?thesis
  proof (cases kvs)
    case Nil
    with assms(2) have ps: "ps = []" by simp
    have "kws = []"
    proof (rule ccontr)
      assume "kws \<noteq> []"
      then obtain kw kws' where "kws = kw # kws'" by (cases kws) auto
      with assms(3) first obtain x where "join_comma qs @ 0x7d # t = 0x22 # x" by blast
      with ps assms(4) show False by simp
    qed
    with Nil ps assms(3,4) show ?thesis by simp
  next
    case (Cons kv kvs')
    with assms(2) first obtain x where "join_comma ps @ 0x7d # r = 0x22 # x" by blast
    with assms(3,4) obtain kw kws' where kws: "kws = kw # kws'" by (cases kws) auto
    obtain p ps' q qs' where "ps = p # ps'" "qs = q # qs'"
      using assms(2,3) Cons kws by (cases kv, cases kw) (auto simp: ok_iff)
    moreover from this have "commas ps (0x7d # r) = commas qs (0x7d # t)"
      using assms(4) by (simp add: join_comma_Cons)
    ultimately have "norm_members kvs = norm_members kws \<and> 0x7d # r = 0x7d # t"
      using assms(1-3) by (intro members_commas_unique) (auto simp: closes_def)
    then show ?thesis by simp
  qed
qed

text \<open>Values whose texts begin alike are of the same kind.\<close>

lemma same_first_cases:
  assumes "first_class v c" "first_class w c"
  shows "(v \<in> {JUndef, JNull} \<and> w \<in> {JUndef, JNull}) \<or> (\<exists>b. v = JBool b \<and> w = JBool b) \<or>
    (\<exists>m n. v = JNum m \<and> w = JNum n) \<or> (\<exists>s t. v = JStr s \<and> w = JStr t) \<or>
    (\<exists>vs ws. v = JArr vs \<and> w = JArr ws) \<or> (\<exists>kvs kws. v = JObj kvs \<and> w = JObj kws)"
  using assms by (cases v; cases w) (auto simp: is_digit_def split: if_splits)

lemma uniq_readable_step:
  assumes "\<And>u. size u < size v \<Longrightarrow> uniq_readable u"
  shows "uniq_readable v"
  unfolding uniq_readable_def
proof (intro allI impI)
  fix w path path' s s' r t
  assume sv: "serialize v path = Inr s" and sw: "serialize w path' = Inr s'"
    and sep: "sep r" "sep t" and eq: "s @ r = s' @ t"
  obtain c x where c: "s = c # x" "first_class v c" using serialize_first_Cons [OF sv] by blast
  with serialize_first_Cons [OF sw] eq have "first_class w c" by auto
  from same_first_cases [OF c(2) this]
  consider (null) "v \<in> {JUndef, JNull}" "w \<in> {JUndef, JNull}" | (bool) b where "v = JBool b" "w = JBool b"
    | (num) m n where "v = JNum m" "w = JNum n" | (str) a b where "v = JStr a" "w = JStr b"
    | (arr) vs ws where "v = JArr vs" "w = JArr ws" | (obj) kvs kws where "v = JObj kvs" "w = JObj kws"
    by blast
  then show "norm v = norm w \<and> r = t"
  proof cases
    case null
    with sv sw eq show ?thesis by auto
  next
    case bool
    with sv sw eq show ?thesis by (auto split: if_splits)
  next
    case num
    with sv sw eq sep show ?thesis by (auto simp: ok_iff dest: num_text_prefix_unique)
  next
    case str
    with sv sw eq show ?thesis by (auto simp: ok_iff dest: quote_prefix_unique)
  next
    case arr
    from sv sw arr obtain ps qs where "serialize_items vs path 0 = Inr ps" "serialize_items ws path' 0 = Inr qs"
        "s = 0x5b # join_comma ps @ [0x5d]" "s' = 0x5b # join_comma qs @ [0x5d]" by (auto simp: ok_iff)
    moreover have "\<forall>u \<in> set vs. uniq_readable u"
      using assms arr by (auto simp: less_Suc_eq_le intro: size_list_estimation')
    ultimately show ?thesis using items_unique [of vs path 0 ps ws path' 0 qs r t] eq arr by simp
  next
    case obj
    from sv sw obj obtain ps qs where "serialize_members (sorted_members kvs) path = Inr ps"
        "serialize_members (sorted_members kws) path' = Inr qs"
        "s = 0x7b # join_comma ps @ [0x7d]" "s' = 0x7b # join_comma qs @ [0x7d]" by (auto simp: ok_iff)
    moreover have "\<forall>kv \<in> set (sorted_members kvs). uniq_readable (snd kv)"
      using assms obj size_member_less by (fastforce simp: sorted_members_def)
    ultimately show ?thesis
      using members_unique [of "sorted_members kvs" path ps "sorted_members kws" path' qs r t] eq obj
      by (simp add: norm_members_def)
  qed
qed

lemma uniq_readable_all: "uniq_readable v"
  by (induction v rule: measure_induct_rule [of size]) (rule uniq_readable_step)

lemma canonicalize_norm_eq:
  assumes "canonicalize v = Inr s" "canonicalize w = Inr s"
  shows "norm v = norm w"
  using uniq_readableD [OF uniq_readable_all, of v _ s w _ s "[]" "[]"] assms
  by (simp add: canonicalize_def)

end
