(* ===== verification/CanonicalBytes.thy ===== *)
theory CanonicalBytes
  imports CanonicalInj
begin

text \<open>
  From canonical text to signed bytes.  A canonical text is well-formed Unicode, UTF-8 is
  injective on well-formed text, so the bytes determine the value up to \<open>norm\<close>; and the bytes
  do not depend on the order in which an object's members were written.
\<close>

subsection \<open>Code points determine a well-formed string\<close>

definition point_units :: "nat \<Rightarrow> jstr" where
  "point_units p = (if p < 0x10000 then [of_nat p]
     else [of_nat (0xD800 + (p - 0x10000) div 0x400), of_nat (0xDC00 + (p - 0x10000) mod 0x400)])"

lemma is_high_unat: "is_high c \<longleftrightarrow> 0xD800 \<le> unat c \<and> unat c \<le> 0xDBFF"
  by (simp add: is_high_def word_le_nat_alt)

lemma is_low_unat: "is_low c \<longleftrightarrow> 0xDC00 \<le> unat c \<and> unat c \<le> 0xDFFF"
  by (simp add: is_low_def word_le_nat_alt)

lemma high_not_low: "is_high c \<Longrightarrow> \<not> is_low c"
  by (simp add: is_high_unat is_low_unat)

lemma unit_bound: "unat (c :: cunit) < 65536"
  using unsigned_less [of c] by simp

lemma point_units_single: "point_units (unat c) = [c]"
  using unit_bound [of c] by (simp add: point_units_def)

lemma point_units_pair:
  assumes "is_high c" "is_low d"
  shows "point_units (0x10000 + (unat c - 0xD800) * 0x400 + (unat d - 0xDC00)) = [c, d]"
proof -
  have d: "unat d - 0xDC00 < 0x400" using assms(2) by (auto simp: is_low_unat)
  define a where "a = unat c - 0xD800"
  define b where "b = unat d - 0xDC00"
  have ab: "unat c = 0xD800 + a" "unat d = 0xDC00 + b" "b < 0x400"
    using assms d by (auto simp: a_def b_def is_high_unat is_low_unat)
  have "point_units (0x10000 + a * 0x400 + b) = [of_nat (0xD800 + a), of_nat (0xDC00 + b)]"
    using ab(3) by (simp add: point_units_def)
  also have "\<dots> = [of_nat (unat c), of_nat (unat d)]" by (simp only: ab)
  also have "\<dots> = [c, d]" by simp
  finally show ?thesis by (simp only: a_def b_def)
qed

lemma code_points_inverse:
  "\<not> lone_from False s \<Longrightarrow> concat (map point_units (code_points s)) = s"
proof (induction s rule: code_points.induct)
  case (3 c d ds)
  show ?case
  proof (cases "is_high c \<and> is_low d")
    case True
    then have "\<not> is_high d" using high_not_low by blast
    with 3 True show ?thesis by (simp add: point_units_pair)
  next
    case False
    with 3 have "\<not> is_high c" "\<not> is_low c" "\<not> lone_from False (d # ds)" by auto
    with 3(2) show ?thesis by (simp add: point_units_single)
  qed
qed (auto simp: point_units_single)

lemma code_points_bound: "p \<in> set (code_points s) \<Longrightarrow> p < 0x110000"
proof (induction s rule: code_points.induct)
  case (2 c)
  then show ?case using unit_bound [of c] by (auto split: if_splits)
next
  case (3 c d ds)
  show ?case
  proof (cases "is_high c \<and> is_low d")
    case True
    with 3(1,3) show ?thesis by (auto simp: is_high_unat is_low_unat)
  next
    case False
    with 3(2,3) unit_bound [of c] show ?thesis by (auto split: if_splits)
  qed
qed simp

subsection \<open>UTF-8 is uniquely readable\<close>

lemma byte_eq: "a < 256 \<Longrightarrow> b < 256 \<Longrightarrow> (of_nat a :: byte) = of_nat b \<longleftrightarrow> a = b"
  by (metis unat_small_byte)

lemma utf8_shape:
  assumes "p < 0x110000"
  obtains (one) "p < 0x80" "utf8_point p = map of_nat [p]"
  | (two) "0x80 \<le> p" "p < 0x800" "utf8_point p = map of_nat [0xC0 + p div 64, 0x80 + p mod 64]"
      "p div 64 < 32"
  | (three) "0x800 \<le> p" "p < 0x10000" "p div 4096 < 16"
      "utf8_point p = map of_nat [0xE0 + p div 4096, 0x80 + p div 64 mod 64, 0x80 + p mod 64]"
  | (four) "0x10000 \<le> p" "p div 262144 < 8" "utf8_point p = map of_nat
        [0xF0 + p div 262144, 0x80 + p div 4096 mod 64, 0x80 + p div 64 mod 64, 0x80 + p mod 64]"
  using assms by (cases "p < 0x80"; cases "p < 0x800"; cases "p < 0x10000") (auto simp: utf8_point_def)

lemma divs_determine:
  fixes p q :: nat
  assumes "p mod 64 = q mod 64" "p div 64 mod 64 = q div 64 mod 64" "p div 4096 = q div 4096"
  shows "p = q"
proof -
  have "p div 64 div 64 = q div 64 div 64" using assms(3) by (simp add: div_mult2_eq [symmetric])
  with assms(2) have "p div 64 = q div 64" by (metis div_mult_mod_eq)
  with assms(1) show ?thesis by (metis div_mult_mod_eq)
qed

lemma divs_determine4:
  fixes p q :: nat
  assumes "p mod 64 = q mod 64" "p div 64 mod 64 = q div 64 mod 64"
    "p div 4096 mod 64 = q div 4096 mod 64" "p div 262144 = q div 262144"
  shows "p = q"
proof (rule divs_determine [OF assms(1,2)])
  have "p div 4096 div 64 = q div 4096 div 64" using assms(4) by (simp add: div_mult2_eq [symmetric])
  with assms(3) show "p div 4096 = q div 4096" by (metis div_mult_mod_eq)
qed

lemma utf8_prefix_unique:
  assumes "p < 0x110000" "q < 0x110000" "utf8_point p @ r = utf8_point q @ t"
  shows "p = q \<and> r = t"
proof -
  have m: "(x :: nat) mod 64 < 64" for x by simp
  show ?thesis
    using assms(1)
  proof (cases rule: utf8_shape)
    case one
    from assms(2) show ?thesis
      by (cases rule: utf8_shape) (use one assms(3) in \<open>simp_all add: byte_eq del: of_nat_add of_nat_numeral\<close>)
  next
    case two
    from assms(2) show ?thesis
    proof (cases rule: utf8_shape)
      case (two)
      with \<open>p div 64 < 32\<close> \<open>utf8_point p = _\<close> assms(3) m [of p] m [of q]
      have "p div 64 = q div 64 \<and> p mod 64 = q mod 64 \<and> r = t"
        by (simp add: byte_eq del: of_nat_add of_nat_numeral)
      then show ?thesis by (metis div_mult_mod_eq)
    qed (use two assms(3) in \<open>simp_all add: byte_eq del: of_nat_add of_nat_numeral\<close>)
  next
    case three
    from assms(2) show ?thesis
    proof (cases rule: utf8_shape)
      case (three)
      with \<open>p div 4096 < 16\<close> \<open>utf8_point p = _\<close> assms(3) m [of p] m [of q] m [of "p div 64"] m [of "q div 64"]
      have "p mod 64 = q mod 64 \<and> p div 64 mod 64 = q div 64 mod 64 \<and> p div 4096 = q div 4096 \<and> r = t"
        by (simp add: byte_eq del: of_nat_add of_nat_numeral)
      then show ?thesis using divs_determine by blast
    qed (use three assms(3) in \<open>simp_all add: byte_eq del: of_nat_add of_nat_numeral\<close>)
  next
    case four
    from assms(2) show ?thesis
    proof (cases rule: utf8_shape)
      case (four)
      with \<open>p div 262144 < 8\<close> \<open>utf8_point p = _\<close> assms(3) m [of p] m [of q] m [of "p div 64"] m [of "q div 64"]
        m [of "p div 4096"] m [of "q div 4096"]
      have "p mod 64 = q mod 64 \<and> p div 64 mod 64 = q div 64 mod 64 \<and>
          p div 4096 mod 64 = q div 4096 mod 64 \<and> p div 262144 = q div 262144 \<and> r = t"
        by (simp add: byte_eq del: of_nat_add of_nat_numeral)
      then show ?thesis using divs_determine4 by blast
    qed (use four assms(3) in \<open>simp_all add: byte_eq del: of_nat_add of_nat_numeral\<close>)
  qed
qed

lemma utf8_points_inj:
  "(\<forall>p \<in> set ps. p < 0x110000) \<Longrightarrow> (\<forall>q \<in> set qs. q < 0x110000) \<Longrightarrow>
   concat (map utf8_point ps) = concat (map utf8_point qs) \<Longrightarrow> ps = qs"
proof (induction ps arbitrary: qs)
  case Nil
  then show ?case by (cases qs) (auto simp: utf8_point_def split: if_splits)
next
  case (Cons p ps)
  then obtain q qs' where qs: "qs = q # qs'"
    by (cases qs) (auto simp: utf8_point_def split: if_splits)
  with Cons.prems have "utf8_point p @ concat (map utf8_point ps) = utf8_point q @ concat (map utf8_point qs')"
    by simp
  moreover have "p < 0x110000" "q < 0x110000" using Cons.prems(1,2) qs by (simp_all only: list.set_intros ball_simps)
  ultimately have pq: "p = q" "concat (map utf8_point ps) = concat (map utf8_point qs')"
    using utf8_prefix_unique by blast+
  have "ps = qs'" using Cons.prems(1,2) qs by (intro Cons.IH pq(2)) simp_all
  with pq(1) qs show ?case by simp
qed

lemma utf8_encode_inj:
  assumes "\<not> lone_surrogate s" "\<not> lone_surrogate t" "utf8_encode s = utf8_encode t"
  shows "s = t"
proof -
  have "code_points s = code_points t"
  proof (rule utf8_points_inj)
    show "\<forall>p \<in> set (code_points s). p < 0x110000" "\<forall>p \<in> set (code_points t). p < 0x110000"
      using code_points_bound by blast+
    show "concat (map utf8_point (code_points s)) = concat (map utf8_point (code_points t))"
      using assms(3) by (simp only: utf8_encode_def)
  qed
  moreover have "concat (map point_units (code_points s)) = s" "concat (map point_units (code_points t)) = t"
    using assms(1,2) by (simp_all add: lone_surrogate_def code_points_inverse)
  ultimately show ?thesis by metis
qed

subsection \<open>Canonical texts are well-formed Unicode\<close>

definition plain :: "cunit \<Rightarrow> bool" where
  "plain c \<longleftrightarrow> \<not> is_high c \<and> \<not> is_low c"

lemma lone_append:
  "\<not> lone_from p a \<Longrightarrow> a \<noteq> [] \<Longrightarrow> lone_from p (a @ b) \<longleftrightarrow> lone_from False b"
proof (induction a arbitrary: p)
  case (Cons c a)
  show ?case
  proof (cases a)
    case Nil
    with Cons.prems show ?thesis by auto
  next
    case (Cons d a')
    with Cons.prems(1) have "\<not> lone_from (is_high c) a" by simp
    then have IH: "lone_from (is_high c) (a @ b) = lone_from False b"
      using Cons by (intro Cons.IH) simp_all
    from Cons have "lone_from p ((c # a) @ b) \<longleftrightarrow>
        is_high c \<and> \<not> is_low d \<or> is_low c \<and> \<not> p \<or> lone_from (is_high c) (a @ b)" by simp
    with IH Cons.prems(1) Cons show ?thesis by auto
  qed
qed simp

lemma wellformed_append:
  "\<not> lone_surrogate a \<Longrightarrow> \<not> lone_surrogate b \<Longrightarrow> \<not> lone_surrogate (a @ b)"
  using lone_append [of False a b] by (cases "a = []") (auto simp: lone_surrogate_def)

lemma plain_prefix: "\<forall>c \<in> set a. plain c \<Longrightarrow> a \<noteq> [] \<Longrightarrow> lone_from p (a @ b) \<longleftrightarrow> lone_from False b"
proof (induction a arbitrary: p)
  case (Cons c a)
  then have c: "\<not> is_high c" "\<not> is_low c" by (simp_all add: plain_def)
  show ?case
  proof (cases "a = []")
    case True
    with c show ?thesis by simp
  next
    case False
    with Cons c show ?thesis by simp
  qed
qed simp

lemma wellformed_plain: "\<forall>c \<in> set a. plain c \<Longrightarrow> \<not> lone_surrogate a"
  using plain_prefix [of a False "[]"] by (cases "a = []") (simp_all add: lone_surrogate_def)

lemma plain_ascii: "unat c < 128 \<Longrightarrow> plain c"
  by (simp add: plain_def is_high_unat is_low_unat)

lemma escape_cases:
  "json_escape c = [c] \<or> (plain c \<and> (\<forall>d \<in> set (json_escape c). plain d) \<and> json_escape c \<noteq> [])"
proof (cases "json_escape c = [c]")
  case False
  have h: "unat (hex_char d) < 128" if "d < 16" for d
    using that by (auto simp: hex_char_def unat_word_ariths)
  from False have u: "c = 0x22 \<or> c = 0x5c \<or> unat c < 32"
    by (auto simp: json_escape_def word_less_nat_alt split: if_splits)
  then have c: "plain c" by (auto intro!: plain_ascii)
  have "\<forall>d \<in> set (json_escape c). plain d"
    using u by (auto simp: json_escape_def js_def h intro!: plain_ascii split: if_splits)
  then show ?thesis using c by (auto simp: json_escape_def js_def)
qed simp

lemma low_head_escapes:
  "(case concat (map json_escape s) @ 0x22 # r of [] \<Rightarrow> True | d # _ \<Rightarrow> \<not> is_low d) \<longleftrightarrow>
   (case s of [] \<Rightarrow> True | d # _ \<Rightarrow> \<not> is_low d)"
proof (cases s)
  case Nil
  then show ?thesis by (simp add: is_low_unat)
next
  case (Cons d s')
  from escape_cases [of d] show ?thesis
  proof
    assume "json_escape d = [d]"
    with Cons show ?thesis by simp
  next
    assume d: "plain d \<and> (\<forall>x \<in> set (json_escape d). plain x) \<and> json_escape d \<noteq> []"
    then obtain x xs where "json_escape d = x # xs" by (cases "json_escape d") auto
    with d Cons show ?thesis by (simp add: plain_def)
  qed
qed

lemma lone_escapes:
  "\<not> lone_from p s \<Longrightarrow> \<not> lone_from False r \<Longrightarrow> \<not> lone_from p (concat (map json_escape s) @ 0x22 # r)"
proof (induction s arbitrary: p)
  case Nil
  then show ?case by (simp add: is_high_unat is_low_unat)
next
  case (Cons c s)
  from escape_cases [of c] show ?case
  proof
    assume "json_escape c = [c]"
    moreover have "\<not> lone_from (is_high c) (concat (map json_escape s) @ 0x22 # r)"
      using Cons by simp
    moreover have "is_high c \<Longrightarrow> (case s of [] \<Rightarrow> False | d # _ \<Rightarrow> is_low d)"
      using Cons.prems(1) by (auto split: list.splits)
    ultimately show ?thesis using Cons.prems(1) low_head_escapes [of s r]
      by (auto split: list.splits)
  next
    assume c: "plain c \<and> (\<forall>d \<in> set (json_escape c). plain d) \<and> json_escape c \<noteq> []"
    with Cons.prems(1) have "\<not> lone_from False s" by (simp add: plain_def)
    with Cons c show ?thesis by (simp add: plain_prefix)
  qed
qed

lemma wellformed_quote: "\<not> lone_surrogate s \<Longrightarrow> \<not> lone_surrogate (json_quote s)"
  using lone_escapes [of False s "[]"]
  by (simp add: lone_surrogate_def json_quote_def is_high_unat is_low_unat)

lemma wellformed_num: "checkNumber n p = Inr () \<Longrightarrow> \<not> lone_surrogate (num_text n)"
proof (rule wellformed_plain, rule ballI)
  fix c assume n: "checkNumber n p = Inr ()" and c: "c \<in> set (num_text n)"
  have d: "is_digit c \<Longrightarrow> plain c" by (rule plain_ascii) (simp add: is_digit_unat)
  have m: "c = 0x2d \<Longrightarrow> plain c" by (rule plain_ascii) simp
  from n c show "plain c"
    by (cases n) (auto simp: num_text_def int_str_def js_def intro: d m plain_ascii dest!: nat_str_digits split: if_splits)
qed

lemma wellformed_join: "(\<forall>p \<in> set ps. \<not> lone_surrogate p) \<Longrightarrow> \<not> lone_surrogate (join_comma ps)"
proof (induction ps rule: join_comma.induct)
  case (3 p q ps)
  have "\<not> lone_surrogate [0x2c]" by (rule wellformed_plain) (simp add: plain_ascii)
  moreover have "\<not> lone_surrogate (join_comma (q # ps))" using 3 by simp
  ultimately have "\<not> lone_surrogate ([0x2c] @ join_comma (q # ps))" by (rule wellformed_append)
  then have "\<not> lone_surrogate (p @ [0x2c] @ join_comma (q # ps))"
    using 3(2) by (intro wellformed_append [of p]) simp_all
  then show ?case by simp
qed (simp_all add: lone_surrogate_def)

lemma wellformed_bracket:
  "plain a \<Longrightarrow> plain b \<Longrightarrow> \<not> lone_surrogate s \<Longrightarrow> \<not> lone_surrogate (a # s @ [b])"
  using wellformed_append [of "[a]" "s @ [b]"] wellformed_append [of s "[b]"]
    wellformed_plain [of "[a]"] wellformed_plain [of "[b]"] by simp

lemma wellformed_serialize:
  shows "serialize v path = Inr s \<Longrightarrow> \<not> lone_surrogate s"
    and "serialize_items vs path i = Inr ps \<Longrightarrow> \<forall>p \<in> set ps. \<not> lone_surrogate p"
    and "serialize_members kvs path = Inr ps \<Longrightarrow> \<forall>p \<in> set ps. \<not> lone_surrogate p"
proof (induction v path and vs path i and kvs path arbitrary: s and ps and ps
    rule: serialize_serialize_items_serialize_members.induct)
  case (13 k v kvs path)
  from "13.prems" obtain p ps' where p: "checkString k (key_path path k) = Inr ()" "checkName k (key_path path k) = Inr ()"
      "serialize v (key_path path k) = Inr p"
      "serialize_members kvs path = Inr ps'" "ps = (json_quote k @ 0x3a # p) # ps'"
    by (auto simp: ok_iff)
  have "\<not> lone_surrogate (json_quote k)"
    by (rule wellformed_quote) (use p(1) in \<open>simp add: checkString_def ok_iff\<close>)
  moreover have "\<not> lone_surrogate (0x3a # p)"
    using wellformed_append [of "[0x3a]" p] "13.IH"(1) p(1-3) by (simp add: wellformed_plain plain_ascii)
  ultimately have "\<not> lone_surrogate (json_quote k @ 0x3a # p)" by (rule wellformed_append)
  moreover have "\<forall>q \<in> set ps'. \<not> lone_surrogate q" using "13.IH"(2) p by simp
  ultimately show ?case using p(5) by simp
next
  case (3 b path)
  then show ?case by (auto simp: js_def jc_def intro!: wellformed_plain plain_ascii split: if_splits)
next
  case (7 vs path)
  then obtain ps where "s = 0x5b # join_comma ps @ [0x5d]" "\<not> lone_surrogate (join_comma ps)"
    by (auto simp: ok_iff wellformed_join)
  then show ?case by (simp add: wellformed_bracket plain_ascii)
next
  case (8 kvs path)
  then obtain ps where "s = 0x7b # join_comma ps @ [0x7d]" "\<not> lone_surrogate (join_comma ps)"
    by (auto simp: ok_iff wellformed_join)
  then show ?case by (simp add: wellformed_bracket plain_ascii)
next
  case (11 v vs path i)
  then show ?case by (auto simp: ok_iff)
qed (auto simp: ok_iff js_def jc_def checkString_def wellformed_num wellformed_quote
    intro!: wellformed_plain plain_ascii)

lemma canonicalize_wellformed: "canonicalize v = Inr s \<Longrightarrow> \<not> lone_surrogate s"
  unfolding canonicalize_def by (rule wellformed_serialize(1))

subsection \<open>\<open>norm\<close> is what the text depends on\<close>

lemma norm_not_undef: "norm v \<noteq> JUndef"
  by (cases v rule: norm.cases) auto

lemma sorted_members_sorted: "sorted (map fst (sorted_members kvs))"
  by (simp add: sorted_members_def)

lemma fst_norm_members [simp]: "map fst (norm_members kvs) = map fst kvs"
  by (simp add: norm_members_def comp_def)

lemma sorted_members_id:
  "sorted (map fst kvs) \<Longrightarrow> (\<forall>kv \<in> set kvs. snd kv \<noteq> JUndef) \<Longrightarrow> sorted_members kvs = kvs"
  by (simp add: sorted_members_def filter_id_conv [THEN iffD2] sort_key_id_if_sorted)

lemma sorted_members_norm: "sorted_members (norm_members (sorted_members kvs)) = norm_members (sorted_members kvs)"
  by (rule sorted_members_id, simp add: sorted_members_sorted)
    (auto simp: norm_members_def norm_not_undef)

lemma serialize_norm:
  shows "serialize (norm v) path = serialize v path"
    and "serialize_items (map norm vs) path i = serialize_items vs path i"
    and "serialize_members (norm_members kvs) path = serialize_members kvs path"
proof (induction v path and vs path i and kvs path
    rule: serialize_serialize_items_serialize_members.induct)
  case (4 n path)
  then show ?case by (cases n) (simp_all add: num_norm_def num_text_def js_def jc_def int_str_def nat_str_def MAX_SAFE_def)
next
  case (8 kvs path)
  have "norm (JObj kvs) = JObj (norm_members (sorted_members kvs))"
    by (simp add: norm_members_def)
  with 8 show ?case by (simp add: sorted_members_norm del: norm.simps)
next
  case (13 k v kvs path)
  then show ?case
    by (cases "checkString k (key_path path k)"; cases "checkName k (key_path path k)";
        cases "serialize v (key_path path k)") (auto simp: norm_members_def)
next
  case (11 v vs path i)
  then show ?case by (cases "serialize v (idx_path path i)") simp_all
qed (simp_all add: norm_members_def)

lemma canonicalize_norm: "canonicalize (norm v) = canonicalize v"
  by (simp add: canonicalize_def serialize_norm)

lemma canonicalBytes_norm: "canonicalBytes (norm v) = canonicalBytes v"
  by (simp add: canonicalBytes_def canonicalize_norm)

lemma sorted_members_perm:
  assumes "mset kvs = mset kws" "distinct (map fst kvs)"
  shows "sorted_members kvs = sorted_members kws"
proof -
  define x where "x = sort_key fst (filter (\<lambda>kv. snd kv \<noteq> JUndef) kvs)"
  define y where "y = sort_key fst (filter (\<lambda>kv. snd kv \<noteq> JUndef) kws)"
  have m: "mset x = mset y" using assms(1) by (simp add: x_def y_def)
  then have s: "set x = set y" by (rule mset_eq_setD)
  have "mset (map fst (filter (\<lambda>kv. snd kv \<noteq> JUndef) kvs)) = mset (map fst x)"
    by (simp add: x_def)
  moreover have "distinct (map fst (filter (\<lambda>kv. snd kv \<noteq> JUndef) kvs))"
    using assms(2) by (rule distinct_map_filter)
  ultimately have dx: "distinct (map fst x)" using mset_eq_imp_distinct_iff by blast
  have "mset (map fst x) = mset (map fst y)" using m by simp
  then have dy: "distinct (map fst y)" using dx mset_eq_imp_distinct_iff by blast
  have "inj_on fst (set x \<union> set y)" using dx s by (simp add: distinct_map)
  moreover have "sorted (map fst x)" "sorted (map fst y)" by (simp_all add: x_def y_def)
  ultimately have "x = y" using dx dy s by (intro map_sorted_distinct_set_unique)
  then show ?thesis by (simp add: sorted_members_def x_def y_def)
qed

subsection \<open>What the signed bytes determine\<close>

lemma canonicalBytes_ok: "canonicalBytes v = Inr b \<longleftrightarrow> (\<exists>s. canonicalize v = Inr s \<and> b = utf8_encode s)"
  by (auto simp: canonicalBytes_def ok_iff)

lemma canonicalBytes_eq_iff:
  assumes "canonicalBytes v = Inr b"
  shows "canonicalBytes w = Inr b \<longleftrightarrow> norm v = norm w"
proof
  assume "canonicalBytes w = Inr b"
  with assms obtain s t where st: "canonicalize v = Inr s" "canonicalize w = Inr t"
      "b = utf8_encode s" "b = utf8_encode t"
    by (auto simp: canonicalBytes_ok)
  have "s = t"
    by (rule utf8_encode_inj [OF canonicalize_wellformed [OF st(1)] canonicalize_wellformed [OF st(2)]])
      (use st(3,4) in simp)
  with st(1,2) show "norm v = norm w" using canonicalize_norm_eq [of v s w] by simp
next
  assume "norm v = norm w"
  then show "canonicalBytes w = Inr b" using assms canonicalBytes_norm [of v] canonicalBytes_norm [of w] by simp
qed

text \<open>C1. Two values have the same canonical bytes exactly when they agree up to member order, members
  that are undefined, undefined against null, and the sign of zero; so a signature fixes the content.\<close>

theorem canonicalBytes_injective:
  assumes "canonicalBytes v = Inr b"
  shows "canonicalBytes w = Inr b \<longleftrightarrow> norm v = norm w"
  using assms by (rule canonicalBytes_eq_iff)

lemma canonicalBytes_injective_witness:
  "canonicalBytes (JArr [JNull, JNum JNegZero]) = Inr [0x5b, 0x6e, 0x75, 0x6c, 0x6c, 0x2c, 0x30, 0x5d]"
proof -
  have "canonicalBytes (JArr [JUndef, JNum (JInt 0)]) = Inr [0x5b, 0x6e, 0x75, 0x6c, 0x6c, 0x2c, 0x30, 0x5d]"
    by (simp add: canonicalBytes_def canonicalize_def num_text_def int_str_def nat_str_def MAX_SAFE_def js_def
        jc_def utf8_encode_def is_high_def is_low_def, simp add: utf8_point_def)
  from canonicalBytes_injective [OF this] show ?thesis by (simp add: num_norm_def)
qed

text \<open>Canonicalisation does not depend on the order in which an object was built: permuting the members of
  an object gives the same bytes, or the same error.\<close>

theorem canonicalBytes_member_order:
  assumes "mset kvs = mset kws" "distinct (map fst kvs)"
  shows "canonicalBytes (JObj kvs) = canonicalBytes (JObj kws)"
  using sorted_members_perm [OF assms] by (simp add: canonicalBytes_def canonicalize_def)

lemma canonicalBytes_member_order_witness:
  "canonicalBytes (JObj [(js ''b'', JNull), (js ''a'', JNull)]) = canonicalBytes (JObj [(js ''a'', JNull), (js ''b'', JNull)])"
  by (rule canonicalBytes_member_order) simp_all

end
