(* ===== verification/SafeJson.thy ===== *)
theory SafeJson
  imports CanonicalBytes
begin

text \<open>
  \<^verbatim>\<open>sdk/src/safe-json.ts\<close>: the lexical guard that runs over raw text before \<open>JSON.parse\<close>, and its
  producer-side counterpart.  The loop over an index is a recursion over the rest of the text; the
  index is kept because it is part of the error.  A stack top is the head of a list.
\<close>

datatype unsafe_json_error =
    UnsafeMemberName nat
  | DuplicateMemberName jstr nat
  | NonIntegerNumber nat

abbreviation (input) QUOTE :: cunit where "QUOTE \<equiv> 0x22"
abbreviation (input) REVERSE_SOLIDUS :: cunit where "REVERSE_SOLIDUS \<equiv> 0x5c"
abbreviation (input) COMMA :: cunit where "COMMA \<equiv> 0x2c"
abbreviation (input) COLON :: cunit where "COLON \<equiv> 0x3a"
abbreviation (input) OPEN_OBJECT :: cunit where "OPEN_OBJECT \<equiv> 0x7b"
abbreviation (input) CLOSE_OBJECT :: cunit where "CLOSE_OBJECT \<equiv> 0x7d"
abbreviation (input) OPEN_ARRAY :: cunit where "OPEN_ARRAY \<equiv> 0x5b"
abbreviation (input) CLOSE_ARRAY :: cunit where "CLOSE_ARRAY \<equiv> 0x5d"
abbreviation (input) MINUS :: cunit where "MINUS \<equiv> 0x2d"
abbreviation (input) PLUS :: cunit where "PLUS \<equiv> 0x2b"

text \<open>
  The inner loop over a string: the text between the quotes, what follows the closing quote, and
  the index where the loop stopped.  An unterminated string stops at the end of the text.
\<close>

fun scan_string :: "bool \<Rightarrow> nat \<Rightarrow> jstr \<Rightarrow> unsafe_json_error + (jstr \<times> jstr \<times> nat)" where
  "scan_string isName j [] = Inr ([], [], j)"
| "scan_string isName j (d # r) =
     (if d = REVERSE_SOLIDUS then
        (if isName then Inl (UnsafeMemberName j)
         else (case r of
             [] \<Rightarrow> Inr ([d], [], j + 2)
           | e # r' \<Rightarrow> ebind (scan_string isName (j + 2) r') (\<lambda>(s, rest, k). Inr (d # e # s, rest, k))))
      else if d = QUOTE then Inr ([], r, j)
      else ebind (scan_string isName (j + 1) r) (\<lambda>(s, rest, k). Inr (d # s, rest, k)))"

definition num_start :: "cunit \<Rightarrow> bool" where
  "num_start c \<longleftrightarrow> c = MINUS \<or> is_digit c"

definition num_frac :: "cunit \<Rightarrow> bool" where
  "num_frac c \<longleftrightarrow> c = 0x2e \<or> c = 0x65 \<or> c = 0x45"

definition num_cont :: "cunit \<Rightarrow> bool" where
  "num_cont c \<longleftrightarrow> c = PLUS \<or> c = MINUS \<or> is_digit c"

text \<open>The inner loop over a number token that began at \<open>i\<close>.\<close>

fun scan_number :: "nat \<Rightarrow> nat \<Rightarrow> jstr \<Rightarrow> unsafe_json_error + (jstr \<times> nat)" where
  "scan_number i j [] = Inr ([], j)"
| "scan_number i j (d # r) =
     (if num_frac d then Inl (NonIntegerNumber i)
      else if num_cont d then scan_number i (j + 1) r
      else Inr (d # r, j))"

lemma scan_string_length:
  "scan_string isName j s = Inr (a, rest, k) \<Longrightarrow> length rest \<le> length s"
  by (induction isName j s arbitrary: a rest k rule: scan_string.induct)
    (fastforce simp: ok_iff split: if_splits list.splits)+

lemma scan_number_length: "scan_number i j s = Inr (rest, k) \<Longrightarrow> length rest \<le> length s"
  by (induction i j s rule: scan_number.induct) (auto split: if_splits)

text \<open>A member name is checked against the names its object already has, and added to them.\<close>

definition note_name :: "jstr \<Rightarrow> nat \<Rightarrow> jstr set option list \<Rightarrow> unsafe_json_error + jstr set option list" where
  "note_name name i names =
     (case names of
        Some seen # ns \<Rightarrow>
          if name \<in> seen then Inl (DuplicateMemberName name i) else Inr (Some (insert name seen) # ns)
      | _ \<Rightarrow> Inr names)"

function scan ::
  "bool \<Rightarrow> bool list \<Rightarrow> jstr set option list \<Rightarrow> bool \<Rightarrow> nat \<Rightarrow> jstr \<Rightarrow> unsafe_json_error + unit" where
  "scan integerNumbers objectContext names expectName i text =
     (case text of
        [] \<Rightarrow> Inr ()
      | c # r \<Rightarrow>
          if c = QUOTE then
            ebind (scan_string expectName (i + 1) r) (\<lambda>(name, rest, j).
            ebind (if expectName then note_name name i names else Inr names) (\<lambda>names'.
            scan integerNumbers objectContext names' False (j + 1) rest))
          else if c = OPEN_OBJECT then
            scan integerNumbers (True # objectContext) (Some {} # names) True (i + 1) r
          else if c = OPEN_ARRAY then
            scan integerNumbers (False # objectContext) (None # names) False (i + 1) r
          else if c = CLOSE_OBJECT \<or> c = CLOSE_ARRAY then
            scan integerNumbers (tl objectContext) (tl names) False (i + 1) r
          else if c = COMMA then
            scan integerNumbers objectContext names
              (case objectContext of [] \<Rightarrow> False | b # _ \<Rightarrow> b) (i + 1) r
          else if c = COLON then scan integerNumbers objectContext names False (i + 1) r
          else if integerNumbers \<and> num_start c then
            ebind (scan_number i (i + 1) r) (\<lambda>(rest, j).
            scan integerNumbers objectContext names expectName j rest)
          else scan integerNumbers objectContext names expectName (i + 1) r)"
  by pat_completeness auto
termination
  by (relation "measure (\<lambda>(_, _, _, _, _, text). length text)")
    (auto dest: scan_string_length scan_number_length)

declare scan.simps [simp del]

lemma scan_Nil [simp]: "scan opts ctx ns e i [] = Inr ()"
  by (subst scan.simps) simp

lemmas scan_Cons = scan.simps [of _ _ _ _ _ "_ # _", simplified]

definition assertSafeJsonText :: "bool \<Rightarrow> jstr \<Rightarrow> unsafe_json_error + unit" where
  "assertSafeJsonText integerNumbers text = scan integerNumbers [] [] False 0 text"

text \<open>\<open>parseUntrustedJson\<close>: the guard, then the platform's parser \<open>JSON_parse\<close>.\<close>

datatype parse_error = Unsafe unsafe_json_error | SyntaxError

definition parseUntrustedJson :: "(jstr \<Rightarrow> jval option) \<Rightarrow> bool \<Rightarrow> jstr \<Rightarrow> parse_error + jval" where
  "parseUntrustedJson JSON_parse integerNumbers text =
     (case assertSafeJsonText integerNumbers text of
        Inl e \<Rightarrow> Inl (Unsafe e)
      | Inr _ \<Rightarrow> (case JSON_parse text of None \<Rightarrow> Inl SyntaxError | Some v \<Rightarrow> Inr v))"

subsection \<open>Producer side\<close>

text \<open>
  \<open>assertSafeMemberNames\<close>: a stack of pending values, last pushed first.  Values are trees here, so
  the visited set of the code never skips anything.
\<close>

fun bad_unit_index :: "nat \<Rightarrow> jstr \<Rightarrow> nat option" where
  "bad_unit_index i [] = None"
| "bad_unit_index i (c # cs) = (if \<not> name_unit_ok c then Some i else bad_unit_index (Suc i) cs)"

fun check_names :: "members \<Rightarrow> jval list \<Rightarrow> (jstr \<times> nat) + jval list" where
  "check_names [] pending = Inr pending"
| "check_names ((name, v) # kvs) pending =
     (case bad_unit_index 0 name of
        Some i \<Rightarrow> Inl (name, i)
      | None \<Rightarrow> check_names kvs (v # pending))"

lemma check_names_Inr: "check_names kvs pending = Inr p \<Longrightarrow> p = rev (map snd kvs) @ pending"
  by (induction kvs pending rule: check_names.induct) (auto split: option.splits)

function (sequential) safe_names_loop :: "jval list \<Rightarrow> (jstr \<times> nat) + unit" where
  "safe_names_loop [] = Inr ()"
| "safe_names_loop (JArr vs # pending) = safe_names_loop (rev vs @ pending)"
| "safe_names_loop (JObj kvs # pending) = ebind (check_names kvs pending) safe_names_loop"
| "safe_names_loop (v # pending) = safe_names_loop pending"
  by pat_completeness auto
termination
proof (relation "measure (size_list size)", goal_cases)
  case (3 kvs pending p)
  then have "p = rev (map snd kvs) @ pending" by (rule check_names_Inr)
  moreover have "size_list size (map snd kvs) \<le> size_list (size_prod (\<lambda>_. 0) size) kvs"
    by (induction kvs) auto
  ultimately show ?case by simp
qed auto

definition assertSafeMemberNames :: "jval \<Rightarrow> (jstr \<times> nat) + unit" where
  "assertSafeMemberNames v = safe_names_loop [v]"

end
