(* ===== verification/SafeJsonSpec.thy ===== *)
theory SafeJsonSpec
  imports SafeJson
begin

text \<open>
  What the lexical guard decides.  \<open>cst\<close> is the concrete syntax of a JSON text: tokens as they
  are written, with any white space around values and names, and \<open>render\<close> writes it out.  On the
  text of such a tree the guard accepts exactly when no member name is written with a reverse
  solidus, no object repeats a name, and (on request) no number has a fraction or an exponent.
  Canonical texts are such texts, so nothing the SDK signs is refused by a receiver.
\<close>

datatype cst =
    CLit jstr
  | CNum jstr
  | CStr jstr
  | CArr "cst list"
  | CObj "(jstr \<times> jstr \<times> jstr \<times> cst) list"
  | CWs jstr cst jstr

fun render :: "cst \<Rightarrow> jstr" where
  "render (CLit s) = s"
| "render (CNum s) = s"
| "render (CStr s) = QUOTE # s @ [QUOTE]"
| "render (CArr ts) = OPEN_ARRAY # join_comma (map render ts) @ [CLOSE_ARRAY]"
| "render (CObj ms) = OPEN_OBJECT #
     join_comma (map (\<lambda>(w1, name, w2, t). w1 @ QUOTE # name @ QUOTE # w2 @ COLON # render t) ms) @
     [CLOSE_OBJECT]"
| "render (CWs w1 t w2) = w1 @ render t @ w2"

definition ws_unit :: "cunit \<Rightarrow> bool" where
  "ws_unit c \<longleftrightarrow> c \<in> {0x20, 0x09, 0x0a, 0x0d}"

definition lit_unit :: "cunit \<Rightarrow> bool" where
  "lit_unit c \<longleftrightarrow> 0x61 \<le> c \<and> c \<le> 0x7a"

text \<open>String content: no bare quotation mark, and every reverse solidus is followed by a unit.\<close>

fun raw_content :: "jstr \<Rightarrow> bool" where
  "raw_content [] = True"
| "raw_content [d] = (d \<noteq> REVERSE_SOLIDUS \<and> d \<noteq> QUOTE)"
| "raw_content (d # e # s) =
     (if d = REVERSE_SOLIDUS then raw_content s else d \<noteq> QUOTE \<and> raw_content (e # s))"

definition num_token :: "jstr \<Rightarrow> bool" where
  "num_token s \<longleftrightarrow> s \<noteq> [] \<and> num_start (hd s) \<and> (\<forall>c \<in> set s. num_cont c \<or> num_frac c)"

fun well_written :: "cst \<Rightarrow> bool" where
  "well_written (CLit s) = (s \<noteq> [] \<and> (\<forall>c \<in> set s. lit_unit c))"
| "well_written (CNum s) = num_token s"
| "well_written (CStr s) = raw_content s"
| "well_written (CArr ts) = (\<forall>t \<in> set ts. well_written t)"
| "well_written (CObj ms) = (\<forall>m \<in> set ms. (\<forall>c \<in> set (fst m). ws_unit c) \<and> raw_content (fst (snd m)) \<and>
     (\<forall>c \<in> set (fst (snd (snd m))). ws_unit c) \<and> well_written (snd (snd (snd m))))"
| "well_written (CWs w1 t w2) = ((\<forall>c \<in> set w1 \<union> set w2. ws_unit c) \<and> well_written t)"

fun guard_accepts :: "bool \<Rightarrow> cst \<Rightarrow> bool" where
  "guard_accepts ints (CLit s) = True"
| "guard_accepts ints (CNum s) = (ints \<longrightarrow> (\<forall>c \<in> set s. \<not> num_frac c))"
| "guard_accepts ints (CStr s) = True"
| "guard_accepts ints (CArr ts) = (\<forall>t \<in> set ts. guard_accepts ints t)"
| "guard_accepts ints (CObj ms) = (distinct (map (\<lambda>m. fst (snd m)) ms) \<and>
     (\<forall>m \<in> set ms. REVERSE_SOLIDUS \<notin> set (fst (snd m)) \<and> guard_accepts ints (snd (snd (snd m)))))"
| "guard_accepts ints (CWs w1 t w2) = guard_accepts ints t"

subsection \<open>One token\<close>

lemma scan_plain_unit:
  assumes "c \<notin> {QUOTE, OPEN_OBJECT, OPEN_ARRAY, CLOSE_OBJECT, CLOSE_ARRAY, COMMA, COLON}" "\<not> (opts \<and> num_start c)"
  shows "scan opts ctx ns e i (c # r) = scan opts ctx ns e (i + 1) r"
  using assms by (subst scan.simps) auto

lemma ws_unit_plain: "ws_unit c \<Longrightarrow>
    c \<notin> {QUOTE, OPEN_OBJECT, OPEN_ARRAY, CLOSE_OBJECT, CLOSE_ARRAY, COMMA, COLON} \<and> \<not> num_start c"
  by (auto simp: ws_unit_def num_start_def is_digit_def)

lemma lit_unit_plain: "lit_unit c \<Longrightarrow>
    c \<notin> {QUOTE, OPEN_OBJECT, OPEN_ARRAY, CLOSE_OBJECT, CLOSE_ARRAY, COMMA, COLON} \<and> \<not> num_start c"
  by (auto simp: lit_unit_def num_start_def is_digit_def word_le_nat_alt)

lemma num_unit_plain: "num_cont c \<or> num_frac c \<Longrightarrow>
    c \<notin> {QUOTE, OPEN_OBJECT, OPEN_ARRAY, CLOSE_OBJECT, CLOSE_ARRAY, COMMA, COLON}"
  by (auto simp: num_cont_def num_frac_def is_digit_def)

lemma scan_plain_list:
  "\<forall>c \<in> set s. c \<notin> {QUOTE, OPEN_OBJECT, OPEN_ARRAY, CLOSE_OBJECT, CLOSE_ARRAY, COMMA, COLON} \<and> \<not> (opts \<and> num_start c) \<Longrightarrow>
   scan opts ctx ns e i (s @ r) = scan opts ctx ns e (i + length s) r"
proof (induction s arbitrary: i)
  case (Cons c s)
  then have "scan opts ctx ns e i ((c # s) @ r) = scan opts ctx ns e (i + 1) (s @ r)"
    by (simp add: scan_plain_unit)
  also have "\<dots> = scan opts ctx ns e (i + 1 + length s) r" using Cons by (intro Cons.IH) simp
  finally show ?case by simp
qed simp

lemma scan_ws: "\<forall>c \<in> set w. ws_unit c \<Longrightarrow> scan opts ctx ns e i (w @ r) = scan opts ctx ns e (i + length w) r"
  using ws_unit_plain by (intro scan_plain_list) blast

lemma scan_lit: "\<forall>c \<in> set w. lit_unit c \<Longrightarrow> scan opts ctx ns e i (w @ r) = scan opts ctx ns e (i + length w) r"
  using lit_unit_plain by (intro scan_plain_list) blast

text \<open>What may follow a number: nothing, or a unit that is not part of a number token.\<close>

definition num_end :: "jstr \<Rightarrow> bool" where
  "num_end r \<longleftrightarrow> (case r of [] \<Rightarrow> True | c # _ \<Rightarrow> \<not> num_cont c \<and> \<not> num_frac c)"

lemma scan_number_token:
  "\<forall>c \<in> set s. num_cont c \<or> num_frac c \<Longrightarrow> num_end r \<Longrightarrow>
   (if \<forall>c \<in> set s. \<not> num_frac c then scan_number i j (s @ r) = Inr (r, j + length s)
    else scan_number i j (s @ r) = Inl (NonIntegerNumber i))"
proof (induction s arbitrary: j)
  case Nil
  then show ?case by (cases r) (auto simp: num_end_def)
next
  case (Cons c s)
  then show ?case by (cases "num_frac c") (auto split: if_splits)
qed

lemma scan_num:
  assumes "num_token s" "num_end r"
  shows "is_ok (scan opts ctx ns e i (s @ r)) \<longleftrightarrow>
     (opts \<longrightarrow> (\<forall>c \<in> set s. \<not> num_frac c)) \<and> is_ok (scan opts ctx ns e (i + length s) r)"
proof (cases opts)
  case False
  have "scan opts ctx ns e i (s @ r) = scan opts ctx ns e (i + length s) r"
    using assms(1) False num_unit_plain by (intro scan_plain_list) (auto simp: num_token_def)
  with False show ?thesis by simp
next
  case True
  from assms(1) obtain c s' where s: "s = c # s'" "num_start c" "\<forall>d \<in> set s. num_cont d \<or> num_frac d"
    by (cases s) (auto simp: num_token_def)
  have c: "\<not> num_frac c" using s(2) by (auto simp: num_start_def num_frac_def is_digit_def)
  have plain: "c \<notin> {QUOTE, OPEN_OBJECT, OPEN_ARRAY, CLOSE_OBJECT, CLOSE_ARRAY, COMMA, COLON}"
    using num_unit_plain [of c] s by auto
  have "scan opts ctx ns e i (s @ r) =
      ebind (scan_number i (i + 1) (s' @ r)) (\<lambda>(rest, j). scan opts ctx ns e j rest)"
    using plain s(2) True unfolding s(1) by (subst scan.simps) auto
  with scan_number_token [of s' r i "i + 1"] s assms(2) c True show ?thesis
    by (auto split: if_splits)
qed

lemma num_end_scan_sep: "sep r \<Longrightarrow> num_end r"
  by (cases r) (auto simp: sep_def num_end_def num_cont_def num_frac_def is_digit_def)

lemma scan_string_raw:
  "raw_content s \<Longrightarrow> scan_string False j (s @ QUOTE # r) = Inr (s, r, j + length s)"
  by (induction s arbitrary: j rule: raw_content.induct) (auto split: if_splits)

lemma scan_string_name:
  "raw_content s \<Longrightarrow>
   (if REVERSE_SOLIDUS \<in> set s then \<exists>k. scan_string True j (s @ QUOTE # r) = Inl (UnsafeMemberName k)
    else scan_string True j (s @ QUOTE # r) = Inr (s, r, j + length s))"
proof (induction s arbitrary: j rule: raw_content.induct)
  case (3 d e s)
  show ?case
  proof (cases "d = REVERSE_SOLIDUS")
    case False
    with 3 have d: "d \<noteq> QUOTE" "raw_content (e # s)" by auto
    have step: "scan_string True j ((d # e # s) @ QUOTE # r) =
        ebind (scan_string True (j + 1) ((e # s) @ QUOTE # r)) (\<lambda>(s, rest, k). Inr (d # s, rest, k))"
      using False d(1) by (simp only: append_Cons scan_string.simps) simp
    from 3(2) [OF False d(2), of "j + 1"] False show ?thesis
      unfolding step by (auto split: if_splits simp del: scan_string.simps)
  qed simp
qed auto

lemma scan_value_string:
  "raw_content s \<Longrightarrow> scan opts ctx ns False i (QUOTE # s @ QUOTE # r) = scan opts ctx ns False (i + length s + 2) r"
  by (subst scan.simps) (simp add: scan_string_raw)

lemma scan_name:
  assumes "raw_content s" "REVERSE_SOLIDUS \<notin> set s" "s \<notin> seen"
  shows "scan opts ctx (Some seen # ns) True i (QUOTE # s @ QUOTE # r) =
    scan opts ctx (Some (insert s seen) # ns) False (i + length s + 2) r"
  using scan_string_name [OF assms(1), of "i + 1" r] assms(2,3)
  by (subst scan.simps) (simp add: note_name_def)

lemma scan_name_bad:
  assumes "raw_content s" "REVERSE_SOLIDUS \<in> set s \<or> s \<in> seen"
  shows "\<not> is_ok (scan opts ctx (Some seen # ns) True i (QUOTE # s @ QUOTE # r))"
  using scan_string_name [OF assms(1), of "i + 1" r] assms(2)
  by (subst scan.simps) (auto simp: note_name_def split: if_splits)

lemma scan_open_array: "scan opts ctx ns e i (OPEN_ARRAY # r) = scan opts (False # ctx) (None # ns) False (i + 1) r"
  by (subst scan.simps) simp
lemma scan_open_object: "scan opts ctx ns e i (OPEN_OBJECT # r) = scan opts (True # ctx) (Some {} # ns) True (i + 1) r"
  by (subst scan.simps) simp
lemma scan_close_array: "scan opts (b # ctx) (x # ns) e i (CLOSE_ARRAY # r) = scan opts ctx ns False (i + 1) r"
  by (subst scan.simps) simp
lemma scan_close_object: "scan opts (b # ctx) (x # ns) e i (CLOSE_OBJECT # r) = scan opts ctx ns False (i + 1) r"
  by (subst scan.simps) simp
lemma scan_comma: "scan opts (b # ctx) ns e i (COMMA # r) = scan opts (b # ctx) ns b (i + 1) r"
  by (subst scan.simps) simp
lemma scan_colon: "scan opts ctx ns e i (COLON # r) = scan opts ctx ns False (i + 1) r"
  by (subst scan.simps) simp

lemmas scan_tokens = scan_open_array scan_open_object scan_close_array scan_close_object scan_comma scan_colon

subsection \<open>Whole texts\<close>

lemma render_first:
  "well_written t \<Longrightarrow> \<exists>c s. render t = c # s \<and> c \<noteq> CLOSE_ARRAY \<and> c \<noteq> COMMA"
proof (induction t)
  case (CNum s)
  then show ?case by (cases s) (auto simp: num_token_def num_start_def is_digit_def)
next
  case (CLit s)
  then show ?case by (cases s) (auto simp: lit_unit_def word_le_nat_alt)
next
  case (CWs w1 t w2)
  then show ?case by (cases w1) (auto simp: ws_unit_def)
qed auto

definition accepts_in :: "cst \<Rightarrow> bool" where
  "accepts_in t \<longleftrightarrow> (well_written t \<longrightarrow> (\<forall>opts ctx ns i r. num_end r \<longrightarrow>
     is_ok (scan opts ctx ns False i (render t @ r)) \<longleftrightarrow>
     guard_accepts opts t \<and> is_ok (scan opts ctx ns False (i + length (render t)) r)))"

lemma accepts_inD:
  "accepts_in t \<Longrightarrow> well_written t \<Longrightarrow> num_end r \<Longrightarrow>
   is_ok (scan opts ctx ns False i (render t @ r)) \<longleftrightarrow>
   guard_accepts opts t \<and> is_ok (scan opts ctx ns False (i + length (render t)) r)"
  by (simp add: accepts_in_def)

text \<open>Items of an array from the second on, each after its comma, up to the closing bracket.\<close>

lemma num_end_commas: "num_end r \<Longrightarrow> num_end (commas ps r)"
  by (cases ps) (auto simp: num_end_def num_cont_def num_frac_def is_digit_def)

lemma scan_items:
  assumes "\<forall>t \<in> set ts. accepts_in t \<and> well_written t" "num_end r"
  shows "is_ok (scan opts (False # ctx) ns False i (commas (map render ts) (CLOSE_ARRAY # r))) \<longleftrightarrow>
    (\<forall>t \<in> set ts. guard_accepts opts t) \<and>
    is_ok (scan opts (False # ctx) ns False (i + length (commas (map render ts) [])) (CLOSE_ARRAY # r))"
  using assms
proof (induction ts arbitrary: i)
  case (Cons t ts)
  have e: "num_end (commas (map render ts) (CLOSE_ARRAY # r))"
    by (rule num_end_commas) (simp add: num_end_def num_cont_def num_frac_def is_digit_def)
  have "is_ok (scan opts (False # ctx) ns False i (commas (map render (t # ts)) (CLOSE_ARRAY # r))) \<longleftrightarrow>
      is_ok (scan opts (False # ctx) ns False (i + 1) (render t @ commas (map render ts) (CLOSE_ARRAY # r)))"
    by (simp add: scan_comma)
  also have "\<dots> \<longleftrightarrow> guard_accepts opts t \<and>
      is_ok (scan opts (False # ctx) ns False (i + 1 + length (render t)) (commas (map render ts) (CLOSE_ARRAY # r)))"
    using Cons.prems(1) e by (intro accepts_inD) auto
  also have "is_ok (scan opts (False # ctx) ns False (i + 1 + length (render t)) (commas (map render ts) (CLOSE_ARRAY # r))) \<longleftrightarrow>
      (\<forall>t \<in> set ts. guard_accepts opts t) \<and> is_ok (scan opts (False # ctx) ns False
        (i + 1 + length (render t) + length (commas (map render ts) [])) (CLOSE_ARRAY # r))"
    using Cons.prems by (intro Cons.IH) auto
  finally show ?case by (simp add: add.assoc)
qed simp

lemma length_join_comma: "length (join_comma (p # ps)) = length p + length (commas ps [])"
proof -
  have "length (join_comma (p # ps) @ []) = length (p @ commas ps [])"
    by (simp only: join_comma_Cons)
  then show ?thesis by simp
qed

lemma commas_append: "commas ps s @ r = commas ps (s @ r)"
  by (induction ps) (simp_all add: append_assoc)

lemma accepts_array:
  assumes "\<forall>t \<in> set ts. accepts_in t"
  shows "accepts_in (CArr ts)"
  unfolding accepts_in_def
proof (intro impI allI)
  fix opts ctx ns i r
  assume ww: "well_written (CArr ts)" and r: "num_end r"
  show "is_ok (scan opts ctx ns False i (render (CArr ts) @ r)) \<longleftrightarrow> guard_accepts opts (CArr ts) \<and>
      is_ok (scan opts ctx ns False (i + length (render (CArr ts))) r)"
  proof (cases ts)
    case Nil
    then show ?thesis by (simp add: scan_tokens)
  next
    case (Cons t ts')
    have e: "num_end (commas (map render ts') (CLOSE_ARRAY # r))"
      by (rule num_end_commas) (simp add: num_end_def num_cont_def num_frac_def is_digit_def)
    have "is_ok (scan opts ctx ns False i (render (CArr ts) @ r)) \<longleftrightarrow>
        is_ok (scan opts (False # ctx) (None # ns) False (i + 1)
          (render t @ commas (map render ts') (CLOSE_ARRAY # r)))"
      using Cons by (simp add: scan_open_array join_comma_Cons commas_append)
    also have "\<dots> \<longleftrightarrow> guard_accepts opts t \<and> is_ok (scan opts (False # ctx) (None # ns) False
        (i + 1 + length (render t)) (commas (map render ts') (CLOSE_ARRAY # r)))"
      using assms ww Cons e by (intro accepts_inD) auto
    also have "is_ok (scan opts (False # ctx) (None # ns) False
        (i + 1 + length (render t)) (commas (map render ts') (CLOSE_ARRAY # r))) \<longleftrightarrow>
        (\<forall>t \<in> set ts'. guard_accepts opts t) \<and> is_ok (scan opts (False # ctx) (None # ns) False
        (i + 1 + length (render t) + length (commas (map render ts') [])) (CLOSE_ARRAY # r))"
      using assms ww Cons r by (intro scan_items) auto
    finally show ?thesis using Cons by (simp add: scan_close_array length_join_comma add.assoc)
  qed
qed

definition render_member :: "jstr \<times> jstr \<times> jstr \<times> cst \<Rightarrow> jstr" where
  "render_member m = (case m of (w1, name, w2, t) \<Rightarrow> w1 @ QUOTE # name @ QUOTE # w2 @ COLON # render t)"

lemma render_CObj: "render (CObj ms) = OPEN_OBJECT # join_comma (map render_member ms) @ [CLOSE_OBJECT]"
  by (simp add: render_member_def [abs_def])

definition member_ok :: "jstr \<times> jstr \<times> jstr \<times> cst \<Rightarrow> bool" where
  "member_ok m \<longleftrightarrow> (\<forall>c \<in> set (fst m). ws_unit c) \<and> raw_content (fst (snd m)) \<and>
     (\<forall>c \<in> set (fst (snd (snd m))). ws_unit c) \<and> well_written (snd (snd (snd m))) \<and> accepts_in (snd (snd (snd m)))"

definition name_of :: "jstr \<times> jstr \<times> jstr \<times> cst \<Rightarrow> jstr" where
  "name_of m = fst (snd m)"

lemma scan_member:
  assumes "member_ok m" "num_end r"
  shows "is_ok (scan opts ctx (Some seen # ns) True i (render_member m @ r)) \<longleftrightarrow>
    REVERSE_SOLIDUS \<notin> set (name_of m) \<and> name_of m \<notin> seen \<and> guard_accepts opts (snd (snd (snd m))) \<and>
    is_ok (scan opts ctx (Some (insert (name_of m) seen) # ns) False (i + length (render_member m)) r)"
proof -
  obtain w1 name w2 t where m: "m = (w1, name, w2, t)" by (cases m)
  let ?r = "w2 @ COLON # render t @ r"
  have w: "scan opts ctx (Some seen # ns) True i (render_member m @ r) =
      scan opts ctx (Some seen # ns) True (i + length w1) (QUOTE # name @ QUOTE # ?r)"
    using assms(1) m by (simp add: render_member_def member_ok_def scan_ws)
  show ?thesis
  proof (cases "REVERSE_SOLIDUS \<in> set name \<or> name \<in> seen")
    case True
    then have "\<not> is_ok (scan opts ctx (Some seen # ns) True (i + length w1) (QUOTE # name @ QUOTE # ?r))"
      using assms(1) m by (intro scan_name_bad) (auto simp: member_ok_def)
    with True m w show ?thesis by (auto simp: name_of_def)
  next
    case False
    have raw: "raw_content name" using assms(1) m by (simp add: member_ok_def)
    have "scan opts ctx (Some seen # ns) True (i + length w1) (QUOTE # name @ QUOTE # ?r) =
        scan opts ctx (Some (insert name seen) # ns) False (i + length w1 + length name + 2) ?r"
      using False raw by (intro scan_name) auto
    also have "\<dots> = scan opts ctx (Some (insert name seen) # ns) False
        (i + length w1 + length name + 2 + length w2 + 1) (render t @ r)"
      using assms(1) m by (simp add: member_ok_def scan_ws scan_colon)
    finally have "is_ok (scan opts ctx (Some seen # ns) True i (render_member m @ r)) \<longleftrightarrow>
        guard_accepts opts t \<and> is_ok (scan opts ctx (Some (insert name seen) # ns) False
          (i + length w1 + length name + 2 + length w2 + 1 + length (render t)) r)"
      unfolding w using assms m by (simp add: member_ok_def accepts_inD)
    with False m show ?thesis by (simp add: name_of_def render_member_def add.assoc)
  qed
qed

lemma scan_members:
  assumes "\<forall>m \<in> set ms. member_ok m" "num_end r"
  shows "is_ok (scan opts (True # ctx) (Some seen # ns) False i (commas (map render_member ms) (CLOSE_OBJECT # r))) \<longleftrightarrow>
    distinct (map name_of ms) \<and> set (map name_of ms) \<inter> seen = {} \<and>
    (\<forall>m \<in> set ms. REVERSE_SOLIDUS \<notin> set (name_of m) \<and> guard_accepts opts (snd (snd (snd m)))) \<and>
    is_ok (scan opts ctx ns False (i + length (commas (map render_member ms) []) + 1) r)"
  using assms
proof (induction ms arbitrary: i seen)
  case Nil
  then show ?case by (simp add: scan_close_object)
next
  case (Cons m ms)
  have e: "num_end (commas (map render_member ms) (CLOSE_OBJECT # r))"
    by (rule num_end_commas) (simp add: num_end_def num_cont_def num_frac_def is_digit_def)
  have "is_ok (scan opts (True # ctx) (Some seen # ns) False i (commas (map render_member (m # ms)) (CLOSE_OBJECT # r))) \<longleftrightarrow>
      is_ok (scan opts (True # ctx) (Some seen # ns) True (i + 1)
        (render_member m @ commas (map render_member ms) (CLOSE_OBJECT # r)))"
    by (simp add: scan_comma)
  also have "\<dots> \<longleftrightarrow> REVERSE_SOLIDUS \<notin> set (name_of m) \<and> name_of m \<notin> seen \<and> guard_accepts opts (snd (snd (snd m))) \<and>
      is_ok (scan opts (True # ctx) (Some (insert (name_of m) seen) # ns) False (i + 1 + length (render_member m))
        (commas (map render_member ms) (CLOSE_OBJECT # r)))"
    using Cons.prems(1) e by (intro scan_member) auto
  also have "is_ok (scan opts (True # ctx) (Some (insert (name_of m) seen) # ns) False (i + 1 + length (render_member m))
        (commas (map render_member ms) (CLOSE_OBJECT # r))) \<longleftrightarrow>
      distinct (map name_of ms) \<and> set (map name_of ms) \<inter> insert (name_of m) seen = {} \<and>
      (\<forall>m \<in> set ms. REVERSE_SOLIDUS \<notin> set (name_of m) \<and> guard_accepts opts (snd (snd (snd m)))) \<and>
      is_ok (scan opts ctx ns False (i + 1 + length (render_member m) + length (commas (map render_member ms) []) + 1) r)"
    using Cons.prems by (intro Cons.IH) auto
  finally show ?case by (auto simp: add.assoc)
qed

lemma accepts_object:
  assumes "\<forall>m \<in> set ms. accepts_in (snd (snd (snd m)))"
  shows "accepts_in (CObj ms)"
  unfolding accepts_in_def
proof (intro impI allI)
  fix opts ctx ns i r
  assume ww: "well_written (CObj ms)" and r: "num_end r"
  have ok: "\<forall>m \<in> set ms. member_ok m" using assms ww by (auto simp: member_ok_def)
  have ga: "guard_accepts opts (CObj ms) \<longleftrightarrow> distinct (map name_of ms) \<and>
      (\<forall>m \<in> set ms. REVERSE_SOLIDUS \<notin> set (name_of m) \<and> guard_accepts opts (snd (snd (snd m))))"
    by (simp add: name_of_def [abs_def])
  show "is_ok (scan opts ctx ns False i (render (CObj ms) @ r)) \<longleftrightarrow> guard_accepts opts (CObj ms) \<and>
      is_ok (scan opts ctx ns False (i + length (render (CObj ms))) r)"
  proof (cases ms)
    case Nil
    then show ?thesis by (simp add: scan_tokens)
  next
    case (Cons m ms')
    have e: "num_end (commas (map render_member ms') (CLOSE_OBJECT # r))"
      by (rule num_end_commas) (simp add: num_end_def num_cont_def num_frac_def is_digit_def)
    have "is_ok (scan opts ctx ns False i (render (CObj ms) @ r)) \<longleftrightarrow>
        is_ok (scan opts (True # ctx) (Some {} # ns) True (i + 1)
          (render_member m @ commas (map render_member ms') (CLOSE_OBJECT # r)))"
      using Cons by (simp add: scan_open_object join_comma_Cons commas_append render_CObj del: render.simps)
    also have "\<dots> \<longleftrightarrow> REVERSE_SOLIDUS \<notin> set (name_of m) \<and> name_of m \<notin> {} \<and> guard_accepts opts (snd (snd (snd m))) \<and>
        is_ok (scan opts (True # ctx) (Some (insert (name_of m) {}) # ns) False (i + 1 + length (render_member m))
          (commas (map render_member ms') (CLOSE_OBJECT # r)))"
      using ok Cons e by (intro scan_member) auto
    also have "is_ok (scan opts (True # ctx) (Some (insert (name_of m) {}) # ns) False (i + 1 + length (render_member m))
          (commas (map render_member ms') (CLOSE_OBJECT # r))) \<longleftrightarrow>
        distinct (map name_of ms') \<and> set (map name_of ms') \<inter> insert (name_of m) {} = {} \<and>
        (\<forall>m \<in> set ms'. REVERSE_SOLIDUS \<notin> set (name_of m) \<and> guard_accepts opts (snd (snd (snd m)))) \<and>
        is_ok (scan opts ctx ns False (i + 1 + length (render_member m) + length (commas (map render_member ms') []) + 1) r)"
      using ok Cons r by (intro scan_members) auto
    finally show ?thesis unfolding ga using Cons
      by (auto simp: render_CObj length_join_comma add.assoc simp del: render.simps)
  qed
qed

lemma accepts_in_all: "accepts_in t"
proof (induction t)
  case (CLit s)
  then show ?case by (simp add: accepts_in_def scan_lit)
next
  case (CNum s)
  then show ?case by (simp add: accepts_in_def scan_num)
next
  case (CStr s)
  then show ?case by (simp add: accepts_in_def scan_value_string add.assoc)
next
  case (CArr ts)
  then show ?case by (intro accepts_array) auto
next
  case (CObj ms)
  have "accepts_in (snd (snd (snd m)))" if "m \<in> set ms" for m
    using CObj [of m "snd m" "snd (snd m)" "snd (snd (snd m))"] that
    by (cases m) (auto simp: prod_set_defs)
  then show ?case by (intro accepts_object) blast
next
  case (CWs w1 t w2)
  show ?case unfolding accepts_in_def
  proof (intro impI allI)
    fix opts ctx ns i r
    assume ww: "well_written (CWs w1 t w2)" and r: "num_end r"
    have e: "num_end (w2 @ r)"
      using ww r by (cases w2) (auto simp: num_end_def ws_unit_def num_cont_def num_frac_def is_digit_def)
    show "is_ok (scan opts ctx ns False i (render (CWs w1 t w2) @ r)) \<longleftrightarrow> guard_accepts opts (CWs w1 t w2) \<and>
        is_ok (scan opts ctx ns False (i + length (render (CWs w1 t w2))) r)"
      using ww e CWs by (auto simp: scan_ws accepts_inD add.assoc)
  qed
qed

lemma guard_characterisation:
  "well_written t \<Longrightarrow> is_ok (assertSafeJsonText opts (render t)) \<longleftrightarrow> guard_accepts opts t"
  using accepts_inD [OF accepts_in_all, of t "[]" opts "[]" "[]" 0]
  by (simp add: assertSafeJsonText_def num_end_def)

subsection \<open>Canonical texts pass the guard\<close>

definition safe_name :: "jstr \<Rightarrow> bool" where
  "safe_name k \<longleftrightarrow> (\<forall>c \<in> set k. name_unit_ok c)"

lemma escape_name_unit: "name_unit_ok c \<Longrightarrow> json_escape c = [c]"
  by (auto simp: json_escape_def name_unit_ok_def)

lemma quote_safe_name: "safe_name k \<Longrightarrow> json_quote k = QUOTE # k @ [QUOTE]"
proof -
  assume "safe_name k"
  then have "concat (map json_escape k) = k"
    by (induction k) (auto simp: safe_name_def escape_name_unit)
  then show ?thesis by (simp add: json_quote_def)
qed

lemma raw_content_plain: "\<forall>c \<in> set k. c \<noteq> REVERSE_SOLIDUS \<and> c \<noteq> QUOTE \<Longrightarrow> raw_content k"
  by (induction k rule: raw_content.induct) auto

lemma raw_content_append: "raw_content s \<Longrightarrow> raw_content t \<Longrightarrow> raw_content (s @ t)"
proof (induction s rule: raw_content.induct)
  case (2 d)
  then show ?case by (cases t) auto
qed (auto split: if_splits)

lemma hex_char_plain: "d < 16 \<Longrightarrow> hex_char d \<noteq> REVERSE_SOLIDUS \<and> hex_char d \<noteq> QUOTE"
  using hex_val_hex_char [of d] by (auto simp: hex_val_def)

lemma raw_content_escape: "raw_content (json_escape c)"
proof -
  have "unat c div 16 < 16" if "c < 0x20"
    using that by (simp add: word_less_nat_alt)
  then show ?thesis
    using hex_char_plain [of "unat c div 16"] hex_char_plain [of "unat c mod 16"]
    by (auto simp: json_escape_def js_def jc_def)
qed

lemma raw_content_escapes: "raw_content (concat (map json_escape s))"
  by (induction s) (simp_all add: raw_content_append raw_content_escape)

lemma num_token_text: "checkNumber n path = Inr () \<Longrightarrow>
    num_token (num_text n) \<and> (\<forall>c \<in> set (num_text n). \<not> num_frac c)"
proof -
  assume "checkNumber n path = Inr ()"
  then consider i where "n = JInt i" | "n = JNegZero" by (cases n) auto
  then show ?thesis
  proof cases
    case (1 i)
    have d: "\<forall>c \<in> set (nat_str k). is_digit c" for k by (simp add: nat_str_digits)
    have h: "is_digit (hd (nat_str k))" for k by (rule hd_nat_str_digit)
    have f: "\<not> num_frac c" if "is_digit c \<or> c = 0x2d" for c
      using that by (auto simp: num_frac_def is_digit_def)
    have "set (num_text n) \<subseteq> {c. is_digit c \<or> c = 0x2d}"
      using d 1 by (auto simp: num_text_def int_str_def)
    moreover have "num_start (hd (num_text n))" "num_text n \<noteq> []"
      using h 1 by (auto simp: num_text_def int_str_def num_start_def)
    ultimately show ?thesis using f by (auto simp: num_token_def num_cont_def)
  next
    case 2
    then show ?thesis
      by (simp add: num_text_def js_def jc_def num_token_def num_start_def num_cont_def num_frac_def is_digit_def)
  qed
qed

definition accepted_text :: "jstr \<Rightarrow> bool" where
  "accepted_text s \<longleftrightarrow> (\<exists>t. s = render t \<and> well_written t \<and> guard_accepts True t)"

lemma accepted_textI: "s = render t \<Longrightarrow> well_written t \<Longrightarrow> guard_accepts True t \<Longrightarrow> accepted_text s"
  by (auto simp: accepted_text_def)

lemma accepted_list:
  assumes "\<forall>p \<in> set ps. accepted_text p"
  obtains ts where "map render ts = ps" "\<forall>t \<in> set ts. well_written t \<and> guard_accepts True t"
  using assms
proof (induction ps arbitrary: thesis)
  case (Cons p ps)
  then obtain ts where "map render ts = ps" "\<forall>t \<in> set ts. well_written t \<and> guard_accepts True t" by auto
  moreover from Cons.prems obtain t where "p = render t" "well_written t" "guard_accepts True t"
    by (auto simp: accepted_text_def)
  ultimately show ?case by (intro Cons.prems(1) [of "t # ts"]) auto
qed simp

lemma wf_sorted_members: "wf_jval (JObj kvs) \<Longrightarrow> wf_jval (JObj (sorted_members kvs))"
proof -
  assume wf: "wf_jval (JObj kvs)"
  have "distinct (map fst (filter (\<lambda>kv. snd kv \<noteq> JUndef) kvs))"
    using wf by (intro distinct_map_filter) simp
  then have "distinct (map fst (sorted_members kvs))"
    unfolding sorted_members_def by (rule mset_eq_imp_distinct_iff [THEN iffD1, rotated]) simp
  with wf show ?thesis by (auto simp: sorted_members_def list_all_iff)
qed

lemma names_of_zip:
  "length ts = length kvs \<Longrightarrow>
   map (\<lambda>m. fst (snd m)) (map2 (\<lambda>kv t. ([] :: jstr, fst kv, [] :: jstr, t)) kvs ts) = map fst kvs"
  by (induction kvs ts rule: list_induct2') auto

definition accepted_members :: "members \<Rightarrow> jstr list \<Rightarrow> bool" where
  "accepted_members kvs ps \<longleftrightarrow>
     (\<exists>ts. ps = map2 (\<lambda>kv t. QUOTE # fst kv @ QUOTE # COLON # render t) kvs ts \<and> length ts = length kvs \<and>
        (\<forall>kv \<in> set kvs. safe_name (fst kv)) \<and> (\<forall>t \<in> set ts. well_written t \<and> guard_accepts True t))"

lemma accepted_members_Cons:
  assumes "safe_name k" "accepted_text p" "accepted_members kvs ps"
  shows "accepted_members ((k, v) # kvs) ((json_quote k @ 0x3a # p) # ps)"
proof -
  obtain t ts where "p = render t" "well_written t" "guard_accepts True t"
    "ps = map2 (\<lambda>kv t. QUOTE # fst kv @ QUOTE # COLON # render t) kvs ts" "length ts = length kvs"
    "\<forall>kv \<in> set kvs. safe_name (fst kv)" "\<forall>t \<in> set ts. well_written t \<and> guard_accepts True t"
    using assms(2,3) by (auto simp: accepted_text_def accepted_members_def)
  then show ?thesis using assms(1) unfolding accepted_members_def
    by (intro exI [of _ "t # ts"]) (auto simp: quote_safe_name)
qed

lemma serialize_accepted:
  shows "serialize v path = Inr s \<Longrightarrow> wf_jval v \<Longrightarrow> accepted_text s"
    and "serialize_items vs path i = Inr ps \<Longrightarrow> list_all wf_jval vs \<Longrightarrow> \<forall>p \<in> set ps. accepted_text p"
    and "serialize_members kvs path = Inr ps \<Longrightarrow> list_all (\<lambda>kv. wf_jval (snd kv)) kvs \<Longrightarrow>
      accepted_members kvs ps"
proof (induction v path and vs path i and kvs path arbitrary: s and ps and ps
    rule: serialize_serialize_items_serialize_members.induct)
  case (4 n path)
  then show ?case using num_token_text [of n path] by (intro accepted_textI [of _ "CNum s"]) (auto simp: ok_iff)
next
  case (5 u path)
  then show ?case using raw_content_escapes [of u]
    by (intro accepted_textI [of _ "CStr (concat (map json_escape u))"]) (auto simp: ok_iff json_quote_def)
next
  case (7 vs path)
  then obtain ps where ps: "s = 0x5b # join_comma ps @ [0x5d]" "\<forall>p \<in> set ps. accepted_text p"
    by (auto simp: ok_iff)
  then obtain ts where "map render ts = ps" "\<forall>t \<in> set ts. well_written t \<and> guard_accepts True t"
    by (blast elim: accepted_list)
  with ps show ?case by (intro accepted_textI [of _ "CArr ts"]) auto
next
  case (8 kvs path)
  have wf: "wf_jval (JObj (sorted_members kvs))" using "8.prems"(2) by (rule wf_sorted_members)
  with 8 obtain ps where acc: "s = 0x7b # join_comma ps @ [0x7d]" "accepted_members (sorted_members kvs) ps"
    by (auto simp: ok_iff)
  then obtain ts where ps: "s = 0x7b # join_comma ps @ [0x7d]"
      "ps = map2 (\<lambda>kv t. QUOTE # fst kv @ QUOTE # COLON # render t) (sorted_members kvs) ts"
      "length ts = length (sorted_members kvs)" "\<forall>kv \<in> set (sorted_members kvs). safe_name (fst kv)"
      "\<forall>t \<in> set ts. well_written t \<and> guard_accepts True t"
    by (auto simp: accepted_members_def)
  define ms where "ms = map2 (\<lambda>kv t. ([] :: jstr, fst kv, [] :: jstr, t)) (sorted_members kvs) ts"
  have "s = render (CObj ms)"
    using ps by (simp add: ms_def comp_def case_prod_unfold)
  moreover have "map (\<lambda>m. fst (snd m)) ms = map fst (sorted_members kvs)"
    using ps(3) unfolding ms_def by (rule names_of_zip)
  moreover have "\<forall>m \<in> set ms. fst m = [] \<and> fst (snd (snd m)) = [] \<and> safe_name (fst (snd m)) \<and>
      well_written (snd (snd (snd m))) \<and> guard_accepts True (snd (snd (snd m)))"
    using ps(4,5) by (fastforce simp: ms_def dest: set_zip_leftD set_zip_rightD)
  ultimately show ?case using wf
    by (intro accepted_textI [of _ "CObj ms"]) (auto simp: safe_name_def name_unit_ok_def intro!: raw_content_plain)
next
  case (11 v vs path i)
  then show ?case by (auto simp: ok_iff)
next
  case (13 k v kvs path)
  from "13.prems" obtain p ps' where p: "checkString k (key_path path k) = Inr ()"
      "checkName k (key_path path k) = Inr ()" "serialize v (key_path path k) = Inr p"
      "serialize_members kvs path = Inr ps'" "ps = (json_quote k @ 0x3a # p) # ps'"
    by (auto simp: ok_iff)
  have "accepted_text p" "accepted_members kvs ps'" "safe_name k"
    using "13.IH" "13.prems"(2) p by (simp_all add: checkName_def safe_name_def ok_iff)
  with p(5) show ?case by (simp add: accepted_members_Cons)
next
  case (12 path)
  then show ?case by (simp add: accepted_members_def)
qed (auto simp: js_def jc_def lit_unit_def word_le_nat_alt intro!: accepted_textI [of _ "CLit _"])

text \<open>C2. What the SDK can sign, a receiver can read: the canonical text of a value passes the lexical guard,
  integer check included.\<close>

theorem canonical_text_is_safe:
  assumes "canonicalize v = Inr s" "wf_jval v"
  shows "assertSafeJsonText True s = Inr ()"
proof -
  obtain t where "s = render t" "well_written t" "guard_accepts True t"
    using serialize_accepted(1) assms unfolding canonicalize_def accepted_text_def by blast
  then have "is_ok (assertSafeJsonText True s)" by (simp add: guard_characterisation)
  then show ?thesis by (simp add: is_ok_iff)
qed

lemma canonical_text_is_safe_witness:
  "assertSafeJsonText True (js ''{'' @ 0x22 # js ''a'' @ 0x22 # js '':[0,true]}'') = Inr ()"
  by (rule canonical_text_is_safe [of "JObj [(js ''a'', JArr [JNum JNegZero, JBool True])]"]) (code_simp, code_simp)



end
