(* ===== verification/Sha256.thy ===== *)
theory Sha256
  imports Canonical
begin

unbundle bit_operations_syntax

text \<open>
  \<^verbatim>\<open>sdk/src/sha256.ts\<close>: SHA-256 on 32-bit words.  Every JavaScript bit operator of the code reads its
  operands modulo 2^32 and every sum is reduced by \<open>| 0\<close> or by a \<open>Uint32Array\<close> store, so the
  values are \<open>32 word\<close>s.  The padded length is computed by signed 32-bit shifts in the code, which
  turn negative from 2^31 - 72 bytes on; \<open>new Uint8Array\<close> then throws.
\<close>

type_synonym w32 = "32 word"

text \<open>The round constants, one inner list per line of the source.\<close>

definition K :: "w32 list" where
  "K = concat [
     [0x428a2f98, 0x71374491, 0xb5c0fbcf, 0xe9b5dba5, 0x3956c25b, 0x59f111f1, 0x923f82a4, 0xab1c5ed5],
     [0xd807aa98, 0x12835b01, 0x243185be, 0x550c7dc3, 0x72be5d74, 0x80deb1fe, 0x9bdc06a7, 0xc19bf174],
     [0xe49b69c1, 0xefbe4786, 0x0fc19dc6, 0x240ca1cc, 0x2de92c6f, 0x4a7484aa, 0x5cb0a9dc, 0x76f988da],
     [0x983e5152, 0xa831c66d, 0xb00327c8, 0xbf597fc7, 0xc6e00bf3, 0xd5a79147, 0x06ca6351, 0x14292967],
     [0x27b70a85, 0x2e1b2138, 0x4d2c6dfc, 0x53380d13, 0x650a7354, 0x766a0abb, 0x81c2c92e, 0x92722c85],
     [0xa2bfe8a1, 0xa81a664b, 0xc24b8b70, 0xc76c51a3, 0xd192e819, 0xd6990624, 0xf40e3585, 0x106aa070],
     [0x19a4c116, 0x1e376c08, 0x2748774c, 0x34b0bcb5, 0x391c0cb3, 0x4ed8aa4a, 0x5b9cca4f, 0x682e6ff3],
     [0x748f82ee, 0x78a5636f, 0x84c87814, 0x8cc70208, 0x90befffa, 0xa4506ceb, 0xbef9a3f7, 0xc67178f2]]"

definition rotr :: "w32 \<Rightarrow> nat \<Rightarrow> w32" where
  "rotr x n = drop_bit n x OR push_bit (32 - n) x"

subsection \<open>Padding\<close>

definition setUint32 :: "w32 \<Rightarrow> byte list" where
  "setUint32 x = [ucast (drop_bit 24 x), ucast (drop_bit 16 x), ucast (drop_bit 8 x), ucast x]"

definition padded_length :: "nat \<Rightarrow> int" where
  "padded_length n = sint (push_bit 6 (signed_drop_bit 6 (of_nat (n + 9 + 63) :: w32)))"

datatype sha_error = RangeError

definition padded :: "byte list \<Rightarrow> sha_error + byte list" where
  "padded bytes =
     (let n = length bytes; len = padded_length n; bitLength = n * 8 in
      if len < int n then Inl RangeError
      else let m = nat len;
               p = (bytes @ replicate (m - n) 0)[n := 0x80] in
        Inr (take (m - 8) p @ setUint32 (of_nat (bitLength div 0x100000000)) @ setUint32 (of_nat bitLength)))"

subsection \<open>Compression\<close>

definition getUint32 :: "byte list \<Rightarrow> nat \<Rightarrow> w32" where
  "getUint32 view i =
     push_bit 24 (ucast (view ! i)) OR push_bit 16 (ucast (view ! (i + 1))) OR
     push_bit 8 (ucast (view ! (i + 2))) OR ucast (view ! (i + 3))"

definition schedule_step :: "w32 list \<Rightarrow> nat \<Rightarrow> w32 list" where
  "schedule_step w i =
     (let s0 = rotr (w ! (i - 15)) 7 XOR rotr (w ! (i - 15)) 18 XOR drop_bit 3 (w ! (i - 15));
          s1 = rotr (w ! (i - 2)) 17 XOR rotr (w ! (i - 2)) 19 XOR drop_bit 10 (w ! (i - 2)) in
      w @ [w ! (i - 16) + s0 + w ! (i - 7) + s1])"

definition schedule :: "byte list \<Rightarrow> nat \<Rightarrow> w32 list" where
  "schedule view offset = foldl schedule_step (map (\<lambda>i. getUint32 view (offset + i * 4)) [0..<16]) [16..<64]"

type_synonym hash_state = "w32 \<times> w32 \<times> w32 \<times> w32 \<times> w32 \<times> w32 \<times> w32 \<times> w32"

definition round_step :: "w32 list \<Rightarrow> hash_state \<Rightarrow> nat \<Rightarrow> hash_state" where
  "round_step w s i =
     (case s of (a, b, c, d, e, f, g, hh) \<Rightarrow>
       let S1 = rotr e 6 XOR rotr e 11 XOR rotr e 25;
           ch = (e AND f) XOR (NOT e AND g);
           t1 = hh + S1 + ch + K ! i + w ! i;
           S0 = rotr a 2 XOR rotr a 13 XOR rotr a 22;
           maj = (a AND b) XOR (a AND c) XOR (b AND c);
           t2 = S0 + maj in
       (t1 + t2, a, b, c, d + t1, e, f, g))"

definition add_state :: "hash_state \<Rightarrow> hash_state \<Rightarrow> hash_state" where
  "add_state h s =
     (case h of (h0, h1, h2, h3, h4, h5, h6, h7) \<Rightarrow> case s of (a, b, c, d, e, f, g, hh) \<Rightarrow>
       (h0 + a, h1 + b, h2 + c, h3 + d, h4 + e, h5 + f, h6 + g, h7 + hh))"

definition block_step :: "byte list \<Rightarrow> hash_state \<Rightarrow> nat \<Rightarrow> hash_state" where
  "block_step view h offset = add_state h (foldl (round_step (schedule view offset)) h [0..<64])"

definition initial_hash :: hash_state where
  "initial_hash = (0x6a09e667, 0xbb67ae85, 0x3c6ef372, 0xa54ff53a, 0x510e527f, 0x9b05688c, 0x1f83d9ab, 0x5be0cd19)"

definition offsets :: "nat \<Rightarrow> nat list" where
  "offsets len = map (\<lambda>k. k * 64) [0..<(len + 63) div 64]"

definition hash_bytes :: "hash_state \<Rightarrow> byte list" where
  "hash_bytes h = (case h of (h0, h1, h2, h3, h4, h5, h6, h7) \<Rightarrow>
     concat (map setUint32 [h0, h1, h2, h3, h4, h5, h6, h7]))"

definition sha256Sync :: "byte list \<Rightarrow> sha_error + byte list" where
  "sha256Sync bytes = ebind (padded bytes) (\<lambda>view.
     Inr (hash_bytes (foldl (block_step view) initial_hash (offsets (length view)))))"

definition sha256HexSync :: "byte list \<Rightarrow> sha_error + jstr" where
  "sha256HexSync bytes = ebind (sha256Sync bytes) (\<lambda>d. Inr (concat (map byte_hex d)))"

subsection \<open>The rotation\<close>

lemma rotr_word_rotr: "0 < n \<Longrightarrow> n < 32 \<Longrightarrow> rotr x n = word_rotr n x"
  proof (rule bit_word_eqI)
  fix k
  assume "0 < n" "n < 32" "k < LENGTH(32)"
  then show "bit (rotr x n) k \<longleftrightarrow> bit (word_rotr n x) k"
    by (cases "k + n < 32")
      (auto simp: rotr_def bit_or_iff bit_drop_bit_eq bit_push_bit_iff bit_word_rotr_iff add.commute le_mod_geq
        dest: bit_imp_le_length)
qed

subsection \<open>The padding of FIPS 180-4\<close>

lemma sint_small: "n < 2 ^ 31 \<Longrightarrow> sint (of_nat n :: w32) = int n"
  using signed_take_bit_int_eq_self [of 31 "int n"]
  by (simp add: signed_of_nat)

lemma sint_of_nat_eq: "sint (w::w32) = int n \<Longrightarrow> w = of_nat n"
proof -
  assume "sint w = int n"
  then have "of_int (sint w) = (of_int (int n) :: w32)" by simp
  then show "w = of_nat n" by simp
qed

lemma padded_length_small:
  assumes "n + 72 < 2 ^ 31"
  shows "padded_length n = int ((n + 72) div 64 * 64)"
proof -
  define w :: w32 where "w = of_nat (n + 72)"
  have s: "sint w = int (n + 72)" unfolding w_def using assms by (rule sint_small)
  have "sint (signed_drop_bit 6 w) = int ((n + 72) div 64)"
    by (simp add: sint_signed_drop_bit_eq s drop_bit_eq_div zdiv_int)
  then have "signed_drop_bit 6 w = of_nat ((n + 72) div 64)"
    by (rule sint_of_nat_eq)
  then have "push_bit 6 (signed_drop_bit 6 w) = of_nat ((n + 72) div 64 * 64)"
    by (simp add: push_bit_eq_mult)
  moreover have "(n + 72) div 64 * 64 < 2 ^ 31"
    by (rule le_less_trans [OF div_times_less_eq_dividend assms])
  ultimately have "sint (push_bit 6 (signed_drop_bit 6 w)) = int ((n + 72) div 64 * 64)"
    by (simp only: sint_small)
  then show ?thesis by (simp add: padded_length_def w_def add.assoc)
qed

definition fips_padding :: "byte list \<Rightarrow> byte list" where
  "fips_padding m = m @ [0x80] @ replicate ((119 - length m mod 64) mod 64) 0 @
     setUint32 (of_nat (8 * length m div 2 ^ 32)) @ setUint32 (of_nat (8 * length m))"

lemma length_setUint32 [simp]: "length (setUint32 x) = 4"
  by (simp add: setUint32_def)

lemma pad_arith: "(n + 72) div 64 * 64 = n + 9 + (119 - n mod 64) mod (64 :: nat)"
proof -
  define q r where "q = n div 64" and "r = n mod 64"
  have n: "n = r + 64 * q" "r < 64" by (simp_all add: q_def r_def)
  have "n + 72 = r + 72 + 64 * q" using n(1) by presburger
  then have d: "(n + 72) div 64 = q + (r + 72) div 64" by (simp only: div_mult_self2)
  consider "r \<le> 55" | "56 \<le> r" by linarith
  then show ?thesis
  proof cases
    case 1
    then have "119 - r = (55 - r) + 64" by simp
    then have "(119 - r) mod 64 = 55 - r" by (simp only: mod_add_self2) simp
    moreover have "(r + 72) div 64 = 1" by (rule div_nat_eqI) (use 1 in auto)
    ultimately show ?thesis unfolding d r_def [symmetric] using 1 n(1)
      by (simp only: distrib_right)
  next
    case 2
    then have "(119 - r) mod 64 = 119 - r" by simp
    moreover have "(r + 72) div 64 = 2" by (rule div_nat_eqI) (use 2 n(2) in auto)
    ultimately show ?thesis unfolding d r_def [symmetric] using 2 n
      by (simp only: distrib_right)
  qed
qed

lemma padded_fips:
  assumes "length bytes + 72 < 2 ^ 31"
  shows "padded bytes = Inr (fips_padding bytes)"
proof -
  define n where "n = length bytes"
  define z where "z = (119 - n mod 64) mod 64"
  have len: "padded_length n = int (n + 9 + z)"
    using assms padded_length_small [of n] by (simp only: pad_arith n_def z_def)
  have p: "(bytes @ replicate (n + 9 + z - n) 0)[n := 0x80] = bytes @ 0x80 # replicate z 0 @ replicate 8 0"
    using replicate_add [of z 8 "0 :: byte"]
    by (simp add: n_def list_update_append numeral_eq_Suc)
  have t: "take (n + 9 + z - 8) (bytes @ 0x80 # replicate z 0 @ replicate 8 0) = bytes @ 0x80 # replicate z 0"
    by (simp add: n_def)
  have "padded bytes = Inr ((bytes @ 0x80 # replicate z 0) @ setUint32 (of_nat (n * 8 div 0x100000000)) @
      setUint32 (of_nat (n * 8)))"
    unfolding padded_def Let_def n_def [symmetric] len nat_int p t by simp
  then show ?thesis by (simp add: fips_padding_def n_def z_def mult.commute)
qed

lemma fips_padding_blocks: "length (fips_padding m) mod 64 = 0"
proof -
  have "length (fips_padding m) = (length m + 72) div 64 * 64"
    unfolding pad_arith by (simp add: fips_padding_def)
  then show ?thesis by simp
qed

subsection \<open>The hash of FIPS 180-4\<close>

text \<open>
  The standard's own formulation: the message schedule as a recurrence over the sixteen words of a
  block, the rotations as the library's \<open>word_rotr\<close>, and a fold over the 64-byte blocks of the
  padded message.  The constants are those of the code.
\<close>

definition sigma0 :: "w32 \<Rightarrow> w32" where "sigma0 x = word_rotr 7 x XOR word_rotr 18 x XOR drop_bit 3 x"
definition sigma1 :: "w32 \<Rightarrow> w32" where "sigma1 x = word_rotr 17 x XOR word_rotr 19 x XOR drop_bit 10 x"
definition Sigma0 :: "w32 \<Rightarrow> w32" where "Sigma0 x = word_rotr 2 x XOR word_rotr 13 x XOR word_rotr 22 x"
definition Sigma1 :: "w32 \<Rightarrow> w32" where "Sigma1 x = word_rotr 6 x XOR word_rotr 11 x XOR word_rotr 25 x"
definition Ch :: "w32 \<Rightarrow> w32 \<Rightarrow> w32 \<Rightarrow> w32" where "Ch x y z = (x AND y) XOR (NOT x AND z)"
definition Maj :: "w32 \<Rightarrow> w32 \<Rightarrow> w32 \<Rightarrow> w32" where "Maj x y z = (x AND y) XOR (x AND z) XOR (y AND z)"

fun W :: "w32 list \<Rightarrow> nat \<Rightarrow> w32" where
  "W M t = (if t < 16 then M ! t else sigma1 (W M (t - 2)) + W M (t - 7) + sigma0 (W M (t - 15)) + W M (t - 16))"

declare W.simps [simp del]

definition fips_round :: "w32 list \<Rightarrow> hash_state \<Rightarrow> nat \<Rightarrow> hash_state" where
  "fips_round M s t =
     (case s of (a, b, c, d, e, f, g, h) \<Rightarrow>
       let T1 = h + Sigma1 e + Ch e f g + K ! t + W M t; T2 = Sigma0 a + Maj a b c in
       (T1 + T2, a, b, c, d + T1, e, f, g))"

fun words_of :: "byte list \<Rightarrow> w32 list" where
  "words_of (b0 # b1 # b2 # b3 # bs) =
     (push_bit 24 (ucast b0) OR push_bit 16 (ucast b1) OR push_bit 8 (ucast b2) OR ucast b3) # words_of bs"
| "words_of _ = []"

definition fips_block :: "hash_state \<Rightarrow> byte list \<Rightarrow> hash_state" where
  "fips_block h B = add_state h (foldl (fips_round (words_of B)) h [0..<64])"

definition blocks :: "byte list \<Rightarrow> byte list list" where
  "blocks m = map (\<lambda>k. take 64 (drop (k * 64) m)) [0..<length m div 64]"

definition fips_sha256 :: "byte list \<Rightarrow> byte list" where
  "fips_sha256 m = hash_bytes (foldl fips_block initial_hash (blocks (fips_padding m)))"

lemma words_of_nth: "4 * i + 3 < length B \<Longrightarrow> words_of B ! i = getUint32 B (4 * i)"
proof (induction B arbitrary: i rule: words_of.induct)
  case (1 b0 b1 b2 b3 bs)
  then show ?case by (cases i) (simp_all add: getUint32_def numeral_eq_Suc)
qed auto

lemma words_of_length: "length (words_of B) = length B div 4"
  by (induction B rule: words_of.induct) auto

lemma words_of_block:
  assumes "offset + 64 \<le> length view"
  shows "words_of (take 64 (drop offset view)) = map (\<lambda>i. getUint32 view (offset + i * 4)) [0..<16]"
proof (rule nth_equalityI)
  show "length (words_of (take 64 (drop offset view))) = length (map (\<lambda>i. getUint32 view (offset + i * 4)) [0..<16])"
    using assms by (simp add: words_of_length)
next
  fix i
  assume "i < length (words_of (take 64 (drop offset view)))"
  then have "i < 16" using assms by (simp add: words_of_length)
  then show "words_of (take 64 (drop offset view)) ! i = map (\<lambda>i. getUint32 view (offset + i * 4)) [0..<16] ! i"
    using assms by (simp add: words_of_nth) (simp add: getUint32_def add.assoc mult.commute)
qed

lemma schedule_step_W:
  "16 \<le> n \<Longrightarrow> schedule_step (map (W M) [0..<n]) n = map (W M) [0..<Suc n]"
  using W.simps [of M n]
  by (simp add: schedule_step_def Let_def rotr_word_rotr sigma0_def sigma1_def ac_simps)

lemma schedule_W:
  assumes "length M = 16"
  shows "foldl schedule_step M [16..<16 + k] = map (W M) [0..<16 + k]"
proof (induction k)
  case 0
  have "M = map ((!) M) [0..<16]" using map_nth [of M] assms by simp
  also have "\<dots> = map (W M) [0..<16]" by (simp add: W.simps)
  finally show ?case by simp
next
  case (Suc k)
  have "[16..<16 + Suc k] = [16..<16 + k] @ [16 + k]" by (simp only: add_Suc_right upt_Suc_append le_add1)
  with Suc show ?case using schedule_step_W [of "16 + k" M] by (simp only: foldl_append foldl.simps add_Suc_right le_add1)
qed

lemma round_step_fips: "t < length w \<Longrightarrow> w ! t = W M t \<Longrightarrow> round_step w s t = fips_round M s t"
  by (cases s) (simp add: round_step_def fips_round_def Let_def rotr_word_rotr Sigma0_def Sigma1_def Ch_def Maj_def ac_simps)

lemma block_step_fips:
  assumes "offset + 64 \<le> length view"
  shows "block_step view h offset = fips_block h (take 64 (drop offset view))"
proof -
  define M where "M = words_of (take 64 (drop offset view))"
  have M: "length M = 16" "M = map (\<lambda>i. getUint32 view (offset + i * 4)) [0..<16]"
    using words_of_block [OF assms] by (simp_all add: M_def)
  have w: "schedule view offset = map (W M) [0..<64]"
    using schedule_W [OF M(1), of 48] by (simp add: schedule_def flip: M(2))
  have "foldl (round_step (schedule view offset)) h [0..<64] = foldl (fips_round M) h [0..<64]"
    by (rule foldl_cong) (auto simp: w round_step_fips)
  then show ?thesis by (simp add: block_step_def fips_block_def M_def)
qed

lemma sha256Sync_fips:
  assumes "length bytes + 72 < 2 ^ 31"
  shows "sha256Sync bytes = Inr (fips_sha256 bytes)"
proof -
  define view where "view = fips_padding bytes"
  have "length view mod 64 = 0" by (simp add: view_def fips_padding_blocks)
  then obtain q where "length view = 64 * q" by (auto simp: mod_eq_0_iff_dvd elim: dvdE)
  then have n: "(length view + 63) div 64 = length view div 64" "length view div 64 * 64 = length view" by simp_all
  have "foldl (block_step view) initial_hash (offsets (length view)) =
      foldl (\<lambda>h k. block_step view h (k * 64)) initial_hash [0..<length view div 64]"
    by (simp add: offsets_def foldl_map n)
  also have "\<dots> = foldl (\<lambda>h k. fips_block h (take 64 (drop (k * 64) view))) initial_hash [0..<length view div 64]"
  proof (rule foldl_cong)
    fix h k
    assume "k \<in> set [0..<length view div 64]"
    then have "Suc k * 64 \<le> length view" using n(2) by (metis Suc_leI atLeastLessThan_iff mult_le_mono1 set_upt)
    then show "block_step view h (k * 64) = fips_block h (take 64 (drop (k * 64) view))"
      by (intro block_step_fips) simp
  qed simp_all
  also have "\<dots> = foldl fips_block initial_hash (blocks view)"
    by (simp add: blocks_def foldl_map)
  finally show ?thesis
    using padded_fips [OF assms] by (simp add: sha256Sync_def fips_sha256_def view_def)
qed



end
