(* ===== verification/Base58.thy ===== *)
theory Base58
  imports Canonical
begin

text \<open>
  \<^verbatim>\<open>sdk/src/base58.ts\<close>: bytes as base-58 text.  The big integer of the code is a \<open>nat\<close>; both loops
  of each direction are recursions.  Text and bytes determine each other: \<open>base58Decode\<close> accepts
  exactly the texts that \<open>base58Encode\<close> writes.
\<close>

definition ALPHABET :: jstr where
  "ALPHABET = js ''123456789ABCDEFGHJKLMNPQRSTUVWXYZabcdefghijkmnopqrstuvwxyz''"

definition INDEX :: "cunit \<Rightarrow> nat option" where
  "INDEX ch = map_of (zip ALPHABET [0..<length ALPHABET]) ch"

definition BASE :: nat where
  "BASE = 58"

function encode_loop :: "nat \<Rightarrow> jstr \<Rightarrow> jstr" where
  "encode_loop n out = (if n = 0 then out else encode_loop (n div BASE) (ALPHABET ! (n mod BASE) # out))"
  by pat_completeness auto
termination
  by (relation "measure fst") (simp_all add: BASE_def)

fun leading_ones :: "byte list \<Rightarrow> jstr \<Rightarrow> jstr" where
  "leading_ones [] out = out"
| "leading_ones (b # bs) out = (if b \<noteq> 0 then out else leading_ones bs (jc (CHR ''1'') # out))"

definition bytes_nat :: "byte list \<Rightarrow> nat" where
  "bytes_nat bytes = foldl (\<lambda>n b. n * 256 + unat b) 0 bytes"

definition base58Encode :: "byte list \<Rightarrow> jstr" where
  "base58Encode bytes =
     (if bytes = [] then [] else leading_ones bytes (encode_loop (bytes_nat bytes) []))"

datatype base58_error = InvalidBase58Character cunit

fun decode_loop :: "jstr \<Rightarrow> nat \<Rightarrow> base58_error + nat" where
  "decode_loop [] n = Inr n"
| "decode_loop (ch # s) n =
     (case INDEX ch of
        None \<Rightarrow> Inl (InvalidBase58Character ch)
      | Some v \<Rightarrow> decode_loop s (n * BASE + v))"

fun bytes_loop :: "nat \<Rightarrow> byte list \<Rightarrow> byte list" where
  "bytes_loop n bytes = (if n = 0 then bytes else bytes_loop (n div 256) (of_nat (n mod 256) # bytes))"

fun leading_zeros :: "jstr \<Rightarrow> byte list \<Rightarrow> byte list" where
  "leading_zeros [] bytes = bytes"
| "leading_zeros (ch # s) bytes = (if ch \<noteq> jc (CHR ''1'') then bytes else leading_zeros s (0 # bytes))"

definition base58Decode :: "jstr \<Rightarrow> base58_error + byte list" where
  "base58Decode s =
     (if s = [] then Inr []
      else ebind (decode_loop s 0) (\<lambda>n. Inr (leading_zeros s (bytes_loop n []))))"

declare encode_loop.simps [simp del] bytes_loop.simps [simp del]

subsection \<open>Changing the base of a digit list\<close>

definition zeros :: "nat list \<Rightarrow> nat" where
  "zeros ds = length (takeWhile (\<lambda>d. d = 0) ds)"

definition rebase :: "nat \<Rightarrow> nat \<Rightarrow> nat list \<Rightarrow> nat list" where
  "rebase b c ds = replicate (zeros ds) 0 @ digits_be c (value_be b ds)"

lemma digits_split:
  assumes "2 \<le> b" "\<forall>d \<in> set ds. d < b"
  shows "replicate (zeros ds) 0 @ digits_be b (value_be b ds) = ds"
proof -
  have z: "takeWhile (\<lambda>d. d = 0) ds = replicate (zeros ds) 0"
    unfolding zeros_def by (intro replicate_eqI [symmetric, THEN sym]) (auto dest: set_takeWhileD)
  define r where "r = dropWhile (\<lambda>d. d = 0) ds"
  have ds: "ds = replicate (zeros ds) 0 @ r"
    using takeWhile_dropWhile_id [of "\<lambda>d. d = 0" ds] by (simp add: z r_def)
  have "r = [] \<or> hd r \<noteq> 0" using hd_dropWhile [of "\<lambda>d. d = 0" ds] unfolding r_def by blast
  moreover have "\<forall>d \<in> set r. d < b" using assms(2) by (auto simp: r_def dest: set_dropWhileD)
  ultimately have "digits_be b (value_be b r) = r" using assms(1) by (intro digits_be_value) auto
  moreover have "value_be b ds = value_be b r" by (subst ds) (simp add: value_be_append)
  ultimately show ?thesis using ds by simp
qed

lemma zeros_rebase: "2 \<le> c \<Longrightarrow> zeros (rebase b c ds) = zeros ds"
proof -
  assume c: "2 \<le> c"
  have "takeWhile (\<lambda>d. d = 0) (digits_be c n) = []" for n
  proof (cases "n = 0")
    case False
    then have "digits_be c n \<noteq> []" "hd (digits_be c n) \<noteq> 0" using hd_digits_be c by auto
    then show ?thesis by (cases "digits_be c n") auto
  qed simp
  then show ?thesis by (simp add: rebase_def zeros_def takeWhile_append)
qed

lemma value_rebase: "2 \<le> c \<Longrightarrow> value_be c (rebase b c ds) = value_be b ds"
  by (simp add: rebase_def value_be_append value_digits_be)

lemma rebase_less: "2 \<le> c \<Longrightarrow> d \<in> set (rebase b c ds) \<Longrightarrow> d < c"
  by (auto simp: rebase_def dest: digits_be_less)

lemma rebase_rebase:
  "2 \<le> b \<Longrightarrow> 2 \<le> c \<Longrightarrow> \<forall>d \<in> set ds. d < b \<Longrightarrow> rebase c b (rebase b c ds) = ds"
  unfolding rebase_def [of c b]
  by (simp add: zeros_rebase value_rebase digits_split)

subsection \<open>Both directions are a change of base\<close>

lemma length_ALPHABET [simp]: "length ALPHABET = 58"
  by (simp add: ALPHABET_def)

lemma distinct_ALPHABET: "distinct ALPHABET"
proof -
  have "inj jc" by (rule injI) simp
  then show ?thesis by (simp add: ALPHABET_def js_def distinct_map inj_on_subset)
qed

lemma INDEX_eq: "INDEX ch = Some v \<longleftrightarrow> v < 58 \<and> ALPHABET ! v = ch"
proof -
  have "distinct (map fst (zip ALPHABET [0..<length ALPHABET]))" by (simp add: distinct_ALPHABET)
  then have "INDEX ch = Some v \<longleftrightarrow> (ch, v) \<in> set (zip ALPHABET [0..<length ALPHABET])"
    unfolding INDEX_def by (rule map_of_eq_Some_iff)
  then show ?thesis by (auto simp: in_set_zip)
qed

lemma ALPHABET_0: "ALPHABET ! 0 = jc (CHR ''1'')"
  by (simp add: ALPHABET_def js_def)

lemma ALPHABET_one: "v < 58 \<Longrightarrow> ALPHABET ! v = jc (CHR ''1'') \<longleftrightarrow> v = 0"
  using distinct_ALPHABET by (auto simp: nth_eq_iff_index_eq simp flip: ALPHABET_0)

lemma loop_0 [simp]: "encode_loop 0 out = out" "bytes_loop 0 bs = bs"
  by (simp_all add: encode_loop.simps bytes_loop.simps)

lemma encode_loop_digits: "encode_loop n out = map (\<lambda>d. ALPHABET ! d) (digits_be 58 n) @ out"
proof (induction n arbitrary: out rule: less_induct)
  case (less n)
  then show ?case
    by (cases "n = 0") (simp_all add: encode_loop.simps [of n] BASE_def digits_be_step)
qed

lemma bytes_loop_digits: "bytes_loop n bs = map of_nat (digits_be 256 n) @ bs"
proof (induction n arbitrary: bs rule: less_induct)
  case (less n)
  then show ?case
    by (cases "n = 0") (simp_all add: bytes_loop.simps [of n] digits_be_step)
qed

lemma bytes_nat_value: "bytes_nat bs = value_be 256 (map unat bs)"
  by (simp add: bytes_nat_def value_be_def foldl_map)

lemma leading_ones_zeros: "leading_ones bs out = replicate (zeros (map unat bs)) (jc (CHR ''1'')) @ out"
  by (induction bs arbitrary: out) (simp_all add: zeros_def replicate_app_Cons_same unat_eq_0)

lemma leading_zeros_zeros:
  "(\<forall>v \<in> set vs. v < 58) \<Longrightarrow> leading_zeros (map ((!) ALPHABET) vs) bs = replicate (zeros vs) 0 @ bs"
  by (induction vs arbitrary: bs) (simp_all add: zeros_def replicate_app_Cons_same ALPHABET_one)

lemma base58Encode_rebase: "base58Encode bs = map ((!) ALPHABET) (rebase 256 58 (map unat bs))"
  by (simp add: base58Encode_def leading_ones_zeros encode_loop_digits bytes_nat_value rebase_def ALPHABET_0)
    (simp add: zeros_def)

lemma decode_loop_digits:
  "(\<forall>v \<in> set vs. v < 58) \<Longrightarrow> decode_loop (map ((!) ALPHABET) vs) n = Inr (foldl (\<lambda>a d. a * 58 + d) n vs)"
proof (induction vs arbitrary: n)
  case (Cons v vs)
  then have "INDEX (ALPHABET ! v) = Some v" by (simp add: INDEX_eq)
  with Cons show ?case by (simp add: BASE_def)
qed simp

lemma decode_loop_ok: "decode_loop s n = Inr m \<Longrightarrow> \<exists>vs. (\<forall>v \<in> set vs. v < 58) \<and> s = map ((!) ALPHABET) vs"
proof (induction s n rule: decode_loop.induct)
  case (2 ch s n)
  then obtain v where v: "INDEX ch = Some v" by (auto split: option.splits)
  with 2 obtain vs where "\<forall>v \<in> set vs. v < 58" "s = map ((!) ALPHABET) vs" by auto
  with v show ?case by (intro exI [of _ "v # vs"]) (auto simp: INDEX_eq)
qed simp

lemma base58Decode_digits:
  "(\<forall>v \<in> set vs. v < 58) \<Longrightarrow> base58Decode (map ((!) ALPHABET) vs) = Inr (map of_nat (rebase 58 256 vs))"
proof (cases "vs = []")
  case False
  assume "\<forall>v \<in> set vs. v < 58"
  with False show ?thesis
    by (simp add: base58Decode_def decode_loop_digits leading_zeros_zeros bytes_loop_digits rebase_def value_be_def)
qed (simp add: base58Decode_def rebase_def zeros_def)

lemma base58Decode_ok: "base58Decode s = Inr bs \<Longrightarrow> \<exists>vs. (\<forall>v \<in> set vs. v < 58) \<and> s = map ((!) ALPHABET) vs"
  by (cases "s = []") (auto simp: base58Decode_def ok_iff dest: decode_loop_ok)

lemma unat_bytes: "\<forall>d \<in> set (map unat (bs :: byte list)). d < 256"
proof -
  have "unat b < 256" for b :: byte using unsigned_less [of b] by simp
  then show ?thesis by simp
qed

lemma map_unat_of_nat: "\<forall>d \<in> set ds. d < 256 \<Longrightarrow> map unat (map of_nat ds :: byte list) = ds"
  by (simp add: map_idI)

lemma base58Encode_chars: "set (base58Encode bs) \<subseteq> set ALPHABET"
  using rebase_less [of 58] by (auto simp: base58Encode_rebase)

lemma base58_iff: "base58Decode s = Inr bs \<longleftrightarrow> s = base58Encode bs"
proof
  assume d: "base58Decode s = Inr bs"
  then obtain vs where vs: "\<forall>v \<in> set vs. v < 58" "s = map ((!) ALPHABET) vs"
    using base58Decode_ok by blast
  with d have "bs = map of_nat (rebase 58 256 vs)" by (simp add: base58Decode_digits)
  then have "map unat bs = rebase 58 256 vs"
    using rebase_less [of 256 _ 58 vs] map_unat_of_nat [of "rebase 58 256 vs"] by simp
  then show "s = base58Encode bs"
    using vs rebase_rebase [of 58 256 vs] by (simp add: base58Encode_rebase)
next
  assume s: "s = base58Encode bs"
  have "\<forall>v \<in> set (rebase 256 58 (map unat bs)). v < 58" using rebase_less by auto
  then show "base58Decode s = Inr bs"
    using unat_bytes [of bs] rebase_rebase [of 256 58 "map unat bs"]
    by (simp add: s base58Encode_rebase base58Decode_digits map_idI)
qed

text \<open>Base-58 text and bytes determine each other: a text is accepted exactly when it is the text that
  encodes the bytes it decodes to, so no two texts name the same key, and no two keys share a text.\<close>

theorem base58_bijection: "base58Decode s = Inr bs \<longleftrightarrow> s = base58Encode bs"
  by (rule base58_iff)

subsection \<open>Codecs\<close>

text \<open>
  What a caller relies on when a value travels as text: decoding accepts exactly the texts that
  encoding writes.  An encoder may refuse a value.
\<close>

locale text_codec =
  fixes enc :: "'a \<Rightarrow> 'e + jstr"
    and dec :: "jstr \<Rightarrow> 'd + 'a"
  assumes dec_iff: "dec s = Inr x \<longleftrightarrow> enc x = Inr s"
begin

lemma decode_encode: "enc x = Inr s \<Longrightarrow> dec s = Inr x"
  by (simp add: dec_iff)

lemma encode_decode: "dec s = Inr x \<Longrightarrow> enc x = Inr s"
  by (simp add: dec_iff)

lemma encode_injective: "enc x = Inr s \<Longrightarrow> enc y = Inr s \<Longrightarrow> x = y"
  by (metis dec_iff sum.inject(2))

lemma decode_injective: "dec s = Inr x \<Longrightarrow> dec t = Inr x \<Longrightarrow> s = t"
  by (metis dec_iff sum.inject(2))

lemma decode_refuses: "\<not> is_ok (dec s) \<longleftrightarrow> (\<nexists>x. enc x = Inr s)"
  by (simp add: is_ok_iff dec_iff)

end

interpretation base58: text_codec "\<lambda>bs. Inr (base58Encode bs) :: unit + jstr" base58Decode
  by unfold_locales (use base58_iff in auto)

subsection \<open>Length of the text\<close>

lemma length_digits_be: "2 \<le> b \<Longrightarrow> n < b ^ m \<Longrightarrow> length (digits_be b n) \<le> m"
proof (induction m arbitrary: n)
  case (Suc m)
  show ?case
  proof (cases "n = 0")
    case False
    have "n div b < b ^ m" using Suc.prems by (simp add: less_mult_imp_div_less mult.commute)
    then show ?thesis using False Suc by (simp add: digits_be_step)
  qed simp
qed simp

lemma value_be_less: "(\<forall>d \<in> set ds. d < b) \<Longrightarrow> value_be b ds < b ^ length ds"
proof (induction ds)
  case (Cons d ds)
  then have "d * b ^ length ds + value_be b ds < d * b ^ length ds + b ^ length ds" by simp
  also have "\<dots> = Suc d * b ^ length ds" by simp
  also have "\<dots> \<le> b * b ^ length ds" using Cons.prems by (intro mult_le_mono1) simp
  finally show ?case by (simp add: value_be_Cons)
qed simp

lemma pow_256_58: "256 ^ j \<le> (58 :: nat) ^ ((3 * j + 1) div 2)"
proof -
  have p: "65536 ^ i \<le> (195112 :: nat) ^ i" for i by (rule power_mono) simp_all
  show ?thesis
  proof (cases "even j")
    case True
    then obtain i where "j = 2 * i" by (elim evenE)
    then show ?thesis using p [of i] by (simp add: power_mult)
  next
    case False
    then obtain i where "j = 2 * i + 1" by (elim oddE)
    moreover have "65536 ^ i * 256 \<le> (195112 :: nat) ^ i * 3364" using p [of i] by (intro mult_le_mono) simp_all
    ultimately show ?thesis by (simp add: power_mult power_add)
  qed
qed

lemma length_base58Encode: "2 * length (base58Encode bs) \<le> 3 * length bs + 1"
proof -
  define ds where "ds = map unat bs"
  define r where "r = dropWhile (\<lambda>d. d = 0) ds"
  have b: "\<forall>d \<in> set r. d < 256" using unat_bytes [of bs] set_dropWhileD unfolding r_def ds_def by fast
  have len: "zeros ds + length r = length bs"
    unfolding zeros_def r_def by (metis ds_def length_append length_map takeWhile_dropWhile_id)
  have "takeWhile (\<lambda>d. d = 0) ds = replicate (zeros ds) 0"
    unfolding zeros_def by (intro replicate_eqI [symmetric, THEN sym]) (auto dest: set_takeWhileD)
  then have "ds = replicate (zeros ds) 0 @ r" by (metis r_def takeWhile_dropWhile_id)
  then have "value_be 256 ds = value_be 256 r" by (metis append_Nil value_be_append value_be_replicate_0 add_0 mult_0)
  also have "\<dots> < 58 ^ ((3 * length r + 1) div 2)" using value_be_less [OF b] pow_256_58 by (rule less_le_trans)
  finally have "length (digits_be 58 (value_be 256 ds)) \<le> (3 * length r + 1) div 2" by (simp add: length_digits_be)
  then show ?thesis using len by (simp add: base58Encode_rebase rebase_def ds_def)
qed

end
