(* ===== verification/Keys.thy ===== *)
theory Keys
  imports Base58
begin

text \<open>
  \<^verbatim>\<open>sdk/src/keys.ts\<close>: the text encodings of keys and signatures, the explicit checks that make
  signature verification strict, and the arithmetic behind key registration.  Signing and the
  verification equation itself are WebCrypto's; \<open>webcrypto_verify\<close> is a parameter that receives the
  public key, the signature and the message.  BigInt values are \<open>int\<close>, and \<open>js_rem\<close> is the
  operator \<open>%\<close>, whose sign is that of the dividend.
\<close>

definition PREFIX :: jstr where
  "PREFIX = js ''ed25519:''"

datatype key_error =
    MissingPrefix
  | BadBase58 base58_error
  | WrongDecodedLength nat
  | WrongLength
  | OffsetOutOfBounds

definition startsWith :: "jstr \<Rightarrow> jstr \<Rightarrow> bool" where
  "startsWith s p \<longleftrightarrow> take (length p) s = p"

definition stripPrefix :: "jstr \<Rightarrow> key_error + jstr" where
  "stripPrefix s = (if \<not> startsWith s PREFIX then Inl MissingPrefix else Inr (drop (length PREFIX) s))"

fun lift_b58 :: "base58_error + 'a \<Rightarrow> key_error + 'a" where
  "lift_b58 (Inl e) = Inl (BadBase58 e)"
| "lift_b58 (Inr x) = Inr x"

definition decode_prefixed :: "nat \<Rightarrow> jstr \<Rightarrow> key_error + byte list" where
  "decode_prefixed len s =
     ebind (stripPrefix s) (\<lambda>t.
     ebind (lift_b58 (base58Decode t)) (\<lambda>bytes.
     if length bytes \<noteq> len then Inl (WrongDecodedLength (length bytes)) else Inr bytes))"

definition encodeKeyId :: "byte list \<Rightarrow> key_error + jstr" where
  "encodeKeyId publicKey =
     (if length publicKey \<noteq> 32 then Inl WrongLength else Inr (PREFIX @ base58Encode publicKey))"

definition decodeKeyId :: "jstr \<Rightarrow> key_error + byte list" where
  "decodeKeyId keyId = decode_prefixed 32 keyId"

definition encodeSignature :: "byte list \<Rightarrow> key_error + jstr" where
  "encodeSignature sig =
     (if length sig \<noteq> 64 then Inl WrongLength else Inr (PREFIX @ base58Encode sig))"

definition decodeSignature :: "jstr \<Rightarrow> key_error + byte list" where
  "decodeSignature sig = decode_prefixed 64 sig"

text \<open>\<open>target.set(source, offset)\<close> of a typed array.\<close>

definition typed_set :: "byte list \<Rightarrow> nat \<Rightarrow> byte list \<Rightarrow> key_error + byte list" where
  "typed_set target offset source =
     (if length target < offset + length source then Inl OffsetOutOfBounds
      else Inr (take offset target @ source @ drop (offset + length source) target))"

definition encodeSecretKey :: "byte list \<times> byte list \<Rightarrow> key_error + jstr" where
  "encodeSecretKey kp =
     ebind (typed_set (replicate 64 0) 0 (fst kp)) (\<lambda>both.
     ebind (typed_set both 32 (snd kp)) (\<lambda>both.
     Inr (PREFIX @ base58Encode both)))"

definition decodeSecretKey :: "jstr \<Rightarrow> key_error + (byte list \<times> byte list)" where
  "decodeSecretKey secretKey =
     ebind (decode_prefixed 64 secretKey) (\<lambda>bytes. Inr (take 32 bytes, drop 32 bytes))"

subsection \<open>Strict verification\<close>

definition P :: int where
  "P = 2 ^ 255 - 19"

definition L :: int where
  "L = 2 ^ 252 + 27742317777372353535851937790883648493"

definition littleEndian :: "byte list \<Rightarrow> int" where
  "littleEndian bytes = foldr (\<lambda>b n. n * 256 + uint b) bytes 0"

definition sign_bit :: "byte list \<Rightarrow> int" where
  "sign_bit bytes = (if 31 < length bytes then uint (drop_bit 7 (bytes ! 31)) else 0)"

definition clear_sign :: "byte list \<Rightarrow> byte list" where
  "clear_sign bytes = bytes[31 := take_bit 7 (bytes ! 31)]"

definition canonicalPoint :: "byte list \<Rightarrow> bool" where
  "canonicalPoint bytes =
     (let y = littleEndian (clear_sign bytes) in
      y < P \<and> \<not> (sign_bit bytes = 1 \<and> (y = 1 \<or> y = P - 1)))"

definition verifyBytes ::
  "(byte list \<Rightarrow> byte list \<Rightarrow> byte list \<Rightarrow> bool) \<Rightarrow> jstr \<Rightarrow> byte list \<Rightarrow> byte list \<Rightarrow> key_error + bool" where
  "verifyBytes webcrypto_verify keyId message signature =
     ebind (decodeKeyId keyId) (\<lambda>publicKey. Inr (
       if length signature \<noteq> 64 \<or> \<not> canonicalPoint publicKey \<or> \<not> canonicalPoint (take 32 signature)
       then False
       else if littleEndian (drop 32 signature) \<ge> L then False
       else webcrypto_verify publicKey signature message))"

subsection \<open>Key registration\<close>

type_synonym point = "int \<times> int \<times> int \<times> int"

definition js_rem :: "int \<Rightarrow> int \<Rightarrow> int" where
  "js_rem a b = sgn a * (\<bar>a\<bar> mod \<bar>b\<bar>)"

definition mod_p :: "int \<Rightarrow> int" where
  "mod_p n = (let r = js_rem n P in if r < 0 then r + P else r)"

function modPow_loop :: "int \<Rightarrow> int \<Rightarrow> int \<Rightarrow> int" where
  "modPow_loop result base e =
     (if e \<le> 0 then result
      else modPow_loop (if odd e then js_rem (result * base) P else result) (js_rem (base * base) P) (e div 2))"
  by pat_completeness auto
termination
  by (relation "measure (\<lambda>(_, _, e). nat e)") auto

declare modPow_loop.simps [simp del]

definition modPow :: "int \<Rightarrow> int \<Rightarrow> int" where
  "modPow base e = modPow_loop 1 (js_rem base P) e"

definition D :: int where
  "D = mod_p (- 121665 * modPow 121666 (P - 2))"

definition SQRT_M1 :: int where
  "SQRT_M1 = modPow 2 ((P - 1) div 4)"

definition IDENTITY :: point where
  "IDENTITY = (0, 1, 1, 0)"

definition decodePoint :: "byte list \<Rightarrow> point option" where
  "decodePoint bytes =
     (if length bytes \<noteq> 32 \<or> \<not> canonicalPoint bytes then None
      else
        let sign = sign_bit bytes;
            y = littleEndian (clear_sign bytes);
            u = mod_p (y * y - 1);
            v = mod_p (D * y * y + 1);
            x2 = mod_p (u * modPow v (P - 2));
            x = modPow x2 ((P + 3) div 8);
            x = (if mod_p (x * x - x2) \<noteq> 0 then mod_p (x * SQRT_M1) else x) in
        if mod_p (x * x - x2) \<noteq> 0 then None
        else
          let x = (if x mod 2 \<noteq> sign then mod_p (- x) else x) in
          Some (x, y, 1, mod_p (x * y)))"

definition add_points :: "point \<Rightarrow> point \<Rightarrow> point" where
  "add_points p q = (case (p, q) of ((x1, y1, z1, t1), (x2, y2, z2, t2)) \<Rightarrow>
     let a = mod_p ((y1 - x1) * (y2 - x2)); b = mod_p ((y1 + x1) * (y2 + x2));
         c = mod_p (t1 * 2 * D * t2); d = mod_p (z1 * 2 * z2);
         e = b - a; f = d - c; g = d + c; h = b + a in
     (mod_p (e * f), mod_p (g * h), mod_p (f * g), mod_p (e * h)))"

function multiply_loop :: "point \<Rightarrow> point \<Rightarrow> int \<Rightarrow> point" where
  "multiply_loop result addend scalar =
     (if scalar \<le> 0 then result
      else multiply_loop (if odd scalar then add_points result addend else result)
             (add_points addend addend) (scalar div 2))"
  by pat_completeness auto
termination
  by (relation "measure (\<lambda>(_, _, s). nat s)") auto

declare multiply_loop.simps [simp del]

definition multiply :: "point \<Rightarrow> int \<Rightarrow> point" where
  "multiply p scalar = multiply_loop IDENTITY p scalar"

definition isIdentity :: "point \<Rightarrow> bool" where
  "isIdentity p = (case p of (x, y, z, _) \<Rightarrow> x = 0 \<and> y = z)"

datatype key_order = Order_invalid | Order_small | Order_mixed | Order_prime

definition keyOrder :: "byte list \<Rightarrow> key_order" where
  "keyOrder publicKey =
     (case decodePoint publicKey of
        None \<Rightarrow> Order_invalid
      | Some p \<Rightarrow>
          if isIdentity (multiply p 8) then Order_small
          else if isIdentity (multiply p L) then Order_prime else Order_mixed)"

definition registrableKey :: "jstr \<Rightarrow> bool" where
  "registrableKey keyId = (case decodeKeyId keyId of Inl _ \<Rightarrow> False | Inr b \<Rightarrow> keyOrder b = Order_prime)"

subsection \<open>Texts and bytes determine each other\<close>

lemma startsWith_iff: "startsWith s p \<longleftrightarrow> (\<exists>t. s = p @ t)"
  by (metis append_eq_conv_conj append_take_drop_id startsWith_def)

lemma stripPrefix_ok: "stripPrefix s = Inr t \<longleftrightarrow> s = PREFIX @ t"
  by (auto simp: stripPrefix_def startsWith_iff)

lemma lift_b58_ok [simp]: "lift_b58 m = Inr x \<longleftrightarrow> m = Inr x"
  by (cases m) auto

lemma decode_prefixed_ok:
  "decode_prefixed len s = Inr b \<longleftrightarrow> length b = len \<and> s = PREFIX @ base58Encode b"
  by (auto simp: decode_prefixed_def ok_iff stripPrefix_ok base58_iff)

interpretation key_id: text_codec encodeKeyId decodeKeyId
  by unfold_locales (auto simp: encodeKeyId_def decodeKeyId_def decode_prefixed_ok)

interpretation signature_text: text_codec encodeSignature decodeSignature
  by unfold_locales (auto simp: encodeSignature_def decodeSignature_def decode_prefixed_ok)

lemma base58Encode_inj: "base58Encode a = base58Encode b \<longleftrightarrow> a = b"
  by (metis base58_iff sum.inject(2))

text \<open>A key id and a public key determine each other, and so do a signature text and its bytes: no key and no
  signature has a second spelling that the decoders accept.\<close>

theorem key_texts_canonical:
  "(decodeKeyId s = Inr k \<longleftrightarrow> encodeKeyId k = Inr s) \<and> (decodeSignature t = Inr g \<longleftrightarrow> encodeSignature g = Inr t)"
  using key_id.dec_iff signature_text.dec_iff by blast

lemma secret_key_roundtrip:
  assumes "length seed = 32" "length pk = 32"
  shows "\<exists>s. encodeSecretKey (seed, pk) = Inr s \<and> decodeSecretKey s = Inr (seed, pk)"
  using assms decode_prefixed_ok [of 64 "PREFIX @ base58Encode (seed @ pk)" "seed @ pk"]
  by (simp add: encodeSecretKey_def decodeSecretKey_def typed_set_def)

subsection \<open>One signature per nonce point\<close>

lemma littleEndian_Nil [simp]: "littleEndian [] = 0"
  by (simp add: littleEndian_def)

lemma littleEndian_Cons [simp]: "littleEndian (b # bs) = littleEndian bs * 256 + uint b"
  by (simp add: littleEndian_def)

lemma littleEndian_zeros [simp]: "littleEndian (replicate n 0) = 0"
  by (induction n) simp_all

lemma littleEndian_nonneg: "0 \<le> littleEndian bs"
  by (induction bs) simp_all

lemma last_digit: "0 \<le> x \<Longrightarrow> x < 256 \<Longrightarrow> 0 \<le> y \<Longrightarrow> y < 256 \<Longrightarrow> a * 256 + x = c * 256 + y \<Longrightarrow> a = c \<and> x = (y :: int)"
proof -
  assume b: "0 \<le> x" "x < 256" "0 \<le> y" "y < 256" and eq: "a * 256 + x = c * 256 + y"
  have "(a * 256 + x) mod 256 = (c * 256 + y) mod 256" using eq by (rule arg_cong)
  then have "x = y" using b by simp
  with eq show ?thesis by simp
qed

lemma littleEndian_inj: "length a = length b \<Longrightarrow> littleEndian a = littleEndian b \<Longrightarrow> a = b"
proof (induction a b rule: list_induct2)
  case (Cons x xs y ys)
  have b: "uint z < 256" for z :: byte using uint_bounded [of z] by simp
  have "littleEndian xs = littleEndian ys \<and> uint x = uint y"
    by (rule last_digit) (use Cons.prems b in simp_all)
  with Cons show ?case by (auto simp: word_uint_eq_iff)
qed simp

lemma verifyBytes_true:
  "verifyBytes V k m s = Inr True \<longleftrightarrow>
   (\<exists>pk. decodeKeyId k = Inr pk \<and> length s = 64 \<and> canonicalPoint pk \<and> canonicalPoint (take 32 s) \<and>
     littleEndian (drop 32 s) < L \<and> V pk s m)"
  by (cases "decodeKeyId k") (auto simp: verifyBytes_def not_le)

text \<open>C4. Strictness: of all the 64-byte strings with one nonce point whose scalars agree modulo the group order,
  at most one verifies, so a third party cannot turn a signature into another one by adding the order to it.\<close>

theorem verifyBytes_not_malleable:
  assumes "verifyBytes V k m s = Inr True" "verifyBytes V k m' s' = Inr True"
    and "take 32 s = take 32 s'" "littleEndian (drop 32 s) mod L = littleEndian (drop 32 s') mod L"
  shows "s = s'"
proof -
  have len: "length s = 64" "length s' = 64" and l: "littleEndian (drop 32 s) < L" "littleEndian (drop 32 s') < L"
    using assms(1,2) by (auto simp: verifyBytes_true)
  then have "littleEndian (drop 32 s) = littleEndian (drop 32 s')"
    using assms(4) littleEndian_nonneg by (metis mod_pos_pos_trivial)
  then have "drop 32 s = drop 32 s'" using len by (intro littleEndian_inj) simp_all
  then show ?thesis using assms(3) by (metis append_take_drop_id)
qed

lemma verifyBytes_not_malleable_witness:
  "verifyBytes (\<lambda>_ _ _. True) (PREFIX @ base58Encode (replicate 32 0)) [] (replicate 32 0 @
     [0xed, 0xd3, 0xf5, 0x5c, 0x1a, 0x63, 0x12, 0x58, 0xd6, 0x9c, 0xf7, 0xa2, 0xde, 0xf9, 0xde, 0x14,
      0, 0, 0, 0, 0, 0, 0, 0, 0, 0, 0, 0, 0, 0, 0, 0x10]) \<noteq> Inr True"
proof
  let ?k = "PREFIX @ base58Encode (replicate 32 0)"
  let ?s' = "replicate 32 (0 :: byte) @ [0xed, 0xd3, 0xf5, 0x5c, 0x1a, 0x63, 0x12, 0x58, 0xd6, 0x9c, 0xf7, 0xa2, 0xde, 0xf9, 0xde, 0x14,
      0, 0, 0, 0, 0, 0, 0, 0, 0, 0, 0, 0, 0, 0, 0, 0x10]"
  assume v: "verifyBytes (\<lambda>_ _ _. True) ?k [] ?s' = Inr True"
  have k: "decodeKeyId ?k = Inr (replicate 32 0)"
    by (rule key_id.decode_encode) (simp add: encodeKeyId_def)
  have z: "canonicalPoint (replicate 32 0)" by code_simp
  have "verifyBytes (\<lambda>_ _ _. True) ?k [] (replicate 64 0) = Inr True"
    using k z by (simp add: verifyBytes_true) (simp add: L_def)
  then have "replicate 64 0 = ?s'"
    using v by (rule verifyBytes_not_malleable) (simp, simp add: L_def)
  moreover have "replicate 64 0 \<noteq> ?s'" by code_simp
  ultimately show False by blast
qed

subsection \<open>Field arithmetic\<close>

lemma P_pos: "0 < P"
  by (simp add: P_def)

lemma mod_p_eq: "mod_p n = n mod P"
proof (cases "0 \<le> n")
  case True
  then show ?thesis using P_pos pos_mod_sign [OF P_pos, of n]
    by (cases "n = 0") (simp_all add: mod_p_def js_rem_def Let_def sgn_if not_less)
next
  case False
  then show ?thesis using P_pos pos_mod_bound [OF P_pos, of n]
    by (auto simp: mod_p_def js_rem_def Let_def zmod_zminus1_eq_if not_less dest: leD)
qed

lemma js_rem_pos: "0 \<le> a \<Longrightarrow> js_rem a P = a mod P"
  using P_pos by (cases "a = 0") (simp_all add: js_rem_def)

lemma modPow_loop_eq:
  "0 \<le> r \<Longrightarrow> 0 \<le> b \<Longrightarrow> modPow_loop (r mod P) b e = r * b ^ nat e mod P"
proof (induction "nat e" arbitrary: r b e rule: less_induct)
  case less
  show ?case
  proof (cases "e \<le> 0")
    case True
    then show ?thesis by (simp add: modPow_loop.simps)
  next
    case False
    define h where "h = nat (e div 2)"
    have bb: "0 \<le> b * b mod P" using P_pos by simp
    have e: "nat e = (if odd e then Suc (2 * h) else 2 * h)"
    proof -
      have "e = 2 * (e div 2) + (if odd e then 1 else 0)" by presburger
      moreover have "int h = e div 2" using False by (simp add: h_def)
      ultimately have "e = int (if odd e then Suc (2 * h) else 2 * h)" by presburger
      then show ?thesis by (metis nat_int)
    qed
    have h: "h < nat e" using False by (simp add: h_def)
    have "modPow_loop (r mod P) b e =
        modPow_loop ((if odd e then r * b else r) mod P) (b * b mod P) (e div 2)"
      using False less.prems P_pos by (subst modPow_loop.simps) (simp add: js_rem_pos mod_mult_left_eq)
    also have "\<dots> = (if odd e then r * b else r) * (b * b mod P) ^ h mod P"
      unfolding h_def using less.prems bb h h_def by (intro less.hyps) auto
    also have "\<dots> = (if odd e then r * b else r) * (b * b) ^ h mod P"
      by (metis mod_mult_right_eq power_mod)
    also have "(if odd e then r * b else r) * (b * b) ^ h = r * b ^ nat e"
      by (simp add: e power_mult power2_eq_square)
    finally show ?thesis .
  qed
qed

text \<open>\<open>modPow\<close> computes the power modulo the field prime, for every non-negative base and every exponent.\<close>

theorem modPow_correct:
  assumes "0 \<le> b"
  shows "modPow b e = b ^ nat e mod P"
proof -
  have "1 mod P = 1" by (simp add: P_def)
  then have "modPow b e = (b mod P) ^ nat e mod P"
    using modPow_loop_eq [of 1 "b mod P" e] P_pos assms by (simp add: modPow_def js_rem_pos)
  then show ?thesis by (simp add: power_mod)
qed

lemma modPow_correct_witness: "modPow 2 10 = 1024"
  by (subst modPow_correct) (simp_all add: P_def)

end
