(* ===== verification/Envelope.thy ===== *)
theory Envelope
  imports Keys SafeJsonSpec
begin

text \<open>
  \<^verbatim>\<open>sdk/src/envelope.ts\<close> and \<^verbatim>\<open>sdk/src/sign.ts\<close>: the signed part of a record, and how a record is signed
  and verified.  An envelope is the member list of a JavaScript object, since the store hands over
  whatever it parsed.  Parameters: \<open>ed25519_sign\<close> (seed, message), \<open>webcrypto_verify\<close> (public key,
  signature, message) and \<open>sha256Hex\<close>, all WebCrypto.
\<close>

definition SIGNED_FIELDS :: "jstr list" where
  "SIGNED_FIELDS = map js [
     ''record_id'', ''root_id'', ''type'', ''namespace'', ''schema_version'', ''subject_company_id'',
     ''counterparty_ids'', ''issuer'', ''visibility'', ''created_at'', ''supersedes'', ''body'']"

definition namespaceOf :: "jstr \<Rightarrow> jstr" where
  "namespaceOf type = (if jc (CHR ''.'') \<in> set type then takeWhile (\<lambda>c. c \<noteq> jc (CHR ''.'')) type else type)"

definition signed_value :: "members \<Rightarrow> jstr \<Rightarrow> jval" where
  "signed_value src f =
     (let v = (if member src f = JUndef then JNull else member src f) in
      if f = js ''counterparty_ids'' \<and> v = JNull then JArr [] else v)"

definition signingObject :: "members \<Rightarrow> members" where
  "signingObject src = map (\<lambda>f. (f, signed_value src f)) SIGNED_FIELDS"

definition signingInput :: "members \<Rightarrow> canon_error + byte list" where
  "signingInput env = canonicalBytes (JObj (signingObject env))"

definition payloadHash :: "(byte list \<Rightarrow> jstr) \<Rightarrow> members \<Rightarrow> canon_error + jstr" where
  "payloadHash sha256Hex env = ebind (signingInput env) (\<lambda>b. Inr (sha256Hex b))"

datatype sign_error = UnsafeNameToSign jstr nat | Canon canon_error | KeyErr key_error

definition signBytes :: "(byte list \<Rightarrow> byte list \<Rightarrow> byte list) \<Rightarrow> jstr \<Rightarrow> byte list \<Rightarrow> key_error + byte list" where
  "signBytes ed25519_sign secretKey message =
     ebind (decodeSecretKey secretKey) (\<lambda>(seed, _). Inr (ed25519_sign seed message))"

definition signRecord ::
  "(byte list \<Rightarrow> byte list \<Rightarrow> byte list) \<Rightarrow> members \<Rightarrow> jstr \<Rightarrow> sign_error + members" where
  "signRecord ed25519_sign env secretKey =
     (let base = signingObject env in
      ebind (map_err (\<lambda>(name, i). UnsafeNameToSign name i) (assertSafeMemberNames (JObj base))) (\<lambda>_.
      ebind (map_err Canon (canonicalBytes (JObj base))) (\<lambda>bytes.
      ebind (map_err KeyErr (signBytes ed25519_sign secretKey bytes)) (\<lambda>sig.
      ebind (map_err KeyErr (encodeSignature sig)) (\<lambda>text.
      Inr (base @ [(js ''signature'', JStr text)]))))))"

datatype verify_error = DoesNotVerify | NotAString | KeyProblem key_error

record verify_result =
  vr_ok :: bool
  vr_payload_hash :: jstr
  vr_key_id :: jval
  vr_error :: "verify_error option"

text \<open>
  The body of the \<open>try\<close>: the signature is decoded before \<open>verifyBytes\<close> runs, and a value that is
  not a string makes \<open>startsWith\<close> throw.
\<close>

definition verify_attempt ::
  "(byte list \<Rightarrow> byte list \<Rightarrow> byte list \<Rightarrow> bool) \<Rightarrow> jval \<Rightarrow> byte list \<Rightarrow> jval \<Rightarrow> verify_error + bool" where
  "verify_attempt webcrypto_verify key_id input signature =
     (case str_of signature of
        None \<Rightarrow> Inl NotAString
      | Some s \<Rightarrow>
          ebind (map_err KeyProblem (decodeSignature s)) (\<lambda>raw.
          case str_of key_id of
            None \<Rightarrow> Inl NotAString
          | Some k \<Rightarrow> map_err KeyProblem (verifyBytes webcrypto_verify k input raw)))"

definition verifyRecord ::
  "(byte list \<Rightarrow> byte list \<Rightarrow> byte list \<Rightarrow> bool) \<Rightarrow> (byte list \<Rightarrow> jstr) \<Rightarrow> members \<Rightarrow>
   canon_error + verify_result" where
  "verifyRecord webcrypto_verify sha256Hex env =
     ebind (signingInput env) (\<lambda>input.
     let k = field (member env (js ''issuer'')) (js ''key_id'');
         key_id = (if nullish k then JStr [] else k) in
     Inr (case verify_attempt webcrypto_verify key_id input (member env (js ''signature'')) of
        Inl e \<Rightarrow> \<lparr> vr_ok = False, vr_payload_hash = sha256Hex input, vr_key_id = key_id, vr_error = Some e \<rparr>
      | Inr ok \<Rightarrow> \<lparr> vr_ok = ok, vr_payload_hash = sha256Hex input, vr_key_id = key_id,
          vr_error = (if ok then None else Some DoesNotVerify) \<rparr>))"

subsection \<open>What is signed\<close>

lemma distinct_SIGNED_FIELDS: "distinct SIGNED_FIELDS"
  by (simp add: SIGNED_FIELDS_def)

lemma map_fst_signingObject [simp]: "map fst (signingObject env) = SIGNED_FIELDS"
  by (simp add: signingObject_def comp_def)

lemma member_map: "member (map (\<lambda>f. (f, g f)) fs) k = (if k \<in> set fs then g k else JUndef)"
  by (induction fs) auto

lemma member_append: "member (kvs @ kws) k = (if k \<in> set (map fst kvs) then member kvs k else member kws k)"
  by (auto simp: member_def map_add_def map_of_eq_None_iff split: option.splits)
    (metis domI dom_map_of_conv_image_fst)+

lemma member_signingObject:
  "member (signingObject env) f = (if f \<in> set SIGNED_FIELDS then signed_value env f else JUndef)"
  by (simp add: signingObject_def member_map)

lemma signed_value_defined [simp]: "signed_value env f \<noteq> JUndef"
  by (simp add: signed_value_def Let_def)

lemma signingObject_idem: "signingObject (signingObject env @ kvs) = signingObject env"
  by (auto simp: signingObject_def signed_value_def Let_def member_append member_map comp_def)

lemma sort_key_fst_map: "distinct ks \<Longrightarrow> sort_key fst (map (\<lambda>k. (k, g k)) ks) = map (\<lambda>k. (k, g k)) (sort ks)"
proof (rule map_sorted_distinct_set_unique [of fst])
  assume d: "distinct ks"
  show "inj_on fst (set (sort_key fst (map (\<lambda>k. (k, g k)) ks)) \<union> set (map (\<lambda>k. (k, g k)) (sort ks)))"
    by (auto intro: inj_onI)
  show "distinct (map fst (sort_key fst (map (\<lambda>k. (k, g k)) ks)))"
    using d by (simp add: distinct_map inj_on_def) 
qed (simp_all add: comp_def)

lemma sorted_members_defined:
  assumes "distinct ks" "\<forall>k \<in> set ks. g k \<noteq> JUndef"
  shows "sorted_members (map (\<lambda>k. (k, g k)) ks) = map (\<lambda>k. (k, g k)) (sort ks)"
  using assms by (simp add: sorted_members_def filter_id_conv [THEN iffD2] sort_key_fst_map)

lemma norm_members_eq_iff:
  assumes "distinct ks" "\<forall>k \<in> set ks. g k \<noteq> JUndef \<and> h k \<noteq> JUndef"
  shows "norm (JObj (map (\<lambda>k. (k, g k)) ks)) = norm (JObj (map (\<lambda>k. (k, h k)) ks)) \<longleftrightarrow>
     (\<forall>k \<in> set ks. norm (g k) = norm (h k))"
  using assms by (simp add: sorted_members_defined comp_def)

lemma is_ok_signingInput: "is_ok (signingInput env) \<longleftrightarrow> is_ok (canonicalize (JObj (signingObject env)))"
  by (auto simp: signingInput_def canonicalBytes_def is_ok_iff ok_iff)

lemma signingInput_eq_iff:
  assumes "signingInput env = Inr b"
  shows "signingInput env' = Inr b \<longleftrightarrow>
     (\<forall>f \<in> set SIGNED_FIELDS. norm (signed_value env f) = norm (signed_value env' f))"
proof -
  have "signingInput env' = Inr b \<longleftrightarrow> norm (JObj (signingObject env)) = norm (JObj (signingObject env'))"
    using assms unfolding signingInput_def by (rule canonicalBytes_eq_iff)
  then show ?thesis
    using norm_members_eq_iff [of SIGNED_FIELDS "signed_value env" "signed_value env'"]
    by (simp add: signingObject_def distinct_SIGNED_FIELDS del: norm.simps)
qed

text \<open>C6. A signature covers every signed field and nothing else: two envelopes have the same signing input exactly
  when each of the twelve signed fields has the same content, a missing field counting as null and missing
  counterparties as none.\<close>

theorem signing_input_covers_fields:
  assumes "signingInput env = Inr b"
  shows "signingInput env' = Inr b \<longleftrightarrow>
     (\<forall>f \<in> set SIGNED_FIELDS. norm (signed_value env f) = norm (signed_value env' f))"
  using assms by (rule signingInput_eq_iff)

lemma signing_input_covers_fields_witness:
  "signingInput [(js ''visibility'', JStr (js ''public''))] \<noteq> signingInput [(js ''visibility'', JStr (js ''private''))]"
proof -
  have ok: "is_ok (signingInput [(js ''visibility'', JStr (js ''public''))])"
    unfolding is_ok_signingInput by code_simp
  then obtain b where b: "signingInput [(js ''visibility'', JStr (js ''public''))] = Inr b" by (auto simp: is_ok_iff)
  have "js ''visibility'' \<in> set SIGNED_FIELDS" by (simp add: SIGNED_FIELDS_def)
  then show ?thesis
    using signing_input_covers_fields [OF b, of "[(js ''visibility'', JStr (js ''private''))]"]
    by (auto simp: b signed_value_def Let_def)
qed

lemma signingInput_signed: "signingInput (signingObject env @ kvs) = signingInput env"
  by (simp add: signingInput_def signingObject_idem)

subsection \<open>Signing and verifying\<close>

text \<open>
  What RFC 8032 promises of the platform's Ed25519: keys and signatures have their sizes, both are
  canonically encoded, and a signature verifies under the public key of its seed.
\<close>

definition ed25519_contract ::
  "(byte list \<Rightarrow> byte list \<Rightarrow> byte list) \<Rightarrow> (byte list \<Rightarrow> byte list \<Rightarrow> byte list \<Rightarrow> bool) \<Rightarrow>
   (byte list \<Rightarrow> byte list) \<Rightarrow> bool" where
  "ed25519_contract ed25519_sign webcrypto_verify public_key \<longleftrightarrow>
     (\<forall>seed m. length seed = 32 \<longrightarrow>
        length (public_key seed) = 32 \<and> canonicalPoint (public_key seed) \<and>
        length (ed25519_sign seed m) = 64 \<and> canonicalPoint (take 32 (ed25519_sign seed m)) \<and>
        littleEndian (drop 32 (ed25519_sign seed m)) < L \<and>
        webcrypto_verify (public_key seed) (ed25519_sign seed m) m)"

lemma contract_verifies:
  assumes "ed25519_contract S V pub" "length seed = 32" "encodeKeyId (pub seed) = Inr kid"
  shows "verifyBytes V kid m (S seed m) = Inr True"
  using assms key_id.decode_encode [OF assms(3)]
  by (simp add: verifyBytes_true ed25519_contract_def)

lemma decode_own_secret:
  assumes "length seed = 32" "length pk = 32" "encodeSecretKey (seed, pk) = Inr sk"
  shows "decodeSecretKey sk = Inr (seed, pk)"
  using secret_key_roundtrip [OF assms(1,2)] assms(3) by auto

lemma verifyRecord_ok_iff:
  assumes "verifyRecord V H env = Inr r"
  shows "vr_ok r \<longleftrightarrow>
     (\<exists>b k s raw. signingInput env = Inr b \<and> field (member env (js ''issuer'')) (js ''key_id'') = JStr k \<and>
        member env (js ''signature'') = JStr s \<and> decodeSignature s = Inr raw \<and> verifyBytes V k b raw = Inr True)"
proof -
  obtain b where b: "signingInput env = Inr b" using assms by (auto simp: verifyRecord_def ok_iff)
  define k where "k = field (member env (js ''issuer'')) (js ''key_id'')"
  have empty: "verifyBytes V [] b raw \<noteq> Inr True" for raw
    by (auto simp: verifyBytes_true decodeKeyId_def decode_prefixed_ok PREFIX_def)
  have "vr_ok r \<longleftrightarrow> verify_attempt V (if nullish k then JStr [] else k) b (member env (js ''signature'')) = Inr True"
    using assms by (auto simp: verifyRecord_def b Let_def k_def split: sum.splits)
  also have "\<dots> \<longleftrightarrow> (\<exists>kt s raw. k = JStr kt \<and> member env (js ''signature'') = JStr s \<and>
      decodeSignature s = Inr raw \<and> verifyBytes V kt b raw = Inr True)"
    using empty by (cases k) (auto simp: verify_attempt_def nullish_def ok_iff split: option.splits)
  finally show ?thesis by (simp add: b k_def)
qed

text \<open>\<open>verifyRecord\<close> accepts exactly when the issuer's key, read from the signed part, has made a signature over
  the canonical bytes of the twelve signed fields that passes strict verification.\<close>

theorem verifyRecord_accepts_iff:
  assumes "verifyRecord V H env = Inr r"
  shows "vr_ok r \<longleftrightarrow>
     (\<exists>b k s raw. signingInput env = Inr b \<and> field (member env (js ''issuer'')) (js ''key_id'') = JStr k \<and>
        member env (js ''signature'') = JStr s \<and> decodeSignature s = Inr raw \<and> verifyBytes V k b raw = Inr True)"
  using assms by (rule verifyRecord_ok_iff)

lemma verifyRecord_accepts_iff_witness:
  "\<exists>r. verifyRecord (\<lambda>_ _ _. True) (\<lambda>_. []) [(js ''type'', JStr (js ''core.company''))] = Inr r \<and> \<not> vr_ok r"
proof -
  have "is_ok (signingInput [(js ''type'', JStr (js ''core.company''))])"
    unfolding is_ok_signingInput by code_simp
  then obtain r where r: "verifyRecord (\<lambda>_ _ _. True) (\<lambda>_. []) [(js ''type'', JStr (js ''core.company''))] = Inr r"
    by (auto simp: verifyRecord_def is_ok_iff Let_def)
  show ?thesis using verifyRecord_accepts_iff [OF r] r by auto
qed

text \<open>C7. A record signed with an encoded secret key verifies under the issuer's key id, with the hash of the bytes that
  were signed.\<close>

theorem sign_then_verify:
  assumes "ed25519_contract S V pub" "length seed = 32"
    and "encodeSecretKey (seed, pub seed) = Inr sk" "encodeKeyId (pub seed) = Inr kid"
    and "field (signed_value env (js ''issuer'')) (js ''key_id'') = JStr kid"
    and "signRecord S env sk = Inr env'"
  shows "\<exists>b. signingInput env = Inr b \<and>
     verifyRecord V H env' = Inr \<lparr> vr_ok = True, vr_payload_hash = H b, vr_key_id = JStr kid, vr_error = None \<rparr>"
proof -
  have pk: "length (pub seed) = 32" using assms(1,2) by (simp add: ed25519_contract_def)
  note sk = decode_own_secret [OF assms(2) pk assms(3)]
  from assms(6) obtain b t where b: "signingInput env = Inr b" "encodeSignature (S seed b) = Inr t"
      and env': "env' = signingObject env @ [(js ''signature'', JStr t)]"
    by (auto simp: signRecord_def signingInput_def Let_def ok_iff signBytes_def sk)
  have fields: "js ''issuer'' \<in> set SIGNED_FIELDS" "js ''signature'' \<notin> set SIGNED_FIELDS"
    by (auto simp: SIGNED_FIELDS_def)
  have "signingInput env' = Inr b" using b(1) by (simp add: env' signingInput_signed)
  moreover have "member env' (js ''issuer'') = signed_value env (js ''issuer'')"
    "member env' (js ''signature'') = JStr t"
    using fields by (simp_all add: env' member_append member_signingObject)
  moreover have "decodeSignature t = Inr (S seed b)" using b(2) by (rule signature_text.decode_encode)
  moreover have "verifyBytes V kid b (S seed b) = Inr True"
    using assms(1,2,4) by (rule contract_verifies)
  ultimately show ?thesis
    using assms(5) b(1) by (simp add: verifyRecord_def verify_attempt_def Let_def nullish_def)
qed

lemma sign_then_verify_witness:
  "\<exists>env' b. verifyRecord (\<lambda>_ _ _. True) (\<lambda>_. []) env' =
     Inr \<lparr> vr_ok = True, vr_payload_hash = [], vr_key_id = JStr (js ''ed25519:11111111111111111111111111111111''),
       vr_error = None \<rparr> \<and>
     signingInput [(js ''issuer'', JObj [(js ''key_id'', JStr (js ''ed25519:11111111111111111111111111111111''))])] = Inr b"
proof -
  let ?S = "\<lambda>_ _. replicate 64 (0 :: byte)" and ?pub = "\<lambda>_. replicate 32 (0 :: byte)"
  let ?env = "[(js ''issuer'', JObj [(js ''key_id'', JStr (js ''ed25519:11111111111111111111111111111111''))])]"
  have contract: "ed25519_contract ?S (\<lambda>_ _ _. True) ?pub"
  proof -
    have "canonicalPoint (replicate 32 0)" by code_simp
    then show ?thesis by (simp add: ed25519_contract_def L_def)
  qed
  obtain sk where sk: "encodeSecretKey (replicate 32 0, ?pub (replicate 32 0)) = Inr sk"
    using secret_key_roundtrip [of "replicate 32 0" "replicate 32 0"] by auto
  have kid: "encodeKeyId (?pub (replicate 32 0)) = Inr (js ''ed25519:11111111111111111111111111111111'')"
    by code_simp
  have "is_ok (assertSafeMemberNames (JObj (signingObject ?env)))" "is_ok (signingInput ?env)"
    unfolding is_ok_signingInput by code_simp+
  then obtain b env' where b: "signingInput ?env = Inr b" and env': "signRecord ?S ?env sk = Inr env'"
    using decode_own_secret [OF _ _ sk]
    by (auto simp: is_ok_iff signRecord_def signBytes_def signingInput_def encodeSignature_def Let_def)
  have "field (signed_value ?env (js ''issuer'')) (js ''key_id'') = JStr (js ''ed25519:11111111111111111111111111111111'')"
    by (simp add: signed_value_def Let_def)
  from sign_then_verify [OF contract _ sk kid this env', of "\<lambda>_. []"] b show ?thesis by auto
qed

end
