(* ===== verification/Core1Envelope.thy ===== *)
theory Core1Envelope
  imports Envelope
begin

text \<open>
  \<^verbatim>\<open>sdk/src/core1/envelope.ts\<close>: the one signed envelope of Core-1, several signatures over the
  canonical bytes of \<open>{ domain, body }\<close>.  A refusal keeps which rule refused; the code's two error
  codes are the two constructors of \<open>envelope_error\<close>.
\<close>

definition CORE1_DOMAINS :: "jstr list" where
  "CORE1_DOMAINS = map js [
     ''DTP-PERSON-GENESIS-1'', ''DTP-IDENTITY-TRANSITION-1'', ''DTP-IDENTITY-REHOME-1'',
     ''DTP-IDENTITY-LOG-HEAD-1'', ''DTP-ORGANIZATION-GENESIS-1'', ''DTP-ORGANIZATION-TRANSITION-1'',
     ''DTP-ORGANIZATION-CONSENT-1'', ''DTP-RECORD-1'']"

datatype refusal =
    NotADomain | BadMembers | TooDeep | NoKeys | SignsTwice jstr | NotAnEnvelope | BadSignatureCount
  | NotIJson canon_error | TooLong | EntryNotObject | BadEntry | NotAKeyId

datatype envelope_error = InvalidEnvelope refusal | InvalidSignature jstr

text \<open>
  The regular expression \<open>DOMAIN\<close>.  Its words contain no hyphen, so it matches a text whose parts
  between hyphens are \<open>DTP\<close>, at least one upper-case word, and a number without a leading zero.
\<close>

fun split_on :: "cunit \<Rightarrow> jstr \<Rightarrow> jstr list" where
  "split_on c [] = [[]]"
| "split_on c (x # xs) = (if x = c then [] # split_on c xs
     else (case split_on c xs of [] \<Rightarrow> [[x]] | w # ws \<Rightarrow> (x # w) # ws))"

definition is_upper :: "cunit \<Rightarrow> bool" where
  "is_upper c \<longleftrightarrow> 0x41 \<le> c \<and> c \<le> 0x5a"

definition domain_word :: "jstr \<Rightarrow> bool" where
  "domain_word w \<longleftrightarrow> w \<noteq> [] \<and> is_upper (hd w) \<and> (\<forall>c \<in> set (tl w). is_upper c \<or> is_digit c)"

definition domain_version :: "jstr \<Rightarrow> bool" where
  "domain_version w \<longleftrightarrow> w \<noteq> [] \<and> is_digit (hd w) \<and> hd w \<noteq> 0x30 \<and> (\<forall>c \<in> set (tl w). is_digit c)"

definition is_domain :: "jstr \<Rightarrow> bool" where
  "is_domain s =
     (case split_on (jc (CHR ''-'')) s of
        p # rest \<Rightarrow> p = js ''DTP'' \<and> 2 \<le> length rest \<and> (\<forall>w \<in> set (butlast rest). domain_word w) \<and>
          domain_version (last rest)
      | [] \<Rightarrow> False)"

definition exactly :: "members \<Rightarrow> jstr list \<Rightarrow> bool" where
  "exactly value ms \<longleftrightarrow> length value = length ms \<and> (\<forall>m \<in> set ms. m \<in> set (map fst value))"

definition MAX_DEPTH :: nat where
  "MAX_DEPTH = 48"

definition assertDepth :: "jval \<Rightarrow> envelope_error + unit" where
  "assertDepth body = guard (nesting_loop MAX_DEPTH [(body, 0)]) (InvalidEnvelope TooDeep)"

datatype input_error = Refused envelope_error | CanonErr canon_error

definition domainInput :: "jstr \<Rightarrow> jval \<Rightarrow> input_error + byte list" where
  "domainInput domain body =
     (if \<not> is_domain domain then Inl (Refused (InvalidEnvelope NotADomain))
      else map_err CanonErr (canonicalBytes (JObj [(js ''domain'', JStr domain), (js ''body'', body)])))"

subsection \<open>Signing\<close>

fun has_function :: "jval \<Rightarrow> bool" where
  "has_function JFun = True"
| "has_function (JArr vs) = (\<exists>v \<in> set vs. has_function v)"
| "has_function (JObj kvs) = (\<exists>kv \<in> set kvs. has_function (snd kv))"
| "has_function _ = False"

datatype sign_failure = Envelope envelope_error | DataCloneError | NameErr jstr nat | Input input_error | Key key_error

type_synonym sig_entry = "jstr \<times> jstr"

fun sign_loop ::
  "(byte list \<Rightarrow> byte list \<Rightarrow> byte list) \<Rightarrow> byte list \<Rightarrow> jstr list \<Rightarrow> sig_entry list \<Rightarrow>
   sign_failure + sig_entry list" where
  "sign_loop S bytes [] signatures = Inr signatures"
| "sign_loop S bytes (secret # secrets) signatures =
     ebind (map_err Key (decodeSecretKey secret)) (\<lambda>(seed, publicKey).
     ebind (map_err Key (encodeKeyId publicKey)) (\<lambda>keyId.
     if keyId \<in> set (map fst signatures) then Inl (Envelope (InvalidEnvelope (SignsTwice keyId)))
     else
       ebind (map_err Key (encodeSignature (S seed bytes))) (\<lambda>text.
       sign_loop S bytes secrets (signatures @ [(keyId, text)]))))"

definition signEnvelope ::
  "(byte list \<Rightarrow> byte list \<Rightarrow> byte list) \<Rightarrow> jstr \<Rightarrow> jval \<Rightarrow> jstr list \<Rightarrow>
   sign_failure + (jval \<times> sig_entry list)" where
  "signEnvelope S domain body secretKeys =
     (if secretKeys = [] then Inl (Envelope (InvalidEnvelope NoKeys))
      else
        ebind (map_err Envelope (assertDepth body)) (\<lambda>_.
        ebind (guard (\<not> has_function body) DataCloneError) (\<lambda>_.
        ebind (map_err (\<lambda>(n, i). NameErr n i) (assertSafeMemberNames body)) (\<lambda>_.
        ebind (map_err Input (domainInput domain body)) (\<lambda>bytes.
        ebind (sign_loop S bytes secretKeys []) (\<lambda>signatures. Inr (body, signatures)))))))"

definition entry_value :: "sig_entry \<Rightarrow> jval" where
  "entry_value e = JObj [(js ''key_id'', JStr (fst e)), (js ''signature'', JStr (snd e))]"

definition signed_value_of :: "jval \<times> sig_entry list \<Rightarrow> jval" where
  "signed_value_of s = JObj [(js ''body'', fst s), (js ''signatures'', JArr (map entry_value (snd s)))]"

subsection \<open>Verifying\<close>

definition check_entry ::
  "(byte list \<Rightarrow> byte list \<Rightarrow> byte list \<Rightarrow> bool) \<Rightarrow> byte list \<Rightarrow> jstr list \<Rightarrow> jval \<Rightarrow> envelope_error + jstr" where
  "check_entry V bytes signers entry =
     (case entry of
        JObj s \<Rightarrow>
          if \<not> exactly s [js ''key_id'', js ''signature''] then Inl (InvalidEnvelope BadMembers)
          else (case (member s (js ''key_id''), member s (js ''signature'')) of
             (JStr keyId, JStr sg) \<Rightarrow>
               if length sg > 128 then Inl (InvalidEnvelope BadEntry)
               else if \<not> is_ok (decodeKeyId keyId) then Inl (InvalidEnvelope NotAKeyId)
               else if keyId \<in> set signers then Inl (InvalidEnvelope (SignsTwice keyId))
               else (case decodeSignature sg of
                   Inl _ \<Rightarrow> Inl (InvalidSignature keyId)
                 | Inr raw \<Rightarrow>
                     if verifyBytes V keyId bytes raw = Inr True then Inr keyId else Inl (InvalidSignature keyId))
           | _ \<Rightarrow> Inl (InvalidEnvelope BadEntry))
      | _ \<Rightarrow> Inl (InvalidEnvelope EntryNotObject))"

fun verify_loop ::
  "(byte list \<Rightarrow> byte list \<Rightarrow> byte list \<Rightarrow> bool) \<Rightarrow> byte list \<Rightarrow> jval list \<Rightarrow> jstr list \<Rightarrow>
   envelope_error + jstr list" where
  "verify_loop V bytes [] signers = Inr signers"
| "verify_loop V bytes (entry # list) signers =
     ebind (check_entry V bytes signers entry) (\<lambda>keyId. verify_loop V bytes list (signers @ [keyId]))"

definition verify_input :: "jstr \<Rightarrow> jval \<Rightarrow> envelope_error + byte list" where
  "verify_input domain body =
     (case domainInput domain body of
        Inl (CanonErr e) \<Rightarrow> Inl (InvalidEnvelope (NotIJson e))
      | Inl (Refused e) \<Rightarrow> Inl e
      | Inr bytes \<Rightarrow> Inr bytes)"

definition verifyEnvelope ::
  "(byte list \<Rightarrow> byte list \<Rightarrow> byte list \<Rightarrow> bool) \<Rightarrow> nat \<Rightarrow> nat \<Rightarrow> jstr \<Rightarrow> jval \<Rightarrow>
   envelope_error + (jval \<times> jstr list)" where
  "verifyEnvelope V maxBytes maxSignatures domain sv =
     (case sv of
        JObj envelope \<Rightarrow>
          if \<not> exactly envelope [js ''body'', js ''signatures''] then Inl (InvalidEnvelope BadMembers)
          else (case member envelope (js ''signatures'') of
             JArr list \<Rightarrow>
               if list = [] \<or> length list > maxSignatures then Inl (InvalidEnvelope BadSignatureCount)
               else
                 let body = member envelope (js ''body'') in
                 ebind (assertDepth body) (\<lambda>_.
                 ebind (verify_input domain body) (\<lambda>bytes.
                 if length bytes > maxBytes then Inl (InvalidEnvelope TooLong)
                 else ebind (verify_loop V bytes list []) (\<lambda>signers. Inr (body, signers))))
           | _ \<Rightarrow> Inl (InvalidEnvelope BadSignatureCount))
      | _ \<Rightarrow> Inl (InvalidEnvelope NotAnEnvelope))"

definition meetsQuorum :: "jstr list \<Rightarrow> nat \<Rightarrow> jstr list \<Rightarrow> bool" where
  "meetsQuorum keys threshold signers \<longleftrightarrow> threshold \<le> length (filter (\<lambda>k. k \<in> set signers) keys)"

subsection \<open>Depth\<close>

text \<open>The depth check of Core-1 visits the whole body with an explicit stack and refuses it exactly when it nests
  deeper than 48 levels.\<close>

theorem assertDepth_iff: "assertDepth body = Inr () \<longleftrightarrow> depth body \<le> 48"
  by (simp add: assertDepth_def guard_ok nesting_loop_iff MAX_DEPTH_def)

lemma assertDepth_ok: "assertDepth body = Inr u \<longleftrightarrow> depth body \<le> 48"
  by (simp add: assertDepth_def guard_ok nesting_loop_iff MAX_DEPTH_def)

subsection \<open>Domains separate\<close>

lemma norm_domain_body:
  "norm (JObj [(js ''domain'', JStr d), (js ''body'', b)]) =
     JObj (if b = JUndef then [(js ''domain'', JStr d)] else [(js ''body'', norm b), (js ''domain'', JStr d)])"
proof -
  have "js ''body'' \<le> js ''domain''" "\<not> js ''domain'' \<le> js ''body''" by code_simp+
  then show ?thesis by (simp add: sorted_members_def)
qed

lemma domainInput_ok:
  "domainInput d b = Inr x \<longleftrightarrow>
     is_domain d \<and> canonicalBytes (JObj [(js ''domain'', JStr d), (js ''body'', b)]) = Inr x"
  by (simp add: domainInput_def)

text \<open>A Core-1 signature is bound to its domain: equal signing inputs come from the same domain and the same body,
  so a signature made for one purpose never verifies for another.\<close>

theorem domain_separation:
  assumes "domainInput d b = Inr x" "domainInput d' b' = Inr x"
  shows "d = d' \<and> norm b = norm b'"
proof -
  have "norm (JObj [(js ''domain'', JStr d), (js ''body'', b)]) = norm (JObj [(js ''domain'', JStr d'), (js ''body'', b')])"
    using canonicalBytes_eq_iff [THEN iffD1] assms unfolding domainInput_ok by blast
  then show ?thesis unfolding norm_domain_body by (auto split: if_splits)
qed

lemma domain_separation_witness:
  "domainInput (js ''DTP-RECORD-1'') JNull \<noteq> domainInput (js ''DTP-IDENTITY-REHOME-1'') JNull"
proof -
  have "is_ok (canonicalize (JObj [(js ''domain'', JStr (js ''DTP-RECORD-1'')), (js ''body'', JNull)]))"
    "is_domain (js ''DTP-RECORD-1'')" by code_simp+
  then obtain x where x: "domainInput (js ''DTP-RECORD-1'') JNull = Inr x"
    by (auto simp: domainInput_ok is_ok_iff canonicalBytes_def)
  show ?thesis using domain_separation [OF x, of "js ''DTP-IDENTITY-REHOME-1''" JNull] x by auto
qed

subsection \<open>What an accepted envelope proves\<close>

definition valid_entry ::
  "(byte list \<Rightarrow> byte list \<Rightarrow> byte list \<Rightarrow> bool) \<Rightarrow> byte list \<Rightarrow> jval \<Rightarrow> jstr \<Rightarrow> bool" where
  "valid_entry V bytes entry keyId \<longleftrightarrow>
     (\<exists>s sg raw. entry = JObj s \<and> exactly s [js ''key_id'', js ''signature''] \<and>
        member s (js ''key_id'') = JStr keyId \<and> member s (js ''signature'') = JStr sg \<and> length sg \<le> 128 \<and>
        decodeSignature sg = Inr raw \<and> verifyBytes V keyId bytes raw = Inr True)"

lemma check_entry_ok: "check_entry V bytes signers entry = Inr k \<longleftrightarrow> valid_entry V bytes entry k \<and> k \<notin> set signers"
proof
  assume "check_entry V bytes signers entry = Inr k"
  then show "valid_entry V bytes entry k \<and> k \<notin> set signers"
    unfolding check_entry_def valid_entry_def
    by (cases entry) (auto split: if_splits jval.splits sum.splits)
next
  assume "valid_entry V bytes entry k \<and> k \<notin> set signers"
  then show "check_entry V bytes signers entry = Inr k"
    by (auto simp: check_entry_def valid_entry_def verifyBytes_true)
qed

lemma verify_loop_ok:
  "verify_loop V bytes list signers = Inr r \<longleftrightarrow>
     (\<exists>ks. r = signers @ ks \<and> list_all2 (valid_entry V bytes) list ks \<and> distinct ks \<and> set ks \<inter> set signers = {})"
proof (induction list arbitrary: signers)
  case (Cons entry list)
  have "verify_loop V bytes (entry # list) signers = Inr r \<longleftrightarrow>
      (\<exists>k. valid_entry V bytes entry k \<and> k \<notin> set signers \<and> verify_loop V bytes list (signers @ [k]) = Inr r)"
    by (auto simp: ok_iff check_entry_ok)
  also have "\<dots> \<longleftrightarrow> (\<exists>ks. r = signers @ ks \<and> list_all2 (valid_entry V bytes) (entry # list) ks \<and> distinct ks \<and>
      set ks \<inter> set signers = {})"
    by (auto simp: Cons.IH list_all2_Cons1)
  finally show ?case .
qed auto

lemma verify_input_ok: "verify_input d b = Inr x \<longleftrightarrow> domainInput d b = Inr x"
  by (auto simp: verify_input_def split: sum.splits input_error.splits)

lemma verifyEnvelope_ok:
  "verifyEnvelope V maxBytes maxSignatures domain sv = Inr (body, signers) \<longleftrightarrow>
     (\<exists>envelope list bytes. sv = JObj envelope \<and> exactly envelope [js ''body'', js ''signatures''] \<and>
        member envelope (js ''body'') = body \<and> member envelope (js ''signatures'') = JArr list \<and>
        list \<noteq> [] \<and> length list \<le> maxSignatures \<and> depth body \<le> 48 \<and>
        domainInput domain body = Inr bytes \<and> length bytes \<le> maxBytes \<and>
        list_all2 (valid_entry V bytes) list signers \<and> distinct signers)"
  by (cases sv) (auto simp: verifyEnvelope_def Let_def ok_iff assertDepth_ok verify_input_ok verify_loop_ok
      if_Inl_ok not_less split: jval.splits)

text \<open>\<open>verifyEnvelope\<close> accepts exactly the objects with the two members, one to \<open>maxSignatures\<close> entries, a body
  within the depth and size bounds and the expected domain, and for every entry a distinct key whose signature over
  the canonical bytes of domain and body passes strict verification; the signers returned are those keys.\<close>

theorem verifyEnvelope_accepts_iff:
  "verifyEnvelope V maxBytes maxSignatures domain sv = Inr (body, signers) \<longleftrightarrow>
     (\<exists>envelope list bytes. sv = JObj envelope \<and> exactly envelope [js ''body'', js ''signatures''] \<and>
        member envelope (js ''body'') = body \<and> member envelope (js ''signatures'') = JArr list \<and>
        list \<noteq> [] \<and> length list \<le> maxSignatures \<and> depth body \<le> 48 \<and>
        domainInput domain body = Inr bytes \<and> length bytes \<le> maxBytes \<and>
        list_all2 (valid_entry V bytes) list signers \<and> distinct signers)"
  by (rule verifyEnvelope_ok)

subsection \<open>Signed envelopes verify\<close>

lemma signature_text_length: "encodeSignature raw = Inr t \<Longrightarrow> length t \<le> 128"
  using length_base58Encode [of raw] by (auto simp: encodeSignature_def PREFIX_def split: if_splits)

definition own_secret :: "(byte list \<Rightarrow> byte list) \<Rightarrow> jstr \<Rightarrow> jstr \<Rightarrow> bool" where
  "own_secret public_key secret keyId \<longleftrightarrow>
     (\<exists>seed. length seed = 32 \<and> encodeSecretKey (seed, public_key seed) = Inr secret \<and>
        encodeKeyId (public_key seed) = Inr keyId)"

lemma sign_loop_valid:
  assumes "ed25519_contract S V pub"
  shows "sign_loop S bytes secrets sigs = Inr r \<Longrightarrow> list_all2 (own_secret pub) secrets kids \<Longrightarrow> distinct (map fst sigs) \<Longrightarrow>
    \<exists>new. r = sigs @ new \<and> map fst new = kids \<and> distinct (map fst r) \<and>
      list_all2 (valid_entry V bytes) (map entry_value new) kids"
proof (induction secrets arbitrary: sigs kids)
  case (Cons secret secrets)
  from Cons.prems(2) obtain k ks where kids: "kids = k # ks" "list_all2 (own_secret pub) secrets ks" "own_secret pub secret k"
    by (auto simp: list_all2_Cons1)
  then obtain seed where k: "kids = k # ks" "list_all2 (own_secret pub) secrets ks"
      "length seed = 32" "encodeSecretKey (seed, pub seed) = Inr secret" "encodeKeyId (pub seed) = Inr k"
    by (auto simp: own_secret_def)
  have "length (pub seed) = 32" using assms k(3) by (simp add: ed25519_contract_def)
  note sk = decode_own_secret [OF k(3) this k(4)]
  from Cons.prems(1) obtain t where t: "k \<notin> set (map fst sigs)" "encodeSignature (S seed bytes) = Inr t"
      "sign_loop S bytes secrets (sigs @ [(k, t)]) = Inr r"
    by (auto simp: ok_iff sk k(5) split: if_splits)
  from Cons.IH [OF t(3) k(2)] Cons.prems(3) t(1) obtain new where new: "r = sigs @ (k, t) # new" "map fst new = ks"
      "distinct (map fst r)" "list_all2 (valid_entry V bytes) (map entry_value new) ks"
    by auto
  have "valid_entry V bytes (entry_value (k, t)) k"
    using contract_verifies [OF assms k(3,5)] signature_text.decode_encode [OF t(2)] signature_text_length [OF t(2)]
    by (auto simp: valid_entry_def entry_value_def exactly_def)
  with new k(1) show ?case by (intro exI [of _ "(k, t) # new"]) simp
qed auto

text \<open>An envelope made by \<open>signEnvelope\<close> with a list of encoded secret keys is accepted by \<open>verifyEnvelope\<close> under
  the same domain, within the verifier's bounds, and the signers are exactly the keys that signed, in order.\<close>

theorem signed_envelope_verifies:
  assumes "ed25519_contract S V pub" "list_all2 (own_secret pub) secrets kids"
    and "signEnvelope S domain body secrets = Inr sv" "length secrets \<le> maxSignatures"
    and "\<forall>bytes. domainInput domain body = Inr bytes \<longrightarrow> length bytes \<le> maxBytes"
  shows "verifyEnvelope V maxBytes maxSignatures domain (signed_value_of sv) = Inr (body, kids)"
proof -
  from assms(3) obtain bytes sigs where s: "secrets \<noteq> []" "depth body \<le> 48" "domainInput domain body = Inr bytes"
      "sign_loop S bytes secrets [] = Inr sigs" "sv = (body, sigs)"
    by (auto simp: signEnvelope_def ok_iff assertDepth_ok split: if_splits)
  from sign_loop_valid [OF assms(1) s(4) assms(2)] have
    v: "map fst sigs = kids" "distinct kids" "list_all2 (valid_entry V bytes) (map entry_value sigs) kids"
    by auto
  moreover have len: "length sigs = length secrets"
    using v(1) assms(2) by (metis length_map list_all2_lengthD)
  moreover have "length bytes \<le> maxBytes" using assms(5) s(3) by blast
  moreover have "map entry_value sigs \<noteq> []" using len s(1) by auto
  moreover have "signed_value_of sv = JObj [(js ''body'', body), (js ''signatures'', JArr (map entry_value sigs))]"
    by (simp add: s(5) signed_value_of_def)
  ultimately show ?thesis
    unfolding verifyEnvelope_ok using s(2,3) assms(4)
    by (intro exI [of _ "[(js ''body'', body), (js ''signatures'', JArr (map entry_value sigs))]"]
        exI [of _ "map entry_value sigs"] exI [of _ bytes] conjI) (simp_all add: exactly_def)
qed

lemma signed_envelope_verifies_witness:
  "\<exists>sv. verifyEnvelope (\<lambda>_ _ _. True) 65536 24 (js ''DTP-RECORD-1'') sv =
     Inr (JNull, [js ''ed25519:11111111111111111111111111111111''])"
proof -
  let ?S = "\<lambda>_ _. replicate 64 (0 :: byte)" and ?pub = "\<lambda>_. replicate 32 (0 :: byte)"
  have contract: "ed25519_contract ?S (\<lambda>_ _ _. True) ?pub"
  proof -
    have "canonicalPoint (replicate 32 0)" by code_simp
    then show ?thesis by (simp add: ed25519_contract_def L_def)
  qed
  obtain sk where sk: "encodeSecretKey (replicate 32 0, ?pub (replicate 32 0)) = Inr sk"
    using secret_key_roundtrip [of "replicate 32 0" "replicate 32 0"] by auto
  have kid: "encodeKeyId (replicate 32 0) = Inr (js ''ed25519:11111111111111111111111111111111'')"
    by code_simp
  have dom: "is_domain (js ''DTP-RECORD-1'')" by code_simp
  have ctext: "canonicalize (JObj [(js ''domain'', JStr (js ''DTP-RECORD-1'')), (js ''body'', JNull)]) =
      Inr (js ''{'' @ 0x22 # js ''body'' @ 0x22 # js '':null,'' @ 0x22 # js ''domain'' @ 0x22 # js '':'' @
        0x22 # js ''DTP-RECORD-1'' @ 0x22 # js ''}'')"
    by code_simp
  have len: "length (utf8_encode (js ''{'' @ 0x22 # js ''body'' @ 0x22 # js '':null,'' @ 0x22 # js ''domain'' @ 0x22 # js '':'' @
        0x22 # js ''DTP-RECORD-1'' @ 0x22 # js ''}'')) = 37" by code_simp
  obtain bytes where bytes: "domainInput (js ''DTP-RECORD-1'') JNull = Inr bytes" "length bytes = 37"
    using dom ctext len by (simp add: domainInput_ok canonicalBytes_def)
  have own: "list_all2 (own_secret ?pub) [sk] [js ''ed25519:11111111111111111111111111111111'']"
    using sk kid by (auto simp: own_secret_def intro: exI [of _ "replicate 32 0"])
  obtain sv where "signEnvelope ?S (js ''DTP-RECORD-1'') JNull [sk] = Inr sv"
    using bytes(1) kid decode_own_secret [OF _ _ sk]
    by (simp add: signEnvelope_def assertDepth_def nesting_loop_iff assertSafeMemberNames_def encodeSignature_def)
  from signed_envelope_verifies [OF contract own this, of 24 65536] bytes show ?thesis by auto
qed

subsection \<open>Quorum\<close>

text \<open>For a key set that lists each key once, a quorum is met exactly when at least the threshold of its keys is
  among the signers.\<close>

theorem meetsQuorum_counts:
  assumes "distinct keys"
  shows "meetsQuorum keys threshold signers \<longleftrightarrow> threshold \<le> card (set keys \<inter> set signers)"
proof -
  have "length (filter (\<lambda>k. k \<in> set signers) keys) = card (set (filter (\<lambda>k. k \<in> set signers) keys))"
    using assms distinct_card [of "filter (\<lambda>k. k \<in> set signers) keys"] by (simp only: distinct_filter)
  also have "set (filter (\<lambda>k. k \<in> set signers) keys) = set keys \<inter> set signers" by auto
  finally show ?thesis by (simp add: meetsQuorum_def)
qed

lemma meetsQuorum_counts_witness: "meetsQuorum [js ''a'', js ''b'', js ''c''] 2 [js ''c'', js ''x'', js ''a'']"
  using meetsQuorum_counts [of "[js ''a'', js ''b'', js ''c'']" 2 "[js ''c'', js ''x'', js ''a'']"] by simp

end
