(* ===== verification/Registry.thy ===== *)
theory Registry
  imports Envelope
begin

text \<open>
  \<^verbatim>\<open>sdk/src/schemas.ts\<close> (the type registry and the \<open>x-dtp-*\<close> keywords of every record schema) and
  \<^verbatim>\<open>sdk/src/registry.ts\<close>.  The tables are the data of the generated file: writers, subject field,
  roles, state machine, immutable and lock fields.  JSON Schema validation itself is
  \<^verbatim>\<open>@cfworker/json-schema\<close>; its result (valid or not, with output units) is a parameter.
  A transition's free-text note is left out.
\<close>

record transition =
  tr_from :: jstr
  tr_to :: jstr
  tr_by :: "jstr list"
  tr_within :: "jstr option"
  tr_after :: "jstr option"
  tr_trigger :: "jstr option"

record transitions =
  t_status_field :: "jstr option"
  t_initial_status :: "jstr list"
  t_initial_by :: "jstr list"
  t_transitions :: "transition list"

record x_schema =
  xs_transitions :: "transitions option"
  xs_roles :: "(jstr \<times> jstr) list"
  xs_third_party_roles :: "jstr list"
  xs_append_only :: bool
  xs_lock_after :: "jstr list option"
  xs_immutable :: "jstr list option"
  xs_revision_by :: "jstr list option"

record type_entry =
  te_file :: jstr
  te_versions :: "jstr list"
  te_writable_by :: "jstr list"
  te_subject :: jstr
  te_visibility :: jstr
  te_strict :: bool

definition transition_row ::
  "string \<Rightarrow> string \<Rightarrow> string list \<Rightarrow> string option \<Rightarrow> string option \<Rightarrow> string option \<Rightarrow> transition" where
  "transition_row from to by within after trigger =
     \<lparr>tr_from = js from, tr_to = js to, tr_by = map js by, tr_within = map_option js within,
      tr_after = map_option js after, tr_trigger = map_option js trigger\<rparr>"

subsection \<open>The tables\<close>

definition x_company :: x_schema where
  "x_company = \<lparr>
     xs_transitions = None,
     xs_roles = [],
     xs_third_party_roles = [],
     xs_append_only = False,
     xs_lock_after = None,
     xs_immutable = None,
     xs_revision_by = None\<rparr>"

definition x_module :: x_schema where
  "x_module = \<lparr>
     xs_transitions = None,
     xs_roles = [],
     xs_third_party_roles = [],
     xs_append_only = False,
     xs_lock_after = None,
     xs_immutable = None,
     xs_revision_by = None\<rparr>"

definition x_grant :: x_schema where
  "x_grant = \<lparr>
     xs_transitions = Some \<lparr>
       t_status_field = Some (js ''status''),
       t_initial_status = map js [''active''], t_initial_by = map js [''subject''],
       t_transitions = [
         transition_row ''active'' ''revoked'' [''subject''] None None None,
         transition_row ''active'' ''active'' [''subject''] None None None]\<rparr>,
     xs_roles = [],
     xs_third_party_roles = [],
     xs_append_only = False,
     xs_lock_after = None,
     xs_immutable = None,
     xs_revision_by = None\<rparr>"

definition x_intent :: x_schema where
  "x_intent = \<lparr>
     xs_transitions = Some \<lparr>
       t_status_field = Some (js ''status''),
       t_initial_status = map js [''draft'', ''posted''], t_initial_by = map js [''buyer''],
       t_transitions = [
         transition_row ''draft'' ''posted'' [''buyer''] None None None,
         transition_row ''draft'' ''cancelled'' [''buyer''] None None None,
         transition_row ''posted'' ''matched'' [''buyer''] None None None,
         transition_row ''posted'' ''cancelled'' [''buyer''] None None None,
         transition_row ''posted'' ''expired'' [''buyer''] None (Some ''expires_at'') None,
         transition_row ''matched'' ''contracted'' [''buyer''] None None None,
         transition_row ''matched'' ''cancelled'' [''buyer''] None None None,
         transition_row ''contracted'' ''fulfilled'' [''buyer''] None None None,
         transition_row ''fulfilled'' ''settled'' [''buyer''] None None None]\<rparr>,
     xs_roles = [(js ''buyer'', js ''buyer_company_id'')],
     xs_third_party_roles = [],
     xs_append_only = False,
     xs_lock_after = None,
     xs_immutable = None,
     xs_revision_by = None\<rparr>"

definition x_listing :: x_schema where
  "x_listing = \<lparr>
     xs_transitions = Some \<lparr>
       t_status_field = Some (js ''status''),
       t_initial_status = map js [''draft'', ''active''], t_initial_by = map js [''seller''],
       t_transitions = [
         transition_row ''draft'' ''active'' [''seller''] None None None,
         transition_row ''draft'' ''withdrawn'' [''seller''] None None None,
         transition_row ''active'' ''matched'' [''seller''] None None None,
         transition_row ''active'' ''withdrawn'' [''seller''] None None None,
         transition_row ''active'' ''expired'' [''seller''] None (Some ''expires_at'') None,
         transition_row ''matched'' ''contracted'' [''seller''] None None None,
         transition_row ''matched'' ''withdrawn'' [''seller''] None None None]\<rparr>,
     xs_roles = [(js ''seller'', js ''seller_company_id'')],
     xs_third_party_roles = [],
     xs_append_only = False,
     xs_lock_after = None,
     xs_immutable = None,
     xs_revision_by = None\<rparr>"

definition x_offer :: x_schema where
  "x_offer = \<lparr>
     xs_transitions = Some \<lparr>
       t_status_field = Some (js ''status''),
       t_initial_status = map js [''submitted''], t_initial_by = map js [''offerer''],
       t_transitions = [
         transition_row ''submitted'' ''shortlisted'' [''target_owner''] None None None,
         transition_row ''submitted'' ''accepted'' [''target_owner''] None None None,
         transition_row ''submitted'' ''rejected'' [''target_owner''] None None None,
         transition_row ''submitted'' ''retracted'' [''offerer''] None None None,
         transition_row ''submitted'' ''expired'' [''offerer'', ''target_owner''] None (Some ''expires_at'') None,
         transition_row ''shortlisted'' ''accepted'' [''target_owner''] None None None,
         transition_row ''shortlisted'' ''rejected'' [''target_owner''] None None None,
         transition_row ''shortlisted'' ''retracted'' [''offerer''] None None None,
         transition_row ''shortlisted'' ''expired'' [''offerer'', ''target_owner''] None (Some ''expires_at'') None]\<rparr>,
     xs_roles = [(js ''offerer'', js ''offerer_company_id''), (js ''target_owner'', js ''target_owner_company_id'')],
     xs_third_party_roles = [],
     xs_append_only = False,
     xs_lock_after = None,
     xs_immutable = None,
     xs_revision_by = None\<rparr>"

definition x_contract :: x_schema where
  "x_contract = \<lparr>
     xs_transitions = Some \<lparr>
       t_status_field = Some (js ''status''),
       t_initial_status = map js [''active''], t_initial_by = map js [''buyer'', ''seller''],
       t_transitions = [
         transition_row ''active'' ''in_fulfillment'' [''seller''] None None (Some ''trade.fulfillment created''),
         transition_row ''active'' ''cancelled'' [''buyer'', ''seller''] None None None,
         transition_row ''in_fulfillment'' ''delivered'' [''buyer''] None None (Some ''fulfillment complete''),
         transition_row ''in_fulfillment'' ''delivered'' [''seller''] None (Some ''dispute_window_hours past seller attestation'') None,
         transition_row ''in_fulfillment'' ''disputed'' [''buyer''] (Some ''dispute_window_hours'') None None,
         transition_row ''delivered'' ''settled'' [''buyer''] None None (Some ''trade.settlement created''),
         transition_row ''disputed'' ''resolved_buyer'' [''arbitrator''] (Some ''P7D'') None None,
         transition_row ''disputed'' ''resolved_seller'' [''arbitrator''] (Some ''P7D'') None None,
         transition_row ''resolved_buyer'' ''settled'' [''buyer''] None None None,
         transition_row ''resolved_seller'' ''settled'' [''buyer''] None None None]\<rparr>,
     xs_roles = [(js ''buyer'', js ''buyer_company_id''), (js ''seller'', js ''seller_company_id''), (js ''arbitrator'', js ''arbitrator_company_id'')],
     xs_third_party_roles = map js [''arbitrator''],
     xs_append_only = False,
     xs_lock_after = None,
     xs_immutable = Some (map js [''buyer_company_id'', ''seller_company_id'', ''intent_id'', ''listing_id'', ''offer_id'', ''standing_agreement_id'', ''lot_id'', ''buyer_po_number'', ''goods'', ''delivery'', ''finance'', ''freight'', ''price_per_unit'', ''total_value'', ''escrow_ref'', ''dispute_window_hours'']),
     xs_revision_by = None\<rparr>"

definition x_fulfillment :: x_schema where
  "x_fulfillment = \<lparr>
     xs_transitions = Some \<lparr>
       t_status_field = Some (js ''status''),
       t_initial_status = map js [''seller_attested''], t_initial_by = map js [''seller''],
       t_transitions = [
         transition_row ''seller_attested'' ''buyer_attested'' [''buyer''] (Some ''contract.dispute_window_hours'') None None,
         transition_row ''seller_attested'' ''disputed'' [''buyer''] (Some ''contract.dispute_window_hours'') None None,
         transition_row ''seller_attested'' ''complete'' [''seller''] None (Some ''contract.dispute_window_hours'') None,
         transition_row ''buyer_attested'' ''complete'' [''buyer'', ''seller''] None None None,
         transition_row ''disputed'' ''complete'' [''buyer'', ''seller''] None None None]\<rparr>,
     xs_roles = [(js ''seller'', js ''seller_company_id''), (js ''buyer'', js ''buyer_company_id'')],
     xs_third_party_roles = [],
     xs_append_only = False,
     xs_lock_after = None,
     xs_immutable = Some (map js [''contract_id'', ''seller_company_id'', ''buyer_company_id'', ''delivered_at'', ''quantity_delivered'', ''seller_attestation'']),
     xs_revision_by = None\<rparr>"

definition x_settlement :: x_schema where
  "x_settlement = \<lparr>
     xs_transitions = Some \<lparr>
       t_status_field = None,
       t_initial_status = [], t_initial_by = map js [''buyer''],
       t_transitions = []\<rparr>,
     xs_roles = [(js ''buyer'', js ''buyer_company_id''), (js ''seller'', js ''seller_company_id'')],
     xs_third_party_roles = [],
     xs_append_only = True,
     xs_lock_after = None,
     xs_immutable = None,
     xs_revision_by = None\<rparr>"

definition x_standing_agreement :: x_schema where
  "x_standing_agreement = \<lparr>
     xs_transitions = Some \<lparr>
       t_status_field = Some (js ''status''),
       t_initial_status = map js [''proposed''], t_initial_by = map js [''proposer''],
       t_transitions = [
         transition_row ''proposed'' ''countered'' [''buyer'', ''seller''] None None None,
         transition_row ''proposed'' ''active'' [''buyer'', ''seller''] None None None,
         transition_row ''proposed'' ''terminated'' [''buyer'', ''seller''] None None None,
         transition_row ''countered'' ''active'' [''buyer'', ''seller''] None None None,
         transition_row ''countered'' ''countered'' [''buyer'', ''seller''] None None None,
         transition_row ''countered'' ''terminated'' [''buyer'', ''seller''] None None None,
         transition_row ''active'' ''completed'' [''buyer'', ''seller''] None (Some ''terms.period_end'') None,
         transition_row ''active'' ''terminated'' [''buyer'', ''seller''] None None None]\<rparr>,
     xs_roles = [(js ''proposer'', js ''proposer_company_id''), (js ''buyer'', js ''buyer_company_id''), (js ''seller'', js ''seller_company_id'')],
     xs_third_party_roles = [],
     xs_append_only = False,
     xs_lock_after = None,
     xs_immutable = None,
     xs_revision_by = None\<rparr>"

definition x_invoice :: x_schema where
  "x_invoice = \<lparr>
     xs_transitions = Some \<lparr>
       t_status_field = Some (js ''status''),
       t_initial_status = map js [''draft'', ''issued''], t_initial_by = map js [''seller''],
       t_transitions = [
         transition_row ''draft'' ''issued'' [''seller''] None None None,
         transition_row ''draft'' ''void'' [''seller''] None None None,
         transition_row ''issued'' ''acknowledged'' [''buyer''] (Some ''PT48H'') None None,
         transition_row ''issued'' ''disputed'' [''buyer''] (Some ''PT48H'') None None,
         transition_row ''issued'' ''partially_paid'' [''seller''] None None (Some ''finance.settlement_event''),
         transition_row ''issued'' ''paid'' [''seller''] None None (Some ''finance.settlement_event''),
         transition_row ''issued'' ''void'' [''seller''] None None None,
         transition_row ''acknowledged'' ''partially_paid'' [''seller''] None None None,
         transition_row ''acknowledged'' ''paid'' [''seller''] None None None,
         transition_row ''acknowledged'' ''disputed'' [''buyer''] None None None,
         transition_row ''disputed'' ''acknowledged'' [''buyer''] None None None,
         transition_row ''disputed'' ''void'' [''seller''] None None None,
         transition_row ''partially_paid'' ''paid'' [''seller''] None None None]\<rparr>,
     xs_roles = [(js ''seller'', js ''seller_company_id''), (js ''buyer'', js ''buyer_company_id'')],
     xs_third_party_roles = [],
     xs_append_only = False,
     xs_lock_after = Some (map js [''issued'', ''acknowledged'', ''disputed'', ''partially_paid'', ''paid'', ''void'']),
     xs_immutable = Some (map js [''invoice_number'', ''seller_company_id'', ''buyer_company_id'', ''contract_id'', ''fulfillment_id'', ''line_items'', ''subtotal'', ''deductions'', ''total'', ''issued_at'', ''due_at'', ''payment_terms'']),
     xs_revision_by = None\<rparr>"

definition x_advance_offer :: x_schema where
  "x_advance_offer = \<lparr>
     xs_transitions = Some \<lparr>
       t_status_field = Some (js ''status''),
       t_initial_status = map js [''offered''], t_initial_by = map js [''financer''],
       t_transitions = [
         transition_row ''offered'' ''accepted'' [''seller''] None None None,
         transition_row ''offered'' ''declined'' [''seller''] None None None,
         transition_row ''offered'' ''withdrawn'' [''financer''] None None None,
         transition_row ''offered'' ''expired'' [''seller'', ''financer''] None (Some ''expires_at'') None]\<rparr>,
     xs_roles = [(js ''seller'', js ''seller_company_id''), (js ''financer'', js ''financer_company_id'')],
     xs_third_party_roles = [],
     xs_append_only = False,
     xs_lock_after = None,
     xs_immutable = Some (map js [''invoice_id'', ''seller_company_id'', ''financer_company_id'', ''advance_amount'', ''advance_bps'', ''fee'', ''repayment'', ''recourse'', ''pricing_basis'', ''expires_at'']),
     xs_revision_by = Some (map js [''financer''])\<rparr>"

definition x_advance :: x_schema where
  "x_advance = \<lparr>
     xs_transitions = Some \<lparr>
       t_status_field = Some (js ''status''),
       t_initial_status = map js [''funded''], t_initial_by = map js [''financer''],
       t_transitions = [
         transition_row ''funded'' ''partially_repaid'' [''financer''] None None (Some ''finance.settlement_event''),
         transition_row ''funded'' ''repaid'' [''financer''] None None (Some ''finance.settlement_event''),
         transition_row ''funded'' ''defaulted'' [''financer''] None (Some ''maturity_at'') None,
         transition_row ''partially_repaid'' ''repaid'' [''financer''] None None None,
         transition_row ''partially_repaid'' ''defaulted'' [''financer''] None (Some ''maturity_at'') None,
         transition_row ''defaulted'' ''repaid'' [''financer''] None None None,
         transition_row ''defaulted'' ''written_off'' [''financer''] None None None]\<rparr>,
     xs_roles = [(js ''seller'', js ''seller_company_id''), (js ''financer'', js ''financer_company_id'')],
     xs_third_party_roles = [],
     xs_append_only = False,
     xs_lock_after = None,
     xs_immutable = Some (map js [''advance_offer_id'', ''invoice_id'', ''seller_company_id'', ''financer_company_id'', ''principal'', ''fee'', ''funded_at'', ''funding_event_id'', ''maturity_at'']),
     xs_revision_by = Some (map js [''financer''])\<rparr>"

definition x_settlement_event :: x_schema where
  "x_settlement_event = \<lparr>
     xs_transitions = Some \<lparr>
       t_status_field = None,
       t_initial_status = [], t_initial_by = map js [''payer''],
       t_transitions = []\<rparr>,
     xs_roles = [(js ''payer'', js ''from_company_id''), (js ''payee'', js ''to_company_id'')],
     xs_third_party_roles = [],
     xs_append_only = True,
     xs_lock_after = None,
     xs_immutable = None,
     xs_revision_by = None\<rparr>"

definition x_cte :: x_schema where
  "x_cte = \<lparr>
     xs_transitions = Some \<lparr>
       t_status_field = None,
       t_initial_status = [], t_initial_by = map js [''actor''],
       t_transitions = []\<rparr>,
     xs_roles = [(js ''actor'', js ''actor_company_id'')],
     xs_third_party_roles = [],
     xs_append_only = False,
     xs_lock_after = None,
     xs_immutable = None,
     xs_revision_by = None\<rparr>"

definition x_coa_anchor :: x_schema where
  "x_coa_anchor = \<lparr>
     xs_transitions = Some \<lparr>
       t_status_field = None,
       t_initial_status = [], t_initial_by = map js [''anchor''],
       t_transitions = []\<rparr>,
     xs_roles = [(js ''anchor'', js ''company_id'')],
     xs_third_party_roles = [],
     xs_append_only = False,
     xs_lock_after = None,
     xs_immutable = None,
     xs_revision_by = None\<rparr>"

definition e_company :: type_entry where
  "e_company = \<lparr>te_file = js ''core/company.schema.json'', te_versions = map js [''0.2''], te_writable_by = map js [''company''],
     te_subject = js ''self'', te_visibility = js ''public'', te_strict = True\<rparr>"

definition e_module :: type_entry where
  "e_module = \<lparr>te_file = js ''core/module.schema.json'', te_versions = map js [''0.2''], te_writable_by = map js [''company'', ''module''],
     te_subject = js ''publisher_company_id'', te_visibility = js ''public'', te_strict = True\<rparr>"

definition e_grant :: type_entry where
  "e_grant = \<lparr>te_file = js ''core/grant.schema.json'', te_versions = map js [''0.2''], te_writable_by = map js [''company''],
     te_subject = js ''self'', te_visibility = js ''private'', te_strict = True\<rparr>"

definition e_intent :: type_entry where
  "e_intent = \<lparr>te_file = js ''trade/intent.schema.json'', te_versions = map js [''0.2''], te_writable_by = map js [''company'', ''module''],
     te_subject = js ''buyer_company_id'', te_visibility = js ''public'', te_strict = True\<rparr>"

definition e_listing :: type_entry where
  "e_listing = \<lparr>te_file = js ''trade/listing.schema.json'', te_versions = map js [''0.2''], te_writable_by = map js [''company'', ''module''],
     te_subject = js ''seller_company_id'', te_visibility = js ''public'', te_strict = True\<rparr>"

definition e_offer :: type_entry where
  "e_offer = \<lparr>te_file = js ''trade/offer.schema.json'', te_versions = map js [''0.2''], te_writable_by = map js [''company'', ''module''],
     te_subject = js ''offerer_company_id'', te_visibility = js ''counterparties'', te_strict = True\<rparr>"

definition e_contract :: type_entry where
  "e_contract = \<lparr>te_file = js ''trade/contract.schema.json'', te_versions = map js [''0.2''], te_writable_by = map js [''company'', ''module''],
     te_subject = js ''buyer_company_id'', te_visibility = js ''counterparties'', te_strict = True\<rparr>"

definition e_fulfillment :: type_entry where
  "e_fulfillment = \<lparr>te_file = js ''trade/fulfillment.schema.json'', te_versions = map js [''0.2''], te_writable_by = map js [''company'', ''module''],
     te_subject = js ''seller_company_id'', te_visibility = js ''counterparties'', te_strict = True\<rparr>"

definition e_settlement :: type_entry where
  "e_settlement = \<lparr>te_file = js ''trade/settlement.schema.json'', te_versions = map js [''0.2''], te_writable_by = map js [''company'', ''module''],
     te_subject = js ''buyer_company_id'', te_visibility = js ''counterparties'', te_strict = True\<rparr>"

definition e_standing_agreement :: type_entry where
  "e_standing_agreement = \<lparr>te_file = js ''trade/standing_agreement.schema.json'', te_versions = map js [''0.2''], te_writable_by = map js [''company'', ''module''],
     te_subject = js ''proposer_company_id'', te_visibility = js ''counterparties'', te_strict = True\<rparr>"

definition e_invoice :: type_entry where
  "e_invoice = \<lparr>te_file = js ''finance/invoice.schema.json'', te_versions = map js [''0.2''], te_writable_by = map js [''company'', ''module''],
     te_subject = js ''seller_company_id'', te_visibility = js ''counterparties'', te_strict = True\<rparr>"

definition e_advance_offer :: type_entry where
  "e_advance_offer = \<lparr>te_file = js ''finance/advance_offer.schema.json'', te_versions = map js [''0.2''], te_writable_by = map js [''company'', ''module''],
     te_subject = js ''seller_company_id'', te_visibility = js ''counterparties'', te_strict = True\<rparr>"

definition e_advance :: type_entry where
  "e_advance = \<lparr>te_file = js ''finance/advance.schema.json'', te_versions = map js [''0.2''], te_writable_by = map js [''company'', ''module''],
     te_subject = js ''seller_company_id'', te_visibility = js ''counterparties'', te_strict = True\<rparr>"

definition e_settlement_event :: type_entry where
  "e_settlement_event = \<lparr>te_file = js ''finance/settlement_event.schema.json'', te_versions = map js [''0.2''], te_writable_by = map js [''company'', ''module''],
     te_subject = js ''from_company_id'', te_visibility = js ''counterparties'', te_strict = True\<rparr>"

definition e_cte :: type_entry where
  "e_cte = \<lparr>te_file = js ''traceability/cte.schema.json'', te_versions = map js [''0.2''], te_writable_by = map js [''company'', ''module''],
     te_subject = js ''actor_company_id'', te_visibility = js ''counterparties'', te_strict = False\<rparr>"

definition e_coa_anchor :: type_entry where
  "e_coa_anchor = \<lparr>te_file = js ''traceability/coa_anchor.schema.json'', te_versions = map js [''0.2''], te_writable_by = map js [''company'', ''module''],
     te_subject = js ''company_id'', te_visibility = js ''counterparties'', te_strict = False\<rparr>"

definition REGISTRY_types :: "(jstr \<times> type_entry) list" where
  "REGISTRY_types = [
     (js ''core.company'', e_company),
     (js ''core.module'', e_module),
     (js ''core.grant'', e_grant),
     (js ''trade.intent'', e_intent),
     (js ''trade.listing'', e_listing),
     (js ''trade.offer'', e_offer),
     (js ''trade.contract'', e_contract),
     (js ''trade.fulfillment'', e_fulfillment),
     (js ''trade.settlement'', e_settlement),
     (js ''trade.standing_agreement'', e_standing_agreement),
     (js ''finance.invoice'', e_invoice),
     (js ''finance.advance_offer'', e_advance_offer),
     (js ''finance.advance'', e_advance),
     (js ''finance.settlement_event'', e_settlement_event),
     (js ''traceability.cte'', e_cte),
     (js ''traceability.coa_anchor'', e_coa_anchor)]"

definition SCHEMAS :: "(jstr \<times> x_schema) list" where
  "SCHEMAS = [
     (js ''core/company.schema.json'', x_company),
     (js ''core/module.schema.json'', x_module),
     (js ''core/grant.schema.json'', x_grant),
     (js ''trade/intent.schema.json'', x_intent),
     (js ''trade/listing.schema.json'', x_listing),
     (js ''trade/offer.schema.json'', x_offer),
     (js ''trade/contract.schema.json'', x_contract),
     (js ''trade/fulfillment.schema.json'', x_fulfillment),
     (js ''trade/settlement.schema.json'', x_settlement),
     (js ''trade/standing_agreement.schema.json'', x_standing_agreement),
     (js ''finance/invoice.schema.json'', x_invoice),
     (js ''finance/advance_offer.schema.json'', x_advance_offer),
     (js ''finance/advance.schema.json'', x_advance),
     (js ''finance/settlement_event.schema.json'', x_settlement_event),
     (js ''traceability/cte.schema.json'', x_cte),
     (js ''traceability/coa_anchor.schema.json'', x_coa_anchor)]"

definition statuses_grant :: "jstr list" where
  "statuses_grant = map js [''active'', ''revoked'']"

definition statuses_intent :: "jstr list" where
  "statuses_intent = map js [''draft'', ''posted'', ''matched'', ''contracted'', ''fulfilled'', ''settled'', ''expired'', ''cancelled'']"

definition statuses_listing :: "jstr list" where
  "statuses_listing = map js [''draft'', ''active'', ''matched'', ''contracted'', ''expired'', ''withdrawn'']"

definition statuses_offer :: "jstr list" where
  "statuses_offer = map js [''submitted'', ''shortlisted'', ''accepted'', ''rejected'', ''expired'', ''retracted'']"

definition statuses_contract :: "jstr list" where
  "statuses_contract = map js [''active'', ''in_fulfillment'', ''delivered'', ''settled'', ''disputed'', ''resolved_buyer'', ''resolved_seller'', ''cancelled'']"

definition statuses_fulfillment :: "jstr list" where
  "statuses_fulfillment = map js [''seller_attested'', ''buyer_attested'', ''complete'', ''disputed'']"

definition statuses_standing_agreement :: "jstr list" where
  "statuses_standing_agreement = map js [''proposed'', ''countered'', ''active'', ''completed'', ''terminated'']"

definition statuses_invoice :: "jstr list" where
  "statuses_invoice = map js [''draft'', ''issued'', ''acknowledged'', ''disputed'', ''partially_paid'', ''paid'', ''void'']"

definition statuses_advance_offer :: "jstr list" where
  "statuses_advance_offer = map js [''offered'', ''accepted'', ''declined'', ''expired'', ''withdrawn'']"

definition statuses_advance :: "jstr list" where
  "statuses_advance = map js [''funded'', ''partially_repaid'', ''repaid'', ''defaulted'', ''written_off'']"

definition status_enums :: "(jstr \<times> jstr list) list" where
  "status_enums = [(js ''core.grant'', statuses_grant), (js ''trade.intent'', statuses_intent), (js ''trade.listing'', statuses_listing), (js ''trade.offer'', statuses_offer), (js ''trade.contract'', statuses_contract), (js ''trade.fulfillment'', statuses_fulfillment), (js ''trade.standing_agreement'', statuses_standing_agreement), (js ''finance.invoice'', statuses_invoice), (js ''finance.advance_offer'', statuses_advance_offer), (js ''finance.advance'', statuses_advance)]"

subsection \<open>Looking types up\<close>

record type_info =
  ti_type :: jstr
  ti_namespace :: jstr
  ti_file :: jstr
  ti_versions :: "jstr list"
  ti_writable_by :: "jstr list"
  ti_subject :: jstr
  ti_visibility :: jstr
  ti_strict :: bool
  ti_schema :: x_schema

definition ti_transitions :: "type_info \<Rightarrow> transitions option" where
  "ti_transitions info = xs_transitions (ti_schema info)"

definition ti_roles :: "type_info \<Rightarrow> (jstr \<times> jstr) list" where
  "ti_roles info = xs_roles (ti_schema info)"

text \<open>
  \<open>REGISTRY.types[type]\<close> is a plain property access, so a name of \<open>Object.prototype\<close> finds a
  function or an object that is no entry, and reading its schema throws a \<open>TypeError\<close>.
\<close>

definition prototype_names :: "jstr list" where
  "prototype_names = map js [
     ''constructor'', ''__defineGetter__'', ''__defineSetter__'', ''hasOwnProperty'', ''__lookupGetter__'',
     ''__lookupSetter__'', ''isPrototypeOf'', ''propertyIsEnumerable'', ''toString'', ''valueOf'',
     ''__proto__'', ''toLocaleString'']"

datatype type_error = TypeError

definition info_of :: "jstr \<Rightarrow> type_entry \<Rightarrow> x_schema \<Rightarrow> type_info" where
  "info_of type entry schema =
     \<lparr>ti_type = type, ti_namespace = namespaceOf type, ti_file = te_file entry, ti_versions = te_versions entry,
      ti_writable_by = te_writable_by entry, ti_subject = te_subject entry, ti_visibility = te_visibility entry,
      ti_strict = te_strict entry, ti_schema = schema\<rparr>"

definition typeInfo :: "jstr \<Rightarrow> type_error + type_info option" where
  "typeInfo type =
     (if type \<in> set prototype_names then Inl TypeError
      else case map_of REGISTRY_types type of
        None \<Rightarrow> Inr None
      | Some entry \<Rightarrow> (case map_of SCHEMAS (te_file entry) of
            None \<Rightarrow> Inl TypeError
          | Some schema \<Rightarrow> Inr (Some (info_of type entry schema))))"

definition listTypes :: "jstr list" where
  "listTypes = map fst REGISTRY_types"

definition supportsVersion :: "jstr \<Rightarrow> jstr \<Rightarrow> type_error + bool" where
  "supportsVersion type version =
     ebind (typeInfo type) (\<lambda>info. Inr (case info of None \<Rightarrow> False | Some i \<Rightarrow> version \<in> set (ti_versions i)))"

definition hasExtensions :: "jval \<Rightarrow> bool" where
  "hasExtensions body = (case body of JObj kvs \<Rightarrow> (\<exists>kv \<in> set kvs. startsWith (fst kv) (js ''x_'')) | _ \<Rightarrow> False)"

subsection \<open>Validation outcomes\<close>

record output_unit =
  ou_location :: jstr
  ou_error :: jstr
  ou_keyword :: jstr

record issue =
  i_path :: jstr
  i_message :: jstr
  i_keyword :: jstr

text \<open>\<open>s.replace(/~x/g, r)\<close> for a two-character pattern.\<close>

fun replace_pair :: "cunit \<Rightarrow> cunit \<Rightarrow> cunit \<Rightarrow> jstr \<Rightarrow> jstr" where
  "replace_pair a b r (x # y # s) = (if x = a \<and> y = b then r # replace_pair a b r s else x # replace_pair a b r (y # s))"
| "replace_pair a b r s = s"

fun split_parts :: "cunit \<Rightarrow> jstr \<Rightarrow> jstr list" where
  "split_parts c [] = [[]]"
| "split_parts c (x # xs) = (if x = c then [] # split_parts c xs
     else (case split_parts c xs of [] \<Rightarrow> [[x]] | w # ws \<Rightarrow> (x # w) # ws))"

definition pointer_segment :: "jstr \<Rightarrow> jstr" where
  "pointer_segment raw =
     (let seg = replace_pair (jc (CHR ''~'')) (jc (CHR ''0'')) (jc (CHR ''~''))
                  (replace_pair (jc (CHR ''~'')) (jc (CHR ''1'')) (jc (CHR ''/'')) raw) in
      if seg \<noteq> [] \<and> (\<forall>c \<in> set seg. is_digit c) then js ''['' @ seg @ js '']'' else js ''.'' @ seg)"

definition pointerToPath :: "jstr \<Rightarrow> jstr" where
  "pointerToPath p =
     (let q = (case p of c # r \<Rightarrow> if c = jc (CHR ''#'') then r else p | [] \<Rightarrow> []);
          parts = filter (\<lambda>x. x \<noteq> []) (split_parts (jc (CHR ''/'')) q) in
      js ''$'' @ concat (map pointer_segment parts))"

definition WRAPPER_KEYWORDS :: "jstr list" where
  "WRAPPER_KEYWORDS = map js [''properties'', ''$ref'', ''items'', ''allOf'', ''anyOf'', ''if'', ''then'', ''false'']"

definition has_deeper :: "issue list \<Rightarrow> issue \<Rightarrow> bool" where
  "has_deeper pool i = (\<exists>j \<in> set pool. startsWith (i_path j) (i_path i) \<and> length (i_path i) < length (i_path j))"

definition issue_key :: "issue \<Rightarrow> jstr" where
  "issue_key i = i_path i @ js ''|'' @ i_keyword i"

fun collect_issues :: "issue list \<Rightarrow> issue list \<Rightarrow> jstr list \<Rightarrow> issue list" where
  "collect_issues pool [] seen = []"
| "collect_issues pool (i # rest) seen =
     (if has_deeper pool i \<and> i_keyword i \<in> set (map js [''additionalProperties'', ''oneOf'', ''not''])
      then collect_issues pool rest seen
      else if issue_key i \<in> set seen then collect_issues pool rest seen
      else i # collect_issues pool rest (issue_key i # seen))"

definition toIssues :: "output_unit list \<Rightarrow> issue list" where
  "toIssues errors =
     (let all = map (\<lambda>e. \<lparr>i_path = pointerToPath (ou_location e), i_message = ou_error e, i_keyword = ou_keyword e\<rparr>) errors;
          specific = filter (\<lambda>i. i_keyword i \<notin> set WRAPPER_KEYWORDS) all;
          pool = (if specific \<noteq> [] then specific else all) in
      take 20 (collect_issues pool pool []))"

type_synonym validator = "jstr \<Rightarrow> jval \<Rightarrow> bool \<times> output_unit list"

definition validateEnvelope :: "validator \<Rightarrow> jval \<Rightarrow> canon_error + bool \<times> issue list" where
  "validateEnvelope validate instance_value =
     (case assertNoFloats instance_value (js ''$'') of
        Inl (FloatNotAllowed path) \<Rightarrow>
          Inr (False, [\<lparr>i_path = path, i_message = js ''float'', i_keyword = js ''float_not_allowed''\<rparr>])
      | Inl e \<Rightarrow> Inl e
      | Inr _ \<Rightarrow>
          let (valid, errors) = validate (js ''core/envelope.schema.json'') instance_value in
          Inr (valid, toIssues errors))"

definition validateBody :: "validator \<Rightarrow> jstr \<Rightarrow> jval \<Rightarrow> type_error + bool \<times> issue list" where
  "validateBody validate type body =
     ebind (typeInfo type) (\<lambda>info.
     case info of
       None \<Rightarrow> Inr (False, [\<lparr>i_path = js ''$.type'', i_message = js ''unknown type'', i_keyword = js ''unknown_type''\<rparr>])
     | Some i \<Rightarrow>
         let (valid, errors) = validate (ti_file i) body in
         Inr (valid, map (\<lambda>x. x\<lparr>i_path := js ''$.body'' @ tl (i_path x)\<rparr>) (toIssues errors)))"

subsection \<open>The tables are consistent\<close>

definition role_known :: "x_schema \<Rightarrow> jstr \<Rightarrow> bool" where
  "role_known x r \<longleftrightarrow> r \<in> set (map js [''any'', ''subject'', ''counterparty'']) \<or> r \<in> set (map fst (xs_roles x))"

definition reach_step :: "transitions \<Rightarrow> jstr list \<Rightarrow> jstr list" where
  "reach_step t seen = remdups (seen @ map tr_to (filter (\<lambda>tr. tr_from tr \<in> set seen) (t_transitions t)))"

definition machine_ok :: "x_schema \<Rightarrow> transitions \<Rightarrow> jstr list \<Rightarrow> bool" where
  "machine_ok x t enum \<longleftrightarrow>
     t_initial_status t \<noteq> [] \<and> set (t_initial_status t) \<subseteq> set enum \<and> list_all (role_known x) (t_initial_by t) \<and>
     list_all (\<lambda>tr. tr_from tr \<in> set enum \<and> tr_to tr \<in> set enum \<and> tr_by tr \<noteq> [] \<and> list_all (role_known x) (tr_by tr))
       (t_transitions t) \<and>
     set enum \<subseteq> set ((reach_step t ^^ length enum) (t_initial_status t))"

definition entry_ok :: "jstr \<times> type_entry \<Rightarrow> bool" where
  "entry_ok te =
     (case typeInfo (fst te) of
        Inr (Some info) \<Rightarrow>
          let x = ti_schema info in
          set (xs_third_party_roles x) \<subseteq> set (map fst (xs_roles x)) \<and>
          distinct (map fst (xs_roles x)) \<and>
          (case xs_revision_by x of None \<Rightarrow> True | Some rs \<Rightarrow> list_all (role_known x) rs) \<and>
          (case xs_transitions x of
             None \<Rightarrow> True
           | Some t \<Rightarrow>
               (case t_status_field t of
                  None \<Rightarrow> t_transitions t = [] \<and> list_all (role_known x) (t_initial_by t)
                | Some _ \<Rightarrow>
                    (case map_of status_enums (fst te) of
                       None \<Rightarrow> False
                     | Some enum \<Rightarrow> machine_ok x t enum \<and>
                         (case xs_lock_after x of None \<Rightarrow> True | Some ss \<Rightarrow> set ss \<subseteq> set enum))))
      | _ \<Rightarrow> False)"


lemma typeInfo_company: "typeInfo (js ''core.company'') = Inr (Some (info_of (js ''core.company'') e_company x_company))"
  by (simp add: typeInfo_def prototype_names_def REGISTRY_types_def SCHEMAS_def e_company_def)

lemma typeInfo_module: "typeInfo (js ''core.module'') = Inr (Some (info_of (js ''core.module'') e_module x_module))"
  by (simp add: typeInfo_def prototype_names_def REGISTRY_types_def SCHEMAS_def e_module_def)

lemma typeInfo_grant: "typeInfo (js ''core.grant'') = Inr (Some (info_of (js ''core.grant'') e_grant x_grant))"
  by (simp add: typeInfo_def prototype_names_def REGISTRY_types_def SCHEMAS_def e_grant_def)

lemma typeInfo_intent: "typeInfo (js ''trade.intent'') = Inr (Some (info_of (js ''trade.intent'') e_intent x_intent))"
  by (simp add: typeInfo_def prototype_names_def REGISTRY_types_def SCHEMAS_def e_intent_def)

lemma typeInfo_listing: "typeInfo (js ''trade.listing'') = Inr (Some (info_of (js ''trade.listing'') e_listing x_listing))"
  by (simp add: typeInfo_def prototype_names_def REGISTRY_types_def SCHEMAS_def e_listing_def)

lemma typeInfo_offer: "typeInfo (js ''trade.offer'') = Inr (Some (info_of (js ''trade.offer'') e_offer x_offer))"
  by (simp add: typeInfo_def prototype_names_def REGISTRY_types_def SCHEMAS_def e_offer_def)

lemma typeInfo_contract: "typeInfo (js ''trade.contract'') = Inr (Some (info_of (js ''trade.contract'') e_contract x_contract))"
  by (simp add: typeInfo_def prototype_names_def REGISTRY_types_def SCHEMAS_def e_contract_def)

lemma typeInfo_fulfillment: "typeInfo (js ''trade.fulfillment'') = Inr (Some (info_of (js ''trade.fulfillment'') e_fulfillment x_fulfillment))"
  by (simp add: typeInfo_def prototype_names_def REGISTRY_types_def SCHEMAS_def e_fulfillment_def)

lemma typeInfo_settlement: "typeInfo (js ''trade.settlement'') = Inr (Some (info_of (js ''trade.settlement'') e_settlement x_settlement))"
  by (simp add: typeInfo_def prototype_names_def REGISTRY_types_def SCHEMAS_def e_settlement_def)

lemma typeInfo_standing_agreement: "typeInfo (js ''trade.standing_agreement'') = Inr (Some (info_of (js ''trade.standing_agreement'') e_standing_agreement x_standing_agreement))"
  by (simp add: typeInfo_def prototype_names_def REGISTRY_types_def SCHEMAS_def e_standing_agreement_def)

lemma typeInfo_invoice: "typeInfo (js ''finance.invoice'') = Inr (Some (info_of (js ''finance.invoice'') e_invoice x_invoice))"
  by (simp add: typeInfo_def prototype_names_def REGISTRY_types_def SCHEMAS_def e_invoice_def)

lemma typeInfo_advance_offer: "typeInfo (js ''finance.advance_offer'') = Inr (Some (info_of (js ''finance.advance_offer'') e_advance_offer x_advance_offer))"
  by (simp add: typeInfo_def prototype_names_def REGISTRY_types_def SCHEMAS_def e_advance_offer_def)

lemma typeInfo_advance: "typeInfo (js ''finance.advance'') = Inr (Some (info_of (js ''finance.advance'') e_advance x_advance))"
  by (simp add: typeInfo_def prototype_names_def REGISTRY_types_def SCHEMAS_def e_advance_def)

lemma typeInfo_settlement_event: "typeInfo (js ''finance.settlement_event'') = Inr (Some (info_of (js ''finance.settlement_event'') e_settlement_event x_settlement_event))"
  by (simp add: typeInfo_def prototype_names_def REGISTRY_types_def SCHEMAS_def e_settlement_event_def)

lemma typeInfo_cte: "typeInfo (js ''traceability.cte'') = Inr (Some (info_of (js ''traceability.cte'') e_cte x_cte))"
  by (simp add: typeInfo_def prototype_names_def REGISTRY_types_def SCHEMAS_def e_cte_def)

lemma typeInfo_coa_anchor: "typeInfo (js ''traceability.coa_anchor'') = Inr (Some (info_of (js ''traceability.coa_anchor'') e_coa_anchor x_coa_anchor))"
  by (simp add: typeInfo_def prototype_names_def REGISTRY_types_def SCHEMAS_def e_coa_anchor_def)

lemmas machine_simps = machine_ok_def transition_row_def role_known_def reach_step_def numeral_eq_Suc

lemma machine_grant: "machine_ok x_grant (the (xs_transitions x_grant)) statuses_grant"
  by (simp add: machine_simps x_grant_def statuses_grant_def)

lemma machine_intent: "machine_ok x_intent (the (xs_transitions x_intent)) statuses_intent"
  by (simp add: machine_simps x_intent_def statuses_intent_def)

lemma machine_listing: "machine_ok x_listing (the (xs_transitions x_listing)) statuses_listing"
  by (simp add: machine_simps x_listing_def statuses_listing_def)

lemma machine_offer: "machine_ok x_offer (the (xs_transitions x_offer)) statuses_offer"
  by (simp add: machine_simps x_offer_def statuses_offer_def)

lemma machine_contract: "machine_ok x_contract (the (xs_transitions x_contract)) statuses_contract"
  by (simp add: machine_simps x_contract_def statuses_contract_def)

lemma machine_fulfillment: "machine_ok x_fulfillment (the (xs_transitions x_fulfillment)) statuses_fulfillment"
  by (simp add: machine_simps x_fulfillment_def statuses_fulfillment_def)

lemma machine_standing_agreement: "machine_ok x_standing_agreement (the (xs_transitions x_standing_agreement)) statuses_standing_agreement"
  by (simp add: machine_simps x_standing_agreement_def statuses_standing_agreement_def)

lemma machine_invoice: "machine_ok x_invoice (the (xs_transitions x_invoice)) statuses_invoice"
  by (simp add: machine_simps x_invoice_def statuses_invoice_def)

lemma machine_advance_offer: "machine_ok x_advance_offer (the (xs_transitions x_advance_offer)) statuses_advance_offer"
  by (simp add: machine_simps x_advance_offer_def statuses_advance_offer_def)

lemma machine_advance: "machine_ok x_advance (the (xs_transitions x_advance)) statuses_advance"
  by (simp add: machine_simps x_advance_def statuses_advance_def)

lemma entry_okI:
  assumes "typeInfo t = Inr (Some (info_of t e x))" "machine_ok x (the (xs_transitions x)) enum"
    and "xs_transitions x \<noteq> None" "t_status_field (the (xs_transitions x)) \<noteq> None" "map_of status_enums t = Some enum"
    and "set (xs_third_party_roles x) \<subseteq> set (map fst (xs_roles x))" "distinct (map fst (xs_roles x))"
    and "case xs_revision_by x of None \<Rightarrow> True | Some rs \<Rightarrow> list_all (role_known x) rs"
    and "case xs_lock_after x of None \<Rightarrow> True | Some ss \<Rightarrow> set ss \<subseteq> set enum"
  shows "entry_ok (t, e)"
  using assms by (auto simp: entry_ok_def info_of_def)

lemma entry_company: "entry_ok (js ''core.company'', e_company)"
  by (simp add: entry_ok_def typeInfo_company info_of_def status_enums_def x_company_def role_known_def)

lemma entry_module: "entry_ok (js ''core.module'', e_module)"
  by (simp add: entry_ok_def typeInfo_module info_of_def status_enums_def x_module_def role_known_def)

lemma entry_grant: "entry_ok (js ''core.grant'', e_grant)"
  by (rule entry_okI [OF typeInfo_grant machine_grant]) (simp_all add: status_enums_def x_grant_def role_known_def statuses_grant_def)

lemma entry_intent: "entry_ok (js ''trade.intent'', e_intent)"
  by (rule entry_okI [OF typeInfo_intent machine_intent]) (simp_all add: status_enums_def x_intent_def role_known_def statuses_intent_def)

lemma entry_listing: "entry_ok (js ''trade.listing'', e_listing)"
  by (rule entry_okI [OF typeInfo_listing machine_listing]) (simp_all add: status_enums_def x_listing_def role_known_def statuses_listing_def)

lemma entry_offer: "entry_ok (js ''trade.offer'', e_offer)"
  by (rule entry_okI [OF typeInfo_offer machine_offer]) (simp_all add: status_enums_def x_offer_def role_known_def statuses_offer_def)

lemma entry_contract: "entry_ok (js ''trade.contract'', e_contract)"
  by (rule entry_okI [OF typeInfo_contract machine_contract]) (simp_all add: status_enums_def x_contract_def role_known_def statuses_contract_def)

lemma entry_fulfillment: "entry_ok (js ''trade.fulfillment'', e_fulfillment)"
  by (rule entry_okI [OF typeInfo_fulfillment machine_fulfillment]) (simp_all add: status_enums_def x_fulfillment_def role_known_def statuses_fulfillment_def)

lemma entry_settlement: "entry_ok (js ''trade.settlement'', e_settlement)"
  by (simp add: entry_ok_def typeInfo_settlement info_of_def status_enums_def x_settlement_def role_known_def)

lemma entry_standing_agreement: "entry_ok (js ''trade.standing_agreement'', e_standing_agreement)"
  by (rule entry_okI [OF typeInfo_standing_agreement machine_standing_agreement]) (simp_all add: status_enums_def x_standing_agreement_def role_known_def statuses_standing_agreement_def)

lemma entry_invoice: "entry_ok (js ''finance.invoice'', e_invoice)"
  by (rule entry_okI [OF typeInfo_invoice machine_invoice]) (simp_all add: status_enums_def x_invoice_def role_known_def statuses_invoice_def)

lemma entry_advance_offer: "entry_ok (js ''finance.advance_offer'', e_advance_offer)"
  by (rule entry_okI [OF typeInfo_advance_offer machine_advance_offer]) (simp_all add: status_enums_def x_advance_offer_def role_known_def statuses_advance_offer_def)

lemma entry_advance: "entry_ok (js ''finance.advance'', e_advance)"
  by (rule entry_okI [OF typeInfo_advance machine_advance]) (simp_all add: status_enums_def x_advance_def role_known_def statuses_advance_def)

lemma entry_settlement_event: "entry_ok (js ''finance.settlement_event'', e_settlement_event)"
  by (simp add: entry_ok_def typeInfo_settlement_event info_of_def status_enums_def x_settlement_event_def role_known_def)

lemma entry_cte: "entry_ok (js ''traceability.cte'', e_cte)"
  by (simp add: entry_ok_def typeInfo_cte info_of_def status_enums_def x_cte_def role_known_def)

lemma entry_coa_anchor: "entry_ok (js ''traceability.coa_anchor'', e_coa_anchor)"
  by (simp add: entry_ok_def typeInfo_coa_anchor info_of_def status_enums_def x_coa_anchor_def role_known_def)
lemmas typeInfo_table = typeInfo_company typeInfo_module typeInfo_grant typeInfo_intent typeInfo_listing typeInfo_offer typeInfo_contract typeInfo_fulfillment typeInfo_settlement typeInfo_standing_agreement typeInfo_invoice typeInfo_advance_offer typeInfo_advance typeInfo_settlement_event typeInfo_cte typeInfo_coa_anchor

text \<open>The registry is consistent: all sixteen types have a schema; every role a state machine names is a declared role
  or a built-in one; every status is one of the field's values; and every value of a status field can be reached from
  an initial one.\<close>

theorem registry_consistent: "length REGISTRY_types = 16 \<and> list_all entry_ok REGISTRY_types"
  by (simp add: REGISTRY_types_def
    entry_company
    entry_module
    entry_grant
    entry_intent
    entry_listing
    entry_offer
    entry_contract
    entry_fulfillment
    entry_settlement
    entry_standing_agreement
    entry_invoice
    entry_advance_offer
    entry_advance
    entry_settlement_event
    entry_cte
    entry_coa_anchor)

end
