(* ===== verification/Authz.thy ===== *)
theory Authz
  imports Envelope
begin

text \<open>
  \<^verbatim>\<open>sdk/src/scopes.ts\<close> and \<^verbatim>\<open>supabase/functions/dtp-store/authz.ts\<close>: what a grant covers, who may read
  a record, and the SQL condition that is applied before \<open>limit\<close> and \<open>max\<close>.  The condition is a
  syntax tree with numbered placeholders; \<open>sql_text\<close> writes it as the code does and \<open>holds\<close> is its
  three-valued meaning.  \<open>date_ms\<close> is \<open>new Date(text).getTime()\<close>, with \<open>None\<close> for \<open>NaN\<close>.
\<close>

record scope =
  sc_namespace :: "jstr option"
  sc_type :: "jstr option"
  sc_access :: jstr

record grant =
  g_root :: jstr
  g_record :: jstr
  g_grantor :: jstr
  g_grantee :: jstr
  g_scopes :: "scope list"
  g_status :: jstr
  g_expires_at :: "jstr option"

abbreviation (input) has_text :: "jstr option \<Rightarrow> bool" where
  "has_text t \<equiv> (case t of None \<Rightarrow> False | Some s \<Rightarrow> s \<noteq> [])"

definition scopeCovers :: "scope \<Rightarrow> jstr \<Rightarrow> jstr \<Rightarrow> bool" where
  "scopeCovers s type access =
     (if \<not> (sc_access s = js ''write'' \<or> sc_access s = access) then False
      else if has_text (sc_type s) then sc_type s = Some type
      else if has_text (sc_namespace s)
      then sc_namespace s = Some (js ''*'') \<or> sc_namespace s = Some (namespaceOf type)
      else False)"

definition isGrantLive :: "(jstr \<Rightarrow> int option) \<Rightarrow> grant \<Rightarrow> int \<Rightarrow> bool" where
  "isGrantLive date_ms g now =
     (if g_status g \<noteq> js ''active'' then False
      else if has_text (g_expires_at g) \<and>
        (case date_ms (the (g_expires_at g)) of None \<Rightarrow> False | Some t \<Rightarrow> t \<le> now) then False
      else True)"

definition grantCovers :: "(jstr \<Rightarrow> int option) \<Rightarrow> grant \<Rightarrow> jstr \<Rightarrow> jstr \<Rightarrow> int \<Rightarrow> bool" where
  "grantCovers date_ms g type access now =
     (if \<not> isGrantLive date_ms g now then False
      else (\<exists>s \<in> set (g_scopes g). scopeCovers s type access))"

definition readableScopes :: "(jstr \<Rightarrow> int option) \<Rightarrow> grant list \<Rightarrow> int \<Rightarrow> scope list" where
  "readableScopes date_ms grants now =
     concat (map (\<lambda>g. map (\<lambda>s. s\<lparr>sc_access := js ''read''\<rparr>) (g_scopes g))
       (filter (\<lambda>g. isGrantLive date_ms g now) grants))"

definition hasGrant :: "(jstr \<Rightarrow> int option) \<Rightarrow> grant list \<Rightarrow> jstr \<Rightarrow> jstr \<Rightarrow> jstr \<Rightarrow> int \<Rightarrow> bool" where
  "hasGrant date_ms grants companyId type access now =
     (\<exists>g \<in> set grants. g_grantor g = companyId \<and> grantCovers date_ms g type access now)"

datatype principal_kind = KCompany | KModule

record principal =
  pr_kind :: principal_kind
  pr_id :: jstr
  pr_key_id :: jstr
  pr_role :: jstr

record visibility_input =
  vi_visibility :: jstr
  vi_subject :: jstr
  vi_counterparties :: "jstr list"
  vi_type :: jstr
  vi_namespace :: jstr
  vi_body :: "members option"

definition names_module :: "members option \<Rightarrow> jstr \<Rightarrow> bool" where
  "names_module body m = (case body of None \<Rightarrow> False | Some b \<Rightarrow> member b (js ''module_id'') = JStr m)"

definition canRead :: "(jstr \<Rightarrow> int option) \<Rightarrow> visibility_input \<Rightarrow> principal option \<Rightarrow> grant list \<Rightarrow> int \<Rightarrow> bool" where
  "canRead date_ms row who grants now =
     (if vi_visibility row = js ''public'' then True
      else case who of
        None \<Rightarrow> False
      | Some p \<Rightarrow>
          if pr_kind p = KCompany then
            vi_subject row = pr_id p \<or>
            (vi_visibility row = js ''counterparties'' \<and> pr_id p \<in> set (vi_counterparties row))
          else if vi_type row = js ''core.grant'' \<and> names_module (vi_body row) (pr_id p) then True
          else if vi_visibility row = js ''private'' then False
          else
            (\<exists>c \<in> set (vi_subject row #
               (if vi_visibility row = js ''counterparties'' then vi_counterparties row else [])).
               hasGrant date_ms grants c (vi_type row) (js ''read'') now))"

subsection \<open>The SQL condition\<close>

datatype clause =
    VisibilityIs jstr
  | VisibilityIsNot jstr
  | SubjectIs nat
  | CounterpartiesHave nat
  | TypeIs nat
  | TypeIsText jstr
  | NamespaceIs nat
  | BodyModuleIs nat
  | Literal bool
  | All "clause list"
  | AnyOf "clause list"

fun join_text :: "jstr \<Rightarrow> jstr list \<Rightarrow> jstr" where
  "join_text mid [] = []"
| "join_text mid [x] = x"
| "join_text mid (x # y # xs) = x @ mid @ join_text mid (y # xs)"

definition sql_string :: "jstr \<Rightarrow> jstr" where
  "sql_string s = jc (CHR 0x27) # s @ [jc (CHR 0x27)]"

fun sql_text :: "jstr \<Rightarrow> jstr \<Rightarrow> clause \<Rightarrow> jstr" where
  "sql_text a b (VisibilityIs v) = a @ js ''.visibility = '' @ sql_string v"
| "sql_text a b (VisibilityIsNot v) = a @ js ''.visibility <> '' @ sql_string v"
| "sql_text a b (SubjectIs n) = a @ js ''.subject_company_id = $'' @ nat_str n"
| "sql_text a b (CounterpartiesHave n) = js ''$'' @ nat_str n @ js '' = any('' @ a @ js ''.counterparty_ids)''"
| "sql_text a b (TypeIs n) = a @ js ''.type = $'' @ nat_str n"
| "sql_text a b (TypeIsText t) = a @ js ''.type = '' @ sql_string t"
| "sql_text a b (NamespaceIs n) = a @ js ''.namespace = $'' @ nat_str n"
| "sql_text a b (BodyModuleIs n) = b @ js ''.body->>'' @ sql_string (js ''module_id'') @ js '' = $'' @ nat_str n"
| "sql_text a b (Literal v) = (if v then js ''true'' else js ''false'')"
| "sql_text a b (All cs) = js ''('' @ join_text (js '' and '') (map (sql_text a b) cs) @ js '')''"
| "sql_text a b (AnyOf cs) = js ''('' @ join_text (js '' or '') (map (sql_text a b) cs) @ js '')''"

definition scope_clause :: "nat \<Rightarrow> jstr list \<Rightarrow> scope \<Rightarrow> clause \<times> jstr list" where
  "scope_clause startIndex params s =
     (if has_text (sc_type s) then (TypeIs (startIndex + length params), params @ [the (sc_type s)])
      else if sc_namespace s = Some (js ''*'') then (Literal True, params)
      else if has_text (sc_namespace s)
      then (NamespaceIs (startIndex + length params), params @ [the (sc_namespace s)])
      else (Literal False, params))"

fun scope_clauses :: "nat \<Rightarrow> jstr list \<Rightarrow> scope list \<Rightarrow> clause list \<times> jstr list" where
  "scope_clauses startIndex params [] = ([], params)"
| "scope_clauses startIndex params (s # ss) =
     (let (c, params1) = scope_clause startIndex params s;
          (cs, params2) = scope_clauses startIndex params1 ss in
      (c # cs, params2))"

definition read_or_write :: "scope \<Rightarrow> bool" where
  "read_or_write s \<longleftrightarrow> sc_access s = js ''read'' \<or> sc_access s = js ''write''"

fun grant_clauses ::
  "(jstr \<Rightarrow> int option) \<Rightarrow> int \<Rightarrow> nat \<Rightarrow> clause list \<Rightarrow> jstr list \<Rightarrow> grant list \<Rightarrow> clause list \<times> jstr list" where
  "grant_clauses date_ms now startIndex clauses params [] = (clauses, params)"
| "grant_clauses date_ms now startIndex clauses params (g # gs) =
     (if \<not> isGrantLive date_ms g now then grant_clauses date_ms now startIndex clauses params gs
      else
        let (scopes, params1) = scope_clauses startIndex params (filter read_or_write (g_scopes g)) in
        if scopes = [] then grant_clauses date_ms now startIndex clauses params1 gs
        else
          let company = startIndex + length params1 in
          grant_clauses date_ms now startIndex
            (clauses @ [All [VisibilityIsNot (js ''private''), AnyOf scopes,
               AnyOf [SubjectIs company, All [VisibilityIs (js ''counterparties''), CounterpartiesHave company]]]])
            (params1 @ [g_grantor g]) gs)"

definition readPrefilter ::
  "(jstr \<Rightarrow> int option) \<Rightarrow> principal option \<Rightarrow> grant list \<Rightarrow> nat \<Rightarrow> int \<Rightarrow> clause \<times> jstr list" where
  "readPrefilter date_ms who grants startIndex now =
     (case who of
        None \<Rightarrow> (VisibilityIs (js ''public''), [])
      | Some p \<Rightarrow>
          if pr_kind p = KCompany then
            (AnyOf [VisibilityIs (js ''public''), SubjectIs startIndex,
               All [VisibilityIs (js ''counterparties''), CounterpartiesHave startIndex]], [pr_id p])
          else
            let (clauses, params) =
              grant_clauses date_ms now startIndex
                [VisibilityIs (js ''public''), All [TypeIsText (js ''core.grant''), BodyModuleIs startIndex]]
                [pr_id p] grants in
            (AnyOf clauses, params))"

text \<open>
  Three-valued meaning: \<open>None\<close> is SQL's null.  The columns are never null; \<open>body->>'module_id'\<close> is
  null when the member is missing or null, and \<open>pg_text\<close> is the text of a value that is not a string.
\<close>

fun sql_and :: "bool option \<Rightarrow> bool option \<Rightarrow> bool option" where
  "sql_and (Some False) _ = Some False"
| "sql_and _ (Some False) = Some False"
| "sql_and (Some True) (Some True) = Some True"
| "sql_and _ _ = None"

fun sql_or :: "bool option \<Rightarrow> bool option \<Rightarrow> bool option" where
  "sql_or (Some True) _ = Some True"
| "sql_or _ (Some True) = Some True"
| "sql_or (Some False) (Some False) = Some False"
| "sql_or _ _ = None"

definition module_text :: "(jval \<Rightarrow> jstr) \<Rightarrow> members option \<Rightarrow> jstr option" where
  "module_text pg_text body =
     (case body of None \<Rightarrow> None
      | Some b \<Rightarrow> (case member b (js ''module_id'') of
          JUndef \<Rightarrow> None | JNull \<Rightarrow> None | JStr s \<Rightarrow> Some s | v \<Rightarrow> Some (pg_text v)))"

fun holds :: "(jval \<Rightarrow> jstr) \<Rightarrow> visibility_input \<Rightarrow> jstr list \<Rightarrow> clause \<Rightarrow> bool option" where
  "holds pt r ps (VisibilityIs v) = Some (vi_visibility r = v)"
| "holds pt r ps (VisibilityIsNot v) = Some (vi_visibility r \<noteq> v)"
| "holds pt r ps (SubjectIs n) = Some (vi_subject r = ps ! (n - 1))"
| "holds pt r ps (CounterpartiesHave n) = Some (ps ! (n - 1) \<in> set (vi_counterparties r))"
| "holds pt r ps (TypeIs n) = Some (vi_type r = ps ! (n - 1))"
| "holds pt r ps (TypeIsText t) = Some (vi_type r = t)"
| "holds pt r ps (NamespaceIs n) = Some (vi_namespace r = ps ! (n - 1))"
| "holds pt r ps (BodyModuleIs n) = map_option (\<lambda>t. t = ps ! (n - 1)) (module_text pt (vi_body r))"
| "holds pt r ps (Literal b) = Some b"
| "holds pt r ps (All cs) = foldr sql_and (map (holds pt r ps) cs) (Some True)"
| "holds pt r ps (AnyOf cs) = foldr sql_or (map (holds pt r ps) cs) (Some False)"

subsection \<open>The condition says what \<open>canRead\<close> says\<close>

lemma sql_and_true [simp]: "sql_and a b = Some True \<longleftrightarrow> a = Some True \<and> b = Some True"
  by (cases "(a, b)" rule: sql_and.cases) auto

lemma sql_or_true [simp]: "sql_or a b = Some True \<longleftrightarrow> a = Some True \<or> b = Some True"
  by (cases "(a, b)" rule: sql_or.cases) auto

lemma holds_All [simp]: "holds pt r ps (All cs) = Some True \<longleftrightarrow> (\<forall>c \<in> set cs. holds pt r ps c = Some True)"
  by (induction cs) auto

lemma holds_AnyOf [simp]: "holds pt r ps (AnyOf cs) = Some True \<longleftrightarrow> (\<exists>c \<in> set cs. holds pt r ps c = Some True)"
  by (induction cs) auto

declare holds.simps(10,11) [simp del]

text \<open>A row as the store keeps it: the namespace column is derived from the type.\<close>

definition wf_row :: "visibility_input \<Rightarrow> bool" where
  "wf_row r \<longleftrightarrow> vi_namespace r = namespaceOf (vi_type r) \<and>
     (vi_type r = js ''core.grant'' \<longrightarrow>
        (case vi_body r of None \<Rightarrow> True
         | Some b \<Rightarrow> (case member b (js ''module_id'') of JStr _ \<Rightarrow> True | JNull \<Rightarrow> True | JUndef \<Rightarrow> True | _ \<Rightarrow> False)))"

definition grants_row :: "(jstr \<Rightarrow> int option) \<Rightarrow> int \<Rightarrow> visibility_input \<Rightarrow> grant \<Rightarrow> bool" where
  "grants_row date_ms now r g \<longleftrightarrow> isGrantLive date_ms g now \<and>
     (\<exists>s \<in> set (g_scopes g). scopeCovers s (vi_type r) (js ''read'')) \<and>
     vi_visibility r \<noteq> js ''private'' \<and>
     (vi_subject r = g_grantor g \<or>
      vi_visibility r = js ''counterparties'' \<and> g_grantor g \<in> set (vi_counterparties r))"

lemma canRead_module:
  assumes "pr_kind p = KModule"
  shows "canRead date_ms r (Some p) grants now \<longleftrightarrow>
     vi_visibility r = js ''public'' \<or>
     (vi_type r = js ''core.grant'' \<and> names_module (vi_body r) (pr_id p)) \<or>
     (\<exists>g \<in> set grants. grants_row date_ms now r g)"
  using assms
  by (auto simp: canRead_def grants_row_def hasGrant_def grantCovers_def)

lemma scope_clause_params: "\<exists>qs. snd (scope_clause n ps s) = ps @ qs"
  by (auto simp: scope_clause_def)

lemma scope_clauses_params: "\<exists>qs. snd (scope_clauses n ps ss) = ps @ qs"
proof (induction ss arbitrary: ps)
  case (Cons s ss)
  obtain qs where "snd (scope_clause n ps s) = ps @ qs" using scope_clause_params by blast
  moreover obtain qs' where "snd (scope_clauses n (ps @ qs) ss) = (ps @ qs) @ qs'" using Cons by blast
  ultimately show ?case by (auto simp: split_beta Let_def)
qed simp

lemma grant_clauses_params: "\<exists>qs. snd (grant_clauses d now n cs ps gs) = ps @ qs"
proof (induction gs arbitrary: cs ps)
  case (Cons g gs)
  obtain qs where qs: "snd (scope_clauses n ps (filter read_or_write (g_scopes g))) = ps @ qs"
    using scope_clauses_params by blast
  show ?case
    using Cons [of cs ps] Cons [of cs "ps @ qs"] Cons [of _ "ps @ qs @ [g_grantor g]"] qs
    by (auto simp: Let_def split_beta)
qed simp

lemma nth_at: "(pre @ ps @ x # post) ! (length pre + length ps) = x"
  by (metis append_assoc length_append nth_append_length)

lemma scope_clause_holds:
  assumes "n = Suc (length pre)" "read_or_write s" "vi_namespace r = namespaceOf (vi_type r)"
    and "snd (scope_clause n ps s) @ post = all_params"
  shows "holds pt r (pre @ all_params) (fst (scope_clause n ps s)) = Some True \<longleftrightarrow> scopeCovers s (vi_type r) (js ''read'')"
  using assms nth_at [of pre ps _ post]
  by (auto simp: scope_clause_def scopeCovers_def read_or_write_def split: option.splits if_splits)

lemma scope_clauses_holds:
  assumes "n = Suc (length pre)" "\<forall>s \<in> set ss. read_or_write s" "vi_namespace r = namespaceOf (vi_type r)"
    and "snd (scope_clauses n ps ss) @ post = all_params"
  shows "(\<exists>c \<in> set (fst (scope_clauses n ps ss)). holds pt r (pre @ all_params) c = Some True) \<longleftrightarrow>
     (\<exists>s \<in> set ss. scopeCovers s (vi_type r) (js ''read''))"
  using assms(2,4)
proof (induction ss arbitrary: ps)
  case (Cons s ss)
  let ?ps = "snd (scope_clause n ps s)"
  obtain qs where qs: "snd (scope_clauses n ?ps ss) = ?ps @ qs" using scope_clauses_params by blast
  have "?ps @ (qs @ post) = all_params" using Cons.prems(2) qs by (simp add: Let_def split_beta)
  then have "holds pt r (pre @ all_params) (fst (scope_clause n ps s)) = Some True \<longleftrightarrow> scopeCovers s (vi_type r) (js ''read'')"
    using assms(1,3) Cons.prems(1) by (intro scope_clause_holds) auto
  moreover have "(\<exists>c \<in> set (fst (scope_clauses n ?ps ss)). holds pt r (pre @ all_params) c = Some True) \<longleftrightarrow>
      (\<exists>s \<in> set ss. scopeCovers s (vi_type r) (js ''read''))"
    using Cons.prems by (intro Cons.IH) (auto simp: Let_def split_beta)
  ultimately show ?case by (simp add: Let_def split_beta)
qed simp

lemma scope_clauses_Nil: "fst (scope_clauses n ps ss) = [] \<longleftrightarrow> ss = []"
  by (cases ss) (simp_all add: Let_def split_beta)

lemma read_needs_access: "scopeCovers s t (js ''read'') \<Longrightarrow> read_or_write s"
  by (auto simp: scopeCovers_def read_or_write_def split: if_splits)

definition grant_condition :: "clause list \<Rightarrow> nat \<Rightarrow> clause" where
  "grant_condition scopes n = All [VisibilityIsNot (js ''private''), AnyOf scopes,
     AnyOf [SubjectIs n, All [VisibilityIs (js ''counterparties''), CounterpartiesHave n]]]"

lemma grant_clauses_holds:
  assumes "n = Suc (length pre)" "vi_namespace r = namespaceOf (vi_type r)"
    and "snd (grant_clauses d now n cs ps gs) @ post = all_params"
  shows "(\<exists>c \<in> set (fst (grant_clauses d now n cs ps gs)). holds pt r (pre @ all_params) c = Some True) \<longleftrightarrow>
     (\<exists>c \<in> set cs. holds pt r (pre @ all_params) c = Some True) \<or> (\<exists>g \<in> set gs. grants_row d now r g)"
  using assms(3)
proof (induction gs arbitrary: cs ps)
  case (Cons g gs)
  let ?ss = "filter read_or_write (g_scopes g)"
  let ?scopes = "fst (scope_clauses n ps ?ss)" and ?ps = "snd (scope_clauses n ps ?ss)"
  show ?case
  proof (cases "isGrantLive d g now \<and> ?ss \<noteq> []")
    case False
    then have "\<not> grants_row d now r g"
      using read_needs_access by (auto simp: grants_row_def filter_empty_conv)
    moreover have step: "grant_clauses d now n cs ps (g # gs) = grant_clauses d now n cs ps gs"
      using False by (cases "isGrantLive d g now") (simp_all add: Let_def split_beta scope_clauses_Nil)
    moreover have "(\<exists>c \<in> set (fst (grant_clauses d now n cs ps gs)). holds pt r (pre @ all_params) c = Some True) \<longleftrightarrow>
        (\<exists>c \<in> set cs. holds pt r (pre @ all_params) c = Some True) \<or> (\<exists>g \<in> set gs. grants_row d now r g)"
      using Cons.prems unfolding step by (rule Cons.IH)
    ultimately show ?thesis by simp
  next
    case True
    let ?n = "n + length ?ps"
    have step: "grant_clauses d now n cs ps (g # gs) =
        grant_clauses d now n (cs @ [grant_condition ?scopes ?n]) (?ps @ [g_grantor g]) gs"
      using True by (simp add: Let_def split_beta scope_clauses_Nil grant_condition_def)
    obtain qs where qs: "snd (grant_clauses d now n (cs @ [grant_condition ?scopes ?n]) (?ps @ [g_grantor g]) gs) =
        (?ps @ [g_grantor g]) @ qs"
      using grant_clauses_params by blast
    have all: "?ps @ (g_grantor g # qs @ post) = all_params"
      using Cons.prems qs unfolding step by simp
    have nth: "(pre @ all_params) ! (?n - 1) = g_grantor g"
      using nth_at [of pre ?ps "g_grantor g" "qs @ post"] assms(1) by (simp flip: all)
    have "(\<exists>c \<in> set ?scopes. holds pt r (pre @ all_params) c = Some True) \<longleftrightarrow>
        (\<exists>s \<in> set ?ss. scopeCovers s (vi_type r) (js ''read''))"
      using all assms(1,2) by (intro scope_clauses_holds) auto
    also have "\<dots> \<longleftrightarrow> (\<exists>s \<in> set (g_scopes g). scopeCovers s (vi_type r) (js ''read''))"
      using read_needs_access by auto
    finally have "holds pt r (pre @ all_params) (grant_condition ?scopes ?n) = Some True \<longleftrightarrow> grants_row d now r g"
      using True nth by (auto simp: grant_condition_def grants_row_def)
    moreover have "(\<exists>c \<in> set (fst (grant_clauses d now n (cs @ [grant_condition ?scopes ?n]) (?ps @ [g_grantor g]) gs)).
        holds pt r (pre @ all_params) c = Some True) \<longleftrightarrow>
        (\<exists>c \<in> set (cs @ [grant_condition ?scopes ?n]). holds pt r (pre @ all_params) c = Some True) \<or>
        (\<exists>g \<in> set gs. grants_row d now r g)"
      using Cons.prems unfolding step by (rule Cons.IH)
    ultimately show ?thesis unfolding step by auto
  qed
qed simp

lemma module_text_names:
  "wf_row r \<Longrightarrow> vi_type r = js ''core.grant'' \<Longrightarrow> module_text pt (vi_body r) = Some m \<longleftrightarrow> names_module (vi_body r) m"
  by (auto simp: wf_row_def module_text_def names_module_def split: option.splits jval.splits)

lemma prefilter_holds:
  assumes "wf_row r" "n = Suc (length pre)" "readPrefilter d who grants n now = (c, ps)"
  shows "holds pt r (pre @ ps @ post) c = Some True \<longleftrightarrow> canRead d r who grants now"
proof (cases who)
  case None
  with assms(3) show ?thesis by (auto simp: readPrefilter_def canRead_def)
next
  case (Some p)
  show ?thesis
  proof (cases "pr_kind p")
    case KCompany
    with assms(2,3) Some show ?thesis by (auto simp: readPrefilter_def canRead_def nth_append)
  next
    case KModule
    let ?base = "[VisibilityIs (js ''public''), All [TypeIsText (js ''core.grant''), BodyModuleIs n]]"
    let ?gc = "grant_clauses d now n ?base [pr_id p] grants"
    obtain qs where qs: "snd ?gc = [pr_id p] @ qs" using grant_clauses_params by blast
    have c: "c = AnyOf (fst ?gc)" "ps = snd ?gc"
      using assms(3) Some KModule by (auto simp: readPrefilter_def split_beta)
    have "holds pt r (pre @ ps @ post) (All [TypeIsText (js ''core.grant''), BodyModuleIs n]) = Some True \<longleftrightarrow>
        vi_type r = js ''core.grant'' \<and> names_module (vi_body r) (pr_id p)"
      using assms(1,2) c(2) qs module_text_names [OF assms(1), of pt "pr_id p"] by (auto simp: nth_append)
    moreover have "(\<exists>c \<in> set (fst ?gc). holds pt r (pre @ ps @ post) c = Some True) \<longleftrightarrow>
        (\<exists>c \<in> set ?base. holds pt r (pre @ ps @ post) c = Some True) \<or> (\<exists>g \<in> set grants. grants_row d now r g)"
      using assms(1,2) c(2) by (intro grant_clauses_holds [where post = post]) (auto simp: wf_row_def)
    ultimately show ?thesis
      unfolding c(1) Some canRead_module [OF KModule] by auto
  qed
qed

text \<open>C8. The SQL read condition is exact: with its placeholders numbered after the parameters already bound, it is true
  of a stored row, in three-valued logic, exactly when \<open>canRead\<close> lets the caller read that row.\<close>

theorem readPrefilter_exact:
  assumes "wf_row r" "readPrefilter d who grants (Suc (length pre)) now = (c, ps)"
  shows "holds pt r (pre @ ps @ post) c = Some True \<longleftrightarrow> canRead d r who grants now"
  using assms by (intro prefilter_holds) auto

definition sample_grant :: grant where
  "sample_grant = \<lparr> g_root = js ''r'', g_record = js ''r'', g_grantor = js ''seller'', g_grantee = js ''mod'',
     g_scopes = [\<lparr> sc_namespace = Some (js ''trade''), sc_type = None, sc_access = js ''write'' \<rparr>],
     g_status = js ''active'', g_expires_at = Some (js ''9'') \<rparr>"

definition sample_row :: visibility_input where
  "sample_row = \<lparr> vi_visibility = js ''counterparties'', vi_subject = js ''buyer'', vi_counterparties = [js ''seller''],
     vi_type = js ''trade.intent'', vi_namespace = js ''trade'', vi_body = None \<rparr>"

lemma readPrefilter_exact_witness:
  "canRead (\<lambda>_. Some 9) sample_row (Some \<lparr> pr_kind = KModule, pr_id = js ''mod'', pr_key_id = js ''k'', pr_role = js ''root'' \<rparr>)
     [sample_grant] 8"
proof -
  let ?who = "Some \<lparr> pr_kind = KModule, pr_id = js ''mod'', pr_key_id = js ''k'', pr_role = js ''root'' \<rparr>"
  obtain c ps where c: "readPrefilter (\<lambda>_. Some 9) ?who [sample_grant] (Suc (length [js ''7''])) 8 = (c, ps)"
    by (cases "readPrefilter (\<lambda>_. Some 9) ?who [sample_grant] (Suc (length [js ''7''])) 8")
  have "wf_row sample_row" by code_simp
  moreover have "holds (\<lambda>_. []) sample_row ([js ''7''] @ ps @ []) c = Some True"
  proof -
    have "case readPrefilter (\<lambda>_. Some 9) ?who [sample_grant] (Suc (length [js ''7''])) 8 of
        (c, ps) \<Rightarrow> holds (\<lambda>_. []) sample_row ([js ''7''] @ ps @ []) c = Some True" by code_simp
    then show ?thesis unfolding c by simp
  qed
  ultimately show ?thesis using readPrefilter_exact [OF _ c] by blast
qed

subsection \<open>Reading in pages\<close>

text \<open>
  What a feed relies on: the condition that the database applies before the limit selects the rows
  the caller may read, so filtering the fetched rows again drops nothing and a page is never short.
\<close>

locale exact_selection =
  fixes stored :: "'r \<Rightarrow> bool" and readable :: "'r \<Rightarrow> bool" and selected :: "'r \<Rightarrow> bool"
  assumes exact: "stored r \<Longrightarrow> selected r \<longleftrightarrow> readable r"
begin

lemma filter_selected: "(\<forall>r \<in> set rows. stored r) \<Longrightarrow> filter selected rows = filter readable rows"
  by (rule filter_cong) (auto simp: exact)

lemma page_complete:
  "(\<forall>r \<in> set rows. stored r) \<Longrightarrow> filter readable (take n (filter selected rows)) = take n (filter readable rows)"
proof -
  assume s: "\<forall>r \<in> set rows. stored r"
  have "\<forall>r \<in> set (take n (filter readable rows)). readable r" by (auto dest: in_set_takeD)
  then have "filter readable (take n (filter readable rows)) = take n (filter readable rows)"
    by (rule filter_id_conv [THEN iffD2])
  then show ?thesis by (simp only: filter_selected [OF s])
qed

end

interpretation prefilter: exact_selection wf_row
  "\<lambda>r. canRead d r who grants now"
  "\<lambda>r. holds pt r (pre @ snd (readPrefilter d who grants (Suc (length pre)) now) @ post)
     (fst (readPrefilter d who grants (Suc (length pre)) now)) = Some True"
  by unfold_locales (rule prefilter_holds, simp_all)

end
