(* ===== verification/Transitions.thy ===== *)
theory Transitions
  imports Registry Authz
begin

text \<open>
  \<^verbatim>\<open>dtp-store/errors.ts\<close>, \<^verbatim>\<open>transitions.ts\<close> and \<^verbatim>\<open>integrity.ts\<close>: the store's error codes, the roles a writer
  holds, role continuity along a chain, the state machine and lock rules read from the schema's
  keywords, and the invariants local to two record types.  An error is its code; the message and
  the details are not modelled.  An exception that is not a \<open>StoreError\<close> (a canonicalisation
  error, a property read of undefined) reaches the router as \<open>internal\<close>.
\<close>

datatype error_code =
    bad_request | envelope_invalid | schema_invalid | float_not_allowed | unknown_type | auth_required
  | auth_invalid | signature_invalid | issuer_mismatch | key_unknown | key_inactive | forbidden
  | grant_missing | issuer_not_party | not_found | duplicate_record_id | supersedes_conflict
  | transition_forbidden | payload_too_large | internal

fun STATUS :: "error_code \<Rightarrow> nat" where
  "STATUS bad_request = 400"
| "STATUS envelope_invalid = 422"
| "STATUS schema_invalid = 422"
| "STATUS float_not_allowed = 422"
| "STATUS unknown_type = 422"
| "STATUS auth_required = 401"
| "STATUS auth_invalid = 401"
| "STATUS signature_invalid = 401"
| "STATUS issuer_mismatch = 401"
| "STATUS key_unknown = 401"
| "STATUS key_inactive = 403"
| "STATUS forbidden = 403"
| "STATUS grant_missing = 403"
| "STATUS issuer_not_party = 403"
| "STATUS not_found = 404"
| "STATUS duplicate_record_id = 409"
| "STATUS supersedes_conflict = 409"
| "STATUS transition_forbidden = 409"
| "STATUS payload_too_large = 413"
| "STATUS internal = 500"

record party =
  p_issuer :: jstr
  p_subject :: jstr
  p_counterparties :: "jstr list"

definition rolesOf :: "type_info \<Rightarrow> members \<Rightarrow> party \<Rightarrow> jstr list" where
  "rolesOf info body party =
     [js ''any''] @
     (if p_issuer party = p_subject party then [js ''subject''] else []) @
     (if p_issuer party \<in> set (p_counterparties party) then [js ''counterparty''] else []) @
     map fst (filter (\<lambda>rf. member body (snd rf) = JStr (p_issuer party)) (ti_roles info))"

definition statusOf :: "type_info \<Rightarrow> members option \<Rightarrow> jstr option" where
  "statusOf info body =
     (case ti_transitions info of
        None \<Rightarrow> None
      | Some t \<Rightarrow> (case (t_status_field t, body) of
            (Some f, Some b) \<Rightarrow> if f = [] then None else str_of (member b f)
          | _ \<Rightarrow> None))"

fun role_continuity_loop ::
  "jstr list \<Rightarrow> jstr list \<Rightarrow> members option \<Rightarrow> members \<Rightarrow> (jstr \<times> jstr) list \<Rightarrow> error_code + unit" where
  "role_continuity_loop third parties prevBody newBody [] = Inr ()"
| "role_continuity_loop third parties prevBody newBody ((role, f) # roles) =
     (let next = member0 newBody f in
      if role \<in> set third \<and> next \<noteq> JNull \<and> (\<exists>p \<in> set parties. next = JStr p)
      then Inl transition_forbidden
      else case prevBody of
        None \<Rightarrow> role_continuity_loop third parties prevBody newBody roles
      | Some b \<Rightarrow>
          let prev = member0 b f in
          if strict_eq prev next then role_continuity_loop third parties prevBody newBody roles
          else if prev = JNull \<and> role \<in> set third
          then role_continuity_loop third parties prevBody newBody roles
          else Inl transition_forbidden)"

definition checkRoleContinuity :: "type_info \<Rightarrow> members option \<Rightarrow> members \<Rightarrow> party \<Rightarrow> error_code + unit" where
  "checkRoleContinuity info prevBody newBody party =
     role_continuity_loop (xs_third_party_roles (ti_schema info)) (p_subject party # p_counterparties party)
       prevBody newBody (ti_roles info)"

text \<open>\<open>canonicalize(a ?? null) !== canonicalize(b ?? null)\<close>; a value that cannot be canonicalised throws.\<close>

definition same_canonical :: "jval \<Rightarrow> jval \<Rightarrow> error_code + bool" where
  "same_canonical a b =
     ebind (map_err (\<lambda>_. internal) (canonicalize (or_null a))) (\<lambda>s.
     ebind (map_err (\<lambda>_. internal) (canonicalize (or_null b))) (\<lambda>t. Inr (s = t)))"

fun check_same_fields :: "members \<Rightarrow> members \<Rightarrow> jstr list \<Rightarrow> error_code + unit" where
  "check_same_fields prev new [] = Inr ()"
| "check_same_fields prev new (f # fs) =
     ebind (same_canonical (member prev f) (member new f)) (\<lambda>same.
     if same then check_same_fields prev new fs else Inl transition_forbidden)"

definition check_locks :: "type_info \<Rightarrow> members \<Rightarrow> members \<Rightarrow> error_code + unit" where
  "check_locks info prev new =
     (let x = ti_schema info in
      if xs_append_only x then Inl transition_forbidden
      else if (case xs_lock_after x of
          None \<Rightarrow> True
        | Some statuses \<Rightarrow>
            (case statusOf info (Some prev) of None \<Rightarrow> js ''null'' | Some s \<Rightarrow> s) \<in> set statuses)
      then check_same_fields prev new (case xs_immutable x of None \<Rightarrow> [] | Some fs \<Rightarrow> fs)
      else Inr ())"

definition allowed :: "jstr list \<Rightarrow> jstr list \<Rightarrow> bool" where
  "allowed roles by = (\<exists>r \<in> set by. r \<in> set roles)"

definition check_machine :: "type_info \<Rightarrow> members option \<Rightarrow> members \<Rightarrow> jstr list \<Rightarrow> error_code + unit" where
  "check_machine info prevBody newBody roles =
     (case ti_transitions info of
        None \<Rightarrow> guard (prevBody = None \<or> js ''subject'' \<in> set roles) transition_forbidden
      | Some t \<Rightarrow>
          let next = statusOf info (Some newBody) in
          case prevBody of
            None \<Rightarrow>
              if \<not> allowed roles (t_initial_by t) then Inl transition_forbidden
              else if has_text (t_status_field t) \<and> t_initial_status t \<noteq> [] \<and>
                (case next of None \<Rightarrow> True | Some s \<Rightarrow> s \<notin> set (t_initial_status t))
              then Inl transition_forbidden
              else Inr ()
          | Some prevb \<Rightarrow>
              if \<not> has_text (t_status_field t)
              then guard (js ''subject'' \<in> set roles) transition_forbidden
              else
                let prev = statusOf info (Some prevb);
                    matches = filter (\<lambda>tr. Some (tr_from tr) = prev \<and> Some (tr_to tr) = next) (t_transitions t) in
                if matches \<noteq> []
                then guard (\<exists>tr \<in> set matches. allowed roles (tr_by tr)) transition_forbidden
                else if prev = next
                then guard (allowed roles (case xs_revision_by (ti_schema info) of None \<Rightarrow> [js ''subject''] | Some by \<Rightarrow> by))
                  transition_forbidden
                else Inl transition_forbidden)"

definition checkTransition :: "type_info \<Rightarrow> members option \<Rightarrow> members \<Rightarrow> jstr list \<Rightarrow> error_code + unit" where
  "checkTransition info prevBody newBody roles =
     ebind (case prevBody of None \<Rightarrow> Inr () | Some prev \<Rightarrow> check_locks info prev newBody)
       (\<lambda>_. check_machine info prevBody newBody roles)"

subsection \<open>Integrity of invoices and fulfilments\<close>

definition reject_unless :: "bool \<Rightarrow> error_code + unit" where
  "reject_unless ok = guard ok transition_forbidden"

text \<open>\<open>v.key\<close>: reading a property of undefined or null throws.\<close>

definition read_prop :: "jval \<Rightarrow> string \<Rightarrow> error_code + jval" where
  "read_prop v k = (if nullish v then Inl internal else Inr (field v (js k)))"

text \<open>
  \<open>String(v) === s\<close> for a word \<open>s\<close>: a string itself, or an array of one value that prints as \<open>s\<close>.
\<close>

fun prints_as :: "jval \<Rightarrow> jstr \<Rightarrow> bool" where
  "prints_as (JStr t) s = (t = s)"
| "prints_as (JArr [v]) s = prints_as v s"
| "prints_as _ s = False"

definition check_accounting :: "jstr \<Rightarrow> members \<Rightarrow> members option \<Rightarrow> error_code + unit" where
  "check_accounting issuer body prev =
     (case prev of
        None \<Rightarrow> Inr ()
      | Some p \<Rightarrow>
          if member p (js ''seller_company_id'') \<noteq> JStr issuer
          then check_same_fields p body (map js [''paid_amount'', ''settlement_event_ids''])
          else Inr ())"

definition check_assignment :: "jstr \<Rightarrow> members \<Rightarrow> members option \<Rightarrow> error_code + unit" where
  "check_assignment issuer body prev =
     (let assigned = member0 body (js ''assigned_to_company_id'');
          before = (case prev of None \<Rightarrow> JNull | Some p \<Rightarrow> member0 p (js ''assigned_to_company_id'')) in
      if before \<noteq> JNull \<and> \<not> strict_eq assigned before then Inl transition_forbidden
      else if \<not> strict_eq assigned before \<and> member body (js ''seller_company_id'') \<noteq> JStr issuer
      then Inl transition_forbidden
      else Inr ())"

definition check_invoice :: "jstr \<Rightarrow> members \<Rightarrow> members option \<Rightarrow> error_code + unit" where
  "check_invoice issuer body prev =
     ebind (check_accounting issuer body prev) (\<lambda>_. check_assignment issuer body prev)"

text \<open>A buyer attestation that was not there before.\<close>

definition check_new_attestation :: "jstr \<Rightarrow> jstr \<Rightarrow> members \<Rightarrow> jval \<Rightarrow> error_code + unit" where
  "check_new_attestation issuer record_id body buyer =
     (if member body (js ''buyer_company_id'') \<noteq> JStr issuer \<or>
         member body (js ''status'') \<noteq> JStr (js ''buyer_attested'')
      then Inl transition_forbidden
      else
        ebind (read_prop buyer ''company_id'') (\<lambda>bc.
        if \<not> strict_eq bc (member body (js ''buyer_company_id'')) then Inl transition_forbidden
        else ebind (read_prop buyer ''record_id'') (\<lambda>br. reject_unless (br = JStr record_id))))"

definition check_fulfillment :: "jstr \<Rightarrow> jstr \<Rightarrow> members \<Rightarrow> members option \<Rightarrow> error_code + unit" where
  "check_fulfillment issuer record_id body prev =
     (let seller = member body (js ''seller_attestation''); buyer = member body (js ''buyer_attestation'') in
      case prev of
        None \<Rightarrow>
          ebind (read_prop seller ''company_id'') (\<lambda>sc.
          if \<not> strict_eq sc (member body (js ''seller_company_id'')) then Inl transition_forbidden
          else
            ebind (read_prop seller ''record_id'') (\<lambda>sr.
            if sr \<noteq> JStr record_id then Inl transition_forbidden
            else reject_unless (buyer = JNull)))
      | Some p \<Rightarrow>
          let prev_buyer = member p (js ''buyer_attestation'') in
          ebind (if nullish prev_buyer then Inr () else
            ebind (same_canonical prev_buyer buyer) reject_unless) (\<lambda>_.
          ebind (if nullish prev_buyer \<and> buyer \<noteq> JNull then
              check_new_attestation issuer record_id body buyer
            else Inr ()) (\<lambda>_.
          ebind (reject_unless (\<not> (member body (js ''status'') = JStr (js ''buyer_attested'') \<and> \<not> truthy buyer))) (\<lambda>_.
          ebind (same_canonical (member p (js ''deductions'')) (member body (js ''deductions''))) (\<lambda>same.
          if same then Inr ()
          else reject_unless
            (member p (js ''status'') = JStr (js ''seller_attested'') \<and>
             member body (js ''buyer_company_id'') = JStr issuer \<and>
             (prints_as (member body (js ''status'')) (js ''buyer_attested'') \<or>
              prints_as (member body (js ''status'')) (js ''disputed''))))))))"

definition checkIntegrity :: "jstr \<Rightarrow> jstr \<Rightarrow> jstr \<Rightarrow> members \<Rightarrow> members option \<Rightarrow> error_code + unit" where
  "checkIntegrity type issuer record_id body prev =
     ebind (if type = js ''finance.invoice'' then check_invoice issuer body prev else Inr ()) (\<lambda>_.
     if type \<noteq> js ''trade.fulfillment'' then Inr () else check_fulfillment issuer record_id body prev)"

subsection \<open>What the checks guarantee\<close>

lemma role_continuity_ok:
  "role_continuity_loop third parties prevBody newBody roles = Inr () \<longleftrightarrow>
     (\<forall>(role, f) \<in> set roles.
        (role \<in> set third \<longrightarrow> (\<forall>p \<in> set parties. member0 newBody f \<noteq> JStr p)) \<and>
        (case prevBody of None \<Rightarrow> True
         | Some b \<Rightarrow> strict_eq (member0 b f) (member0 newBody f) \<or> member0 b f = JNull \<and> role \<in> set third))"
  by (induction third parties prevBody newBody roles rule: role_continuity_loop.induct)
    (auto simp: Let_def split: option.splits if_splits)

lemma same_canonical_ok: "same_canonical a b = Inr True \<Longrightarrow> norm (or_null a) = norm (or_null b)"
  by (auto simp: same_canonical_def ok_iff intro: canonicalize_norm_eq)

lemma check_same_fields_ok:
  "check_same_fields prev new fs = Inr () \<Longrightarrow> f \<in> set fs \<Longrightarrow> norm (member0 prev f) = norm (member0 new f)"
proof (induction prev new fs rule: check_same_fields.induct)
  case (2 prev new g fs)
  from 2(2) obtain b where b: "same_canonical (member prev g) (member new g) = Inr b" "b"
      "check_same_fields prev new fs = Inr ()"
    by (auto simp: ok_iff split: if_splits)
  then have "norm (member0 prev g) = norm (member0 new g)" by (auto simp: member0_def intro: same_canonical_ok)
  with 2(1) [OF b(1,2,3)] 2(3) b(2) show ?case by auto
qed simp

text \<open>Roles are fixed for the life of a chain: when a superseding body passes the continuity check, every role field
  names the same company as before, or is a third-party role that was empty; and a third-party role never names the
  subject or a counterparty.\<close>

theorem roles_are_fixed:
  assumes "checkRoleContinuity info (Some prev) new party = Inr ()" "(role, f) \<in> set (ti_roles info)"
    and "member0 prev f = JStr company"
  shows "member new f = JStr company"
proof -
  have "strict_eq (member0 prev f) (member0 new f) \<or> member0 prev f = JNull"
    using assms(1,2) unfolding checkRoleContinuity_def role_continuity_ok by fastforce
  then have "member0 new f = JStr company" using assms(3) by auto
  then show ?thesis by (simp add: member0_def)
qed

lemma roles_are_fixed_witness:
  "checkRoleContinuity (info_of (js ''trade.contract'') e_contract x_contract)
     (Some [(js ''buyer_company_id'', JStr (js ''b'')), (js ''seller_company_id'', JStr (js ''s''))])
     [(js ''buyer_company_id'', JStr (js ''b'')), (js ''seller_company_id'', JStr (js ''x''))]
     \<lparr>p_issuer = js ''b'', p_subject = js ''b'', p_counterparties = [js ''s'']\<rparr> \<noteq> Inr ()"
  using roles_are_fixed [of "info_of (js ''trade.contract'') e_contract x_contract"
      "[(js ''buyer_company_id'', JStr (js ''b'')), (js ''seller_company_id'', JStr (js ''s''))]"
      "[(js ''buyer_company_id'', JStr (js ''b'')), (js ''seller_company_id'', JStr (js ''x''))]"
      "\<lparr>p_issuer = js ''b'', p_subject = js ''b'', p_counterparties = [js ''s'']\<rparr>"
      "js ''seller''" "js ''seller_company_id''" "js ''s''"]
  by (auto simp: ti_roles_def info_of_def x_contract_def member0_def)

definition lock_applies :: "type_info \<Rightarrow> members \<Rightarrow> bool" where
  "lock_applies info prev \<longleftrightarrow>
     (case xs_lock_after (ti_schema info) of
        None \<Rightarrow> True
      | Some statuses \<Rightarrow> (case statusOf info (Some prev) of None \<Rightarrow> js ''null'' | Some s \<Rightarrow> s) \<in> set statuses)"

definition immutable_fields :: "type_info \<Rightarrow> jstr list" where
  "immutable_fields info = (case xs_immutable (ti_schema info) of None \<Rightarrow> [] | Some fs \<Rightarrow> fs)"

lemma check_locks_alt:
  "check_locks info prev new =
     (if xs_append_only (ti_schema info) then Inl transition_forbidden
      else if lock_applies info prev then check_same_fields prev new (immutable_fields info) else Inr ())"
  by (simp add: check_locks_def lock_applies_def immutable_fields_def Let_def)

lemma checkTransition_supersede:
  "checkTransition info (Some prev) new roles = Inr () \<longleftrightarrow>
     check_locks info prev new = Inr () \<and> check_machine info (Some prev) new roles = Inr ()"
  by (auto simp: checkTransition_def ok_iff)

text \<open>Locked fields: an accepted supersede never touches an append-only type, and while the lock applies it leaves
  every immutable field of the type as it was.\<close>

theorem locked_fields_keep:
  assumes "checkTransition info (Some prev) new roles = Inr ()"
  shows "\<not> xs_append_only (ti_schema info) \<and>
    (lock_applies info prev \<longrightarrow> (\<forall>f \<in> set (immutable_fields info). norm (member0 prev f) = norm (member0 new f)))"
  using assms unfolding checkTransition_supersede check_locks_alt
  by (auto split: if_splits intro: check_same_fields_ok)

definition contract_info :: type_info where
  "contract_info = info_of (js ''trade.contract'') e_contract x_contract"

definition contract_body :: "string \<Rightarrow> string \<Rightarrow> members" where
  "contract_body status po = [(js ''buyer_company_id'', JStr (js ''b'')), (js ''seller_company_id'', JStr (js ''s'')),
     (js ''buyer_po_number'', JStr (js po)), (js ''status'', JStr (js status))]"

lemma locked_fields_keep_witness:
  "checkTransition contract_info (Some (contract_body ''active'' ''1'')) (contract_body ''in_fulfillment'' ''2'')
     [js ''seller''] \<noteq> Inr ()"
proof
  assume "checkTransition contract_info (Some (contract_body ''active'' ''1'')) (contract_body ''in_fulfillment'' ''2'')
     [js ''seller''] = Inr ()"
  from locked_fields_keep [OF this] show False
    by (simp add: contract_info_def info_of_def lock_applies_def immutable_fields_def x_contract_def contract_body_def
        member0_def)
qed

lemma check_machine_moves:
  assumes "check_machine info (Some prev) new roles = Inr ()" "ti_transitions info = Some t" "has_text (t_status_field t)"
    and "statusOf info (Some prev) \<noteq> statusOf info (Some new)"
  shows "\<exists>tr \<in> set (t_transitions t). Some (tr_from tr) = statusOf info (Some prev) \<and>
     Some (tr_to tr) = statusOf info (Some new) \<and> allowed roles (tr_by tr)"
proof -
  define M where "M = filter (\<lambda>tr. Some (tr_from tr) = statusOf info (Some prev) \<and>
      Some (tr_to tr) = statusOf info (Some new)) (t_transitions t)"
  have "M \<noteq> []" "\<exists>tr \<in> set M. allowed roles (tr_by tr)"
    using assms by (auto simp: check_machine_def Let_def guard_ok simp flip: M_def split: if_splits)
  then show ?thesis by (auto simp: M_def)
qed

text \<open>A status changes only along the type's state machine: an accepted supersede that changes the status follows a
  declared transition, made by a writer who held one of its roles in the record being superseded.\<close>

theorem status_follows_machine:
  assumes "checkTransition info (Some prev) new roles = Inr ()" "ti_transitions info = Some t"
    and "has_text (t_status_field t)" "statusOf info (Some prev) \<noteq> statusOf info (Some new)"
  shows "\<exists>tr \<in> set (t_transitions t). Some (tr_from tr) = statusOf info (Some prev) \<and>
     Some (tr_to tr) = statusOf info (Some new) \<and> (\<exists>r \<in> set (tr_by tr). r \<in> set roles)"
  using assms check_machine_moves unfolding checkTransition_supersede allowed_def by blast

lemma status_follows_machine_witness:
  "checkTransition contract_info (Some (contract_body ''delivered'' ''1'')) (contract_body ''active'' ''1'')
     [js ''any'', js ''buyer'', js ''subject''] \<noteq> Inr ()"
proof
  let ?t = "the (xs_transitions x_contract)"
  assume "checkTransition contract_info (Some (contract_body ''delivered'' ''1'')) (contract_body ''active'' ''1'')
     [js ''any'', js ''buyer'', js ''subject''] = Inr ()"
  moreover have "ti_transitions contract_info = Some ?t" "has_text (t_status_field ?t)"
    by (simp_all add: ti_transitions_def contract_info_def info_of_def x_contract_def)
  moreover have s: "statusOf contract_info (Some (contract_body st po)) = Some (js st)" for st po
    by (simp add: statusOf_def ti_transitions_def contract_info_def info_of_def x_contract_def contract_body_def)
  ultimately have "\<exists>tr \<in> set (t_transitions ?t). Some (tr_from tr) = Some (js ''delivered'') \<and> Some (tr_to tr) = Some (js ''active'') \<and>
      (\<exists>r \<in> set (tr_by tr). r \<in> set [js ''any'', js ''buyer'', js ''subject''])"
    using status_follows_machine [of contract_info "contract_body ''delivered'' ''1''" "contract_body ''active'' ''1''"
      "[js ''any'', js ''buyer'', js ''subject'']" ?t] unfolding s by simp
  then show False by (auto simp: x_contract_def transition_row_def)
qed

subsection \<open>Invoices and attestations\<close>

text \<open>C9. Payment accounting belongs to the seller: when an issuer other than the seller named in the stored invoice
  supersedes it, the paid amount and the settlement references stay as they were, and an assignment, once made,
  is never changed by anyone.\<close>

theorem invoice_accounting_is_sellers:
  assumes "checkIntegrity (js ''finance.invoice'') issuer rid body (Some prev) = Inr ()"
  shows "(member prev (js ''seller_company_id'') = JStr issuer \<or>
      norm (member0 prev (js ''paid_amount'')) = norm (member0 body (js ''paid_amount'')) \<and>
      norm (member0 prev (js ''settlement_event_ids'')) = norm (member0 body (js ''settlement_event_ids''))) \<and>
    (member0 prev (js ''assigned_to_company_id'') = JNull \<or>
      strict_eq (member0 body (js ''assigned_to_company_id'')) (member0 prev (js ''assigned_to_company_id'')))"
proof -
  let ?fs = "map js [''paid_amount'', ''settlement_event_ids'']"
  have c: "check_accounting issuer body (Some prev) = Inr ()" "check_assignment issuer body (Some prev) = Inr ()"
    using assms by (auto simp: checkIntegrity_def check_invoice_def ok_iff)
  have "check_same_fields prev body ?fs = Inr ()" if "member prev (js ''seller_company_id'') \<noteq> JStr issuer"
    using c(1) that by (simp add: check_accounting_def)
  moreover have "norm (member0 prev f) = norm (member0 body f)" if "check_same_fields prev body ?fs = Inr ()" "f \<in> set ?fs" for f
    using that by (rule check_same_fields_ok)
  moreover have "member0 prev (js ''assigned_to_company_id'') = JNull \<or>
      strict_eq (member0 body (js ''assigned_to_company_id'')) (member0 prev (js ''assigned_to_company_id''))"
    using c(2) unfolding check_assignment_def Let_def option.case if_Inl_ok by blast
  moreover have "js ''paid_amount'' \<in> set ?fs" "js ''settlement_event_ids'' \<in> set ?fs" by simp_all
  ultimately show ?thesis by blast
qed

lemma invoice_accounting_is_sellers_witness:
  "checkIntegrity (js ''finance.invoice'') (js ''buyer'') (js ''r'')
     [(js ''seller_company_id'', JStr (js ''seller'')), (js ''paid_amount'', JStr (js ''9''))]
     (Some [(js ''seller_company_id'', JStr (js ''seller'')), (js ''paid_amount'', JStr (js ''0''))]) \<noteq> Inr ()"
  using invoice_accounting_is_sellers [of "js ''buyer''" "js ''r''"
      "[(js ''seller_company_id'', JStr (js ''seller'')), (js ''paid_amount'', JStr (js ''9''))]"
      "[(js ''seller_company_id'', JStr (js ''seller'')), (js ''paid_amount'', JStr (js ''0''))]"]
  by (auto simp: member0_def)

lemma new_attestation_ok:
  assumes "check_new_attestation issuer rid body buyer = Inr ()"
  shows "member body (js ''buyer_company_id'') = JStr issuer \<and> field buyer (js ''company_id'') = JStr issuer \<and>
     field buyer (js ''record_id'') = JStr rid"
proof -
  have m: "member body (js ''buyer_company_id'') = JStr issuer" and s: "member body (js ''status'') = JStr (js ''buyer_attested'')"
    using assms by (auto simp: check_new_attestation_def split: if_splits)
  show ?thesis using assms by (auto simp: check_new_attestation_def m s ok_iff if_Inl_ok read_prop_def reject_unless_def split: if_splits)
qed

text \<open>Attestations stand: once a stored fulfilment has a buyer attestation, every accepted successor carries the same
  one; and a new buyer attestation is accepted only from the buyer, naming the buyer and this very record.\<close>

theorem buyer_attestation_stands:
  assumes "checkIntegrity (js ''trade.fulfillment'') issuer rid body (Some prev) = Inr ()"
  shows "if nullish (member prev (js ''buyer_attestation''))
    then member body (js ''buyer_attestation'') = JNull \<or>
      (member body (js ''buyer_company_id'') = JStr issuer \<and>
       field (member body (js ''buyer_attestation'')) (js ''company_id'') = JStr issuer \<and>
       field (member body (js ''buyer_attestation'')) (js ''record_id'') = JStr rid)
    else norm (member prev (js ''buyer_attestation'')) = norm (member0 body (js ''buyer_attestation''))"
proof -
  have c: "check_fulfillment issuer rid body (Some prev) = Inr ()" using assms by (auto simp: checkIntegrity_def ok_iff)
  show ?thesis
  proof (cases "nullish (member prev (js ''buyer_attestation''))")
    case True
    show ?thesis
    proof (cases "member body (js ''buyer_attestation'') = JNull")
      case nn: False
      with c True have "check_new_attestation issuer rid body (member body (js ''buyer_attestation'')) = Inr ()"
        by (simp add: check_fulfillment_def Let_def ok_iff)
      from new_attestation_ok [OF this] True show ?thesis by simp
    qed (use True in simp)
  next
    case False
    then have "same_canonical (member prev (js ''buyer_attestation'')) (member body (js ''buyer_attestation'')) = Inr True"
      using c by (auto simp: check_fulfillment_def Let_def ok_iff reject_unless_def)
    then have "norm (or_null (member prev (js ''buyer_attestation''))) = norm (member0 body (js ''buyer_attestation''))"
      unfolding member0_def by (rule same_canonical_ok)
    moreover have "or_null (member prev (js ''buyer_attestation'')) = member prev (js ''buyer_attestation'')"
      using False by (auto simp: or_null_def nullish_def split: jval.splits)
    ultimately show ?thesis using False by simp
  qed
qed

lemma buyer_attestation_stands_witness:
  "checkIntegrity (js ''trade.fulfillment'') (js ''b'') (js ''r2'')
     [(js ''buyer_attestation'', JNull)] (Some [(js ''buyer_attestation'', JStr (js ''signed''))]) \<noteq> Inr ()"
  using buyer_attestation_stands [of "js ''b''" "js ''r2''" "[(js ''buyer_attestation'', JNull)]"
      "[(js ''buyer_attestation'', JStr (js ''signed''))]"]
  by (auto simp: nullish_def member0_def)

end
