(* ===== verification/Validate.thy ===== *)
theory Validate
  imports Transitions
begin

text \<open>
  \<^verbatim>\<open>dtp-store/validate.ts\<close>: steps 1 to 5 of every write.  The platform's services (WebCrypto, the JSON
  Schema validator, date parsing, the jsonb cast and its text, the timestamp and json casts of a row's values,
  \<open>gen_random_uuid\<close>)
  are the fields of a \<open>platform\<close>, a parameter of every handler.  After the validator has accepted the
  envelope the code reads its members without further checks; \<open>read_envelope\<close> and \<open>read_keys\<close> do the
  same, and a shape they cannot read counts as an internal error.
\<close>

record envelope =
  e_record_id :: jstr
  e_root_id :: jstr
  e_type :: jstr
  e_namespace :: jstr
  e_version :: jstr
  e_subject :: jstr
  e_counterparties :: "jstr list"
  e_issuer_key :: jstr
  e_issuer_company :: jstr
  e_issuer_module :: "jstr option"
  e_visibility :: jstr
  e_created_at :: jstr
  e_supersedes :: "jstr option"
  e_body :: members
  e_signature :: jstr
  e_source :: members

record platform =
  pl_verify :: "byte list \<Rightarrow> byte list \<Rightarrow> byte list \<Rightarrow> bool"
  pl_sha256Hex :: "byte list \<Rightarrow> jstr"
  pl_validate :: validator
  pl_date_ms :: "jstr \<Rightarrow> int option"
  pl_jsonb :: "members \<Rightarrow> members"
  pl_row_ok :: "envelope \<Rightarrow> bool"
  pl_event_id :: "int \<Rightarrow> jstr"
  pl_pg_text :: "jval \<Rightarrow> jstr"

fun text_or_null :: "jval \<Rightarrow> jstr option option" where
  "text_or_null (JStr s) = Some (Some s)"
| "text_or_null JNull = Some None"
| "text_or_null _ = None"

fun text_list :: "jval list \<Rightarrow> jstr list option" where
  "text_list [] = Some []"
| "text_list (v # vs) = (case (str_of v, text_list vs) of (Some s, Some ss) \<Rightarrow> Some (s # ss) | _ \<Rightarrow> None)"

definition text_member :: "members \<Rightarrow> string \<Rightarrow> jstr option" where
  "text_member kvs k = str_of (member kvs (js k))"

definition read_envelope :: "members \<Rightarrow> envelope option" where
  "read_envelope src =
     Option.bind (text_member src ''record_id'') (\<lambda>record_id.
     Option.bind (text_member src ''root_id'') (\<lambda>root_id.
     Option.bind (text_member src ''type'') (\<lambda>type.
     Option.bind (text_member src ''namespace'') (\<lambda>ns.
     Option.bind (text_member src ''schema_version'') (\<lambda>version.
     Option.bind (text_member src ''subject_company_id'') (\<lambda>subj.
     Option.bind (Option.bind (array_of (member src (js ''counterparty_ids''))) text_list) (\<lambda>cps.
     Option.bind (object_of (member src (js ''issuer''))) (\<lambda>issuer.
     Option.bind (text_member issuer ''key_id'') (\<lambda>key_id.
     Option.bind (text_member issuer ''company_id'') (\<lambda>company_id.
     Option.bind (text_or_null (member issuer (js ''module_id''))) (\<lambda>module_id.
     Option.bind (text_member src ''visibility'') (\<lambda>visibility.
     Option.bind (text_member src ''created_at'') (\<lambda>created_at.
     Option.bind (text_or_null (member src (js ''supersedes''))) (\<lambda>supersedes.
     Option.bind (object_of (member src (js ''body''))) (\<lambda>body.
     Option.bind (text_member src ''signature'') (\<lambda>sg.
     Some \<lparr>e_record_id = record_id, e_root_id = root_id, e_type = type, e_namespace = ns, e_version = version,
       e_subject = subj, e_counterparties = cps, e_issuer_key = key_id, e_issuer_company = company_id,
       e_issuer_module = module_id, e_visibility = visibility, e_created_at = created_at,
       e_supersedes = supersedes, e_body = body, e_signature = sg, e_source = src\<rparr>))))))))))))))))"

record key_entry =
  ke_id :: jstr
  ke_role :: jstr
  ke_status :: jstr
  ke_label :: jval
  ke_revoked_at :: jval

definition read_key :: "jval \<Rightarrow> key_entry option" where
  "read_key v =
     Option.bind (object_of v) (\<lambda>k.
     Option.bind (text_member k ''key_id'') (\<lambda>key_id.
     Option.bind (text_member k ''role'') (\<lambda>role.
     Option.bind (text_member k ''status'') (\<lambda>status.
     Some \<lparr>ke_id = key_id, ke_role = role, ke_status = status,
       ke_label = member0 k (js ''label''), ke_revoked_at = member0 k (js ''revoked_at'')\<rparr>))))"

fun read_key_list :: "jval list \<Rightarrow> key_entry list option" where
  "read_key_list [] = Some []"
| "read_key_list (v # vs) = (case (read_key v, read_key_list vs) of (Some k, Some ks) \<Rightarrow> Some (k # ks) | _ \<Rightarrow> None)"

definition read_keys :: "members \<Rightarrow> key_entry list option" where
  "read_keys body = Option.bind (array_of (member body (js ''keys''))) read_key_list"

definition MAX_BODY_BYTES :: nat where
  "MAX_BODY_BYTES = 256 * 1024"

definition is_identity_type :: "jstr \<Rightarrow> bool" where
  "is_identity_type type \<longleftrightarrow> type = js ''core.company'' \<or> type = js ''core.module''"

definition active_root :: "key_entry \<Rightarrow> bool" where
  "active_root k \<longleftrightarrow> ke_role k = js ''root'' \<and> ke_status k = js ''active''"

definition check_identity_keys :: "jstr \<Rightarrow> members \<Rightarrow> error_code + unit" where
  "check_identity_keys type body =
     (if \<not> is_identity_type type then Inr ()
      else
        ebind (require internal (read_keys body)) (\<lambda>keys.
        if \<not> distinct (map ke_id keys) then Inl schema_invalid
        else guard (\<exists>k \<in> set keys. active_root k) forbidden))"

record validated =
  v_env :: envelope
  v_info :: type_info
  v_hash :: jstr

definition check_shape :: "envelope \<Rightarrow> error_code + unit" where
  "check_shape env =
     (if e_namespace env \<noteq> namespaceOf (e_type env) then Inl envelope_invalid
      else if e_subject env \<in> set (e_counterparties env) then Inl envelope_invalid
      else if e_supersedes env = None \<and> e_root_id env \<noteq> e_record_id env then Inl envelope_invalid
      else Inr ())"

definition check_signature :: "platform \<Rightarrow> members \<Rightarrow> error_code + jstr" where
  "check_signature pl src =
     ebind (map_err (\<lambda>_. internal) (verifyRecord (pl_verify pl) (pl_sha256Hex pl) src)) (\<lambda>v.
     if vr_ok v then Inr (vr_payload_hash v) else Inl signature_invalid)"

definition validateSignedEnvelope :: "platform \<Rightarrow> jval \<Rightarrow> error_code + validated" where
  "validateSignedEnvelope pl input =
     ebind (require envelope_invalid (object_of input)) (\<lambda>src.
     ebind (map_err (\<lambda>_. internal) (validateEnvelope (pl_validate pl) input)) (\<lambda>(ok, issues).
     if \<not> ok then
       Inl (if \<exists>i \<in> set issues. i_keyword i = js ''float_not_allowed'' then float_not_allowed else envelope_invalid)
     else
       ebind (require internal (read_envelope src)) (\<lambda>env.
       ebind (check_shape env) (\<lambda>_.
       ebind (ebind (map_err (\<lambda>_. internal) (typeInfo (e_type env))) (require unknown_type)) (\<lambda>info.
       if e_version env \<notin> set (ti_versions info) then Inl unknown_type
       else
         ebind (map_err (\<lambda>_. internal) (validateBody (pl_validate pl) (e_type env) (JObj (e_body env)))) (\<lambda>(body_ok, _).
         if \<not> body_ok then Inl schema_invalid
         else
           ebind (check_identity_keys (e_type env) (e_body env)) (\<lambda>_.
           ebind (check_signature pl src) (\<lambda>h.
           Inr \<lparr>v_env = env, v_info = info, v_hash = h\<rparr>))))))))"

definition statusFromBody :: "type_info \<Rightarrow> members \<Rightarrow> jstr option" where
  "statusFromBody info body =
     (case ti_transitions info of
        None \<Rightarrow> None
      | Some t \<Rightarrow> (case t_status_field t of
            None \<Rightarrow> None
          | Some f \<Rightarrow> if f = [] then None else str_of (member body f)))"

lemma statusFromBody_eq: "statusFromBody info body = statusOf info (Some body)"
  by (simp add: statusFromBody_def statusOf_def split: option.splits)

subsection \<open>What a validated envelope is\<close>

lemma read_envelope_source: "read_envelope src = Some env \<Longrightarrow>
    e_source env = src \<and> member src (js ''body'') = JObj (e_body env) \<and> member src (js ''signature'') = JStr (e_signature env) \<and>
    field (member src (js ''issuer'')) (js ''key_id'') = JStr (e_issuer_key env)"
  by (auto simp: read_envelope_def text_member_def bind_eq_Some_conv elim!: object_of.elims)

definition well_formed_envelope :: "envelope \<Rightarrow> bool" where
  "well_formed_envelope env \<longleftrightarrow> e_namespace env = namespaceOf (e_type env) \<and>
     e_subject env \<notin> set (e_counterparties env) \<and>
     (e_supersedes env = None \<longrightarrow> e_root_id env = e_record_id env)"

lemma check_shape_ok: "check_shape env = Inr () \<longleftrightarrow> well_formed_envelope env"
  by (auto simp: check_shape_def well_formed_envelope_def)

lemma validated_facts:
  assumes "validateSignedEnvelope pl input = Inr v"
  shows "\<exists>src. input = JObj src \<and> read_envelope src = Some (v_env v) \<and> well_formed_envelope (v_env v) \<and>
     typeInfo (e_type (v_env v)) = Inr (Some (v_info v)) \<and> e_version (v_env v) \<in> set (ti_versions (v_info v)) \<and>
     check_identity_keys (e_type (v_env v)) (e_body (v_env v)) = Inr () \<and> check_signature pl src = Inr (v_hash v)"
proof -
  from assms obtain src env info where s: "object_of input = Some src" "read_envelope src = Some env" "check_shape env = Inr ()"
      "typeInfo (e_type env) = Inr (Some info)" "e_version env \<in> set (ti_versions info)"
      "check_identity_keys (e_type env) (e_body env) = Inr ()" "check_signature pl src = Inr (v_hash v)"
      "v_env v = env" "v_info v = info"
    by (auto simp: validateSignedEnvelope_def ok_iff if_Inl_ok)
  then show ?thesis by (auto simp: check_shape_ok elim!: object_of.elims)
qed

text \<open>Nothing enters the store unsigned: every validated envelope carries a signature by its issuer's key that passes
  strict verification over the canonical bytes of exactly its signed fields, and the payload hash the store keeps is
  the hash of those bytes.\<close>

theorem validated_is_signed:
  assumes "validateSignedEnvelope pl input = Inr v"
  shows "\<exists>bytes raw. signingInput (e_source (v_env v)) = Inr bytes \<and> v_hash v = pl_sha256Hex pl bytes \<and>
     decodeSignature (e_signature (v_env v)) = Inr raw \<and>
     verifyBytes (pl_verify pl) (e_issuer_key (v_env v)) bytes raw = Inr True"
proof -
  obtain src where src: "read_envelope src = Some (v_env v)" "check_signature pl src = Inr (v_hash v)"
    using validated_facts [OF assms] by blast
  obtain r where r: "verifyRecord (pl_verify pl) (pl_sha256Hex pl) src = Inr r" "vr_ok r" "vr_payload_hash r = v_hash v"
    using src(2) by (auto simp: check_signature_def ok_iff split: if_splits)
  from verifyRecord_ok_iff [OF r(1)] r(2) read_envelope_source [OF src(1)]
  obtain bytes raw where b: "signingInput src = Inr bytes" "decodeSignature (e_signature (v_env v)) = Inr raw"
      "verifyBytes (pl_verify pl) (e_issuer_key (v_env v)) bytes raw = Inr True"
    by auto
  moreover have "vr_payload_hash r = pl_sha256Hex pl bytes"
    using r(1) b(1) by (auto simp: verifyRecord_def Let_def split: sum.splits)
  ultimately show ?thesis using r(3) read_envelope_source [OF src(1)] by auto
qed

text \<open>Every identity the store accepts can be managed: a validated company or module record lists its keys once each,
  with at least one active root key.\<close>

theorem identity_keeps_root_key:
  assumes "validateSignedEnvelope pl input = Inr v" "is_identity_type (e_type (v_env v))"
  shows "\<exists>keys. read_keys (e_body (v_env v)) = Some keys \<and> distinct (map ke_id keys) \<and> (\<exists>k \<in> set keys. active_root k)"
  using validated_facts [OF assms(1)] assms(2)
  by (auto simp: check_identity_keys_def ok_iff if_Inl_ok)

subsection \<open>Concrete envelopes\<close>

text \<open>A platform and envelopes on which the hypotheses of the theorems about the store are seen to hold.\<close>

definition sample_platform :: platform where
  "sample_platform = \<lparr>pl_verify = (\<lambda>_ _ _. True), pl_sha256Hex = (\<lambda>_. js ''00''), pl_validate = (\<lambda>_ _. (True, [])),
     pl_date_ms = (\<lambda>_. Some 0), pl_jsonb = (\<lambda>kvs. kvs), pl_row_ok = (\<lambda>_. True),
     pl_event_id = (\<lambda>_. js ''e''), pl_pg_text = (\<lambda>_. js ''?'')\<rparr>"

definition null_or_text :: "jstr option \<Rightarrow> jval" where
  "null_or_text x = (case x of None \<Rightarrow> JNull | Some s \<Rightarrow> JStr s)"

definition envelope_source :: "envelope \<Rightarrow> members" where
  "envelope_source env =
     [(js ''record_id'', JStr (e_record_id env)), (js ''root_id'', JStr (e_root_id env)), (js ''type'', JStr (e_type env)),
      (js ''namespace'', JStr (e_namespace env)), (js ''schema_version'', JStr (e_version env)),
      (js ''subject_company_id'', JStr (e_subject env)), (js ''counterparty_ids'', JArr (map JStr (e_counterparties env))),
      (js ''issuer'', JObj [(js ''key_id'', JStr (e_issuer_key env)), (js ''company_id'', JStr (e_issuer_company env)),
         (js ''module_id'', null_or_text (e_issuer_module env))]),
      (js ''visibility'', JStr (e_visibility env)), (js ''created_at'', JStr (e_created_at env)),
      (js ''supersedes'', null_or_text (e_supersedes env)), (js ''body'', JObj (e_body env)),
      (js ''signature'', JStr (e_signature env))]"

definition with_source :: "envelope \<Rightarrow> envelope" where
  "with_source env = env\<lparr>e_source := envelope_source env\<rparr>"

lemma with_source_simps [simp]:
  "e_record_id (with_source env) = e_record_id env" "e_root_id (with_source env) = e_root_id env"
  "e_type (with_source env) = e_type env" "e_namespace (with_source env) = e_namespace env"
  "e_version (with_source env) = e_version env" "e_subject (with_source env) = e_subject env"
  "e_counterparties (with_source env) = e_counterparties env" "e_issuer_key (with_source env) = e_issuer_key env"
  "e_issuer_company (with_source env) = e_issuer_company env" "e_issuer_module (with_source env) = e_issuer_module env"
  "e_visibility (with_source env) = e_visibility env" "e_created_at (with_source env) = e_created_at env"
  "e_supersedes (with_source env) = e_supersedes env" "e_body (with_source env) = e_body env"
  "e_signature (with_source env) = e_signature env" "e_source (with_source env) = envelope_source env"
  by (simp_all add: with_source_def)

lemma text_list_map [simp]: "text_list (map JStr ss) = Some ss"
  by (induction ss) auto

lemma text_or_null_null_or_text [simp]: "text_or_null (null_or_text x) = Some x"
  by (simp add: null_or_text_def split: option.splits)

lemma read_envelope_source_roundtrip: "read_envelope (envelope_source env) = Some (with_source env)"
  by (simp add: read_envelope_def envelope_source_def text_member_def with_source_def)

text \<open>Values without numbers, whose strings are Latin-1 and whose member names need no escapes, always serialize.\<close>

definition latin1 :: "jstr \<Rightarrow> bool" where
  "latin1 s \<longleftrightarrow> (\<forall>c \<in> set s. c < 0x100)"

definition plain_name :: "jstr \<Rightarrow> bool" where
  "plain_name k \<longleftrightarrow> latin1 k \<and> (\<forall>c \<in> set k. name_unit_ok c)"

fun plain :: "jval \<Rightarrow> bool" where
  "plain JNull = True"
| "plain (JBool b) = True"
| "plain (JStr s) = latin1 s"
| "plain (JArr vs) = (\<forall>v \<in> set vs. plain v)"
| "plain (JObj kvs) = (\<forall>(k, v) \<in> set kvs. plain_name k \<and> plain v)"
| "plain _ = False"

lemma latin1_js [simp]: "latin1 (js s)"
proof -
  have "jc c < 0x100" for c
    using nat_of_char_less_256 [of c] by (simp add: word_less_nat_alt)
  then show ?thesis by (auto simp: latin1_def js_def)
qed

lemma plain_name_js [simp]:
  "plain_name (js s) \<longleftrightarrow> list_all (\<lambda>c. c \<noteq> CHR 0x22 \<and> c \<noteq> CHR 0x5c \<and> (32 :: nat) \<le> of_char c) s"
proof -
  have "name_unit_ok (jc c) \<longleftrightarrow> c \<noteq> CHR 0x22 \<and> c \<noteq> CHR 0x5c \<and> (32 :: nat) \<le> of_char c" for c
    using jc_eq_iff [of c "CHR 0x22"] jc_eq_iff [of c "CHR 0x5c"]
    by (simp add: name_unit_ok_def word_le_nat_alt)
  then show ?thesis unfolding plain_name_def using latin1_js [of s] by (simp add: js_def list_all_iff)
qed

lemma latin1_no_lone: "latin1 s \<Longrightarrow> \<not> lone_surrogate s"
proof -
  have "\<not> is_high c \<and> \<not> is_low c" if "c < 0x100" for c :: cunit
    using that by (simp add: is_high_def is_low_def word_le_nat_alt word_less_nat_alt)
  then have "latin1 s \<Longrightarrow> \<not> lone_from p s" for p
    by (induction s arbitrary: p) (auto simp: latin1_def)
  then show "latin1 s \<Longrightarrow> \<not> lone_surrogate s" by (simp add: lone_surrogate_def)
qed

lemma plain_noFloats:
  "plain v \<Longrightarrow> is_ok (assertNoFloats v path)"
  "\<forall>v \<in> set vs. plain v \<Longrightarrow> is_ok (noFloats_items vs path i)"
  "\<forall>kv \<in> set kvs. plain (snd kv) \<Longrightarrow> is_ok (noFloats_members kvs path)"
  by (induction v path and vs path i and kvs path rule: assertNoFloats_noFloats_items_noFloats_members.induct)
    (auto simp: is_ok_ebind is_ok_iff ok_iff split_beta)

lemma plain_serializes:
  "plain v \<Longrightarrow> is_ok (serialize v path)"
  "\<forall>v \<in> set vs. plain v \<Longrightarrow> is_ok (serialize_items vs path i)"
  "plain (JObj kvs) \<Longrightarrow> is_ok (serialize_members kvs path)"
proof (induction v path and vs path i and kvs path rule: serialize_serialize_items_serialize_members.induct)
  case (8 kvs path)
  then have "plain (JObj (sorted_members kvs))" by (auto simp: sorted_members_def)
  with 8 show ?case by (simp add: is_ok_ebind is_ok_iff ok_iff)
qed (auto simp: is_ok_ebind is_ok_iff ok_iff checkString_def checkName_def plain_name_def latin1_no_lone)

lemma plain_signing_input:
  assumes "plain (JObj (signingObject src))"
  shows "is_ok (signingInput src)"
  using plain_serializes(1) [OF assms] by (simp add: is_ok_signingInput canonicalize_def)

definition sample_bytes :: "byte list" where
  "sample_bytes = replicate 32 1"

definition sample_key :: jstr where
  "sample_key = PREFIX @ base58Encode sample_bytes"

lemma latin1_append [simp]: "latin1 (s @ t) \<longleftrightarrow> latin1 s \<and> latin1 t"
  by (auto simp: latin1_def)

lemma latin1_base58 [simp]: "latin1 (base58Encode bs)"
proof -
  have "latin1 ALPHABET" by (simp add: ALPHABET_def)
  then show ?thesis using base58Encode_chars [of bs] by (auto simp: latin1_def)
qed

lemma latin1_sample_key [simp]: "latin1 sample_key"
  by (simp add: sample_key_def PREFIX_def)

lemma encode_sample_bytes: "encodeKeyId sample_bytes = Inr sample_key"
  by (simp add: encodeKeyId_def sample_bytes_def sample_key_def)

definition sample_signature :: jstr where
  "sample_signature = js ''ed25519:1111111111111111111111111111111111111111111111111111111111111111''"

lemma sample_signature_verifies:
  "\<exists>raw. decodeSignature sample_signature = Inr raw \<and> verifyBytes (\<lambda>_ _ _. True) sample_key bytes raw = Inr True"
proof -
  have "encodeSignature (replicate 64 0) = Inr sample_signature" by code_simp
  then have "decodeSignature sample_signature = Inr (replicate 64 0)" by (rule signature_text.decode_encode)
  moreover have "decodeKeyId sample_key = Inr sample_bytes" using encode_sample_bytes by (rule key_id.decode_encode)
  moreover have "canonicalPoint (replicate 32 0)" "canonicalPoint sample_bytes" by code_simp+
  ultimately show ?thesis by (simp add: verifyBytes_true L_def)
qed

definition plain_envelope :: "envelope \<Rightarrow> bool" where
  "plain_envelope env \<longleftrightarrow> plain (JObj (envelope_source env))"

lemma SIGNED_FIELDS_plain: "f \<in> set SIGNED_FIELDS \<Longrightarrow> plain_name f"
  by (auto simp: SIGNED_FIELDS_def)

lemma plain_member: "plain (JObj kvs) \<Longrightarrow> plain (member kvs k) \<or> member kvs k = JUndef"
  by (auto simp: member_def dest!: map_of_SomeD split: option.splits)

lemma plain_signed_value: "plain (JObj src) \<Longrightarrow> plain (signed_value src f)"
  using plain_member [of src f] by (auto simp: signed_value_def Let_def nullish_def)

lemma plain_envelope_ok:
  assumes "plain_envelope env"
  shows "is_ok (assertNoFloats (JObj (envelope_source env)) path)" "is_ok (signingInput (envelope_source env))"
proof -
  show "is_ok (assertNoFloats (JObj (envelope_source env)) path)"
    using assms unfolding plain_envelope_def by (rule plain_noFloats)
  have "plain (JObj (signingObject (envelope_source env)))"
    using assms SIGNED_FIELDS_plain plain_signed_value
    by (auto simp: signingObject_def plain_envelope_def simp del: plain.simps(5) intro!: plain.simps(5) [THEN iffD2])
  then show "is_ok (signingInput (envelope_source env))" by (rule plain_signing_input)
qed

lemma sample_validates:
  assumes "plain_envelope env" "well_formed_envelope env"
    and "e_issuer_key env = sample_key" "e_signature env = sample_signature"
    and "typeInfo (e_type env) = Inr (Some info)" "e_version env \<in> set (ti_versions info)"
    and "check_identity_keys (e_type env) (e_body env) = Inr ()"
  shows "validateSignedEnvelope sample_platform (JObj (envelope_source env)) =
     Inr \<lparr>v_env = with_source env, v_info = info, v_hash = js ''00''\<rparr>"
proof -
  let ?src = "envelope_source env"
  have valid: "validateEnvelope (pl_validate sample_platform) (JObj ?src) = Inr (True, [])"
    using plain_envelope_ok(1) [OF assms(1), of "js ''$''"]
    by (auto simp: validateEnvelope_def is_ok_iff sample_platform_def toIssues_def)
  have body: "validateBody (pl_validate sample_platform) (e_type env) v = Inr (True, [])" for v
    using assms(5) by (simp add: validateBody_def sample_platform_def toIssues_def)
  obtain bytes where bytes: "signingInput ?src = Inr bytes" using plain_envelope_ok(2) [OF assms(1)] by (auto simp: is_ok_iff)
  then obtain r where r: "verifyRecord (\<lambda>_ _ _. True) (\<lambda>_. js ''00'') ?src = Inr r" and h: "vr_payload_hash r = js ''00''"
    by (auto simp: verifyRecord_def Let_def split: sum.splits)
  have members: "field (member ?src (js ''issuer'')) (js ''key_id'') = JStr sample_key"
    "member ?src (js ''signature'') = JStr sample_signature"
    using assms(3,4) by (simp_all add: envelope_source_def)
  have "vr_ok r" unfolding verifyRecord_ok_iff [OF r]
    using bytes members sample_signature_verifies [of bytes] by blast
  then have signed_ok: "check_signature sample_platform ?src = Inr (js ''00'')"
    using r h by (simp add: check_signature_def sample_platform_def)
  have "check_shape (with_source env) = Inr ()"
    using assms(2) by (simp add: check_shape_ok well_formed_envelope_def)
  then show ?thesis
    using valid body signed_ok assms(5,6,7)
    by (simp add: validateSignedEnvelope_def read_envelope_source_roundtrip require_def)
qed

definition sample_id :: "nat \<Rightarrow> jstr" where
  "sample_id n = js ''00000000-0000-4000-8000-00000000000'' @ nat_str n"

lemma latin1_sample_id [simp]: "latin1 (sample_id n)"
proof -
  have "latin1 (nat_str n)"
    using nat_str_digits [of _ n] by (fastforce simp: latin1_def is_digit_def word_le_nat_alt word_less_nat_alt)
  then show ?thesis by (simp add: sample_id_def)
qed

definition sample_company :: envelope where
  "sample_company = \<lparr>e_record_id = sample_id 1, e_root_id = sample_id 1, e_type = js ''core.company'', e_namespace = js ''core'',
     e_version = js ''0.2'', e_subject = js ''acme'', e_counterparties = [], e_issuer_key = sample_key,
     e_issuer_company = js ''acme'', e_issuer_module = None, e_visibility = js ''public'',
     e_created_at = js ''2026-09-03T00:00:00Z'', e_supersedes = None,
     e_body = [(js ''display_name'', JStr (js ''Acme'')), (js ''keys'', JArr [JObj [(js ''key_id'', JStr sample_key), (js ''role'', JStr (js ''root'')),
       (js ''status'', JStr (js ''active''))]])], e_signature = sample_signature, e_source = []\<rparr>"

lemma sample_company_validates_to:
  "validateSignedEnvelope sample_platform (JObj (envelope_source sample_company)) =
     Inr \<lparr>v_env = with_source sample_company, v_info = info_of (js ''core.company'') e_company x_company, v_hash = js ''00''\<rparr>"
proof -
  have "plain_envelope sample_company"
    by (simp add: plain_envelope_def envelope_source_def sample_company_def null_or_text_def sample_signature_def)
  moreover have "well_formed_envelope sample_company"
  proof -
    have "namespaceOf (js ''core.company'') = js ''core''" by code_simp
    then show ?thesis by (simp add: well_formed_envelope_def sample_company_def)
  qed
  moreover have "typeInfo (e_type sample_company) = Inr (Some (info_of (js ''core.company'') e_company x_company))"
    by (simp add: sample_company_def typeInfo_table)
  moreover have "e_version sample_company \<in> set (ti_versions (info_of (js ''core.company'') e_company x_company))"
    by (simp add: sample_company_def info_of_def e_company_def)
  moreover have "check_identity_keys (e_type sample_company) (e_body sample_company) = Inr ()"
    by (simp add: sample_company_def check_identity_keys_def read_keys_def read_key_def text_member_def require_def
        is_identity_type_def active_root_def)
  ultimately show ?thesis using sample_validates [of sample_company] by (simp add: sample_company_def)
qed

lemma sample_company_validates:
  "\<exists>v. validateSignedEnvelope sample_platform (JObj (envelope_source sample_company)) = Inr v \<and>
     v_env v = with_source sample_company"
  by (simp add: sample_company_validates_to)

lemma validated_is_signed_witness:
  "\<exists>v bytes raw. validateSignedEnvelope sample_platform (JObj (envelope_source sample_company)) = Inr v \<and>
     signingInput (envelope_source sample_company) = Inr bytes \<and> decodeSignature sample_signature = Inr raw \<and>
     verifyBytes (\<lambda>_ _ _. True) sample_key bytes raw = Inr True"
proof -
  obtain v where v: "validateSignedEnvelope sample_platform (JObj (envelope_source sample_company)) = Inr v"
      "v_env v = with_source sample_company"
    using sample_company_validates by blast
  then show ?thesis
    using validated_is_signed [OF v(1)] by (auto simp: sample_platform_def) (auto simp: sample_company_def)
qed

lemma identity_keeps_root_key_witness:
  "\<exists>v keys. validateSignedEnvelope sample_platform (JObj (envelope_source sample_company)) = Inr v \<and>
     read_keys (e_body sample_company) = Some keys \<and> (\<exists>k \<in> set keys. active_root k)"
proof -
  obtain v where v: "validateSignedEnvelope sample_platform (JObj (envelope_source sample_company)) = Inr v"
      "v_env v = with_source sample_company"
    using sample_company_validates by blast
  moreover have "is_identity_type (e_type (v_env v))" by (simp add: v(2) is_identity_type_def sample_company_def)
  ultimately show ?thesis using identity_keeps_root_key [OF v(1)] by auto
qed

end
