(* ===== verification/TextForms.thy ===== *)
theory TextForms
  imports JsonValue Canonical Sha256
begin

text \<open>
  Text forms that the code tests by regular expressions and that several components share: record ids,
  digests, bounded texts, UTC instants and local dates, and the digest of a canonical form.  A regular
  expression is written out as the function that decides it.
\<close>

subsection \<open>Identifiers\<close>

definition hex_lower :: "cunit \<Rightarrow> bool" where
  "hex_lower c \<longleftrightarrow> (0x30 \<le> c \<and> c \<le> 0x39) \<or> (0x61 \<le> c \<and> c \<le> 0x66)"

fun hex_groups :: "nat list \<Rightarrow> jstr \<Rightarrow> bool" where
  "hex_groups [] s = False"
| "hex_groups [n] s = (length s = n \<and> list_all hex_lower s)"
| "hex_groups (n # m # ns) s =
     (length (take n s) = n \<and> list_all hex_lower (take n s) \<and>
      (case drop n s of c # cs \<Rightarrow> c = jc (CHR ''-'') \<and> hex_groups (m # ns) cs | [] \<Rightarrow> False))"

definition isUuid :: "jstr \<Rightarrow> bool" where
  "isUuid s = hex_groups [8, 4, 4, 4, 12] s"

definition lower_alnum :: "cunit \<Rightarrow> bool" where
  "lower_alnum c \<longleftrightarrow> (0x30 \<le> c \<and> c \<le> 0x39) \<or> (0x61 \<le> c \<and> c \<le> 0x7a)"

text \<open>\<open>/^[0-9a-f]{64}$/\<close>\<close>

definition hex64 :: "jstr \<Rightarrow> bool" where
  "hex64 s \<longleftrightarrow> length s = 64 \<and> list_all hex_lower s"

text \<open>\<open>v.length > 0 && v.length <= max && v.trim() === v && !/[\u0000-\u001f\u007f]/.test(v)\<close>\<close>

definition control :: "cunit \<Rightarrow> bool" where
  "control c \<longleftrightarrow> c \<le> 0x1f \<or> c = 0x7f"

definition bounded_text :: "nat \<Rightarrow> jval \<Rightarrow> bool" where
  "bounded_text n v =
     (case str_of v of
        None \<Rightarrow> False
      | Some s \<Rightarrow> s \<noteq> [] \<and> length s \<le> n \<and> \<not> js_space (hd s) \<and> \<not> js_space (last s) \<and> list_all (\<lambda>c. \<not> control c) s)"

definition uuid_value :: "jval \<Rightarrow> bool" where
  "uuid_value v = (case str_of v of None \<Rightarrow> False | Some s \<Rightarrow> isUuid s)"

definition null_or_uuid :: "jval \<Rightarrow> bool" where
  "null_or_uuid v \<longleftrightarrow> v = JNull \<or> uuid_value v"

text \<open>The member of a literal name, as in \<open>e.kind\<close>.\<close>

definition ev :: "jval \<Rightarrow> string \<Rightarrow> jval" where
  "ev e k = field e (js k)"

text \<open>An object with exactly these members.\<close>

definition exact_members :: "string list \<Rightarrow> jval \<Rightarrow> bool" where
  "exact_members ks v =
     (case object_of v of None \<Rightarrow> False
      | Some kvs \<Rightarrow> length kvs = length ks \<and> (\<forall>k \<in> set ks. js k \<in> fst ` set kvs))"

subsection \<open>Dates\<close>

text \<open>A template: d stands for a digit, any other character for itself.\<close>

definition fits :: "string \<Rightarrow> jstr \<Rightarrow> bool" where
  "fits template s = list_all2 (\<lambda>t c. if t = CHR ''d'' then is_digit c else c = jc t) template s"

definition number_at :: "nat \<Rightarrow> nat \<Rightarrow> jstr \<Rightarrow> nat" where
  "number_at i n s = decimal_value (take n (drop i s))"

definition leap_year :: "nat \<Rightarrow> bool" where
  "leap_year y \<longleftrightarrow> y mod 4 = 0 \<and> (y mod 100 \<noteq> 0 \<or> y mod 400 = 0)"

definition month_days :: "nat \<Rightarrow> nat \<Rightarrow> nat" where
  "month_days y m = [31, if leap_year y then 29 else 28, 31, 30, 31, 30, 31, 31, 30, 31, 30, 31] ! (m - 1)"

definition real_date :: "jstr \<Rightarrow> bool" where
  "real_date s \<longleftrightarrow>
     (let y = number_at 0 4 s; m = number_at 5 2 s; d = number_at 8 2 s in
      1 \<le> m \<and> m \<le> 12 \<and> 1 \<le> d \<and> d \<le> month_days y m)"

definition real_time :: "jstr \<Rightarrow> bool" where
  "real_time s \<longleftrightarrow> number_at 11 2 s \<le> 23 \<and> number_at 14 2 s \<le> 59 \<and> number_at 17 2 s \<le> 59"

text \<open>
  A UTC time with up to six fractional digits that \<open>Date.parse\<close> reads and \<open>toISOString\<close> prints with the same first
  19 characters: \<open>Date\<close> carries a day beyond the month, or the hour 24, over to the next, and refuses any
  other field out of range, so this is a time that exists.
\<close>

definition utc_shape :: "jstr \<Rightarrow> bool" where
  "utc_shape s \<longleftrightarrow> fits ''dddd-dd-ddTdd:dd:dd'' (take 19 s) \<and>
     (let rest = drop 19 s in
      rest = js ''Z'' \<or>
      (rest \<noteq> [] \<and> hd rest = 0x2e \<and> last rest = jc (CHR ''Z'') \<and>
       (let fraction = butlast (tl rest) in 1 \<le> length fraction \<and> length fraction \<le> 6 \<and> list_all is_digit fraction)))"

definition utc_time :: "jval \<Rightarrow> bool" where
  "utc_time v = (case str_of v of None \<Rightarrow> False | Some s \<Rightarrow> utc_shape s \<and> real_date s \<and> real_time s)"

text \<open>\<^verbatim>\<open>isLocalDate\<close> and \<^verbatim>\<open>isInstant\<close> of the order profile.\<close>

definition isLocalDate :: "jval \<Rightarrow> bool" where
  "isLocalDate v = (case str_of v of None \<Rightarrow> False
     | Some s \<Rightarrow> fits ''dddd-dd-dd'' s \<and> take 4 s \<noteq> js ''0000'' \<and> real_date s)"

definition isInstant :: "jval \<Rightarrow> bool" where
  "isInstant v = (case str_of v of None \<Rightarrow> False
     | Some s \<Rightarrow> fits ''dddd-dd-ddTdd:dd:dd.dddZ'' s \<and> isLocalDate (JStr (take 10 s)) \<and> real_time s)"

subsection \<open>Digests\<close>

text \<open>\<open>sha256HexSync(canonicalize(v))\<close>; \<open>None\<close> when either throws.\<close>

definition digestOf :: "jval \<Rightarrow> jstr option" where
  "digestOf v =
     (case canonicalize v of
        Inl _ \<Rightarrow> None
      | Inr t \<Rightarrow> (case sha256HexSync (utf8_encode t) of Inl _ \<Rightarrow> None | Inr h \<Rightarrow> Some h))"

text \<open>\<open>Number.isSafeInteger\<close>\<close>

fun safe_integer :: "jval \<Rightarrow> int option" where
  "safe_integer (JNum (JInt n)) = (if \<bar>n\<bar> \<le> MAX_SAFE then Some n else None)"
| "safe_integer (JNum JNegZero) = Some 0"
| "safe_integer _ = None"

end
