(* ===== verification/StoreDb.thy ===== *)
theory StoreDb
  imports Validate TextForms
begin

text \<open>
  The store's tables (\<^verbatim>\<open>supabase/migrations/20260903000000_protocol_store.sql\<close>) and the statements that
  the handlers send to them.  A table is the list of its rows in insertion order; \<open>db_next_seq\<close> is the
  sequence behind \<open>events.seq\<close>.  An \<open>act\<close> runs against the database and leaves a database behind even
  when it fails: \<open>transaction\<close> then takes the tables back, but not the sequence.
\<close>

subsection \<open>Rows\<close>

datatype stamp = Asserted jstr | DbTime int

record company_row =
  co_id :: jstr
  co_display_name :: jstr
  co_legal_name :: "jstr option"
  co_head_record_id :: "jstr option"

record module_row =
  mo_id :: jstr
  mo_publisher :: jstr
  mo_name :: jstr
  mo_head_record_id :: "jstr option"

record key_row =
  kr_id :: jstr
  kr_public_key :: "byte list"
  kr_owner_kind :: principal_kind
  kr_owner_id :: jstr
  kr_role :: jstr
  kr_label :: "jstr option"
  kr_status :: jstr
  kr_token_hash :: "jstr option"
  kr_added_by :: jstr
  kr_revoked_at :: "stamp option"

record record_row =
  rr_record_id :: jstr
  rr_root_id :: jstr
  rr_type :: jstr
  rr_namespace :: jstr
  rr_version :: jstr
  rr_subject :: jstr
  rr_counterparties :: "jstr list"
  rr_issuer_key :: jstr
  rr_issuer_company :: jstr
  rr_issuer_module :: "jstr option"
  rr_visibility :: jstr
  rr_supersedes :: "jstr option"
  rr_is_head :: bool
  rr_status :: "jstr option"
  rr_created_at :: jstr
  rr_received_at :: int
  rr_body :: members
  rr_envelope :: members
  rr_payload_hash :: jstr
  rr_signature :: jstr
  rr_seq :: "int option"

record event_row =
  ev_seq :: int
  ev_event_id :: jstr
  ev_record_id :: jstr
  ev_root_id :: jstr
  ev_type :: jstr
  ev_namespace :: jstr
  ev_version :: jstr
  ev_subject :: jstr
  ev_counterparties :: "jstr list"
  ev_issuer_key :: jstr
  ev_issuer_company :: jstr
  ev_issuer_module :: "jstr option"
  ev_visibility :: jstr
  ev_supersedes :: "jstr option"
  ev_status :: "jstr option"
  ev_created_at :: jstr
  ev_recorded_at :: int

record db =
  db_companies :: "company_row list"
  db_modules :: "module_row list"
  db_keys :: "key_row list"
  db_records :: "record_row list"
  db_grants :: "grant list"
  db_events :: "event_row list"
  db_next_seq :: int

definition empty_db :: db where
  "empty_db = \<lparr>db_companies = [], db_modules = [], db_keys = [], db_records = [], db_grants = [], db_events = [],
     db_next_seq = 1\<rparr>"

subsection \<open>Statements that may fail\<close>

text \<open>
  A failure is a \<open>StoreError\<close>, a unique violation with the name of its constraint, or any other
  exception (another database error, a TypeError).
\<close>

datatype failure = Store error_code | Unique jstr | Other

type_synonym 'a act = "db \<Rightarrow> (failure + 'a) \<times> db"

definition ret :: "'a \<Rightarrow> 'a act" where
  "ret a = (\<lambda>d. (Inr a, d))"

definition fail :: "failure \<Rightarrow> 'a act" where
  "fail e = (\<lambda>d. (Inl e, d))"

definition abind :: "'a act \<Rightarrow> ('a \<Rightarrow> 'b act) \<Rightarrow> 'b act" where
  "abind m f = (\<lambda>d. case m d of (Inl e, d') \<Rightarrow> (Inl e, d') | (Inr a, d') \<Rightarrow> f a d')"

definition query :: "(db \<Rightarrow> failure + 'a) \<Rightarrow> 'a act" where
  "query q = (\<lambda>d. (q d, d))"

definition statement :: "(db \<Rightarrow> failure + db) \<Rightarrow> unit act" where
  "statement q = (\<lambda>d. case q d of Inl e \<Rightarrow> (Inl e, d) | Inr d' \<Rightarrow> (Inr (), d'))"

definition check :: "bool \<Rightarrow> failure \<Rightarrow> unit act" where
  "check p e = query (\<lambda>_. guard p e)"

definition transaction :: "'a act \<Rightarrow> 'a act" where
  "transaction m = (\<lambda>d. case m d of
      (Inl e, d') \<Rightarrow> (Inl e, d\<lparr>db_next_seq := db_next_seq d'\<rparr>)
    | (Inr a, d') \<Rightarrow> (Inr a, d'))"

lemma ret_ok [ok_iff]: "ret a d = (Inr b, d') \<longleftrightarrow> b = a \<and> d' = d"
  by (auto simp: ret_def)

lemma fail_ok [ok_iff]: "\<not> fail e d = (Inr b, d')"
  by (simp add: fail_def)

lemma abind_ok [ok_iff]: "abind m f d = (Inr b, d') \<longleftrightarrow> (\<exists>a d''. m d = (Inr a, d'') \<and> f a d'' = (Inr b, d'))"
  by (auto simp: abind_def split: prod.splits sum.splits)

lemma query_ok [ok_iff]: "query q d = (Inr a, d') \<longleftrightarrow> d' = d \<and> q d = Inr a"
  by (auto simp: query_def)

lemma statement_ok [ok_iff]: "statement q d = (Inr u, d') \<longleftrightarrow> q d = Inr d'"
  by (auto simp: statement_def split: sum.splits)

lemma check_ok [ok_iff]: "check p e d = (Inr u, d') \<longleftrightarrow> d' = d \<and> p"
  by (auto simp: check_def ok_iff)

lemma transaction_ok [ok_iff]: "transaction m d = (Inr a, d') \<longleftrightarrow> m d = (Inr a, d')"
  by (auto simp: transaction_def split: prod.splits sum.splits)

lemma transaction_fails: "transaction m d = (Inl e, d') \<Longrightarrow> \<exists>n. d' = d\<lparr>db_next_seq := n\<rparr>"
  by (auto simp: transaction_def split: prod.splits sum.splits)

subsection \<open>Identifiers\<close>

text \<open>\<open>^(([a-z0-9]+[-_])*[a-z0-9]+\.)*([a-z0-9]+[-_])*[a-z0-9]+$\<close>: runs of letters and digits between single separators.\<close>

fun separated_runs :: "bool \<Rightarrow> jstr \<Rightarrow> bool" where
  "separated_runs in_run [] = in_run"
| "separated_runs in_run (c # cs) =
     (if lower_alnum c then separated_runs True cs
      else in_run \<and> c \<in> {jc (CHR ''-''), jc (CHR ''_''), jc (CHR ''.'')} \<and> separated_runs False cs)"

definition company_id_ok :: "jstr \<Rightarrow> bool" where
  "company_id_ok s \<longleftrightarrow> separated_runs False s \<and> 2 \<le> length s \<and> length s \<le> 64"

definition module_id_ok :: "jstr \<Rightarrow> bool" where
  "module_id_ok s \<longleftrightarrow> (case s of [] \<Rightarrow> False | c # cs \<Rightarrow> lower_alnum c \<and> 1 \<le> length cs \<and> length cs \<le> 62 \<and>
     (\<forall>x \<in> set cs. lower_alnum x \<or> x = jc (CHR ''-'')))"

definition key_id_ok :: "jstr \<Rightarrow> bool" where
  "key_id_ok s \<longleftrightarrow> take (length PREFIX) s = PREFIX \<and>
     (let rest = drop (length PREFIX) s in (length rest = 43 \<or> length rest = 44) \<and> set rest \<subseteq> set ALPHABET)"

text \<open>The check admits the text of every public key whose first byte is not zero: it has 43 or 44 characters.\<close>

lemma length_digits_ge: "2 \<le> b \<Longrightarrow> b ^ m \<le> n \<Longrightarrow> m < length (digits_be b n)"
proof (rule ccontr)
  assume b: "2 \<le> b" and n: "b ^ m \<le> n" and "\<not> m < length (digits_be b n)"
  then have "b ^ length (digits_be b n) \<le> b ^ m" by (intro power_increasing) auto
  moreover have "n < b ^ length (digits_be b n)"
    using value_be_less [of "digits_be b n" b] digits_be_less [OF b] value_digits_be [OF b] by auto
  ultimately show False using n by simp
qed

lemma length_key_text:
  assumes "length pk = 32" "hd pk \<noteq> 0"
  shows "length (base58Encode pk) = 43 \<or> length (base58Encode pk) = 44"
proof -
  let ?n = "bytes_nat pk"
  obtain b bs where pk: "pk = b # bs" "length bs = 31" "b \<noteq> 0" using assms by (cases pk) auto
  have "value_be 256 (map unat pk) < 256 ^ 32"
    using value_be_less [of "map unat pk" 256] unat_bytes [of pk] assms(1) by simp
  then have lt: "?n < 58 ^ 44" by (simp add: bytes_nat_value)
  have "1 \<le> unat b" using pk(3) by (simp add: Suc_le_eq unat_gt_0)
  then have "256 ^ 31 \<le> ?n"
    unfolding bytes_nat_value pk list.map value_be_Cons using pk(2) by (simp add: trans_le_add1)
  then have ge: "58 ^ 42 \<le> ?n" by simp
  have "length (digits_be 58 ?n) \<le> 44" using lt by (intro length_digits_be) simp_all
  moreover have "42 < length (digits_be 58 ?n)" using ge by (intro length_digits_ge) simp_all
  moreover have "base58Encode pk = map (\<lambda>d. ALPHABET ! d) (digits_be 58 ?n)"
    using pk(1,3) by (simp add: base58Encode_def encode_loop_digits)
  ultimately show ?thesis by auto
qed

lemma key_id_ok_text: "length pk = 32 \<Longrightarrow> hd pk \<noteq> 0 \<Longrightarrow> key_id_ok (PREFIX @ base58Encode pk)"
  using length_key_text [of pk] base58Encode_chars [of pk] by (simp add: key_id_ok_def Let_def)

subsection \<open>Tables with a primary key\<close>

definition the_row :: "('r \<Rightarrow> 'k) \<Rightarrow> 'k \<Rightarrow> 'r list \<Rightarrow> 'r option" where
  "the_row key k rows = find (\<lambda>r. key r = k) rows"

text \<open>
  What an insert promises its callers: a row is added only under a new key, at the end of its table.
  The lemmas about uniqueness and lookup are proved once, for every table.
\<close>

locale keyed_table =
  fixes key :: "'r \<Rightarrow> 'k" and rows :: "db \<Rightarrow> 'r list" and insert_row :: "'r \<Rightarrow> db \<Rightarrow> failure + db"
  assumes insert_new: "insert_row r d = Inr d' \<Longrightarrow> key r \<notin> key ` set (rows d)"
    and insert_last: "insert_row r d = Inr d' \<Longrightarrow> rows d' = rows d @ [r]"
begin

lemma keeps_keys_distinct:
  "insert_row r d = Inr d' \<Longrightarrow> distinct (map key (rows d)) \<Longrightarrow> distinct (map key (rows d'))"
  using insert_new insert_last by fastforce

lemma lookup_inserted: "insert_row r d = Inr d' \<Longrightarrow> the_row key (key r) (rows d') = Some r"
proof -
  have "find (\<lambda>x. key x = key r) (xs @ [r]) = Some r" if "key r \<notin> key ` set xs" for xs
    using that by (induction xs) auto
  then show "insert_row r d = Inr d' \<Longrightarrow> the_row key (key r) (rows d') = Some r"
    using insert_new insert_last by (simp add: the_row_def)
qed

lemma lookup_other:
  assumes "insert_row r d = Inr d'" "k \<noteq> key r"
  shows "the_row key k (rows d') = the_row key k (rows d)"
proof -
  have "find (\<lambda>x. key x = k) (xs @ [r]) = find (\<lambda>x. key x = k) xs" for xs
    using assms(2) by (induction xs) auto
  then show ?thesis using insert_last [OF assms(1)] by (simp add: the_row_def)
qed

lemma inserted_twice: "insert_row r d = Inr d' \<Longrightarrow> key r' = key r \<Longrightarrow> insert_row r' d' \<noteq> Inr d''"
  using insert_new insert_last by fastforce

end

lemma the_row_Some: "the_row key k rows = Some r \<Longrightarrow> r \<in> set rows \<and> key r = k"
  by (auto simp: the_row_def find_Some_iff in_set_conv_nth)

lemma the_row_None: "the_row key k rows = None \<longleftrightarrow> k \<notin> key ` set rows"
  by (auto simp: the_row_def find_None_iff)

lemma the_row_unique:
  "distinct (map key rows) \<Longrightarrow> r \<in> set rows \<Longrightarrow> the_row key (key r) rows = Some r"
  by (induction rows) (auto simp: the_row_def image_iff)

definition companyExists :: "db \<Rightarrow> jstr \<Rightarrow> bool" where
  "companyExists d i = (the_row co_id i (db_companies d) \<noteq> None)"

definition key_taken :: "db \<Rightarrow> jstr \<Rightarrow> bool" where
  "key_taken d i = (the_row kr_id i (db_keys d) \<noteq> None)"

definition module_exists :: "db \<Rightarrow> jstr \<Rightarrow> bool" where
  "module_exists d i = (the_row mo_id i (db_modules d) \<noteq> None)"

definition record_exists :: "db \<Rightarrow> jstr \<Rightarrow> bool" where
  "record_exists d i = (the_row rr_record_id i (db_records d) \<noteq> None)"

definition insert_company :: "company_row \<Rightarrow> db \<Rightarrow> failure + db" where
  "insert_company r d =
     (if \<not> company_id_ok (co_id r) then Inl Other
      else if companyExists d (co_id r) then Inl (Unique (js ''companies_pkey''))
      else Inr (d\<lparr>db_companies := db_companies d @ [r]\<rparr>))"

definition insert_module :: "module_row \<Rightarrow> db \<Rightarrow> failure + db" where
  "insert_module r d =
     (if \<not> module_id_ok (mo_id r) then Inl Other
      else if module_exists d (mo_id r) then Inl (Unique (js ''modules_pkey''))
      else if \<not> companyExists d (mo_publisher r) then Inl Other
      else Inr (d\<lparr>db_modules := db_modules d @ [r]\<rparr>))"

definition insert_key :: "key_row \<Rightarrow> db \<Rightarrow> failure + db" where
  "insert_key r d =
     (if \<not> key_id_ok (kr_id r) \<or> length (kr_public_key r) \<noteq> 32 \<or>
        (kr_role r \<noteq> js ''root'' \<and> kr_role r \<noteq> js ''delegate'') \<or> (kr_status r \<noteq> js ''active'' \<and> kr_status r \<noteq> js ''revoked'')
      then Inl Other
      else if key_taken d (kr_id r) then Inl (Unique (js ''keys_pkey''))
      else if kr_token_hash r \<noteq> None \<and> (\<exists>k \<in> set (db_keys d). kr_token_hash k = kr_token_hash r)
      then Inl (Unique (js ''keys_token_hash_key''))
      else Inr (d\<lparr>db_keys := db_keys d @ [r]\<rparr>))"

definition visibility_ok :: "jstr \<Rightarrow> bool" where
  "visibility_ok s \<longleftrightarrow> s \<in> {js ''public'', js ''counterparties'', js ''granted'', js ''private''}"

definition insert_record_row :: "record_row \<Rightarrow> db \<Rightarrow> failure + db" where
  "insert_record_row r d =
     (if \<not> isUuid (rr_record_id r) \<or> \<not> isUuid (rr_root_id r) \<or> \<not> pred_option isUuid (rr_supersedes r) \<or>
        \<not> visibility_ok (rr_visibility r) then Inl Other
      else if record_exists d (rr_record_id r) then Inl (Unique (js ''records_pkey''))
      else if rr_supersedes r \<noteq> None \<and> (\<exists>x \<in> set (db_records d). rr_supersedes x = rr_supersedes r)
      then Inl (Unique (js ''records_one_successor_uidx''))
      else if \<not> companyExists d (rr_subject r) \<or> \<not> key_taken d (rr_issuer_key r) \<or>
        \<not> pred_option (\<lambda>s. s = rr_record_id r \<or> record_exists d s) (rr_supersedes r) then Inl Other
      else Inr (d\<lparr>db_records := db_records d @ [r]\<rparr>))"

definition insert_event_row :: "event_row \<Rightarrow> db \<Rightarrow> failure + db" where
  "insert_event_row r d =
     (if \<exists>e \<in> set (db_events d). ev_seq e = ev_seq r then Inl (Unique (js ''events_pkey''))
      else if \<not> record_exists d (ev_record_id r) then Inl Other
      else Inr (d\<lparr>db_events := db_events d @ [r]\<rparr>))"

lemmas exists_row = companyExists_def key_taken_def module_exists_def record_exists_def the_row_None

interpretation companies: keyed_table co_id db_companies insert_company
  by unfold_locales (auto simp: insert_company_def exists_row if_Inl_ok split: if_splits)

interpretation modules: keyed_table mo_id db_modules insert_module
  by unfold_locales (auto simp: insert_module_def exists_row if_Inl_ok split: if_splits)

interpretation keys: keyed_table kr_id db_keys insert_key
  by unfold_locales (auto simp: insert_key_def exists_row if_Inl_ok split: if_splits)

interpretation records: keyed_table rr_record_id db_records insert_record_row
  by unfold_locales (auto simp: insert_record_row_def exists_row if_Inl_ok split: if_splits)

interpretation events: keyed_table ev_seq db_events insert_event_row
  by unfold_locales (auto simp: insert_event_row_def if_Inl_ok split: if_splits)

subsection \<open>Updates\<close>

text \<open>
  The triggers: an event row never changes; a record row only has its \<open>is_head\<close> cleared and its
  \<open>seq\<close> set once.
\<close>

definition records_limited_update :: "record_row \<Rightarrow> record_row \<Rightarrow> failure + unit" where
  "records_limited_update old new =
     (if new\<lparr>rr_is_head := rr_is_head old, rr_seq := rr_seq old\<rparr> \<noteq> old then Inl Other
      else if \<not> rr_is_head old \<and> rr_is_head new then Inl Other
      else if rr_seq old \<noteq> None \<and> rr_seq new \<noteq> rr_seq old then Inl Other
      else Inr ())"

fun update_rows :: "('r \<Rightarrow> 'r \<Rightarrow> failure + unit) \<Rightarrow> ('r \<Rightarrow> bool) \<Rightarrow> ('r \<Rightarrow> 'r) \<Rightarrow> 'r list \<Rightarrow> failure + 'r list" where
  "update_rows trigger p f [] = Inr []"
| "update_rows trigger p f (r # rs) =
     ebind (if p r then trigger r (f r) else Inr ()) (\<lambda>_.
     ebind (update_rows trigger p f rs) (\<lambda>rs'. Inr ((if p r then f r else r) # rs')))"

definition update_record :: "jstr \<Rightarrow> (record_row \<Rightarrow> record_row) \<Rightarrow> db \<Rightarrow> failure + db" where
  "update_record i f d =
     ebind (update_rows records_limited_update (\<lambda>r. rr_record_id r = i) f (db_records d)) (\<lambda>rs.
     Inr (d\<lparr>db_records := rs\<rparr>))"

definition update_keys :: "jstr \<Rightarrow> (key_row \<Rightarrow> key_row) \<Rightarrow> db \<Rightarrow> failure + db" where
  "update_keys i f d = Inr (d\<lparr>db_keys := map (\<lambda>k. if kr_id k = i then f k else k) (db_keys d)\<rparr>)"

definition update_companies :: "jstr \<Rightarrow> (company_row \<Rightarrow> company_row) \<Rightarrow> db \<Rightarrow> failure + db" where
  "update_companies i f d = Inr (d\<lparr>db_companies := map (\<lambda>c. if co_id c = i then f c else c) (db_companies d)\<rparr>)"

definition update_modules :: "jstr \<Rightarrow> (module_row \<Rightarrow> module_row) \<Rightarrow> db \<Rightarrow> failure + db" where
  "update_modules i f d = Inr (d\<lparr>db_modules := map (\<lambda>c. if mo_id c = i then f c else c) (db_modules d)\<rparr>)"

text \<open>
  \<open>insert into protocol.grants ... on conflict (grant_root_id) do update\<close>: the conflict keeps grantor and
  grantee.  The table is kept in the order of \<open>updated_at\<close>, so that \<open>order by updated_at desc\<close> reverses it.
\<close>

definition merge_grant :: "grant \<Rightarrow> grant \<Rightarrow> grant" where
  "merge_grant old new =
     old\<lparr>g_record := g_record new, g_scopes := g_scopes new, g_status := g_status new, g_expires_at := g_expires_at new\<rparr>"

definition upsert_grant :: "grant \<Rightarrow> db \<Rightarrow> failure + db" where
  "upsert_grant g d =
     (if \<not> record_exists d (g_record g) \<or> \<not> companyExists d (g_grantor g) \<or> \<not> module_exists d (g_grantee g) \<or>
        (g_status g \<noteq> js ''active'' \<and> g_status g \<noteq> js ''revoked'') then Inl Other
      else
        let row = (case the_row g_root (g_root g) (db_grants d) of None \<Rightarrow> g | Some old \<Rightarrow> merge_grant old g) in
        Inr (d\<lparr>db_grants := filter (\<lambda>x. g_root x \<noteq> g_root g) (db_grants d) @ [row]\<rparr>))"

subsection \<open>Queries\<close>

definition grantsForModule :: "db \<Rightarrow> jstr \<Rightarrow> grant list" where
  "grantsForModule d moduleId = filter (\<lambda>g. g_grantee g = moduleId \<and> g_status g = js ''active'') (db_grants d)"

definition grantsByCompany :: "db \<Rightarrow> jstr \<Rightarrow> grant list" where
  "grantsByCompany d companyId = rev (filter (\<lambda>g. g_grantor g = companyId) (db_grants d))"

definition superseded_by :: "db \<Rightarrow> jstr \<Rightarrow> jstr option" where
  "superseded_by d i = map_option rr_record_id (find (\<lambda>s. rr_supersedes s = Some i) (db_records d))"

definition fetchRecordRow :: "db \<Rightarrow> jstr \<Rightarrow> record_row option" where
  "fetchRecordRow d i = (if \<not> isUuid i then None else the_row rr_record_id i (db_records d))"

record stored_record =
  st_envelope :: members
  st_seq :: int
  st_received_at :: int
  st_payload_hash :: jstr
  st_is_head :: bool
  st_superseded_by :: "jstr option"

definition rowToRecord :: "db \<Rightarrow> record_row \<Rightarrow> stored_record" where
  "rowToRecord d r =
     \<lparr>st_envelope = rr_envelope r, st_seq = (case rr_seq r of None \<Rightarrow> -1 | Some n \<Rightarrow> n), st_received_at = rr_received_at r,
      st_payload_hash = rr_payload_hash r, st_is_head = rr_is_head r, st_superseded_by = superseded_by d (rr_record_id r)\<rparr>"

definition record_visibility :: "record_row \<Rightarrow> visibility_input" where
  "record_visibility r =
     \<lparr>vi_visibility = rr_visibility r, vi_subject = rr_subject r, vi_counterparties = rr_counterparties r,
      vi_type = rr_type r, vi_namespace = rr_namespace r, vi_body = Some (rr_body r)\<rparr>"

end
