(* ===== verification/Auth.thy ===== *)
theory Auth
  imports StoreDb
begin

text \<open>
  \<^verbatim>\<open>dtp-store/auth.ts\<close>: who is calling.  A request carries at most one \<open>authorization\<close> header; the token
  in it is looked up by its hash.  24 random bytes per token are a parameter of the request.
\<close>

definition generateToken :: "byte list \<Rightarrow> jstr" where
  "generateToken random = js ''dtps_'' @ bytesToHex random"

definition tokenHash :: "platform \<Rightarrow> jstr \<Rightarrow> jstr" where
  "tokenHash pl token = pl_sha256Hex pl (utf8_encode token)"

definition lower_ascii :: "cunit \<Rightarrow> cunit" where
  "lower_ascii c = (if 0x41 \<le> c \<and> c \<le> 0x5a then c + 0x20 else c)"

definition line_end :: "cunit \<Rightarrow> bool" where
  "line_end c \<longleftrightarrow> c = 0x0a \<or> c = 0x0d \<or> c = 0x2028 \<or> c = 0x2029"

definition trim_end :: "jstr \<Rightarrow> jstr" where
  "trim_end s = rev (dropWhile js_space (rev s))"

text \<open>\<open>/^Bearer\s+(.+)$/i\<close>: the blanks are matched greedily and give one back when nothing follows them.\<close>

definition bearerFrom :: "jstr option \<Rightarrow> jstr option" where
  "bearerFrom header =
     (case header of None \<Rightarrow> None
      | Some h \<Rightarrow>
          let (word, rest) = (take 6 h, drop 6 h);
              (blanks, token) = (takeWhile js_space rest, dropWhile js_space rest) in
          if map lower_ascii word \<noteq> js ''bearer'' \<or> blanks = [] then None
          else if token = [] then (if 2 \<le> length blanks \<and> \<not> line_end (last blanks) then Some [] else None)
          else if \<exists>c \<in> set token. line_end c then None
          else Some (trim_end token))"

definition key_principal :: "key_row \<Rightarrow> principal" where
  "key_principal k = \<lparr>pr_kind = kr_owner_kind k, pr_id = kr_owner_id k, pr_key_id = kr_id k, pr_role = kr_role k\<rparr>"

definition resolvePrincipal :: "platform \<Rightarrow> db \<Rightarrow> jstr option \<Rightarrow> failure + principal option" where
  "resolvePrincipal pl d header =
     (case bearerFrom header of None \<Rightarrow> Inr None
      | Some token \<Rightarrow>
          if token = [] then Inr None
          else if take 5 token \<noteq> js ''dtps_'' then Inl (Store auth_invalid)
          else case find (\<lambda>k. kr_token_hash k = Some (tokenHash pl token)) (db_keys d) of
              None \<Rightarrow> Inl (Store auth_invalid)
            | Some k \<Rightarrow>
                if kr_status k \<noteq> js ''active'' then Inl (Store key_inactive)
                else Inr (Some (key_principal k)))"

definition requirePrincipal :: "principal option \<Rightarrow> failure + principal" where
  "requirePrincipal p = require (Store auth_required) p"

text \<open>A principal always stands for an active key of the store.\<close>

lemma resolved_key_active:
  "resolvePrincipal pl d header = Inr (Some p) \<Longrightarrow>
     \<exists>k \<in> set (db_keys d). kr_status k = js ''active'' \<and> p = key_principal k \<and>
       (\<exists>token. bearerFrom header = Some token \<and> kr_token_hash k = Some (tokenHash pl token))"
  by (auto simp: resolvePrincipal_def find_Some_iff split: option.splits if_splits)

end
