(* ===== verification/Records.thy ===== *)
theory Records
  imports Auth
begin

text \<open>
  \<^verbatim>\<open>dtp-store/handlers/records.ts\<close>: the write pipeline behind \<open>POST /records\<close> and the reads of records.
  The router runs every write inside one transaction and hands the handler a database whose
  \<open>transaction\<close> joins it, so \<open>writeRecord\<close> is an \<open>act\<close> of that transaction.
\<close>

record ctx =
  cx_principal :: "principal option"
  cx_now :: int
  cx_db_now :: int
  cx_random :: "nat \<Rightarrow> byte list"

type_synonym minted = "(jstr \<times> jstr) list"

record write_result =
  wr_record :: stored_record
  wr_created :: bool
  wr_keys :: "minted option"

definition sameSet :: "jstr list \<Rightarrow> jstr list \<Rightarrow> bool" where
  "sameSet a b = (if length a \<noteq> length b then False else (\<forall>x \<in> set b. x \<in> set a))"

subsection \<open>Authorization\<close>

definition store :: "error_code + 'a \<Rightarrow> failure + 'a" where
  "store = map_err Store"

lemma store_ok [ok_iff]: "store m = Inr a \<longleftrightarrow> m = Inr a"
  by (simp add: store_def)

definition check_key_owner :: "principal \<Rightarrow> envelope \<Rightarrow> type_info \<Rightarrow> error_code + unit" where
  "check_key_owner p env info =
     (if pr_kind p = KCompany then
        if e_issuer_module env \<noteq> None then Inl issuer_mismatch
        else if e_issuer_company env \<noteq> pr_id p then Inl issuer_mismatch
        else if ti_namespace info = js ''core'' \<and> pr_role p \<noteq> js ''root'' then Inl forbidden
        else Inr ()
      else
        if e_issuer_module env \<noteq> Some (pr_id p) then Inl issuer_mismatch
        else if js ''module'' \<notin> set (ti_writable_by info) then Inl forbidden
        else if ti_namespace info = js ''core'' then Inl forbidden
        else Inr ())"

definition record_parties :: "record_row \<Rightarrow> jstr list" where
  "record_parties r = rr_subject r # rr_counterparties r"

definition authorizeWrite :: "platform \<Rightarrow> ctx \<Rightarrow> db \<Rightarrow> validated \<Rightarrow> record_row option \<Rightarrow> error_code + unit" where
  "authorizeWrite pl cx d v prev =
     (let env = v_env v; info = v_info v in
      case cx_principal cx of
        None \<Rightarrow> Inl auth_required
      | Some p \<Rightarrow>
          if e_issuer_key env \<noteq> pr_key_id p then Inl issuer_mismatch
          else
            ebind (check_key_owner p env info) (\<lambda>_.
            let parties = (case prev of Some r \<Rightarrow> record_parties r | None \<Rightarrow> e_subject env # e_counterparties env) in
            if e_issuer_company env \<notin> set parties then Inl issuer_not_party
            else if pr_kind p = KCompany then Inr ()
            else guard (hasGrant (pl_date_ms pl) (grantsForModule d (pr_id p)) (e_issuer_company env) (e_type env)
                (js ''write'') (cx_now cx)) grant_missing))"

definition grantsFor :: "db \<Rightarrow> principal option \<Rightarrow> grant list" where
  "grantsFor d p = (case p of Some q \<Rightarrow> if pr_kind q = KModule then grantsForModule d (pr_id q) else [] | None \<Rightarrow> [])"

definition can_read_row :: "platform \<Rightarrow> ctx \<Rightarrow> db \<Rightarrow> record_row \<Rightarrow> bool" where
  "can_read_row pl cx d r =
     canRead (pl_date_ms pl) (record_visibility r) (cx_principal cx) (grantsFor d (cx_principal cx)) (cx_now cx)"

subsection \<open>Keys of an identity\<close>

text \<open>The value that \<open>JSON.stringify\<close> prints, for values that \<open>JSON.parse\<close> returned.\<close>

fun printed :: "jval \<Rightarrow> jval" where
  "printed (JNum JNegZero) = JNum (JInt 0)"
| "printed (JArr vs) = JArr (map printed vs)"
| "printed (JObj kvs) = JObj (map (\<lambda>kv. (fst kv, printed (snd kv))) kvs)"
| "printed v = v"

definition text_param :: "jval \<Rightarrow> failure + jstr" where
  "text_param v = require Other (str_of v)"

definition text_or_null_param :: "jval \<Rightarrow> failure + jstr option" where
  "text_or_null_param v = require Other (text_or_null (or_null v))"

definition new_token :: "ctx \<Rightarrow> minted \<Rightarrow> key_entry \<Rightarrow> jstr option" where
  "new_token cx minted k =
     (if ke_status k = js ''active'' then Some (generateToken (cx_random cx (length minted))) else None)"

definition key_row_of :: "platform \<Rightarrow> principal_kind \<Rightarrow> jstr \<Rightarrow> jstr \<Rightarrow> key_entry \<Rightarrow> jstr option \<Rightarrow> failure + key_row" where
  "key_row_of pl kind owner record_id k token =
     ebind (map_err (\<lambda>_. Other) (decodeKeyId (ke_id k))) (\<lambda>raw.
     ebind (text_or_null_param (ke_label k)) (\<lambda>label.
     ebind (text_or_null_param (ke_revoked_at k)) (\<lambda>revoked_at.
     Inr \<lparr>kr_id = ke_id k, kr_public_key = raw, kr_owner_kind = kind, kr_owner_id = owner, kr_role = ke_role k,
       kr_label = label, kr_status = ke_status k, kr_token_hash = map_option (tokenHash pl) token,
       kr_added_by = record_id, kr_revoked_at = map_option Asserted revoked_at\<rparr>)))"

text \<open>Insert one listed key; an active one gets a token, which is returned once.\<close>

definition add_key :: "platform \<Rightarrow> ctx \<Rightarrow> principal_kind \<Rightarrow> jstr \<Rightarrow> jstr \<Rightarrow> key_entry \<Rightarrow> minted \<Rightarrow> minted act" where
  "add_key pl cx kind owner record_id k minted =
     (let token = new_token cx minted k in
      abind (query (\<lambda>_. key_row_of pl kind owner record_id k token)) (\<lambda>row.
      abind (statement (insert_key row)) (\<lambda>_.
      ret (case token of None \<Rightarrow> minted | Some t \<Rightarrow> minted @ [(ke_id k, t)]))))"

definition revoke_key :: "ctx \<Rightarrow> stamp option \<Rightarrow> jstr \<Rightarrow> unit act" where
  "revoke_key cx at i =
     statement (update_keys i (\<lambda>k. k\<lparr>kr_status := js ''revoked'',
       kr_revoked_at := Some (case at of None \<Rightarrow> DbTime (cx_db_now cx) | Some t \<Rightarrow> t)\<rparr>))"

definition sync_key ::
  "platform \<Rightarrow> ctx \<Rightarrow> principal_kind \<Rightarrow> jstr \<Rightarrow> jstr \<Rightarrow> key_row list \<Rightarrow> key_entry \<Rightarrow> minted \<Rightarrow> minted act" where
  "sync_key pl cx kind owner record_id existing k minted =
     (case the_row kr_id (ke_id k) existing of
        None \<Rightarrow>
          abind (query (\<lambda>d. guard (\<not> key_taken d (ke_id k)) (Store forbidden))) (\<lambda>_.
          add_key pl cx kind owner record_id k minted)
      | Some cur \<Rightarrow>
          abind
            (if kr_status cur = js ''active'' \<and> ke_status k = js ''revoked'' then
               abind (query (\<lambda>_. text_or_null_param (ke_revoked_at k))) (\<lambda>at.
               revoke_key cx (map_option Asserted at) (ke_id k))
             else if kr_status cur = js ''revoked'' \<and> ke_status k = js ''active'' then fail (Store forbidden)
             else ret ()) (\<lambda>_.
          abind
            (if kr_role cur \<noteq> ke_role k then
               abind (query (\<lambda>_. guard (ke_role k = js ''root'' \<or> ke_role k = js ''delegate'') Other)) (\<lambda>_.
               statement (update_keys (ke_id k) (\<lambda>r. r\<lparr>kr_role := ke_role k\<rparr>)))
             else ret ()) (\<lambda>_.
          ret minted)))"

fun sync_listed ::
  "platform \<Rightarrow> ctx \<Rightarrow> principal_kind \<Rightarrow> jstr \<Rightarrow> jstr \<Rightarrow> key_row list \<Rightarrow> key_entry list \<Rightarrow> minted \<Rightarrow> minted act" where
  "sync_listed pl cx kind owner record_id existing [] minted = ret minted"
| "sync_listed pl cx kind owner record_id existing (k # ks) minted =
     abind (sync_key pl cx kind owner record_id existing k minted) (\<lambda>minted'.
     sync_listed pl cx kind owner record_id existing ks minted')"

fun revoke_unlisted :: "ctx \<Rightarrow> jstr list \<Rightarrow> key_row list \<Rightarrow> unit act" where
  "revoke_unlisted cx listed [] = ret ()"
| "revoke_unlisted cx listed (k # ks) =
     abind (if kr_id k \<notin> set listed \<and> kr_status k = js ''active'' then revoke_key cx None (kr_id k) else ret ()) (\<lambda>_.
     revoke_unlisted cx listed ks)"

definition owned_keys :: "db \<Rightarrow> principal_kind \<Rightarrow> jstr \<Rightarrow> key_row list" where
  "owned_keys d kind owner = filter (\<lambda>k. kr_owner_kind k = kind \<and> kr_owner_id k = owner) (db_keys d)"

text \<open>\<open>JSON.stringify(prevKeys ?? null) !== JSON.stringify(keys)\<close>, and only a root key may change the list.\<close>

definition keys_changed :: "jval \<Rightarrow> jval \<Rightarrow> bool" where
  "keys_changed prevKeys keys \<longleftrightarrow> printed (or_null prevKeys) \<noteq> printed keys"

definition syncKeys ::
  "platform \<Rightarrow> ctx \<Rightarrow> principal_kind \<Rightarrow> jstr \<Rightarrow> jval \<Rightarrow> key_entry list \<Rightarrow> jstr \<Rightarrow> jval \<Rightarrow> principal \<Rightarrow> minted act" where
  "syncKeys pl cx kind owner keys_value keys record_id prevKeys p =
     abind (check (\<exists>k \<in> set keys. active_root k) (Store forbidden)) (\<lambda>_.
     abind (check (\<not> (truthy prevKeys \<and> keys_changed prevKeys keys_value \<and> pr_role p \<noteq> js ''root'')) (Store forbidden)) (\<lambda>_.
     abind (query (\<lambda>d. Inr (owned_keys d kind owner))) (\<lambda>existing.
     abind (sync_listed pl cx kind owner record_id existing keys []) (\<lambda>minted.
     abind (revoke_unlisted cx (map ke_id keys) existing) (\<lambda>_.
     ret minted)))))"

subsection \<open>Rows of an append\<close>

definition record_row_of :: "platform \<Rightarrow> ctx \<Rightarrow> validated \<Rightarrow> jstr option \<Rightarrow> record_row" where
  "record_row_of pl cx v status =
     (let env = v_env v in
      \<lparr>rr_record_id = e_record_id env, rr_root_id = e_root_id env, rr_type = e_type env, rr_namespace = e_namespace env,
       rr_version = e_version env, rr_subject = e_subject env, rr_counterparties = e_counterparties env,
       rr_issuer_key = e_issuer_key env, rr_issuer_company = e_issuer_company env, rr_issuer_module = e_issuer_module env,
       rr_visibility = e_visibility env, rr_supersedes = e_supersedes env, rr_is_head = True, rr_status = status,
       rr_created_at = e_created_at env, rr_received_at = cx_db_now cx, rr_body = pl_jsonb pl (e_body env),
       rr_envelope = pl_jsonb pl (e_source env), rr_payload_hash = v_hash v, rr_signature = e_signature env, rr_seq = None\<rparr>)"

definition event_row_of :: "platform \<Rightarrow> ctx \<Rightarrow> envelope \<Rightarrow> jstr option \<Rightarrow> int \<Rightarrow> event_row" where
  "event_row_of pl cx env status seq =
     \<lparr>ev_seq = seq, ev_event_id = pl_event_id pl seq, ev_record_id = e_record_id env, ev_root_id = e_root_id env,
      ev_type = e_type env, ev_namespace = e_namespace env, ev_version = e_version env, ev_subject = e_subject env,
      ev_counterparties = e_counterparties env, ev_issuer_key = e_issuer_key env, ev_issuer_company = e_issuer_company env,
      ev_issuer_module = e_issuer_module env, ev_visibility = e_visibility env, ev_supersedes = e_supersedes env,
      ev_status = status, ev_created_at = e_created_at env, ev_recorded_at = cx_db_now cx\<rparr>"

definition insertRecord :: "platform \<Rightarrow> ctx \<Rightarrow> validated \<Rightarrow> jstr option \<Rightarrow> unit act" where
  "insertRecord pl cx v status =
     abind (check (pl_row_ok pl (v_env v)) Other) (\<lambda>_. statement (insert_record_row (record_row_of pl cx v status)))"

definition nextval :: "int act" where
  "nextval = (\<lambda>d. (Inr (db_next_seq d), d\<lparr>db_next_seq := db_next_seq d + 1\<rparr>))"

definition insertEvent :: "platform \<Rightarrow> ctx \<Rightarrow> validated \<Rightarrow> jstr option \<Rightarrow> int act" where
  "insertEvent pl cx v status =
     abind nextval (\<lambda>seq.
     abind (statement (insert_event_row (event_row_of pl cx (v_env v) status seq))) (\<lambda>_.
     abind (statement (update_record (e_record_id (v_env v)) (\<lambda>r. r\<lparr>rr_seq := Some seq\<rparr>))) (\<lambda>_.
     ret seq)))"

lemma nextval_ok [ok_iff]: "nextval d = (Inr n, d') \<longleftrightarrow> n = db_next_seq d \<and> d' = d\<lparr>db_next_seq := db_next_seq d + 1\<rparr>"
  by (auto simp: nextval_def)

subsection \<open>Hooks\<close>

definition read_scope :: "jval \<Rightarrow> scope option" where
  "read_scope v =
     Option.bind (object_of v) (\<lambda>s.
     Option.bind (text_or_null (or_null (member s (js ''namespace'')))) (\<lambda>ns.
     Option.bind (text_or_null (or_null (member s (js ''type'')))) (\<lambda>type.
     Option.bind (text_member s ''access'') (\<lambda>access.
     Some \<lparr>sc_namespace = ns, sc_type = type, sc_access = access\<rparr>))))"

fun read_scope_list :: "jval list \<Rightarrow> scope list option" where
  "read_scope_list [] = Some []"
| "read_scope_list (v # vs) = (case (read_scope v, read_scope_list vs) of (Some s, Some ss) \<Rightarrow> Some (s # ss) | _ \<Rightarrow> None)"

definition prev_member :: "record_row option \<Rightarrow> string \<Rightarrow> jval" where
  "prev_member prev k = (case prev of None \<Rightarrow> JUndef | Some r \<Rightarrow> member (rr_body r) (js k))"

definition hook_company :: "platform \<Rightarrow> ctx \<Rightarrow> envelope \<Rightarrow> record_row option \<Rightarrow> principal \<Rightarrow> minted act" where
  "hook_company pl cx env prev p =
     (let body = e_body env in
      abind (check (e_subject env = e_issuer_company env \<and> e_issuer_module env = None) (Store forbidden)) (\<lambda>_.
      abind (query (\<lambda>_. require Other (read_keys body))) (\<lambda>keys.
      abind (syncKeys pl cx KCompany (e_subject env) (member body (js ''keys'')) keys (e_record_id env)
        (prev_member prev ''keys'') p) (\<lambda>minted.
      abind (query (\<lambda>_. text_param (member body (js ''display_name'')))) (\<lambda>display_name.
      abind (query (\<lambda>_. text_or_null_param (member body (js ''legal_name'')))) (\<lambda>legal_name.
      abind (statement (update_companies (e_subject env) (\<lambda>c. c\<lparr>co_display_name := display_name,
        co_legal_name := legal_name, co_head_record_id := Some (e_record_id env)\<rparr>))) (\<lambda>_.
      ret minted)))))))"

definition hook_module :: "platform \<Rightarrow> ctx \<Rightarrow> envelope \<Rightarrow> record_row option \<Rightarrow> principal \<Rightarrow> minted act" where
  "hook_module pl cx env prev p =
     (let body = e_body env; module_id = member body (js ''module_id'') in
      abind (check (prev = None \<or> strict_eq (prev_member prev ''module_id'') module_id) (Store schema_invalid)) (\<lambda>_.
      abind (query (\<lambda>_. text_param module_id)) (\<lambda>moduleId.
      abind (query (\<lambda>_. require Other (read_keys body))) (\<lambda>keys.
      abind (syncKeys pl cx KModule moduleId (member body (js ''keys'')) keys (e_record_id env)
        (prev_member prev ''keys'') p) (\<lambda>minted.
      abind (query (\<lambda>_. text_param (member body (js ''name'')))) (\<lambda>name.
      abind (statement (update_modules moduleId (\<lambda>m. m\<lparr>mo_name := name, mo_head_record_id := Some (e_record_id env)\<rparr>))) (\<lambda>_.
      ret minted)))))))"

definition hook_grant :: "envelope \<Rightarrow> record_row option \<Rightarrow> minted act" where
  "hook_grant env prev =
     (let body = e_body env; module_id = member body (js ''module_id'') in
      abind (check (e_subject env = e_issuer_company env) (Store forbidden)) (\<lambda>_.
      abind (query (\<lambda>_. text_param module_id)) (\<lambda>moduleId.
      abind (query (\<lambda>d. guard (module_exists d moduleId) (Store not_found))) (\<lambda>_.
      abind (check (prev = None \<or> strict_eq (prev_member prev ''module_id'') module_id) (Store schema_invalid)) (\<lambda>_.
      abind (query (\<lambda>_. require Other (Option.bind (array_of (member body (js ''scopes''))) read_scope_list))) (\<lambda>scopes.
      abind (query (\<lambda>_. text_param (member body (js ''status'')))) (\<lambda>status.
      abind (query (\<lambda>_. text_or_null_param (member body (js ''expires_at'')))) (\<lambda>expires_at.
      abind (statement (upsert_grant \<lparr>g_root = e_root_id env, g_record = e_record_id env, g_grantor = e_subject env,
        g_grantee = moduleId, g_scopes = scopes, g_status = status, g_expires_at = expires_at\<rparr>)) (\<lambda>_.
      ret [])))))))))"

definition runHooks :: "platform \<Rightarrow> ctx \<Rightarrow> validated \<Rightarrow> record_row option \<Rightarrow> principal \<Rightarrow> minted act" where
  "runHooks pl cx v prev p =
     (let env = v_env v in
      if e_type env = js ''core.company'' then hook_company pl cx env prev p
      else if e_type env = js ''core.module'' then hook_module pl cx env prev p
      else if e_type env = js ''core.grant'' then hook_grant env prev
      else ret [])"

subsection \<open>The write pipeline\<close>

definition supersedes_target :: "envelope \<Rightarrow> jstr option" where
  "supersedes_target env = (case e_supersedes env of None \<Rightarrow> None | Some s \<Rightarrow> if s = [] then None else Some s)"

definition find_previous :: "platform \<Rightarrow> ctx \<Rightarrow> db \<Rightarrow> envelope \<Rightarrow> error_code + record_row option" where
  "find_previous pl cx d env =
     (case supersedes_target env of
        None \<Rightarrow> Inr None
      | Some s \<Rightarrow> (case fetchRecordRow d s of
            None \<Rightarrow> Inl not_found
          | Some r \<Rightarrow> if can_read_row pl cx d r then Inr (Some r) else Inl not_found))"

definition check_chain :: "record_row \<Rightarrow> envelope \<Rightarrow> error_code + unit" where
  "check_chain prev env =
     (if \<not> rr_is_head prev then Inl supersedes_conflict
      else if rr_type prev \<noteq> e_type env then Inl supersedes_conflict
      else if rr_subject prev \<noteq> e_subject env then Inl supersedes_conflict
      else if rr_root_id prev \<noteq> e_root_id env then Inl supersedes_conflict
      else if \<not> sameSet (rr_counterparties prev) (e_counterparties env) then Inl supersedes_conflict
      else if rr_visibility prev \<noteq> e_visibility env then Inl supersedes_conflict
      else Inr ())"

definition party_of :: "envelope \<Rightarrow> party" where
  "party_of env = \<lparr>p_issuer = e_issuer_company env, p_subject = e_subject env, p_counterparties = e_counterparties env\<rparr>"

datatype decision = Acknowledge record_row | Append "record_row option"

definition check_rules :: "validated \<Rightarrow> record_row option \<Rightarrow> error_code + unit" where
  "check_rules v prev =
     (let env = v_env v; info = v_info v; party = party_of env; prevBody = map_option rr_body prev;
          roles = rolesOf info (case prevBody of None \<Rightarrow> e_body env | Some b \<Rightarrow> b) party in
      ebind (checkRoleContinuity info prevBody (e_body env) party) (\<lambda>_.
      ebind (checkTransition info prevBody (e_body env) roles) (\<lambda>_.
      checkIntegrity (e_type env) (e_issuer_company env) (e_record_id env) (e_body env) prevBody)))"

definition check_subject :: "envelope \<Rightarrow> type_info \<Rightarrow> error_code + unit" where
  "check_subject env info =
     guard (ti_subject info = js ''self'' \<or> member (e_body env) (ti_subject info) = JStr (e_subject env)) schema_invalid"

text \<open>Everything before the transaction: what to answer, or which record to append after which.\<close>

definition decide :: "platform \<Rightarrow> ctx \<Rightarrow> db \<Rightarrow> validated \<Rightarrow> error_code + decision" where
  "decide pl cx d v =
     (let env = v_env v; info = v_info v in
      if e_supersedes env = None \<and> is_identity_type (e_type env) then Inl bad_request
      else
        ebind (check_subject env info) (\<lambda>_.
        if cx_principal cx = None then Inl auth_required
        else
          ebind (find_previous pl cx d env) (\<lambda>prev.
          ebind (authorizeWrite pl cx d v prev) (\<lambda>_.
          case fetchRecordRow d (e_record_id env) of
            Some existing \<Rightarrow>
              if \<not> can_read_row pl cx d existing then Inl not_found
              else if rr_payload_hash existing = v_hash v then Inr (Acknowledge existing)
              else Inl duplicate_record_id
          | None \<Rightarrow>
              ebind (case prev of None \<Rightarrow> Inr () | Some r \<Rightarrow> check_chain r env) (\<lambda>_.
              if \<not> companyExists d (e_subject env) then Inl not_found
              else if \<exists>c \<in> set (e_counterparties env). \<not> companyExists d c then Inl not_found
              else ebind (check_rules v prev) (\<lambda>_. Inr (Append prev)))))))"

definition flip_head :: "record_row option \<Rightarrow> unit act" where
  "flip_head prev =
     (case prev of None \<Rightarrow> ret ()
      | Some r \<Rightarrow> statement (update_record (rr_record_id r) (\<lambda>x. x\<lparr>rr_is_head := False\<rparr>)))"

definition append_record ::
  "platform \<Rightarrow> ctx \<Rightarrow> validated \<Rightarrow> record_row option \<Rightarrow> principal \<Rightarrow> minted act" where
  "append_record pl cx v prev p =
     (let status = statusFromBody (v_info v) (e_body (v_env v)) in
      abind (insertRecord pl cx v status) (\<lambda>_.
      abind (flip_head prev) (\<lambda>_.
      abind (insertEvent pl cx v status) (\<lambda>_.
      runHooks pl cx v prev p))))"

text \<open>
  The translation of unique violations.  Inside the router's transaction the database refuses every
  statement after a failed one, so a branch that reads the store again ends as another database error.
\<close>

definition write_conflict :: "envelope \<Rightarrow> failure \<Rightarrow> failure" where
  "write_conflict env e =
     (case e of
        Unique c \<Rightarrow>
          if c = js ''records_pkey'' then Other
          else if c = js ''records_one_successor_uidx''
          then (if supersedes_target env = None then Store supersedes_conflict else Other)
          else e
      | _ \<Rightarrow> e)"

definition catch :: "(failure \<Rightarrow> failure) \<Rightarrow> 'a act \<Rightarrow> 'a act" where
  "catch f m = (\<lambda>d. case m d of (Inl e, d') \<Rightarrow> (Inl (f e), d') | r \<Rightarrow> r)"

lemma catch_ok [ok_iff]: "catch f m d = (Inr a, d') \<longleftrightarrow> m d = (Inr a, d')"
  by (auto simp: catch_def split: prod.splits sum.splits)

definition stored :: "jstr \<Rightarrow> db \<Rightarrow> failure + stored_record" where
  "stored i d = map_err (\<lambda>_. Other) (require () (map_option (rowToRecord d) (fetchRecordRow d i)))"

definition writeRecord :: "platform \<Rightarrow> ctx \<Rightarrow> jval \<Rightarrow> write_result act" where
  "writeRecord pl cx input =
     abind (query (\<lambda>d. store (ebind (validateSignedEnvelope pl input) (\<lambda>v. map_sum id (Pair v) (decide pl cx d v))))) (\<lambda>(v, what).
     case what of
       Acknowledge row \<Rightarrow> query (\<lambda>d. Inr \<lparr>wr_record = rowToRecord d row, wr_created = False, wr_keys = None\<rparr>)
     | Append prev \<Rightarrow>
         abind (query (\<lambda>_. requirePrincipal (cx_principal cx))) (\<lambda>p.
         abind (catch (write_conflict (v_env v)) (append_record pl cx v prev p)) (\<lambda>keys.
         abind (query (stored (e_record_id (v_env v)))) (\<lambda>row.
         ret \<lparr>wr_record = row, wr_created = True, wr_keys = (if keys = [] then None else Some keys)\<rparr>))))"

subsection \<open>Reads\<close>

definition getRecord :: "platform \<Rightarrow> ctx \<Rightarrow> db \<Rightarrow> jstr \<Rightarrow> error_code + stored_record" where
  "getRecord pl cx d i =
     (if \<not> isUuid i then Inl not_found
      else case fetchRecordRow d i of
          None \<Rightarrow> Inl not_found
        | Some r \<Rightarrow> if can_read_row pl cx d r then Inr (rowToRecord d r) else Inl not_found)"

record list_query =
  lq_subject :: "jstr option"
  lq_type :: "jstr option"
  lq_namespace :: "jstr option"
  lq_counterparty :: "jstr option"
  lq_root_id :: "jstr option"
  lq_include_superseded :: bool
  lq_after :: "int option"
  lq_limit :: "int option"

definition matches_text :: "jstr option \<Rightarrow> jstr \<Rightarrow> bool" where
  "matches_text q s \<longleftrightarrow> (case q of None \<Rightarrow> True | Some t \<Rightarrow> t = [] \<or> s = t)"

definition list_filter :: "list_query \<Rightarrow> record_row \<Rightarrow> bool" where
  "list_filter q r \<longleftrightarrow>
     matches_text (lq_subject q) (rr_subject r) \<and> matches_text (lq_type q) (rr_type r) \<and>
     matches_text (lq_namespace q) (rr_namespace r) \<and>
     (case lq_counterparty q of None \<Rightarrow> True | Some t \<Rightarrow> t = [] \<or> t \<in> set (rr_counterparties r)) \<and>
     matches_text (lq_root_id q) (rr_root_id r) \<and>
     (lq_include_superseded q \<or> rr_is_head r) \<and>
     (case lq_after q of None \<Rightarrow> True | Some n \<Rightarrow> (case rr_seq r of None \<Rightarrow> False | Some s \<Rightarrow> n < s))"

definition page_limit :: "int \<Rightarrow> int option \<Rightarrow> nat" where
  "page_limit usual l = nat (min (max (case l of None \<Rightarrow> usual | Some n \<Rightarrow> n) 1) 500)"

text \<open>\<open>order by r.seq asc\<close>: a null sorts last.\<close>

definition by_seq :: "record_row list \<Rightarrow> record_row list" where
  "by_seq rs = sort_key (\<lambda>r. the (rr_seq r)) (filter (\<lambda>r. rr_seq r \<noteq> None) rs) @ filter (\<lambda>r. rr_seq r = None) rs"

definition prefilter_row :: "platform \<Rightarrow> ctx \<Rightarrow> db \<Rightarrow> jstr list \<Rightarrow> jstr list \<Rightarrow> visibility_input \<Rightarrow> bool" where
  "prefilter_row pl cx d before after r =
     (let (clause, params) =
        readPrefilter (pl_date_ms pl) (cx_principal cx) (grantsFor d (cx_principal cx)) (length before + 1) (cx_now cx) in
      holds (pl_pg_text pl) r (before @ params @ after) clause = Some True)"

definition seq_text :: "int option \<Rightarrow> jstr" where
  "seq_text n = (case n of None \<Rightarrow> js ''null'' | Some i \<Rightarrow> int_str i)"

definition list_params :: "list_query \<Rightarrow> jstr list" where
  "list_params q =
     map the (filter has_text [lq_subject q, lq_type q, lq_namespace q, lq_counterparty q, lq_root_id q]) @
     (case lq_after q of None \<Rightarrow> [] | Some n \<Rightarrow> [int_str n])"

definition listRecords :: "platform \<Rightarrow> ctx \<Rightarrow> db \<Rightarrow> list_query \<Rightarrow> stored_record list \<times> jstr option" where
  "listRecords pl cx d q =
     (if (case lq_root_id q of None \<Rightarrow> False | Some i \<Rightarrow> \<not> isUuid i) then ([], None)
      else
        let limit = page_limit 50 (lq_limit q);
            selected = filter (\<lambda>r. list_filter q r \<and> prefilter_row pl cx d (list_params q) [] (record_visibility r)) (db_records d);
            rows = take (limit + 1) (by_seq selected);
            page = take limit (filter (can_read_row pl cx d) rows);
            next = (if limit < length rows \<and> page \<noteq> [] then Some (seq_text (rr_seq (last page))) else None) in
        (map (rowToRecord d) page, next))"

end
