(* ===== verification/Identities.thy ===== *)
theory Identities
  imports Records
begin

text \<open>
  \<^verbatim>\<open>dtp-store/handlers/companies.ts\<close> and \<^verbatim>\<open>modules.ts\<close>: the genesis records of companies and modules,
  which bring their own keys, and the reads of an identity's public spine.
\<close>

record create_result =
  cr_id :: jstr
  cr_result :: write_result

text \<open>The first listed key with the issuer's id.\<close>

definition signing_key :: "envelope \<Rightarrow> key_entry list \<Rightarrow> key_entry option" where
  "signing_key env keys = find (\<lambda>k. ke_id k = e_issuer_key env) keys"

fun insert_keys ::
  "platform \<Rightarrow> ctx \<Rightarrow> principal_kind \<Rightarrow> jstr \<Rightarrow> jstr \<Rightarrow> key_entry list \<Rightarrow> minted \<Rightarrow> minted act" where
  "insert_keys pl cx kind owner record_id [] minted = ret minted"
| "insert_keys pl cx kind owner record_id (k # ks) minted =
     abind (add_key pl cx kind owner record_id k minted) (\<lambda>minted'.
     insert_keys pl cx kind owner record_id ks minted')"

text \<open>\<open>Replay\<close>: the same genesis was stored before.\<close>

datatype genesis = Replay stored_record | Create "key_entry list"

definition replay_or :: "platform \<Rightarrow> ctx \<Rightarrow> db \<Rightarrow> validated \<Rightarrow> error_code + genesis \<Rightarrow> error_code + genesis" where
  "replay_or pl cx d v otherwise =
     (case fetchRecordRow d (e_record_id (v_env v)) of
        Some row \<Rightarrow>
          if rr_payload_hash row = v_hash v
          then map_sum id Replay (getRecord pl cx d (e_record_id (v_env v)))
          else Inl duplicate_record_id
      | None \<Rightarrow> otherwise)"

definition genesis_roles :: "validated \<Rightarrow> jstr list \<Rightarrow> jstr list" where
  "genesis_roles v cps = rolesOf (v_info v) (e_body (v_env v))
     \<lparr>p_issuer = e_issuer_company (v_env v), p_subject = e_subject (v_env v), p_counterparties = cps\<rparr>"

definition genesis_answer :: "jstr \<Rightarrow> stored_record \<Rightarrow> bool \<Rightarrow> minted \<Rightarrow> create_result" where
  "genesis_answer i row created minted =
     \<lparr>cr_id = i, cr_result = \<lparr>wr_record = row, wr_created = created, wr_keys = Some minted\<rparr>\<rparr>"

text \<open>A unique violation means that somebody else was faster.\<close>

definition genesis_conflict :: "failure \<Rightarrow> failure" where
  "genesis_conflict e = (case e of Unique c \<Rightarrow> Store duplicate_record_id | _ \<Rightarrow> e)"

subsection \<open>Companies\<close>

definition decide_company :: "platform \<Rightarrow> ctx \<Rightarrow> db \<Rightarrow> validated \<Rightarrow> error_code + genesis" where
  "decide_company pl cx d v =
     (let env = v_env v in
      if e_type env \<noteq> js ''core.company'' then Inl bad_request
      else if e_supersedes env \<noteq> None then Inl bad_request
      else if e_issuer_company env \<noteq> e_subject env \<or> e_issuer_module env \<noteq> None then Inl forbidden
      else if e_counterparties env \<noteq> [] then Inl envelope_invalid
      else
        ebind (require internal (read_keys (e_body env))) (\<lambda>keys.
        if (case signing_key env keys of None \<Rightarrow> True | Some k \<Rightarrow> \<not> active_root k) then Inl forbidden
        else
          replay_or pl cx d v
            (if companyExists d (e_subject env) then Inl duplicate_record_id
             else if \<exists>k \<in> set keys. key_taken d (ke_id k) then Inl forbidden
             else ebind (checkTransition (v_info v) None (e_body env) (genesis_roles v [])) (\<lambda>_. Inr (Create keys)))))"

definition create_company_rows :: "platform \<Rightarrow> ctx \<Rightarrow> validated \<Rightarrow> key_entry list \<Rightarrow> minted act" where
  "create_company_rows pl cx v keys =
     (let env = v_env v; body = e_body env in
      abind (query (\<lambda>_. text_param (member body (js ''display_name'')))) (\<lambda>display_name.
      abind (query (\<lambda>_. text_or_null_param (member body (js ''legal_name'')))) (\<lambda>legal_name.
      abind (statement (insert_company \<lparr>co_id = e_subject env, co_display_name = display_name, co_legal_name = legal_name,
        co_head_record_id = Some (e_record_id env)\<rparr>)) (\<lambda>_.
      abind (insert_keys pl cx KCompany (e_subject env) (e_record_id env) keys []) (\<lambda>minted.
      abind (insertRecord pl cx v (statusFromBody (v_info v) body)) (\<lambda>_.
      abind (insertEvent pl cx v None) (\<lambda>_.
      ret minted)))))))"

definition createCompany :: "platform \<Rightarrow> ctx \<Rightarrow> jval \<Rightarrow> create_result act" where
  "createCompany pl cx input =
     abind (query (\<lambda>d. store (ebind (validateSignedEnvelope pl input) (\<lambda>v.
       map_sum id (Pair v) (decide_company pl cx d v))))) (\<lambda>(v, what).
     let company_id = e_subject (v_env v) in
     case what of
       Replay row \<Rightarrow> ret (genesis_answer company_id row False [])
     | Create keys \<Rightarrow>
         abind (catch genesis_conflict (create_company_rows pl cx v keys)) (\<lambda>minted.
         abind (query (stored (e_record_id (v_env v)))) (\<lambda>row.
         ret (genesis_answer company_id row True minted))))"

record active_key =
  ak_id :: jstr
  ak_role :: jstr
  ak_label :: "jstr option"

record company_view =
  cv_company_id :: jstr
  cv_record :: stored_record
  cv_active_keys :: "active_key list"
  cv_grants_issued :: "grant list option"

definition is_company :: "principal option \<Rightarrow> jstr \<Rightarrow> bool" where
  "is_company who i = (case who of None \<Rightarrow> False | Some p \<Rightarrow> pr_kind p = KCompany \<and> pr_id p = i)"

definition getCompany :: "platform \<Rightarrow> ctx \<Rightarrow> db \<Rightarrow> jstr \<Rightarrow> error_code + company_view" where
  "getCompany pl cx d i =
     (case the_row co_id i (db_companies d) of
        None \<Rightarrow> Inl not_found
      | Some c \<Rightarrow> (case co_head_record_id c of
            None \<Rightarrow> Inl not_found
          | Some h \<Rightarrow>
              if h = [] then Inl not_found
              else
                ebind (getRecord pl cx d h) (\<lambda>head.
                Inr \<lparr>cv_company_id = i, cv_record = head,
                  cv_active_keys = map (\<lambda>k. \<lparr>ak_id = kr_id k, ak_role = kr_role k, ak_label = kr_label k\<rparr>)
                    (filter (\<lambda>k. kr_status k = js ''active'') (owned_keys d KCompany i)),
                  cv_grants_issued = (if is_company (cx_principal cx) i then Some (grantsByCompany d i) else None)\<rparr>)))"

definition listCompanyGrants :: "ctx \<Rightarrow> db \<Rightarrow> jstr \<Rightarrow> error_code + grant list" where
  "listCompanyGrants cx d i =
     (case cx_principal cx of
        None \<Rightarrow> Inl auth_required
      | Some p \<Rightarrow>
          if pr_kind p = KCompany then (if pr_id p \<noteq> i then Inl forbidden else Inr (grantsByCompany d i))
          else Inr (filter (\<lambda>g. g_grantee g = pr_id p) (grantsByCompany d i)))"

subsection \<open>Modules\<close>

definition is_root_of :: "principal option \<Rightarrow> jstr \<Rightarrow> bool" where
  "is_root_of who i =
     (case who of None \<Rightarrow> False | Some p \<Rightarrow> pr_kind p = KCompany \<and> pr_id p = i \<and> pr_role p = js ''root'')"

definition check_module_signer ::
  "envelope \<Rightarrow> jstr \<Rightarrow> key_entry list \<Rightarrow> principal option \<Rightarrow> error_code + unit" where
  "check_module_signer env moduleId keys who =
     (if e_issuer_module env = Some moduleId then
        guard (case signing_key env keys of None \<Rightarrow> False | Some k \<Rightarrow> active_root k) forbidden
      else if e_issuer_module env = None then
        guard (case who of None \<Rightarrow> False | Some p \<Rightarrow> pr_key_id p = e_issuer_key env) forbidden
      else Inl envelope_invalid)"

definition decide_module :: "platform \<Rightarrow> ctx \<Rightarrow> db \<Rightarrow> validated \<Rightarrow> jstr \<Rightarrow> error_code + genesis" where
  "decide_module pl cx d v moduleId =
     (let env = v_env v; body = e_body env in
      if e_type env \<noteq> js ''core.module'' then Inl bad_request
      else if e_supersedes env \<noteq> None then Inl bad_request
      else if member body (js ''publisher_company_id'') \<noteq> JStr (e_subject env) \<or> e_issuer_company env \<noteq> e_subject env
      then Inl envelope_invalid
      else if \<not> companyExists d (e_subject env) then Inl not_found
      else if \<not> is_root_of (cx_principal cx) (e_subject env) then Inl forbidden
      else
        replay_or pl cx d v
          (if module_exists d moduleId then Inl duplicate_record_id
           else
             ebind (require internal (read_keys body)) (\<lambda>keys.
             ebind (check_module_signer env moduleId keys (cx_principal cx)) (\<lambda>_.
             if \<exists>k \<in> set keys. key_taken d (ke_id k) then Inl forbidden
             else ebind (checkTransition (v_info v) None body (genesis_roles v (e_counterparties env))) (\<lambda>_.
               Inr (Create keys))))))"

definition create_module_rows :: "platform \<Rightarrow> ctx \<Rightarrow> validated \<Rightarrow> jstr \<Rightarrow> key_entry list \<Rightarrow> minted act" where
  "create_module_rows pl cx v moduleId keys =
     (let env = v_env v; body = e_body env in
      abind (query (\<lambda>_. text_param (member body (js ''name'')))) (\<lambda>name.
      abind (statement (insert_module \<lparr>mo_id = moduleId, mo_publisher = e_subject env, mo_name = name,
        mo_head_record_id = Some (e_record_id env)\<rparr>)) (\<lambda>_.
      abind (insert_keys pl cx KModule moduleId (e_record_id env) keys []) (\<lambda>minted.
      abind (insertRecord pl cx v (statusFromBody (v_info v) body)) (\<lambda>_.
      abind (insertEvent pl cx v None) (\<lambda>_.
      ret minted))))))"

text \<open>The body conforms to the schema of \<open>core.module\<close>, where \<open>module_id\<close> is a text.\<close>

definition createModule :: "platform \<Rightarrow> ctx \<Rightarrow> jval \<Rightarrow> create_result act" where
  "createModule pl cx input =
     abind (query (\<lambda>d. store (ebind (validateSignedEnvelope pl input) (\<lambda>v.
       let moduleId = (case member (e_body (v_env v)) (js ''module_id'') of JStr s \<Rightarrow> s | _ \<Rightarrow> []) in
       map_sum id (\<lambda>g. (v, moduleId, g)) (decide_module pl cx d v moduleId))))) (\<lambda>(v, moduleId, what).
     case what of
       Replay row \<Rightarrow> ret (genesis_answer moduleId row False [])
     | Create keys \<Rightarrow>
         abind (catch genesis_conflict (create_module_rows pl cx v moduleId keys)) (\<lambda>minted.
         abind (query (stored (e_record_id (v_env v)))) (\<lambda>row.
         ret (genesis_answer moduleId row True minted))))"

record module_view =
  mv_module_id :: jstr
  mv_publisher :: jstr
  mv_name :: jstr
  mv_record :: stored_record

definition getModule :: "platform \<Rightarrow> ctx \<Rightarrow> db \<Rightarrow> jstr \<Rightarrow> error_code + module_view" where
  "getModule pl cx d i =
     (case the_row mo_id i (db_modules d) of
        None \<Rightarrow> Inl not_found
      | Some m \<Rightarrow> (case mo_head_record_id m of
            None \<Rightarrow> Inl not_found
          | Some h \<Rightarrow>
              if h = [] then Inl not_found
              else
                ebind (getRecord pl cx d h) (\<lambda>head.
                Inr \<lparr>mv_module_id = i, mv_publisher = mo_publisher m, mv_name = mo_name m, mv_record = head\<rparr>)))"

end
