(* ===== verification/Events.thy ===== *)
theory Events
  imports Records
begin

text \<open>\<^verbatim>\<open>dtp-store/handlers/events.ts\<close>: the feed of appended records, filtered by what the caller may read.\<close>

definition cursor :: "int \<Rightarrow> jstr" where
  "cursor seq = zero_pad 16 (int_str seq)"

text \<open>\<open>/^\d+$/\<close> and \<open>Number.isSafeInteger(Number(v))\<close>: a value above the bound rounds to one above it.\<close>

definition safe_decimal :: "jstr \<Rightarrow> int option" where
  "safe_decimal s =
     (if s \<noteq> [] \<and> list_all is_digit s \<and> int (decimal_value s) \<le> MAX_SAFE then Some (int (decimal_value s)) else None)"

record event_view =
  vw_cursor :: jstr
  vw_event :: event_row

record events_query =
  eq_company :: "jstr option"
  eq_after :: "jstr option"
  eq_limit :: "int option"

record events_page =
  ep_events :: "event_view list"
  ep_next_cursor :: "jstr option"
  ep_latest_cursor :: jstr

type_synonym joined_event = "event_row \<times> record_row"

text \<open>\<open>protocol.events e join protocol.records r on r.record_id = e.record_id\<close>\<close>

definition joined_events :: "db \<Rightarrow> joined_event list" where
  "joined_events d =
     concat (map (\<lambda>e. map (Pair e) (filter (\<lambda>r. rr_record_id r = ev_record_id e) (db_records d))) (db_events d))"

definition event_visibility :: "joined_event \<Rightarrow> visibility_input" where
  "event_visibility er =
     (let (e, r) = er in
      \<lparr>vi_visibility = ev_visibility e, vi_subject = ev_subject e, vi_counterparties = ev_counterparties e,
       vi_type = ev_type e, vi_namespace = ev_namespace e, vi_body = Some (rr_body r)\<rparr>)"

definition can_read_event :: "platform \<Rightarrow> ctx \<Rightarrow> db \<Rightarrow> joined_event \<Rightarrow> bool" where
  "can_read_event pl cx d er =
     canRead (pl_date_ms pl) (event_visibility er) (cx_principal cx) (grantsFor d (cx_principal cx)) (cx_now cx)"

definition company_filter :: "jstr option \<Rightarrow> joined_event \<Rightarrow> bool" where
  "company_filter q er =
     (case q of None \<Rightarrow> True
      | Some c \<Rightarrow> c = [] \<or> ev_subject (fst er) = c \<or> c \<in> set (ev_counterparties (fst er)))"

definition read_after :: "jstr option \<Rightarrow> error_code + int" where
  "read_after q = (case q of None \<Rightarrow> Inr 0 | Some s \<Rightarrow> require bad_request (safe_decimal s))"

definition event_params :: "int \<Rightarrow> jstr option \<Rightarrow> jstr list" where
  "event_params after company = int_str after # (if has_text company then [the company] else [])"

definition view_of :: "joined_event \<Rightarrow> event_view" where
  "view_of er = \<lparr>vw_cursor = cursor (ev_seq (fst er)), vw_event = fst er\<rparr>"

definition latest_seq :: "joined_event list \<Rightarrow> int" where
  "latest_seq ers = (if ers = [] then 0 else Max (set (map (\<lambda>er. ev_seq (fst er)) ers)))"

definition listEvents :: "platform \<Rightarrow> ctx \<Rightarrow> db \<Rightarrow> events_query \<Rightarrow> error_code + events_page" where
  "listEvents pl cx d q =
     (if cx_principal cx = None then Inl auth_required
      else
        ebind (read_after (eq_after q)) (\<lambda>after.
        let limit = page_limit 100 (eq_limit q);
            selected = filter (\<lambda>er. after < ev_seq (fst er) \<and> company_filter (eq_company q) er \<and>
              prefilter_row pl cx d (event_params after (eq_company q)) [] (event_visibility er)) (joined_events d);
            rows = take (limit + 1) (sort_key (\<lambda>er. ev_seq (fst er)) selected);
            page = take limit (filter (can_read_event pl cx d) rows);
            latest = filter (\<lambda>er. prefilter_row pl cx d [] (if has_text (eq_company q) then [the (eq_company q)] else [])
              (event_visibility er) \<and> company_filter (eq_company q) er) (joined_events d);
            scannedLast = (if rows = [] then after else ev_seq (fst (rows ! (min (length rows) limit - 1)))) in
        Inr \<lparr>ep_events = map view_of page, ep_next_cursor = (if limit < length rows then Some (cursor scannedLast) else None),
          ep_latest_cursor = cursor (latest_seq latest)\<rparr>))"

end
