(* ===== verification/Router.thy ===== *)
theory Router
  imports Identities Events
begin

text \<open>
  \<^verbatim>\<open>dtp-store/router.ts\<close> and \<^verbatim>\<open>handlers/schemas.ts\<close>: from a request to its response.  The pathname, the
  query and the headers are those of the platform's \<open>Request\<close> and \<open>URL\<close>; percent decoding of a path
  segment, strict UTF-8 decoding and \<open>JSON.parse\<close> are the fields of a \<open>runtime\<close>.
\<close>

record runtime =
  rt_platform :: platform
  rt_decode_component :: "jstr \<Rightarrow> jstr option"
  rt_decode_utf8 :: "byte list \<Rightarrow> jstr option"
  rt_json_parse :: "jstr \<Rightarrow> jval option"

datatype verb = GET | POST | OPTIONS | OtherVerb

record request =
  rq_method :: verb
  rq_pathname :: jstr
  rq_query :: "(jstr \<times> jstr) list"
  rq_authorization :: "jstr option"
  rq_content_length :: "int option"
  rq_chunks :: "byte list list option"

subsection \<open>Path, body and parameters\<close>

fun split_path :: "jstr \<Rightarrow> jstr list" where
  "split_path [] = [[]]"
| "split_path (c # cs) =
     (if c = jc (CHR ''/'') then [] # split_path cs
      else case split_path cs of [] \<Rightarrow> [[c]] | p # ps \<Rightarrow> (c # p) # ps)"

definition after_root :: "jstr list \<Rightarrow> jstr list" where
  "after_root parts =
     (if js ''dtp-store'' \<in> set parts then tl (dropWhile (\<lambda>p. p \<noteq> js ''dtp-store'') parts) else parts)"

definition relativePath :: "runtime \<Rightarrow> jstr \<Rightarrow> error_code + jstr list" where
  "relativePath rt pathname =
     traverse (\<lambda>p. require bad_request (rt_decode_component rt p)) (after_root (filter (\<lambda>p. p \<noteq> []) (split_path pathname)))"

text \<open>The body is read chunk by chunk and refused as soon as it is too large.\<close>

fun read_chunks :: "nat \<Rightarrow> byte list list \<Rightarrow> byte list list \<Rightarrow> error_code + byte list list" where
  "read_chunks n chunks [] = Inr chunks"
| "read_chunks n chunks (c # cs) =
     (let n' = n + length c in
      if n' > MAX_BODY_BYTES then Inl payload_too_large else read_chunks n' (chunks @ [c]) cs)"

definition blank :: "jstr \<Rightarrow> bool" where
  "blank s \<longleftrightarrow> list_all js_space s"

definition MAX_NESTING :: nat where
  "MAX_NESTING = 64"

definition readJson :: "runtime \<Rightarrow> request \<Rightarrow> error_code + jval" where
  "readJson rt rq =
     (if (case rq_content_length rq of None \<Rightarrow> False | Some n \<Rightarrow> n > int MAX_BODY_BYTES) then Inl payload_too_large
      else
        ebind (require bad_request (rq_chunks rq)) (\<lambda>body.
        ebind (read_chunks 0 [] body) (\<lambda>chunks.
        ebind (require bad_request (rt_decode_utf8 rt (concat chunks))) (\<lambda>text.
        if blank text then Inl bad_request
        else
          ebind (map_err (\<lambda>_. bad_request) (parseUntrustedJson (rt_json_parse rt) False text)) (\<lambda>parsed.
          if nesting_loop MAX_NESTING [(parsed, 0)] then Inr parsed else Inl bad_request)))))"

definition query_param :: "request \<Rightarrow> string \<Rightarrow> jstr option" where
  "query_param rq name = map_of (rq_query rq) (js name)"

definition intParam :: "request \<Rightarrow> string \<Rightarrow> error_code + int option" where
  "intParam rq name =
     (case query_param rq name of
        None \<Rightarrow> Inr None
      | Some v \<Rightarrow>
          if v = [] then Inr None
          else case safe_decimal v of
              None \<Rightarrow> Inl bad_request
            | Some n \<Rightarrow> if n < (if name = ''limit'' then 1 else 0) then Inl bad_request else Inr (Some n))"

subsection \<open>Schemas\<close>

record schema_entry =
  sx_namespace :: jstr
  sx_versions :: "jstr list"
  sx_writable_by :: "jstr list"
  sx_subject :: jstr
  sx_default_visibility :: jstr
  sx_strict :: bool
  sx_url :: jstr
  sx_status_field :: "jstr option"

definition ID_BASE :: jstr where
  "ID_BASE = js ''https://dtp.dev/schemas/0.2/''"

definition schema_entry_of :: "type_info \<Rightarrow> schema_entry" where
  "schema_entry_of i =
     \<lparr>sx_namespace = ti_namespace i, sx_versions = ti_versions i, sx_writable_by = ti_writable_by i,
      sx_subject = ti_subject i, sx_default_visibility = ti_visibility i, sx_strict = ti_strict i,
      sx_url = ID_BASE @ ti_file i,
      sx_status_field = (case ti_transitions i of None \<Rightarrow> None | Some t \<Rightarrow> t_status_field t)\<rparr>"

definition schemaIndex :: "error_code + (jstr \<times> schema_entry) list" where
  "schemaIndex =
     traverse (\<lambda>t. ebind (ebind (map_err (\<lambda>_. internal) (typeInfo t)) (require internal)) (\<lambda>i.
       Inr (t, schema_entry_of i))) listTypes"

text \<open>The file whose schema document is returned.\<close>

definition schemaFor :: "jstr \<Rightarrow> error_code + jstr" where
  "schemaFor type =
     (if type = js ''envelope'' \<or> type = js ''core.envelope'' then Inr (js ''core/envelope.schema.json'')
      else ebind (ebind (map_err (\<lambda>_. internal) (typeInfo type)) (require not_found)) (\<lambda>i. Inr (ti_file i)))"

record canonical_answer =
  ca_canonical :: jstr
  ca_payload_hash :: jstr
  ca_signature_valid :: "bool option"
  ca_signature_error :: "verify_error option"
  ca_key_id :: jval

fun own_members :: "jval \<Rightarrow> members" where
  "own_members (JObj kvs) = kvs"
| "own_members _ = []"

definition canonical_facts :: "platform \<Rightarrow> members \<Rightarrow> error_code + canonical_answer" where
  "canonical_facts pl src =
     (let key_id = field (member src (js ''issuer'')) (js ''key_id'') in
      ebind (map_err (\<lambda>e. case e of FloatNotAllowed _ \<Rightarrow> float_not_allowed | _ \<Rightarrow> internal)
        (canonicalize (JObj (signingObject src)))) (\<lambda>canonical.
      ebind (if str_of (member src (js ''signature'')) \<noteq> None \<and> truthy key_id
             then map_sum id Some (map_err (\<lambda>_. internal) (verifyRecord (pl_verify pl) (pl_sha256Hex pl) src))
             else Inr None) (\<lambda>verdict.
      Inr \<lparr>ca_canonical = canonical, ca_payload_hash = pl_sha256Hex pl (utf8_encode canonical),
        ca_signature_valid = map_option vr_ok verdict,
        ca_signature_error = Option.bind verdict vr_error, ca_key_id = or_null key_id\<rparr>)))"

definition debugCanonicalize :: "platform \<Rightarrow> jval \<Rightarrow> error_code + canonical_answer" where
  "debugCanonicalize pl input =
     (case input of
        JObj kvs \<Rightarrow> canonical_facts pl kvs
      | JArr _ \<Rightarrow> canonical_facts pl []
      | _ \<Rightarrow> Inl bad_request)"

subsection \<open>Dispatch\<close>

datatype answer =
    Health int
  | SchemaList "(jstr \<times> schema_entry) list"
  | SchemaFile jstr
  | Canonical canonical_answer
  | Caller principal
  | Created create_result
  | Company company_view
  | Grants "grant list"
  | Module module_view
  | Written write_result
  | OneRecord stored_record
  | RecordPage "stored_record list" "jstr option"
  | EventPage events_page
  | ErrorBody error_code
  | Empty

type_synonym response = "nat \<times> answer"

record clock =
  ck_now :: int
  ck_db_now :: int
  ck_random :: "nat \<Rightarrow> byte list"

definition context_for :: "clock \<Rightarrow> principal option \<Rightarrow> ctx" where
  "context_for ck who = \<lparr>cx_principal = who, cx_now = ck_now ck, cx_db_now = ck_db_now ck, cx_random = ck_random ck\<rparr>"

text \<open>One write: take the lock, resolve the caller again inside the transaction, run the handler.\<close>

definition atomicWrite :: "runtime \<Rightarrow> clock \<Rightarrow> request \<Rightarrow> (ctx \<Rightarrow> 'a act) \<Rightarrow> 'a act" where
  "atomicWrite rt ck rq run =
     transaction
       (abind (query (\<lambda>d. resolvePrincipal (rt_platform rt) d (rq_authorization rq))) (\<lambda>who. run (context_for ck who)))"

definition ok :: "answer \<Rightarrow> response" where
  "ok a = (200, a)"

definition read_only :: "error_code + answer \<Rightarrow> response act" where
  "read_only r = query (\<lambda>_. store (map_sum id ok r))"

definition created :: "bool \<Rightarrow> answer \<Rightarrow> response" where
  "created new a = (if new then 201 else 200, a)"

definition read_list_query :: "request \<Rightarrow> error_code + list_query" where
  "read_list_query rq =
     ebind (intParam rq ''after'') (\<lambda>after.
     ebind (intParam rq ''limit'') (\<lambda>limit.
     Inr \<lparr>lq_subject = query_param rq ''subject'', lq_type = query_param rq ''type'',
       lq_namespace = query_param rq ''namespace'', lq_counterparty = query_param rq ''counterparty'',
       lq_root_id = query_param rq ''root_id'',
       lq_include_superseded = (query_param rq ''include_superseded'' = Some (js ''true'')),
       lq_after = after, lq_limit = limit\<rparr>))"

definition posted :: "runtime \<Rightarrow> request \<Rightarrow> jval act" where
  "posted rt rq = query (\<lambda>_. store (readJson rt rq))"

definition read_route :: "platform \<Rightarrow> ctx \<Rightarrow> request \<Rightarrow> jstr list \<Rightarrow> response act" where
  "read_route pl cx rq path =
     (\<lambda>d. case path of
        [] \<Rightarrow> read_only (Inr (Health (cx_now cx))) d
      | a # rest \<Rightarrow>
          if a = js ''health'' then read_only (Inr (Health (cx_now cx))) d
          else if a = js ''schemas'' then
            (case rest of [] \<Rightarrow> read_only (map_sum id SchemaList schemaIndex) d
             | b # _ \<Rightarrow> read_only (map_sum id SchemaFile (schemaFor b)) d)
          else if a = js ''whoami'' then
            read_only (map_sum id Caller (require auth_required (cx_principal cx))) d
          else if a = js ''companies'' then
            (case rest of
               [b] \<Rightarrow> read_only (map_sum id Company (getCompany pl cx d b)) d
             | b # c # _ \<Rightarrow>
                 if c = js ''grants'' then read_only (map_sum id Grants (listCompanyGrants cx d b)) d
                 else read_only (Inl not_found) d
             | [] \<Rightarrow> read_only (Inl not_found) d)
          else if a = js ''modules'' then
            (case rest of [] \<Rightarrow> read_only (Inl not_found) d
             | b # _ \<Rightarrow> read_only (map_sum id Module (getModule pl cx d b)) d)
          else if a = js ''records'' then
            (case rest of
               [] \<Rightarrow> read_only (map_sum id (\<lambda>q. case listRecords pl cx d q of (rs, next) \<Rightarrow> RecordPage rs next) (read_list_query rq)) d
             | b # _ \<Rightarrow> read_only (map_sum id OneRecord (getRecord pl cx d b)) d)
          else if a = js ''events'' then
            read_only (ebind (intParam rq ''limit'') (\<lambda>limit. map_sum id EventPage
              (listEvents pl cx d \<lparr>eq_company = query_param rq ''company'', eq_after = query_param rq ''after'', eq_limit = limit\<rparr>))) d
          else read_only (Inl not_found) d)"

definition write_route :: "runtime \<Rightarrow> clock \<Rightarrow> request \<Rightarrow> jstr list \<Rightarrow> response act" where
  "write_route rt ck rq path =
     (let pl = rt_platform rt in
      if take 2 path = [js ''debug'', js ''canonicalize''] then
        abind (posted rt rq) (\<lambda>input. read_only (map_sum id Canonical (debugCanonicalize pl input)))
      else if path = [js ''companies''] then
        abind (posted rt rq) (\<lambda>input.
        abind (atomicWrite rt ck rq (\<lambda>cx. createCompany pl cx input)) (\<lambda>r.
        ret (created (wr_created (cr_result r)) (Created r))))
      else if path = [js ''modules''] then
        abind (posted rt rq) (\<lambda>input.
        abind (atomicWrite rt ck rq (\<lambda>cx. createModule pl cx input)) (\<lambda>r.
        ret (created (wr_created (cr_result r)) (Created r))))
      else if path = [js ''records''] then
        abind (posted rt rq) (\<lambda>input.
        abind (atomicWrite rt ck rq (\<lambda>cx. writeRecord pl cx input)) (\<lambda>r.
        ret (created (wr_created r) (Written r))))
      else fail (Store not_found))"

definition route :: "runtime \<Rightarrow> clock \<Rightarrow> request \<Rightarrow> response act" where
  "route rt ck rq =
     abind (query (\<lambda>_. store (relativePath rt (rq_pathname rq)))) (\<lambda>path.
     abind (query (\<lambda>d. resolvePrincipal (rt_platform rt) d (rq_authorization rq))) (\<lambda>who.
     if rq_method rq = GET then read_route (rt_platform rt) (context_for ck who) rq path
     else if rq_method rq = POST then write_route rt ck rq path
     else fail (Store not_found)))"

definition error_response :: "failure \<Rightarrow> response" where
  "error_response e =
     (case e of Store c \<Rightarrow> (STATUS c, ErrorBody c) | _ \<Rightarrow> (500, ErrorBody internal))"

definition handle :: "runtime \<Rightarrow> clock \<Rightarrow> request \<Rightarrow> db \<Rightarrow> response \<times> db" where
  "handle rt ck rq d =
     (if rq_method rq = OPTIONS then ((204, Empty), d)
      else case route rt ck rq d of
          (Inl e, d') \<Rightarrow> (error_response e, d')
        | (Inr r, d') \<Rightarrow> (r, d'))"

end
