(* ===== verification/AppendOnly.thy ===== *)
theory AppendOnly
  imports Router
begin

text \<open>
  What no request can undo: rows stay in their tables, records and events never change (but for the
  \<open>is_head\<close> flag and the \<open>seq\<close> of a record), a revoked key stays revoked, a key keeps its owner, and the
  event sequence only grows.
\<close>

subsection \<open>Relations that every action respects\<close>

text \<open>
  A preorder on databases that holds across single statements holds across every action built from
  them, whether it succeeds or fails.
\<close>

locale action_relation =
  fixes R :: "db \<Rightarrow> db \<Rightarrow> bool"
  assumes refl: "R d d"
    and trans: "R d d' \<Longrightarrow> R d' d'' \<Longrightarrow> R d d''"
begin

definition obeys :: "'a act \<Rightarrow> bool" where
  "obeys m \<longleftrightarrow> (\<forall>d. R d (snd (m d)))"

lemma obeysD: "obeys m \<Longrightarrow> m d = (r, d') \<Longrightarrow> R d d'"
  unfolding obeys_def by (metis snd_conv)

lemma obeys_ret: "obeys (ret a)"
  by (simp add: obeys_def ret_def refl)

lemma obeys_fail: "obeys (fail e)"
  by (simp add: obeys_def fail_def refl)

lemma obeys_query: "obeys (query q)"
  by (simp add: obeys_def query_def refl)

lemma obeys_check: "obeys (check p e)"
  by (simp add: check_def obeys_query)

lemma obeys_statement: "(\<And>d d'. q d = Inr d' \<Longrightarrow> R d d') \<Longrightarrow> obeys (statement q)"
  by (auto simp: obeys_def statement_def refl split: sum.splits)

lemma obeys_abind: "obeys m \<Longrightarrow> (\<And>a. obeys (f a)) \<Longrightarrow> obeys (abind m f)"
  by (auto simp: obeys_def abind_def split: prod.splits sum.splits) (metis snd_conv trans)+

lemma obeys_catch: "obeys m \<Longrightarrow> obeys (catch f m)"
  by (auto simp: obeys_def catch_def split: prod.splits sum.splits) (metis snd_conv)+

lemma obeys_if: "obeys m \<Longrightarrow> obeys n \<Longrightarrow> obeys (if b then m else n)"
  by simp

lemmas obeys_intros = obeys_ret obeys_fail obeys_query obeys_check obeys_abind obeys_catch

end

subsection \<open>Rows that are kept\<close>

definition grows :: "('r \<Rightarrow> 'r \<Rightarrow> bool) \<Rightarrow> 'r list \<Rightarrow> 'r list \<Rightarrow> bool" where
  "grows kept xs ys \<longleftrightarrow> (\<exists>xs' zs. ys = xs' @ zs \<and> list_all2 kept xs xs')"

lemma grows_refl: "(\<And>r. kept r r) \<Longrightarrow> grows kept xs xs"
  by (auto simp: grows_def intro: list_all2_refl)

lemma grows_trans:
  assumes "\<And>a b c. kept a b \<Longrightarrow> kept b c \<Longrightarrow> kept a c" "grows kept xs ys" "grows kept ys zs"
  shows "grows kept xs zs"
proof -
  obtain xs' us where ys: "ys = xs' @ us" and 1: "list_all2 kept xs xs'" using assms(2) by (auto simp: grows_def)
  obtain ys' vs where zs: "zs = ys' @ vs" and 2: "list_all2 kept ys ys'" using assms(3) by (auto simp: grows_def)
  obtain as bs where ys': "ys' = as @ bs" and 3: "list_all2 kept xs' as"
    using 2 unfolding ys list_all2_append1 by blast
  have "list_all2 kept xs as" using assms(1) 1 3 by (rule list_all2_trans)
  then show ?thesis by (auto simp: grows_def zs ys')
qed

lemma grows_append: "(\<And>r. kept r r) \<Longrightarrow> grows kept xs (xs @ ys)"
  by (auto simp: grows_def intro: list_all2_refl)

lemma grows_map: "(\<And>r. r \<in> set xs \<Longrightarrow> kept r (f r)) \<Longrightarrow> grows kept xs (map f xs)"
  unfolding grows_def by (intro exI [of _ "map f xs"] exI [of _ "[]"]) (simp add: list_all2_conv_all_nth)

lemma grows_member: "grows kept xs ys \<Longrightarrow> r \<in> set xs \<Longrightarrow> \<exists>r' \<in> set ys. kept r r'"
  unfolding grows_def by (metis Un_iff in_set_conv_nth list_all2_conv_all_nth set_append)

lemma grows_nth: "grows kept xs ys \<Longrightarrow> i < length xs \<Longrightarrow> i < length ys \<and> kept (xs ! i) (ys ! i)"
  by (auto simp: grows_def list_all2_conv_all_nth nth_append)

definition company_kept :: "company_row \<Rightarrow> company_row \<Rightarrow> bool" where
  "company_kept c c' \<longleftrightarrow> co_id c' = co_id c"

definition module_kept :: "module_row \<Rightarrow> module_row \<Rightarrow> bool" where
  "module_kept m m' \<longleftrightarrow> mo_id m' = mo_id m \<and> mo_publisher m' = mo_publisher m"

definition key_kept :: "key_row \<Rightarrow> key_row \<Rightarrow> bool" where
  "key_kept k k' \<longleftrightarrow>
     k'\<lparr>kr_role := kr_role k, kr_status := kr_status k, kr_revoked_at := kr_revoked_at k\<rparr> = k \<and>
     (kr_status k = js ''revoked'' \<longrightarrow> kr_status k' = js ''revoked'')"

definition record_kept :: "record_row \<Rightarrow> record_row \<Rightarrow> bool" where
  "record_kept r r' \<longleftrightarrow>
     r'\<lparr>rr_is_head := rr_is_head r, rr_seq := rr_seq r\<rparr> = r \<and>
     (rr_is_head r' \<longrightarrow> rr_is_head r) \<and> (rr_seq r \<noteq> None \<longrightarrow> rr_seq r' = rr_seq r)"

definition evolves :: "db \<Rightarrow> db \<Rightarrow> bool" where
  "evolves d d' \<longleftrightarrow>
     grows company_kept (db_companies d) (db_companies d') \<and> grows module_kept (db_modules d) (db_modules d') \<and>
     grows key_kept (db_keys d) (db_keys d') \<and> grows record_kept (db_records d) (db_records d') \<and>
     grows (=) (db_events d) (db_events d') \<and> db_next_seq d \<le> db_next_seq d'"

lemma kept_refl [simp]: "company_kept c c" "module_kept m m" "key_kept k k" "record_kept r r"
  by (simp_all add: company_kept_def module_kept_def key_kept_def record_kept_def)

lemma company_kept_trans: "company_kept c c' \<Longrightarrow> company_kept c' c'' \<Longrightarrow> company_kept c c''"
  by (simp add: company_kept_def)

lemma module_kept_trans: "module_kept m m' \<Longrightarrow> module_kept m' m'' \<Longrightarrow> module_kept m m''"
  by (simp add: module_kept_def)

lemma key_kept_trans: "key_kept k k' \<Longrightarrow> key_kept k' k'' \<Longrightarrow> key_kept k k''"
  by (cases k; cases k'; cases k'') (auto simp: key_kept_def)

lemma record_kept_trans: "record_kept r r' \<Longrightarrow> record_kept r' r'' \<Longrightarrow> record_kept r r''"
  by (cases r; cases r'; cases r'') (auto simp: record_kept_def)

lemma grows_self [simp]: "grows company_kept xs1 xs1" "grows module_kept xs2 xs2" "grows key_kept xs3 xs3"
    "grows record_kept xs4 xs4" "grows (=) xs5 xs5"
  by (simp_all add: grows_refl)

lemma grows_more [simp]: "grows company_kept xs1 (xs1 @ ys1)" "grows module_kept xs2 (xs2 @ ys2)"
    "grows key_kept xs3 (xs3 @ ys3)" "grows record_kept xs4 (xs4 @ ys4)" "grows (=) xs5 (xs5 @ ys5)"
  by (simp_all add: grows_append)

lemma evolves_refl: "evolves d d"
  by (simp add: evolves_def)

lemma evolves_trans: "evolves d d' \<Longrightarrow> evolves d' d'' \<Longrightarrow> evolves d d''"
  unfolding evolves_def
  by (elim conjE, intro conjI; (rule grows_trans [OF company_kept_trans] grows_trans [OF module_kept_trans]
      grows_trans [OF key_kept_trans] grows_trans [OF record_kept_trans] grows_trans [OF HOL.trans] order_trans; assumption))

interpretation evolution: action_relation evolves
  by unfold_locales (rule evolves_refl, erule (1) evolves_trans)

subsection \<open>Statements\<close>

lemma evolves_insert:
  "insert_company c d = Inr d' \<Longrightarrow> evolves d d'" "insert_module m d = Inr d' \<Longrightarrow> evolves d d'"
  "insert_key k d = Inr d' \<Longrightarrow> evolves d d'" "insert_record_row r d = Inr d' \<Longrightarrow> evolves d d'"
  "insert_event_row e d = Inr d' \<Longrightarrow> evolves d d'" "upsert_grant g d = Inr d' \<Longrightarrow> evolves d d'"
  by (auto simp: insert_company_def insert_module_def insert_key_def insert_record_row_def insert_event_row_def
      upsert_grant_def evolves_def Let_def split: if_splits)

lemma update_rows_limited:
  "update_rows records_limited_update p f rs = Inr rs' \<Longrightarrow> list_all2 record_kept rs rs'"
proof (induction rs arbitrary: rs')
  case (Cons r rs)
  have "record_kept r (f r)" if "records_limited_update r (f r) = Inr ()"
    using that by (auto simp: records_limited_update_def record_kept_def split: if_splits)
  with Cons show ?case by (auto simp: ok_iff split: if_splits)
qed simp

lemma evolves_update_record: "update_record i f d = Inr d' \<Longrightarrow> evolves d d'"
proof -
  assume "update_record i f d = Inr d'"
  then obtain rs where "list_all2 record_kept (db_records d) rs" "d' = d\<lparr>db_records := rs\<rparr>"
    by (auto simp: update_record_def ok_iff dest: update_rows_limited)
  then show ?thesis by (auto simp: evolves_def) (auto simp: grows_def)
qed

lemma evolves_update:
  "(\<And>k. key_kept k (f k)) \<Longrightarrow> update_keys i f d = Inr d' \<Longrightarrow> evolves d d'"
  "(\<And>c. company_kept c (g c)) \<Longrightarrow> update_companies i g d = Inr d' \<Longrightarrow> evolves d d'"
  "(\<And>m. module_kept m (h m)) \<Longrightarrow> update_modules i h d = Inr d' \<Longrightarrow> evolves d d'"
  by (auto simp: evolves_def update_keys_def update_companies_def update_modules_def intro!: grows_map)

subsection \<open>Handlers\<close>

lemma obeys_statements:
  "evolution.obeys (statement (insert_company c))" "evolution.obeys (statement (insert_module m))"
  "evolution.obeys (statement (insert_key k))" "evolution.obeys (statement (insert_record_row r))"
  "evolution.obeys (statement (insert_event_row e))" "evolution.obeys (statement (upsert_grant g))"
  "evolution.obeys (statement (update_record i f))"
  by (rule evolution.obeys_statement, erule evolves_insert evolves_update_record)+

lemma obeys_updates:
  "(\<And>k. key_kept k (f k)) \<Longrightarrow> evolution.obeys (statement (update_keys i f))"
  "(\<And>c. company_kept c (g c)) \<Longrightarrow> evolution.obeys (statement (update_companies i g))"
  "(\<And>m. module_kept m (h m)) \<Longrightarrow> evolution.obeys (statement (update_modules i h))"
  by (rule evolution.obeys_statement, erule (1) evolves_update)+

lemmas obeys_act = evolution.obeys_intros obeys_statements

lemma obeys_nextval: "evolution.obeys nextval"
  by (simp add: evolution.obeys_def nextval_def evolves_def)

lemma obeys_append_rows:
  "evolution.obeys (insertRecord pl cx v st)" "evolution.obeys (flip_head prev)" "evolution.obeys (insertEvent pl cx v st)"
  unfolding insertRecord_def flip_head_def insertEvent_def
  by (auto intro!: obeys_act obeys_nextval split: option.splits)

lemma obeys_add_key: "evolution.obeys (add_key pl cx kind owner rid k minted)"
  unfolding add_key_def Let_def by (intro obeys_act)

lemma obeys_revoke_key: "evolution.obeys (revoke_key cx at i)"
  unfolding revoke_key_def
  by (rule obeys_updates) (auto simp: key_kept_def)

lemma obeys_set_role: "evolution.obeys (statement (update_keys i (\<lambda>r. r\<lparr>kr_role := role\<rparr>)))"
  by (rule obeys_updates) (auto simp: key_kept_def)

lemma obeys_sync_key: "evolution.obeys (sync_key pl cx kind owner rid existing k minted)"
  unfolding sync_key_def
  by (auto intro!: obeys_act obeys_add_key obeys_revoke_key obeys_set_role split: option.splits)

lemma obeys_sync_listed: "evolution.obeys (sync_listed pl cx kind owner rid existing ks minted)"
  by (induction ks arbitrary: minted) (auto intro!: obeys_act obeys_sync_key)

lemma obeys_revoke_unlisted: "evolution.obeys (revoke_unlisted cx listed ks)"
  by (induction ks) (auto intro!: obeys_act obeys_revoke_key)

lemma obeys_syncKeys: "evolution.obeys (syncKeys pl cx kind owner kv keys rid prevKeys p)"
  unfolding syncKeys_def by (intro obeys_act obeys_sync_listed obeys_revoke_unlisted)

lemma obeys_runHooks: "evolution.obeys (runHooks pl cx v prev p)"
  unfolding runHooks_def hook_company_def hook_module_def hook_grant_def Let_def
  by (auto intro!: obeys_act obeys_syncKeys obeys_updates simp: company_kept_def module_kept_def)

lemma obeys_append_record: "evolution.obeys (append_record pl cx v prev p)"
  unfolding append_record_def Let_def by (intro obeys_act obeys_append_rows obeys_runHooks)

lemma obeys_writeRecord: "evolution.obeys (writeRecord pl cx input)"
  unfolding writeRecord_def by (auto intro!: obeys_act obeys_append_record split: decision.splits prod.splits)

lemma obeys_insert_keys: "evolution.obeys (insert_keys pl cx kind owner rid ks minted)"
  by (induction ks arbitrary: minted) (auto intro!: obeys_act obeys_add_key)

lemma obeys_createCompany: "evolution.obeys (createCompany pl cx input)"
  unfolding createCompany_def create_company_rows_def Let_def
  by (auto intro!: obeys_act obeys_insert_keys obeys_append_rows split: genesis.splits prod.splits)

lemma obeys_createModule: "evolution.obeys (createModule pl cx input)"
  unfolding createModule_def create_module_rows_def Let_def
  by (auto intro!: obeys_act obeys_insert_keys obeys_append_rows split: genesis.splits prod.splits)

lemma obeys_transaction: "evolution.obeys m \<Longrightarrow> evolution.obeys (transaction m)"
  by (auto simp: evolution.obeys_def transaction_def evolves_def split: prod.splits sum.splits)
    (metis evolves_def snd_conv)+

lemma obeys_atomicWrite: "(\<And>cx. evolution.obeys (run cx)) \<Longrightarrow> evolution.obeys (atomicWrite rt ck rq run)"
  unfolding atomicWrite_def by (intro obeys_transaction obeys_act)

lemma obeys_read_only: "evolution.obeys (read_only r)"
  unfolding read_only_def by (rule evolution.obeys_query)

lemma read_route_unchanged: "snd (read_route pl cx rq path d) = d"
  by (simp add: read_route_def read_only_def query_def split: list.splits)

lemma obeys_write_route: "evolution.obeys (write_route rt ck rq path)"
  unfolding write_route_def Let_def posted_def
  by (auto intro!: obeys_act obeys_read_only obeys_atomicWrite obeys_writeRecord obeys_createCompany obeys_createModule)

lemma obeys_route: "evolution.obeys (route rt ck rq)"
proof -
  have "evolution.obeys (read_route pl cx rq path)" for pl cx path
    by (simp add: evolution.obeys_def read_route_unchanged evolves_refl)
  then show ?thesis unfolding route_def by (auto intro!: obeys_act obeys_write_route)
qed

lemma handle_evolves: "handle rt ck rq d = (resp, d') \<Longrightarrow> evolves d d'"
  using evolution.obeysD [OF obeys_route, of rt ck rq d]
  by (auto simp: handle_def evolves_refl split: if_splits prod.splits sum.splits)

end
