(* ===== verification/StoreLog.thy ===== *)
theory StoreLog
  imports AppendOnly
begin

text \<open>
  What one request does to the log of the store: nothing, or exactly one record and its event are
  appended, and the record it supersedes loses its \<open>is_head\<close>.
\<close>

subsection \<open>The log\<close>

definition same_log :: "db \<Rightarrow> db \<Rightarrow> bool" where
  "same_log d d' \<longleftrightarrow> db_records d' = db_records d \<and> db_events d' = db_events d \<and> db_next_seq d' = db_next_seq d"

interpretation log: action_relation same_log
  by unfold_locales (auto simp: same_log_def)

lemma log_statements:
  "log.obeys (statement (insert_company c))" "log.obeys (statement (insert_module m))"
  "log.obeys (statement (insert_key k))" "log.obeys (statement (upsert_grant g))"
  "log.obeys (statement (update_keys i f))" "log.obeys (statement (update_companies i h))"
  "log.obeys (statement (update_modules i l))"
  by (rule log.obeys_statement; auto simp: same_log_def insert_company_def insert_module_def insert_key_def
      upsert_grant_def update_keys_def update_companies_def update_modules_def Let_def split: if_splits)+

lemmas log_act = log.obeys_intros log_statements

lemma log_add_key: "log.obeys (add_key pl cx kind owner rid k minted)"
  unfolding add_key_def Let_def by (intro log_act)

lemma log_sync_key: "log.obeys (sync_key pl cx kind owner rid existing k minted)"
  unfolding sync_key_def revoke_key_def by (auto intro!: log_act log_add_key split: option.splits)

lemma log_sync_listed: "log.obeys (sync_listed pl cx kind owner rid existing ks minted)"
  by (induction ks arbitrary: minted) (auto intro!: log_act log_sync_key)

lemma log_revoke_unlisted: "log.obeys (revoke_unlisted cx listed ks)"
  by (induction ks) (auto intro!: log_act simp: revoke_key_def)

lemma log_runHooks: "log.obeys (runHooks pl cx v prev p)"
  unfolding runHooks_def hook_company_def hook_module_def hook_grant_def syncKeys_def Let_def
  by (auto intro!: log_act log_sync_listed log_revoke_unlisted)

lemma log_insert_keys: "log.obeys (insert_keys pl cx kind owner rid ks minted)"
  by (induction ks arbitrary: minted) (auto intro!: log_act log_add_key)

subsection \<open>Appending\<close>

definition flip :: "record_row option \<Rightarrow> record_row \<Rightarrow> record_row" where
  "flip prev r =
     (case prev of None \<Rightarrow> r
      | Some q \<Rightarrow> if rr_record_id r = rr_record_id q then r\<lparr>rr_is_head := False\<rparr> else r)"

definition new_record :: "platform \<Rightarrow> ctx \<Rightarrow> validated \<Rightarrow> int \<Rightarrow> record_row" where
  "new_record pl cx v seq =
     (record_row_of pl cx v (statusFromBody (v_info v) (e_body (v_env v))))\<lparr>rr_seq := Some seq\<rparr>"

definition appends ::
  "platform \<Rightarrow> ctx \<Rightarrow> validated \<Rightarrow> record_row option \<Rightarrow> jstr option \<Rightarrow> db \<Rightarrow> db \<Rightarrow> bool" where
  "appends pl cx v prev event_status d d' \<longleftrightarrow>
     db_records d' = map (flip prev) (db_records d) @ [new_record pl cx v (db_next_seq d)] \<and>
     db_events d' = db_events d @ [event_row_of pl cx (v_env v) event_status (db_next_seq d)] \<and>
     db_next_seq d' = db_next_seq d + 1 \<and>
     e_record_id (v_env v) \<notin> rr_record_id ` set (db_records d) \<and>
     isUuid (e_record_id (v_env v)) \<and>
     (\<forall>s. e_supersedes (v_env v) = Some s \<longrightarrow> isUuid s \<and> (\<forall>r \<in> set (db_records d). rr_supersedes r \<noteq> Some s))"

lemma update_rows_map: "update_rows trigger p f rs = Inr rs' \<Longrightarrow> rs' = map (\<lambda>r. if p r then f r else r) rs"
  by (induction rs arbitrary: rs') (auto simp: ok_iff)

lemma update_record_effect: "update_record i f d = Inr d' \<Longrightarrow>
    d' = d\<lparr>db_records := map (\<lambda>r. if rr_record_id r = i then f r else r) (db_records d)\<rparr>"
  by (auto simp: update_record_def ok_iff dest: update_rows_map)

lemma insertRecord_effect:
  assumes "insertRecord pl cx v st d = (Inr u, d')"
  shows "d' = d\<lparr>db_records := db_records d @ [record_row_of pl cx v st]\<rparr>"
    "e_record_id (v_env v) \<notin> rr_record_id ` set (db_records d)" "isUuid (e_record_id (v_env v))"
    "e_supersedes (v_env v) = Some s \<Longrightarrow> isUuid s \<and> (\<forall>r \<in> set (db_records d). rr_supersedes r \<noteq> Some s)"
  using assms
  by (auto simp: insertRecord_def ok_iff insert_record_row_def if_Inl_ok record_row_of_def Let_def exists_row split: if_splits)

lemma insertEvent_effect:
  assumes "insertEvent pl cx v st d = (Inr seq, d')"
  shows "seq = db_next_seq d"
    "d' = d\<lparr>db_next_seq := db_next_seq d + 1, db_events := db_events d @ [event_row_of pl cx (v_env v) st seq],
       db_records := map (\<lambda>r. if rr_record_id r = e_record_id (v_env v) then r\<lparr>rr_seq := Some seq\<rparr> else r) (db_records d)\<rparr>"
  using assms
  by (auto simp: insertEvent_def ok_iff insert_event_row_def if_Inl_ok dest!: update_record_effect split: if_splits)

lemma flip_None [simp]: "map (flip None) rs = rs"
  by (rule map_idI) (simp add: flip_def)

lemma flip_head_effect: "flip_head prev d = (Inr u, d') \<Longrightarrow> d' = d\<lparr>db_records := map (flip prev) (db_records d)\<rparr>"
  by (cases prev) (auto simp: flip_head_def flip_def [of "Some _", abs_def] ok_iff dest!: update_record_effect)

lemma append_rows_effect:
  assumes ins: "insertRecord pl cx v (statusFromBody (v_info v) (e_body (v_env v))) d = (Inr u, d1)"
    and flips: "flip_head prev d1 = (Inr u', d2)" and ev: "insertEvent pl cx v st d2 = (Inr seq, d3)"
    and known: "\<And>q. prev = Some q \<Longrightarrow> q \<in> set (db_records d)"
  shows "appends pl cx v prev st d d3"
proof -
  let ?new = "record_row_of pl cx v (statusFromBody (v_info v) (e_body (v_env v)))"
  let ?seq = "\<lambda>r. if rr_record_id r = e_record_id (v_env v) then r\<lparr>rr_seq := Some seq\<rparr> else r"
  note i = insertRecord_effect [OF ins]
  have id: "rr_record_id ?new = e_record_id (v_env v)" by (simp add: record_row_of_def Let_def)
  have "rr_record_id (flip prev r) = rr_record_id r" for r by (simp add: flip_def split: option.splits)
  then have old: "map ?seq (map (flip prev) (db_records d)) = map (flip prev) (db_records d)"
    using i(2) by (auto simp: image_iff)
  have new: "?seq (flip prev ?new) = new_record pl cx v seq"
    using known i(2) id by (auto simp: new_record_def flip_def split: option.splits)
  have "db_records d3 = map ?seq (map (flip prev) (db_records d @ [?new]))"
    using insertEvent_effect(2) [OF ev] flip_head_effect [OF flips] i(1) by simp
  also have "\<dots> = map (flip prev) (db_records d) @ [new_record pl cx v seq]"
    unfolding map_append list.map new old by simp
  finally show ?thesis
    using insertEvent_effect [OF ev] flip_head_effect [OF flips] i by (simp add: appends_def)
qed

lemma appends_log: "appends pl cx v prev st d d1 \<Longrightarrow> same_log d1 d2 \<Longrightarrow> appends pl cx v prev st d d2"
  by (simp add: appends_def same_log_def)

lemma appends_before: "same_log d d0 \<Longrightarrow> appends pl cx v prev st d0 d1 \<Longrightarrow> appends pl cx v prev st d d1"
  by (simp add: appends_def same_log_def)

lemma append_record_effect:
  assumes "append_record pl cx v prev p d = (Inr minted, d')"
    and known: "\<And>q. prev = Some q \<Longrightarrow> q \<in> set (db_records d)"
  shows "appends pl cx v prev (statusFromBody (v_info v) (e_body (v_env v))) d d'"
proof -
  let ?st = "statusFromBody (v_info v) (e_body (v_env v))"
  from assms(1) obtain d1 d2 d3 seq where 1: "insertRecord pl cx v ?st d = (Inr (), d1)" "flip_head prev d1 = (Inr (), d2)"
      "insertEvent pl cx v ?st d2 = (Inr seq, d3)" and 2: "runHooks pl cx v prev p d3 = (Inr minted, d')"
    by (auto simp: append_record_def Let_def ok_iff)
  have "appends pl cx v prev ?st d d3" using 1 known by (rule append_rows_effect)
  then show ?thesis using log.obeysD [OF log_runHooks 2] by (rule appends_log)
qed

lemma create_company_effect:
  assumes "create_company_rows pl cx v keys d = (Inr minted, d')"
  shows "appends pl cx v None None d d'"
proof -
  from assms obtain d1 d2 d3 seq c where 1: "statement (insert_company c) d = (Inr (), d1)"
      "insert_keys pl cx KCompany (e_subject (v_env v)) (e_record_id (v_env v)) keys [] d1 = (Inr minted, d2)"
      "insertRecord pl cx v (statusFromBody (v_info v) (e_body (v_env v))) d2 = (Inr (), d3)"
      "insertEvent pl cx v None d3 = (Inr seq, d')"
    by (auto simp: create_company_rows_def Let_def ok_iff)
  have "same_log d d2"
    using log.obeysD [OF log_statements(1) 1(1)] log.obeysD [OF log_insert_keys 1(2)] by (rule log.trans)
  moreover have "appends pl cx v None None d2 d'"
    using 1(3) _ 1(4) by (rule append_rows_effect [of _ _ _ _ _ _ None "()" d3]) (simp_all add: flip_head_def ret_def)
  ultimately show ?thesis by (rule appends_before)
qed

lemma create_module_effect:
  assumes "create_module_rows pl cx v m keys d = (Inr minted, d')"
  shows "appends pl cx v None None d d'"
proof -
  from assms obtain d1 d2 d3 seq r where 1: "statement (insert_module r) d = (Inr (), d1)"
      "insert_keys pl cx KModule m (e_record_id (v_env v)) keys [] d1 = (Inr minted, d2)"
      "insertRecord pl cx v (statusFromBody (v_info v) (e_body (v_env v))) d2 = (Inr (), d3)"
      "insertEvent pl cx v None d3 = (Inr seq, d')"
    by (auto simp: create_module_rows_def Let_def ok_iff)
  have "same_log d d2"
    using log.obeysD [OF log_statements(2) 1(1)] log.obeysD [OF log_insert_keys 1(2)] by (rule log.trans)
  moreover have "appends pl cx v None None d2 d'"
    using 1(3) _ 1(4) by (rule append_rows_effect [of _ _ _ _ _ _ None "()" d3]) (simp_all add: flip_head_def ret_def)
  ultimately show ?thesis by (rule appends_before)
qed

subsection \<open>One request, one step of the log\<close>

text \<open>
  What is known of an accepted record: its envelope was validated; as a genesis it supersedes nothing,
  otherwise it follows the head of its chain and passed the rules of its type against it.
\<close>

definition follows :: "db \<Rightarrow> validated \<Rightarrow> record_row option \<Rightarrow> bool" where
  "follows d v prev \<longleftrightarrow>
     (case prev of
        None \<Rightarrow> e_supersedes (v_env v) = None \<and> (is_identity_type (e_type (v_env v)) \<or> check_rules v None = Inr ())
      | Some q \<Rightarrow> q \<in> set (db_records d) \<and> e_supersedes (v_env v) = Some (rr_record_id q) \<and>
          check_chain q (v_env v) = Inr () \<and> check_rules v (Some q) = Inr () \<and>
          e_issuer_company (v_env v) \<in> set (record_parties q))"

text \<open>The key that signed is in the store and belongs to the company or module that the record names as its issuer.\<close>

definition issuer_known :: "db \<Rightarrow> jstr \<Rightarrow> jstr \<Rightarrow> jstr option \<Rightarrow> bool" where
  "issuer_known d key company module_id \<longleftrightarrow>
     (\<exists>k \<in> set (db_keys d). kr_id k = key \<and>
        (case module_id of
           None \<Rightarrow> kr_owner_kind k = KCompany \<and> kr_owner_id k = company
         | Some m \<Rightarrow> kr_owner_kind k = KModule \<and> kr_owner_id k = m))"

text \<open>A grant names the module it is for by a text.\<close>

definition grant_names_module :: "validated \<Rightarrow> bool" where
  "grant_names_module v \<longleftrightarrow>
     (e_type (v_env v) = js ''core.grant'' \<longrightarrow> (\<exists>m. member (e_body (v_env v)) (js ''module_id'') = JStr m))"

definition appends_known :: "platform \<Rightarrow> db \<Rightarrow> db \<Rightarrow> bool" where
  "appends_known pl d d' \<longleftrightarrow>
     (\<exists>cx input v prev. validateSignedEnvelope pl input = Inr v \<and> follows d v prev \<and>
        appends pl cx v prev (statusFromBody (v_info v) (e_body (v_env v))) d d' \<and>
        issuer_known d' (e_issuer_key (v_env v)) (e_issuer_company (v_env v)) (e_issuer_module (v_env v)) \<and>
        grant_names_module v)"

definition log_step :: "platform \<Rightarrow> db \<Rightarrow> db \<Rightarrow> bool" where
  "log_step pl d d' \<longleftrightarrow> evolves d d' \<and>
     (db_records d' = db_records d \<and> db_events d' = db_events d \<or> appends_known pl d d')"

lemma log_stepI:
  "validateSignedEnvelope pl input = Inr v \<Longrightarrow> follows d v prev \<Longrightarrow>
     appends pl cx v prev (statusFromBody (v_info v) (e_body (v_env v))) d d' \<Longrightarrow>
     issuer_known d' (e_issuer_key (v_env v)) (e_issuer_company (v_env v)) (e_issuer_module (v_env v)) \<Longrightarrow>
     grant_names_module v \<Longrightarrow> evolves d d' \<Longrightarrow> log_step pl d d'"
  unfolding log_step_def appends_known_def by blast

lemma log_step_refl: "log_step pl d d"
  by (simp add: log_step_def evolves_refl)

lemma key_kept_fields: "key_kept k k' \<Longrightarrow> kr_id k' = kr_id k \<and> kr_owner_kind k' = kr_owner_kind k \<and> kr_owner_id k' = kr_owner_id k"
  by (cases k; cases k') (simp add: key_kept_def)

lemma issuer_known_evolves:
  assumes "issuer_known d key company m" "evolves d d'"
  shows "issuer_known d' key company m"
proof -
  obtain k where k: "k \<in> set (db_keys d)" "kr_id k = key"
      "case m of None \<Rightarrow> kr_owner_kind k = KCompany \<and> kr_owner_id k = company
         | Some i \<Rightarrow> kr_owner_kind k = KModule \<and> kr_owner_id k = i"
    using assms(1) by (auto simp: issuer_known_def)
  obtain k' where k': "k' \<in> set (db_keys d')" "key_kept k k'"
    using grows_member k(1) assms(2) by (force simp: evolves_def)
  then show ?thesis using k key_kept_fields [OF k'(2)] unfolding issuer_known_def by metis
qed

text \<open>The caller of a handler was resolved from an active key.\<close>

definition known_caller :: "db \<Rightarrow> ctx \<Rightarrow> bool" where
  "known_caller d cx \<longleftrightarrow>
     (\<forall>p. cx_principal cx = Some p \<longrightarrow> (\<exists>k \<in> set (db_keys d). kr_status k = js ''active'' \<and> p = key_principal k))"

lemma resolved_known: "resolvePrincipal pl d header = Inr who \<Longrightarrow> known_caller d (context_for ck who)"
  by (auto simp: known_caller_def context_for_def dest: resolved_key_active)

lemma authorized_issuer:
  assumes "authorizeWrite pl cx d v prev = Inr ()" "known_caller d cx"
  shows "issuer_known d (e_issuer_key (v_env v)) (e_issuer_company (v_env v)) (e_issuer_module (v_env v))"
proof -
  obtain p where p: "cx_principal cx = Some p" "e_issuer_key (v_env v) = pr_key_id p"
      "check_key_owner p (v_env v) (v_info v) = Inr ()"
    using assms(1) by (auto simp: authorizeWrite_def Let_def ok_iff if_Inl_ok split: option.splits)
  obtain k where k: "k \<in> set (db_keys d)" "p = key_principal k"
    using assms(2) p(1) by (auto simp: known_caller_def)
  show ?thesis
    using p(2,3) k by (cases "kr_owner_kind k")
      (auto simp: issuer_known_def check_key_owner_def key_principal_def split: option.splits if_splits intro!: bexI [of _ k])
qed

lemma authorized_party:
  "authorizeWrite pl cx d v (Some q) = Inr () \<Longrightarrow> e_issuer_company (v_env v) \<in> set (record_parties q)"
  by (auto simp: authorizeWrite_def Let_def ok_iff if_Inl_ok split: option.splits)

lemma find_previous_ok:
  assumes "find_previous pl cx d env = Inr prev"
  shows "(case prev of None \<Rightarrow> e_supersedes env = None \<or> e_supersedes env = Some []
      | Some q \<Rightarrow> e_supersedes env = Some (rr_record_id q) \<and> q \<in> set (db_records d) \<and> can_read_row pl cx d q)"
proof (cases "supersedes_target env")
  case None
  then show ?thesis using assms
    by (auto simp: find_previous_def supersedes_target_def split: option.splits if_splits)
next
  case (Some s)
  then have s: "e_supersedes env = Some s" by (auto simp: supersedes_target_def split: option.splits if_splits)
  from assms obtain r where "fetchRecordRow d s = Some r" "can_read_row pl cx d r" "prev = Some r"
    by (auto simp: find_previous_def Some split: option.splits if_splits)
  then show ?thesis using s the_row_Some [of rr_record_id s "db_records d" r] by (auto simp: fetchRecordRow_def split: if_splits)
qed

lemma not_uuid_Nil [simp]: "\<not> isUuid []"
  by (simp add: isUuid_def)

text \<open>What \<open>decide\<close> has established when it lets a record be appended.\<close>

lemma decide_append:
  assumes "decide pl cx d v = Inr (Append prev)"
  shows "find_previous pl cx d (v_env v) = Inr prev" "authorizeWrite pl cx d v prev = Inr ()"
    "check_subject (v_env v) (v_info v) = Inr ()" "\<not> (e_supersedes (v_env v) = None \<and> is_identity_type (e_type (v_env v)))"
    "(case prev of None \<Rightarrow> Inr () | Some r \<Rightarrow> check_chain r (v_env v)) = Inr ()" "check_rules v prev = Inr ()"
    "fetchRecordRow d (e_record_id (v_env v)) = None" "companyExists d (e_subject (v_env v))"
    "\<forall>c \<in> set (e_counterparties (v_env v)). companyExists d c"
proof -
  show new: "fetchRecordRow d (e_record_id (v_env v)) = None"
  proof (rule ccontr)
    assume "fetchRecordRow d (e_record_id (v_env v)) \<noteq> None"
    then obtain row where "fetchRecordRow d (e_record_id (v_env v)) = Some row" by blast
    with assms show False by (auto simp: decide_def Let_def ok_iff split: if_splits)
  qed
  show "find_previous pl cx d (v_env v) = Inr prev" "authorizeWrite pl cx d v prev = Inr ()"
    "check_subject (v_env v) (v_info v) = Inr ()" "\<not> (e_supersedes (v_env v) = None \<and> is_identity_type (e_type (v_env v)))"
    "(case prev of None \<Rightarrow> Inr () | Some r \<Rightarrow> check_chain r (v_env v)) = Inr ()" "check_rules v prev = Inr ()"
    "companyExists d (e_subject (v_env v))" "\<forall>c \<in> set (e_counterparties (v_env v)). companyExists d c"
    using assms by (auto simp: decide_def new Let_def ok_iff split: if_splits)
qed

lemma decide_follows:
  assumes "decide pl cx d v = Inr (Append prev)" "appends pl cx' v prev st d d'"
  shows "follows d v prev"
proof (cases prev)
  case None
  then show ?thesis
    using find_previous_ok [OF decide_append(1) [OF assms(1)]] decide_append(6) [OF assms(1)] assms(2)
    by (auto simp: follows_def appends_def)
next
  case (Some q)
  then show ?thesis
    using find_previous_ok [OF decide_append(1) [OF assms(1)]] decide_append(5,6) [OF assms(1)]
      authorized_party decide_append(2) [OF assms(1)]
    by (auto simp: follows_def)
qed

lemma writeRecord_cases:
  assumes "writeRecord pl cx input d = (Inr r, d')"
  obtains (ack) row v where "validateSignedEnvelope pl input = Inr v" "decide pl cx d v = Inr (Acknowledge row)" "d' = d"
      "r = \<lparr>wr_record = rowToRecord d row, wr_created = False, wr_keys = None\<rparr>"
    | (append) v prev p minted row where "validateSignedEnvelope pl input = Inr v" "decide pl cx d v = Inr (Append prev)"
      "cx_principal cx = Some p" "append_record pl cx v prev p d = (Inr minted, d')"
      "stored (e_record_id (v_env v)) d' = Inr row"
      "r = \<lparr>wr_record = row, wr_created = True, wr_keys = (if minted = [] then None else Some minted)\<rparr>"
proof -
  from assms obtain v what where v: "validateSignedEnvelope pl input = Inr v" "decide pl cx d v = Inr what"
    and rest: "(case what of
       Acknowledge row \<Rightarrow> query (\<lambda>d. Inr \<lparr>wr_record = rowToRecord d row, wr_created = False, wr_keys = None\<rparr>)
     | Append prev \<Rightarrow>
         abind (query (\<lambda>_. requirePrincipal (cx_principal cx))) (\<lambda>p.
         abind (catch (write_conflict (v_env v)) (append_record pl cx v prev p)) (\<lambda>keys.
         abind (query (stored (e_record_id (v_env v)))) (\<lambda>row.
         ret \<lparr>wr_record = row, wr_created = True, wr_keys = (if keys = [] then None else Some keys)\<rparr>)))) d = (Inr r, d')"
    by (auto simp: writeRecord_def ok_iff)
  show thesis
  proof (cases what)
    case (Acknowledge row)
    with rest v show thesis by (intro ack) (auto simp: ok_iff)
  next
    case (Append prev)
    with rest v show thesis by (auto simp: ok_iff requirePrincipal_def intro!: append)
  qed
qed

lemma append_record_grant:
  assumes "append_record pl cx v prev p d = (Inr minted, d')"
  shows "grant_names_module v"
proof -
  from assms obtain d1 where "runHooks pl cx v prev p d1 = (Inr minted, d')" by (auto simp: append_record_def Let_def ok_iff)
  then show ?thesis
    by (auto simp: grant_names_module_def runHooks_def hook_grant_def Let_def ok_iff text_param_def)
qed

lemma writeRecord_log_step:
  assumes "writeRecord pl cx input d = (Inr r, d')" "known_caller d cx"
  shows "log_step pl d d'"
  using assms(1)
proof (cases rule: writeRecord_cases)
  case (append v prev p minted row)
  have "q \<in> set (db_records d)" if "prev = Some q" for q
    using find_previous_ok [OF decide_append(1) [OF append(2)]] that by simp
  note app = append_record_effect [OF append(4) this]
  have ev: "evolves d d'" using obeys_append_record append(4) by (rule evolution.obeysD)
  have "issuer_known d' (e_issuer_key (v_env v)) (e_issuer_company (v_env v)) (e_issuer_module (v_env v))"
    using authorized_issuer [OF decide_append(2) [OF append(2)] assms(2)] ev by (rule issuer_known_evolves)
  then show ?thesis
    using append(1) decide_follows [OF append(2) app] app append_record_grant [OF append(4)] ev by (blast intro: log_stepI)
qed (simp add: log_step_refl)

lemma createCompany_cases:
  assumes "createCompany pl cx input d = (Inr r, d')"
  obtains (replay) v row where "validateSignedEnvelope pl input = Inr v" "decide_company pl cx d v = Inr (Replay row)" "d' = d"
      "r = genesis_answer (e_subject (v_env v)) row False []"
    | (create) v keys minted row where "validateSignedEnvelope pl input = Inr v" "decide_company pl cx d v = Inr (Create keys)"
      "create_company_rows pl cx v keys d = (Inr minted, d')" "stored (e_record_id (v_env v)) d' = Inr row"
      "r = genesis_answer (e_subject (v_env v)) row True minted"
proof -
  from assms obtain v what where v: "validateSignedEnvelope pl input = Inr v" "decide_company pl cx d v = Inr what"
    and rest: "(case what of
       Replay row \<Rightarrow> ret (genesis_answer (e_subject (v_env v)) row False [])
     | Create keys \<Rightarrow>
         abind (catch genesis_conflict (create_company_rows pl cx v keys)) (\<lambda>minted.
         abind (query (stored (e_record_id (v_env v)))) (\<lambda>row.
         ret (genesis_answer (e_subject (v_env v)) row True minted)))) d = (Inr r, d')"
    by (auto simp: createCompany_def Let_def ok_iff)
  show thesis
  proof (cases what)
    case (Replay row)
    with rest v show thesis by (intro replay) (auto simp: ok_iff)
  next
    case (Create keys)
    with rest v show thesis by (auto simp: ok_iff intro!: create)
  qed
qed

lemma createModule_cases:
  assumes "createModule pl cx input d = (Inr r, d')"
  obtains (replay) v row i where "validateSignedEnvelope pl input = Inr v" "decide_module pl cx d v i = Inr (Replay row)" "d' = d"
      "r = genesis_answer i row False []"
    | (create) v keys minted row i where "validateSignedEnvelope pl input = Inr v" "decide_module pl cx d v i = Inr (Create keys)"
      "create_module_rows pl cx v i keys d = (Inr minted, d')" "stored (e_record_id (v_env v)) d' = Inr row"
      "r = genesis_answer i row True minted"
proof -
  from assms obtain v i what where v: "validateSignedEnvelope pl input = Inr v" "decide_module pl cx d v i = Inr what"
    and rest: "(case what of
       Replay row \<Rightarrow> ret (genesis_answer i row False [])
     | Create keys \<Rightarrow>
         abind (catch genesis_conflict (create_module_rows pl cx v i keys)) (\<lambda>minted.
         abind (query (stored (e_record_id (v_env v)))) (\<lambda>row.
         ret (genesis_answer i row True minted)))) d = (Inr r, d')"
    by (auto simp: createModule_def Let_def ok_iff)
  show thesis
  proof (cases what)
    case (Replay row)
    with rest v show thesis by (intro replay) (auto simp: ok_iff)
  next
    case (Create keys)
    with rest v show thesis by (auto simp: ok_iff intro!: create)
  qed
qed

lemma replay_or_Create: "replay_or pl cx d v m = Inr (Create keys) \<Longrightarrow> m = Inr (Create keys)"
  by (auto simp: replay_or_def ok_iff split: option.splits if_splits)

lemma decide_company_create:
  assumes "decide_company pl cx d v = Inr (Create keys)"
  shows "e_type (v_env v) = js ''core.company''" "e_supersedes (v_env v) = None"
    "e_issuer_company (v_env v) = e_subject (v_env v)" "e_issuer_module (v_env v) = None" "e_counterparties (v_env v) = []"
    "read_keys (e_body (v_env v)) = Some keys" "\<exists>k. signing_key (v_env v) keys = Some k \<and> active_root k"
    "\<not> companyExists d (e_subject (v_env v))" "\<forall>k \<in> set keys. \<not> key_taken d (ke_id k)"
  using assms
  by (auto simp: decide_company_def Let_def ok_iff if_Inl_ok dest!: replay_or_Create split: if_splits option.splits)

lemma decide_module_create:
  assumes "decide_module pl cx d v i = Inr (Create keys)"
  shows "e_type (v_env v) = js ''core.module''" "e_supersedes (v_env v) = None"
    "e_issuer_company (v_env v) = e_subject (v_env v)" "is_root_of (cx_principal cx) (e_subject (v_env v))"
    "read_keys (e_body (v_env v)) = Some keys" "check_module_signer (v_env v) i keys (cx_principal cx) = Inr ()"
    "\<not> module_exists d i" "\<forall>k \<in> set keys. \<not> key_taken d (ke_id k)"
  using assms
  by (auto simp: decide_module_def Let_def ok_iff if_Inl_ok dest!: replay_or_Create split: if_splits option.splits)

lemma identity_no_status:
  assumes "validateSignedEnvelope pl input = Inr v" "is_identity_type (e_type (v_env v))"
  shows "statusFromBody (v_info v) body = None"
proof -
  have "typeInfo (e_type (v_env v)) = Inr (Some (v_info v))" using validated_facts [OF assms(1)] by blast
  then have "v_info v = info_of (js ''core.company'') e_company x_company \<or>
      v_info v = info_of (js ''core.module'') e_module x_module"
    using assms(2) typeInfo_company typeInfo_module by (auto simp: is_identity_type_def)
  then have "ti_transitions (v_info v) = None"
    by (auto simp: ti_transitions_def info_of_def x_company_def x_module_def)
  then show ?thesis by (simp add: statusFromBody_def)
qed

text \<open>Every listed key of a genesis is inserted for its owner.\<close>

lemma add_key_row:
  assumes "add_key pl cx kind owner rid k minted d = (Inr m, d')"
  shows "\<exists>r \<in> set (db_keys d'). kr_id r = ke_id k \<and> kr_owner_kind r = kind \<and> kr_owner_id r = owner"
proof -
  from assms obtain row where "key_row_of pl kind owner rid k (new_token cx minted k) = Inr row" "insert_key row d = Inr d'"
    by (auto simp: add_key_def Let_def ok_iff)
  then show ?thesis using keys.insert_last by (auto simp: key_row_of_def ok_iff)
qed

lemma insert_keys_rows:
  "insert_keys pl cx kind owner rid ks minted d = (Inr m, d') \<Longrightarrow> k \<in> set ks \<Longrightarrow>
     \<exists>r \<in> set (db_keys d'). kr_id r = ke_id k \<and> kr_owner_kind r = kind \<and> kr_owner_id r = owner"
proof (induction ks arbitrary: minted d)
  case (Cons x ks)
  from Cons.prems(1) obtain m1 d1 where 1: "add_key pl cx kind owner rid x minted d = (Inr m1, d1)"
      and 2: "insert_keys pl cx kind owner rid ks m1 d1 = (Inr m, d')" by (auto simp: ok_iff)
  show ?case
  proof (cases "k = x")
    case True
    obtain r where r: "r \<in> set (db_keys d1)" "kr_id r = ke_id k" "kr_owner_kind r = kind" "kr_owner_id r = owner"
      using add_key_row [OF 1] True by blast
    obtain r' where "r' \<in> set (db_keys d')" "key_kept r r'"
      using evolution.obeysD [OF obeys_insert_keys 2] grows_member r(1) by (force simp: evolves_def)
    then show ?thesis using r(2-4) key_kept_fields [of r r'] by auto
  next
    case False
    then show ?thesis using Cons.IH [OF 2] Cons.prems(2) by simp
  qed
qed simp

lemma signing_key_listed: "signing_key env keys = Some k \<Longrightarrow> k \<in> set keys \<and> ke_id k = e_issuer_key env"
  by (auto simp: signing_key_def find_Some_iff)

lemma rows_evolve:
  "insertRecord pl cx v st d = (Inr u, d1) \<Longrightarrow> insertEvent pl cx v st' d1 = (Inr n, d2) \<Longrightarrow> evolves d d2"
  using evolution.obeysD [OF obeys_append_rows(1)] evolution.obeysD [OF obeys_append_rows(3)] evolves_trans by blast

lemma create_company_issuer:
  assumes "create_company_rows pl cx v keys d = (Inr minted, d')" "k \<in> set keys"
  shows "\<exists>r \<in> set (db_keys d'). kr_id r = ke_id k \<and> kr_owner_kind r = KCompany \<and> kr_owner_id r = e_subject (v_env v)"
proof -
  from assms(1) obtain d1 d2 d3 seq where 1: "insert_keys pl cx KCompany (e_subject (v_env v)) (e_record_id (v_env v)) keys [] d1 = (Inr minted, d2)"
      and 2: "insertRecord pl cx v (statusFromBody (v_info v) (e_body (v_env v))) d2 = (Inr (), d3)" "insertEvent pl cx v None d3 = (Inr seq, d')"
    by (auto simp: create_company_rows_def Let_def ok_iff)
  have "db_keys d' = db_keys d2" using insertRecord_effect(1) [OF 2(1)] insertEvent_effect(2) [OF 2(2)] by simp
  then show ?thesis using insert_keys_rows [OF 1 assms(2)] by simp
qed

lemma create_module_issuer:
  assumes "create_module_rows pl cx v m keys d = (Inr minted, d')" "k \<in> set keys"
  shows "\<exists>r \<in> set (db_keys d'). kr_id r = ke_id k \<and> kr_owner_kind r = KModule \<and> kr_owner_id r = m"
proof -
  from assms(1) obtain d1 d2 d3 seq where 1: "insert_keys pl cx KModule m (e_record_id (v_env v)) keys [] d1 = (Inr minted, d2)"
      and 2: "insertRecord pl cx v (statusFromBody (v_info v) (e_body (v_env v))) d2 = (Inr (), d3)" "insertEvent pl cx v None d3 = (Inr seq, d')"
    by (auto simp: create_module_rows_def Let_def ok_iff)
  have "db_keys d' = db_keys d2" using insertRecord_effect(1) [OF 2(1)] insertEvent_effect(2) [OF 2(2)] by simp
  then show ?thesis using insert_keys_rows [OF 1 assms(2)] by simp
qed

lemma createCompany_log_step:
  assumes "createCompany pl cx input d = (Inr r, d')"
  shows "log_step pl d d'"
  using assms
proof (cases rule: createCompany_cases)
  case (create v keys minted row)
  moreover have "follows d v None"
    using decide_company_create(1,2) [OF create(2)] by (simp add: follows_def is_identity_type_def)
  moreover have "statusFromBody (v_info v) (e_body (v_env v)) = None"
    using create(1) decide_company_create(1) [OF create(2)] by (simp add: identity_no_status is_identity_type_def)
  moreover obtain k where "signing_key (v_env v) keys = Some k" using decide_company_create(7) [OF create(2)] by blast
  then have "issuer_known d' (e_issuer_key (v_env v)) (e_issuer_company (v_env v)) (e_issuer_module (v_env v))"
    using create_company_issuer [OF create(3), of k] decide_company_create(3,4) [OF create(2)] signing_key_listed
    by (fastforce simp: issuer_known_def)
  moreover have "grant_names_module v" using decide_company_create(1) [OF create(2)] by (simp add: grant_names_module_def)
  moreover have "evolves d d'" using obeys_createCompany assms by (rule evolution.obeysD)
  ultimately show ?thesis using create_company_effect [OF create(3)] by (metis log_stepI)
qed (simp add: log_step_refl)

lemma createModule_log_step:
  assumes "createModule pl cx input d = (Inr r, d')" "known_caller d cx"
  shows "log_step pl d d'"
  using assms(1)
proof (cases rule: createModule_cases)
  case (create v keys minted row i)
  moreover have "follows d v None"
    using decide_module_create(1,2) [OF create(2)] by (simp add: follows_def is_identity_type_def)
  moreover have "statusFromBody (v_info v) (e_body (v_env v)) = None"
    using create(1) decide_module_create(1) [OF create(2)] by (simp add: identity_no_status is_identity_type_def)
  moreover have "grant_names_module v" using decide_module_create(1) [OF create(2)] by (simp add: grant_names_module_def)
  moreover have ev: "evolves d d'" using obeys_createModule assms(1) by (rule evolution.obeysD)
  moreover have "issuer_known d' (e_issuer_key (v_env v)) (e_issuer_company (v_env v)) (e_issuer_module (v_env v))"
  proof (cases "e_issuer_module (v_env v) = Some i")
    case True
    then obtain k where "signing_key (v_env v) keys = Some k"
      using decide_module_create(6) [OF create(2)] by (auto simp: check_module_signer_def ok_iff split: option.splits)
    then show ?thesis using create_module_issuer [OF create(3), of k] signing_key_listed True by (fastforce simp: issuer_known_def)
  next
    case False
    then obtain p where p: "e_issuer_module (v_env v) = None" "cx_principal cx = Some p" "pr_key_id p = e_issuer_key (v_env v)"
      using decide_module_create(6) [OF create(2)]
      by (auto simp: check_module_signer_def ok_iff split: option.splits if_splits)
    moreover have "pr_kind p = KCompany" "pr_id p = e_issuer_company (v_env v)"
      using decide_module_create(3,4) [OF create(2)] p(2) by (simp_all add: is_root_of_def)
    ultimately have "issuer_known d (e_issuer_key (v_env v)) (e_issuer_company (v_env v)) (e_issuer_module (v_env v))"
      using assms(2) by (fastforce simp: known_caller_def issuer_known_def key_principal_def)
    then show ?thesis using ev by (rule issuer_known_evolves)
  qed
  ultimately show ?thesis using create_module_effect [OF create(3)] by (metis log_stepI)
qed (simp add: log_step_refl)

text \<open>How a request can end: the store is as before, but for the sequence, or a write handler succeeded in its transaction.\<close>

lemma atomicWrite_cases:
  assumes "atomicWrite rt ck rq run d = (r, d')"
  obtains (failed) e n where "r = Inl e" "d' = d\<lparr>db_next_seq := n\<rparr>" "db_next_seq d' = n"
    | (finished) a who where "r = Inr a" "resolvePrincipal (rt_platform rt) d (rq_authorization rq) = Inr who"
      "run (context_for ck who) d = (Inr a, d')"
proof (cases r)
  case (Inl e)
  then show thesis using assms failed by (auto simp: atomicWrite_def dest!: transaction_fails)
next
  case (Inr a)
  then show thesis using assms finished by (auto simp: atomicWrite_def ok_iff)
qed

lemma atomicWrite_log_step:
  assumes "atomicWrite rt ck rq run d = (r, d')"
    and "\<And>cx a d1. run cx d = (Inr a, d1) \<Longrightarrow> known_caller d cx \<Longrightarrow> log_step pl d d1"
    and "\<And>cx. evolution.obeys (run cx)"
  shows "log_step pl d d'"
  using assms(1)
proof (cases rule: atomicWrite_cases)
  case (failed e n)
  have "evolves d d'" using evolution.obeysD [OF obeys_atomicWrite] assms(1,3) by blast
  then show ?thesis using failed by (simp add: log_step_def)
next
  case (finished a who)
  then show ?thesis using assms(2) resolved_known by blast
qed

lemma abind_cases:
  assumes "abind m f d = (r, d')"
  obtains (first) e where "m d = (Inl e, d')" "r = Inl e"
    | (second) a d1 where "m d = (Inr a, d1)" "f a d1 = (r, d')"
  using assms by (auto simp: abind_def split: prod.splits sum.splits)

lemma posted_unchanged: "posted rt rq d = (r, d') \<Longrightarrow> d' = d"
  by (auto simp: posted_def query_def)

lemma write_then:
  assumes "abind (posted rt rq) (\<lambda>input. abind (atomicWrite rt ck rq (run input)) (\<lambda>r. ret (f r))) d = (r, d')"
    and "\<And>input cx a d1. run input cx d = (Inr a, d1) \<Longrightarrow> known_caller d cx \<Longrightarrow> log_step pl d d1"
    and "\<And>input cx. evolution.obeys (run input cx)"
  shows "log_step pl d d'"
  using assms(1)
proof (cases rule: abind_cases)
  case (first e)
  then show ?thesis using posted_unchanged by (blast intro: log_step_refl)
next
  case (second input d1)
  have d1: "d1 = d" using posted_unchanged second(1) by blast
  from second(2) obtain q where "atomicWrite rt ck rq (run input) d = (q, d')"
    unfolding d1 by (cases rule: abind_cases) (auto simp: ret_def)
  then show ?thesis using assms(2,3) by (rule atomicWrite_log_step)
qed

lemma write_route_log_step:
  assumes "write_route rt ck rq path d = (r, d')"
  shows "log_step (rt_platform rt) d d'"
proof -
  have quiet: "log_step pl d d'" if "abind (posted rt rq) (\<lambda>input. read_only (g input)) d = (r, d')" for pl g
    using that by (cases rule: abind_cases)
      (auto simp: read_only_def query_def dest!: posted_unchanged intro: log_step_refl)
  consider "take 2 path = [js ''debug'', js ''canonicalize'']" | "path = [js ''companies'']" | "path = [js ''modules'']"
    | "path = [js ''records'']"
    | "take 2 path \<noteq> [js ''debug'', js ''canonicalize'']" "path \<notin> {[js ''companies''], [js ''modules''], [js ''records'']}"
    by blast
  then show ?thesis
  proof cases
    case 1
    then show ?thesis using assms by (auto simp: write_route_def Let_def intro: quiet)
  next
    case 2
    with assms show ?thesis
      by (simp add: write_route_def Let_def) (erule write_then, erule createCompany_log_step, rule obeys_createCompany)
  next
    case 3
    with assms show ?thesis
      by (simp add: write_route_def Let_def) (erule write_then, erule (1) createModule_log_step, rule obeys_createModule)
  next
    case 4
    with assms show ?thesis
      by (simp add: write_route_def Let_def) (erule write_then, erule (1) writeRecord_log_step, rule obeys_writeRecord)
  next
    case 5
    then have "d' = d" using assms by (auto simp: write_route_def Let_def fail_def)
    then show ?thesis by (simp add: log_step_refl)
  qed
qed

lemma handle_log_step:
  assumes "handle rt ck rq d = (resp, d')"
  shows "log_step (rt_platform rt) d d'"
proof (cases "rq_method rq = OPTIONS")
  case True
  then show ?thesis using assms by (simp add: handle_def log_step_refl)
next
  case False
  then obtain r where "route rt ck rq d = (r, d')"
    using assms by (auto simp: handle_def split: prod.splits sum.splits)
  then have "d' = d \<or> (\<exists>path. write_route rt ck rq path d = (r, d'))"
    unfolding route_def
    by (auto simp: query_def fail_def elim!: abind_cases split: if_splits) (metis read_route_unchanged snd_conv)
  then show ?thesis using write_route_log_step by (auto intro: log_step_refl)
qed

end
