(* ===== verification/Samples.thy ===== *)
theory Samples
  imports Router
begin

text \<open>
  A store with a company and two versions of a listing, built by three requests.  The theorems about the
  store are applied to it, so that their hypotheses are seen to hold.
\<close>

definition sample_listing :: "nat \<Rightarrow> string \<Rightarrow> envelope" where
  "sample_listing n status = \<lparr>e_record_id = sample_id n, e_root_id = sample_id 2, e_type = js ''trade.listing'',
     e_namespace = js ''trade'', e_version = js ''0.2'', e_subject = js ''acme'', e_counterparties = [],
     e_issuer_key = sample_key, e_issuer_company = js ''acme'', e_issuer_module = None, e_visibility = js ''public'',
     e_created_at = js ''2026-09-03T00:00:00Z'', e_supersedes = (if n = 2 then None else Some (sample_id 2)),
     e_body = [(js ''seller_company_id'', JStr (js ''acme'')), (js ''status'', JStr (js status))],
     e_signature = sample_signature, e_source = []\<rparr>"

definition sample_envelope :: "nat \<Rightarrow> envelope" where
  "sample_envelope n =
     (if n = 1 then sample_company else if n = 2 then sample_listing 2 ''draft'' else sample_listing n ''active'')"

text \<open>The body of the n-th request is n bytes long.\<close>

definition sample_runtime :: runtime where
  "sample_runtime = \<lparr>rt_platform = sample_platform, rt_decode_component = Some,
     rt_decode_utf8 = (\<lambda>bs. Some (replicate (length bs) 0x30)),
     rt_json_parse = (\<lambda>t. Some (JObj (envelope_source (sample_envelope (length t)))))\<rparr>"

definition sample_clock :: clock where
  "sample_clock = \<lparr>ck_now = 0, ck_db_now = 0, ck_random = (\<lambda>_. [])\<rparr>"

definition sample_request :: "nat \<Rightarrow> request" where
  "sample_request n = \<lparr>rq_method = POST, rq_pathname = (if n = 1 then js ''/companies'' else js ''/records''), rq_query = [],
     rq_authorization = (if n = 1 then None else Some (js ''Bearer dtps_'')), rq_content_length = None,
     rq_chunks = Some [replicate n 0]\<rparr>"

lemma sample_listing_validates:
  "validateSignedEnvelope sample_platform (JObj (envelope_source (sample_listing n st))) =
     Inr \<lparr>v_env = with_source (sample_listing n st), v_info = info_of (js ''trade.listing'') e_listing x_listing,
       v_hash = js ''00''\<rparr>"
proof -
  have "plain_envelope (sample_listing n st)"
    by (simp add: plain_envelope_def envelope_source_def sample_listing_def null_or_text_def sample_signature_def)
  moreover have "well_formed_envelope (sample_listing n st)"
  proof -
    have "namespaceOf (js ''trade.listing'') = js ''trade''" by code_simp
    then show ?thesis by (simp add: well_formed_envelope_def sample_listing_def)
  qed
  moreover have "typeInfo (e_type (sample_listing n st)) = Inr (Some (info_of (js ''trade.listing'') e_listing x_listing))"
    by (simp add: sample_listing_def typeInfo_table)
  moreover have "e_version (sample_listing n st) \<in> set (ti_versions (info_of (js ''trade.listing'') e_listing x_listing))"
    by (simp add: sample_listing_def info_of_def e_listing_def)
  moreover have "check_identity_keys (e_type (sample_listing n st)) (e_body (sample_listing n st)) = Inr ()"
    by (simp add: sample_listing_def check_identity_keys_def is_identity_type_def)
  ultimately show ?thesis
    using sample_validates [of "sample_listing n st"] by (simp add: sample_listing_def)
qed

lemma depth_JObj_le: "depth (JObj kvs) \<le> Suc n \<longleftrightarrow> (\<forall>(k, v) \<in> set kvs. depth v \<le> n)"
  using depth_le_iff [of "JObj kvs" "Suc n"] by (auto simp: less_Suc_eq_le)

lemma depth_JArr_le: "depth (JArr vs) \<le> Suc n \<longleftrightarrow> (\<forall>v \<in> set vs. depth v \<le> n)"
  using depth_le_iff [of "JArr vs" "Suc n"] by (auto simp: less_Suc_eq_le)

lemma depth_sample: "n \<in> {1, 2, 3} \<Longrightarrow> depth (JObj (envelope_source (sample_envelope n))) \<le> Suc (Suc (Suc (Suc m)))"
  by (auto simp: sample_envelope_def sample_company_def sample_listing_def envelope_source_def null_or_text_def
      depth_JObj_le depth_JArr_le simp del: depth.simps(1,2))

lemma read_sample:
  assumes "n \<in> {1, 2, 3}"
  shows "readJson sample_runtime (sample_request n) = Inr (JObj (envelope_source (sample_envelope n)))"
proof -
  have "assertSafeJsonText False (replicate 1 0x30) = Inr ()" "assertSafeJsonText False (replicate 2 0x30) = Inr ()"
    "assertSafeJsonText False (replicate 3 0x30) = Inr ()" by code_simp+
  then have safe: "assertSafeJsonText False (replicate n 0x30) = Inr ()" using assms by auto
  have small: "\<not> MAX_BODY_BYTES < n" "n \<noteq> 0" using assms by (auto simp: MAX_BODY_BYTES_def)
  have "\<not> js_space 0x30" by code_simp
  then have "\<not> blank (replicate n 0x30)" using small by (simp add: blank_def list_all_iff)
  then show ?thesis
    using safe small depth_sample [OF assms, of 60]
    by (simp add: readJson_def sample_request_def sample_runtime_def parseUntrustedJson_def require_def
        nesting_loop_iff MAX_NESTING_def)
qed

subsection \<open>The three requests\<close>

lemma isUuid_sample_id: "n \<in> {1, 2, 3} \<Longrightarrow> isUuid (sample_id n)"
proof -
  have "isUuid (sample_id 1)" "isUuid (sample_id 2)" "isUuid (sample_id 3)" by code_simp+
  then show "n \<in> {1, 2, 3} \<Longrightarrow> isUuid (sample_id n)" by blast
qed

lemma sample_id_eq [simp]: "sample_id m = sample_id n \<longleftrightarrow> m = n"
  by (simp add: sample_id_def)

definition sample_company_row :: company_row where
  "sample_company_row = \<lparr>co_id = js ''acme'', co_display_name = js ''Acme'', co_legal_name = None,
     co_head_record_id = Some (sample_id 1)\<rparr>"

definition sample_key_row :: key_row where
  "sample_key_row = \<lparr>kr_id = sample_key, kr_public_key = sample_bytes, kr_owner_kind = KCompany, kr_owner_id = js ''acme'',
     kr_role = js ''root'', kr_label = None, kr_status = js ''active'', kr_token_hash = Some (js ''00''),
     kr_added_by = sample_id 1, kr_revoked_at = None\<rparr>"

definition sample_info :: "nat \<Rightarrow> type_info" where
  "sample_info n =
     (if n = 1 then info_of (js ''core.company'') e_company x_company
      else info_of (js ''trade.listing'') e_listing x_listing)"

definition sample_validated :: "nat \<Rightarrow> validated" where
  "sample_validated n = \<lparr>v_env = with_source (sample_envelope n), v_info = sample_info n, v_hash = js ''00''\<rparr>"

definition sample_ctx :: "nat \<Rightarrow> ctx" where
  "sample_ctx n = context_for sample_clock (if n = 1 then None else Some (key_principal sample_key_row))"

definition sample_record :: "nat \<Rightarrow> record_row" where
  "sample_record n =
     (record_row_of sample_platform (sample_ctx n) (sample_validated n)
       (if n = 1 then None else if n = 2 then Some (js ''draft'') else Some (js ''active'')))\<lparr>rr_seq := Some (int n)\<rparr>"

definition sample_event :: "nat \<Rightarrow> event_row" where
  "sample_event n = event_row_of sample_platform (sample_ctx n) (with_source (sample_envelope n))
     (if n = 1 then None else if n = 2 then Some (js ''draft'') else Some (js ''active'')) (int n)"

lemma sample_validates_to:
  "n \<in> {1, 2, 3} \<Longrightarrow>
     validateSignedEnvelope sample_platform (JObj (envelope_source (sample_envelope n))) = Inr (sample_validated n)"
  by (auto simp: sample_validated_def sample_envelope_def sample_info_def sample_company_validates_to sample_listing_validates)

definition sample_entry :: key_entry where
  "sample_entry = \<lparr>ke_id = sample_key, ke_role = js ''root'', ke_status = js ''active'', ke_label = JNull, ke_revoked_at = JNull\<rparr>"

lemma read_keys_sample:
  "read_keys (e_body sample_company) =
     Some [sample_entry]"
  by (simp add: sample_company_def sample_entry_def read_keys_def read_key_def text_member_def member0_def)

lemma decide_sample_company:
  "decide_company sample_platform (sample_ctx 1) empty_db (sample_validated 1) =
     Inr (Create [sample_entry])"
proof -
  have t: "checkTransition (sample_info 1) None body roles = Inr ()" for body roles
    by (simp add: checkTransition_def check_machine_def sample_info_def info_of_def x_company_def ti_transitions_def)
  show ?thesis
    by (simp add: decide_company_def sample_validated_def sample_envelope_def read_keys_sample require_def t
        replay_or_def fetchRecordRow_def empty_db_def the_row_def exists_row signing_key_def active_root_def Let_def
        del: One_nat_def)
      (simp add: sample_company_def sample_entry_def)
qed

lemmas act_defs = abind_def query_def statement_def ret_def check_def catch_def transaction_def

lemma key_id_ok_sample: "key_id_ok sample_key"
  unfolding sample_key_def by (rule key_id_ok_text) (simp_all add: sample_bytes_def)

lemma company_id_ok_acme: "company_id_ok (js ''acme'')"
  by code_simp

definition sample_db1 :: db where
  "sample_db1 = \<lparr>db_companies = [sample_company_row], db_modules = [], db_keys = [sample_key_row], db_records = [sample_record 1],
     db_grants = [], db_events = [sample_event 1], db_next_seq = 2\<rparr>"

lemma decode_sample_key: "decodeKeyId sample_key = Inr sample_bytes"
  using encode_sample_bytes by (rule key_id.decode_encode)

lemma sample_insert_company: "insert_company sample_company_row empty_db = Inr (empty_db\<lparr>db_companies := [sample_company_row]\<rparr>)"
  by (simp add: insert_company_def sample_company_row_def company_id_ok_acme empty_db_def exists_row)

lemma sample_add_key:
  "add_key sample_platform (sample_ctx 1) KCompany (js ''acme'') (sample_id 1) sample_entry []
     (empty_db\<lparr>db_companies := [sample_company_row]\<rparr>) =
   (Inr [(sample_key, js ''dtps_'')], empty_db\<lparr>db_companies := [sample_company_row], db_keys := [sample_key_row]\<rparr>)"
proof -
  have row: "key_row_of sample_platform KCompany (js ''acme'') (sample_id 1) sample_entry (Some (js ''dtps_'')) = Inr sample_key_row"
    by (simp add: key_row_of_def sample_entry_def decode_sample_key text_or_null_param_def require_def sample_key_row_def
        tokenHash_def sample_platform_def)
  have ins: "insert_key sample_key_row (empty_db\<lparr>db_companies := [sample_company_row]\<rparr>) =
      Inr (empty_db\<lparr>db_companies := [sample_company_row], db_keys := [sample_key_row]\<rparr>)"
    by (simp add: insert_key_def sample_key_row_def key_id_ok_sample sample_bytes_def empty_db_def exists_row)
  have token: "new_token (sample_ctx 1) [] sample_entry = Some (js ''dtps_'')"
    by (simp add: new_token_def sample_entry_def sample_ctx_def context_for_def sample_clock_def generateToken_def bytesToHex_def)
  show ?thesis by (simp add: add_key_def token row ins act_defs del: One_nat_def) (simp add: sample_entry_def)
qed

lemma visibility_ok_public: "visibility_ok (js ''public'')"
  by (simp add: visibility_ok_def)

lemma sample_envelope_simps [simp]:
  "e_record_id (sample_envelope n) = (if n = 1 then sample_id 1 else if n = 2 then sample_id 2 else sample_id n)"
  "e_root_id (sample_envelope n) = (if n = 1 then sample_id 1 else sample_id 2)"
  "e_type (sample_envelope n) = (if n = 1 then js ''core.company'' else js ''trade.listing'')"
  "e_subject (sample_envelope n) = js ''acme''" "e_counterparties (sample_envelope n) = []"
  "e_issuer_key (sample_envelope n) = sample_key" "e_issuer_company (sample_envelope n) = js ''acme''"
  "e_issuer_module (sample_envelope n) = None" "e_visibility (sample_envelope n) = js ''public''"
  "e_supersedes (sample_envelope n) = (if n = 1 \<or> n = 2 then None else Some (sample_id 2))"
  by (simp_all add: sample_envelope_def sample_company_def sample_listing_def)

lemma sample_record_row:
  "rr_record_id (sample_record n) = (if n = 1 then sample_id 1 else if n = 2 then sample_id 2 else sample_id n)"
  "rr_root_id (sample_record n) = (if n = 1 then sample_id 1 else sample_id 2)"
  "rr_type (sample_record n) = (if n = 1 then js ''core.company'' else js ''trade.listing'')"
  "rr_subject (sample_record n) = js ''acme''" "rr_counterparties (sample_record n) = []"
  "rr_issuer_key (sample_record n) = sample_key" "rr_visibility (sample_record n) = js ''public''"
  "rr_supersedes (sample_record n) = (if n = 1 \<or> n = 2 then None else Some (sample_id 2))"
  "rr_is_head (sample_record n)" "rr_payload_hash (sample_record n) = js ''00''"
  "rr_body (sample_record n) = e_body (sample_envelope n)"
  "rr_status (sample_record n) = (if n = 1 then None else if n = 2 then Some (js ''draft'') else Some (js ''active''))"
  by (simp_all add: sample_record_def record_row_of_def sample_validated_def sample_platform_def Let_def)

lemma sample_insert_record:
  assumes "n \<in> {1, 2, 3}" "companyExists d (js ''acme'')" "key_taken d sample_key" "\<not> record_exists d (rr_record_id (sample_record n))"
    and "\<forall>r \<in> set (db_records d). rr_supersedes r = None" "n \<noteq> 1 \<Longrightarrow> n \<noteq> 2 \<Longrightarrow> record_exists d (sample_id 2)"
  shows "insertRecord sample_platform (sample_ctx n) (sample_validated n) (rr_status (sample_record n)) d =
     (Inr (), d\<lparr>db_records := db_records d @ [(sample_record n)\<lparr>rr_seq := None\<rparr>]\<rparr>)"
proof -
  let ?r = "record_row_of sample_platform (sample_ctx n) (sample_validated n) (rr_status (sample_record n))"
  have row: "?r = (sample_record n)\<lparr>rr_seq := None\<rparr>"
    by (simp add: sample_record_row sample_record_def) (simp add: record_row_of_def Let_def)
  have "insert_record_row ?r d = Inr (d\<lparr>db_records := db_records d @ [?r]\<rparr>)"
    unfolding row using assms isUuid_sample_id [of 1] isUuid_sample_id [of 2] isUuid_sample_id [of n]
    by (auto simp: insert_record_row_def sample_record_row visibility_ok_public)
  then show ?thesis
    unfolding row [symmetric] by (simp add: insertRecord_def act_defs) (simp add: sample_platform_def)
qed

lemma sample_insert_event:
  assumes "db_next_seq d = int n" "\<forall>e \<in> set (db_events d). ev_seq e < int n" "db_records d = rs @ [(sample_record n)\<lparr>rr_seq := None\<rparr>]"
    and "\<forall>r \<in> set rs. rr_record_id r \<noteq> rr_record_id (sample_record n)"
  shows "insertEvent sample_platform (sample_ctx n) (sample_validated n) (rr_status (sample_record n)) d =
     (Inr (int n), d\<lparr>db_next_seq := int n + 1, db_events := db_events d @ [sample_event n], db_records := rs @ [sample_record n]\<rparr>)"
proof -
  let ?id = "e_record_id (v_env (sample_validated n))"
  have id: "?id = rr_record_id (sample_record n)" by (simp add: sample_validated_def sample_record_row)
  have ev: "event_row_of sample_platform (sample_ctx n) (v_env (sample_validated n)) (rr_status (sample_record n)) (int n) = sample_event n"
    by (simp add: sample_event_def sample_validated_def sample_record_row)
  have "ev_seq (sample_event n) = int n" "ev_record_id (sample_event n) = rr_record_id (sample_record n)"
    by (simp_all add: sample_event_def event_row_of_def sample_record_row)
  then have ins: "insert_event_row (sample_event n) (d\<lparr>db_next_seq := int n + 1\<rparr>) =
      Inr (d\<lparr>db_next_seq := int n + 1, db_events := db_events d @ [sample_event n]\<rparr>)"
    using assms(2,3) by (force simp: insert_event_row_def exists_row)
  have keep: "update_rows records_limited_update (\<lambda>r. rr_record_id r = i) f rs = Inr rs" if "\<forall>r \<in> set rs. rr_record_id r \<noteq> i" for i f rs
    using that by (induction rs) auto
  have snoc: "update_rows t q f (xs @ [x]) = ebind (update_rows t q f xs) (\<lambda>xs'. ebind (update_rows t q f [x]) (\<lambda>ys. Inr (xs' @ ys)))"
    for t q f and xs :: "record_row list" and x
    by (induction xs) (simp_all add: ebind_def split: sum.splits)
  have "rr_seq (sample_record n) = Some (int n)" by (simp add: sample_record_def)
  then have "update_record ?id (\<lambda>r. r\<lparr>rr_seq := Some (int n)\<rparr>) (d\<lparr>db_next_seq := int n + 1, db_events := db_events d @ [sample_event n]\<rparr>) =
      Inr (d\<lparr>db_next_seq := int n + 1, db_events := db_events d @ [sample_event n], db_records := rs @ [sample_record n]\<rparr>)"
    using assms(3,4) id by (simp add: update_record_def snoc keep records_limited_update_def)
  then show ?thesis using assms(1) by (simp add: insertEvent_def abind_def nextval_def statement_def ret_def ev ins)
qed

lemma create_sample_rows:
  "create_company_rows sample_platform (sample_ctx 1) (sample_validated 1) [sample_entry] empty_db =
     (Inr [(sample_key, js ''dtps_'')], sample_db1)"
proof -
  let ?d = "empty_db\<lparr>db_companies := [sample_company_row], db_keys := [sample_key_row]\<rparr>"
  have rec: "insertRecord sample_platform (sample_ctx 1) (sample_validated 1) None ?d =
      (Inr (), ?d\<lparr>db_records := [(sample_record 1)\<lparr>rr_seq := None\<rparr>]\<rparr>)"
    using sample_insert_record [of 1 ?d]
    by (simp add: sample_record_row exists_row empty_db_def sample_company_row_def sample_key_row_def del: One_nat_def)
  have ev: "insertEvent sample_platform (sample_ctx 1) (sample_validated 1) None (?d\<lparr>db_records := [(sample_record 1)\<lparr>rr_seq := None\<rparr>]\<rparr>) =
      (Inr 1, sample_db1)"
    using sample_insert_event [of "?d\<lparr>db_records := [(sample_record 1)\<lparr>rr_seq := None\<rparr>]\<rparr>" 1 "[]"]
    by (simp add: sample_record_row empty_db_def sample_db1_def del: One_nat_def)
  have body: "e_body (sample_envelope 1) = e_body sample_company" by (simp add: sample_envelope_def)
  have texts: "text_param (member (e_body sample_company) (js ''display_name'')) = Inr (js ''Acme'')"
    "text_or_null_param (member (e_body sample_company) (js ''legal_name'')) = Inr None"
    by (simp_all add: sample_company_def text_param_def text_or_null_param_def require_def)
  have status: "statusFromBody (sample_info 1) b = None" for b
    by (simp add: statusFromBody_def sample_info_def info_of_def x_company_def ti_transitions_def)
  have v: "v_env (sample_validated 1) = with_source (sample_envelope 1)" "v_info (sample_validated 1) = sample_info 1"
    by (simp_all add: sample_validated_def)
  have ids: "e_subject (sample_envelope 1) = js ''acme''" "e_record_id (sample_envelope 1) = sample_id 1" by simp_all
  have row: "\<lparr>co_id = js ''acme'', co_display_name = js ''Acme'', co_legal_name = None, co_head_record_id = Some (sample_id 1)\<rparr> =
      sample_company_row" by (simp add: sample_company_row_def)
  show ?thesis
    by (simp add: create_company_rows_def abind_def query_def statement_def ret_def v body texts status row
        sample_insert_company sample_add_key rec ev Let_def ids del: One_nat_def sample_envelope_simps)
qed

lemma resolve_sample: "resolvePrincipal sample_platform empty_db None = Inr None"
  by (simp add: resolvePrincipal_def bearerFrom_def)

lemma path_companies: "relativePath sample_runtime (js ''/companies'') = Inr [js ''companies'']"
proof -
  have "after_root (filter (\<lambda>p. p \<noteq> []) (split_path (js ''/companies''))) = [js ''companies'']" by code_simp
  then show ?thesis by (simp add: relativePath_def sample_runtime_def require_def)
qed

lemma path_records: "relativePath sample_runtime (js ''/records'') = Inr [js ''records'']"
proof -
  have "after_root (filter (\<lambda>p. p \<noteq> []) (split_path (js ''/records''))) = [js ''records'']" by code_simp
  then show ?thesis by (simp add: relativePath_def sample_runtime_def require_def)
qed

lemma stored_sample: "record_exists d i \<Longrightarrow> isUuid i \<Longrightarrow> \<exists>r. stored i d = Inr r"
  by (auto simp: stored_def fetchRecordRow_def record_exists_def require_def)

lemma sample_create_company:
  "\<exists>r. createCompany sample_platform (sample_ctx 1) (JObj (envelope_source (sample_envelope 1))) empty_db = (Inr r, sample_db1) \<and>
     wr_created (cr_result r)"
proof -
  have "record_exists sample_db1 (sample_id 1)" by (simp add: exists_row sample_db1_def sample_record_row)
  then obtain row where "stored (sample_id 1) sample_db1 = Inr row"
    using stored_sample isUuid_sample_id [of 1] by fastforce
  then have row: "stored (e_record_id (v_env (sample_validated 1))) sample_db1 = Inr row"
    by (simp add: sample_validated_def)
  have v: "validateSignedEnvelope sample_platform (JObj (envelope_source (sample_envelope 1))) = Inr (sample_validated 1)"
    by (rule sample_validates_to) simp
  show ?thesis
    by (simp add: createCompany_def abind_def query_def store_def ret_def catch_def v decide_sample_company
        create_sample_rows row genesis_answer_def Let_def del: One_nat_def)
qed

lemma sample_parts:
  "rt_platform sample_runtime = sample_platform" "rq_method (sample_request n) = POST"
  "rq_pathname (sample_request 1) = js ''/companies''" "n \<noteq> 1 \<Longrightarrow> rq_pathname (sample_request n) = js ''/records''"
  "rq_authorization (sample_request 1) = None" "n \<noteq> 1 \<Longrightarrow> rq_authorization (sample_request n) = Some (js ''Bearer dtps_'')"
  by (simp_all add: sample_runtime_def sample_request_def)

lemma sample_request1:
  "\<exists>r. handle sample_runtime sample_clock (sample_request 1) empty_db = ((201, Created r), sample_db1)"
proof -
  obtain r where r: "createCompany sample_platform (sample_ctx 1) (JObj (envelope_source (sample_envelope 1))) empty_db = (Inr r, sample_db1)"
      "wr_created (cr_result r)" using sample_create_company by blast
  have cx: "context_for sample_clock None = sample_ctx 1" by (simp add: sample_ctx_def)
  have "write_route sample_runtime sample_clock (sample_request 1) [js ''companies''] empty_db = (Inr (201, Created r), sample_db1)"
    by (simp add: write_route_def sample_parts posted_def act_defs store_def read_sample [of 1] atomicWrite_def
        resolve_sample cx r created_def Let_def del: One_nat_def)
  then show ?thesis
    by (simp add: handle_def route_def abind_def query_def store_def sample_parts path_companies resolve_sample del: One_nat_def)
qed

subsection \<open>The listing\<close>

lemma resolve_sample_token:
  "sample_key_row \<in> set (db_keys d) \<Longrightarrow> db_keys d = [sample_key_row] \<Longrightarrow>
     resolvePrincipal sample_platform d (Some (js ''Bearer dtps_'')) = Inr (Some (key_principal sample_key_row))"
proof -
  assume "db_keys d = [sample_key_row]"
  moreover have "bearerFrom (Some (js ''Bearer dtps_'')) = Some (js ''dtps_'')" by code_simp
  moreover have "take 5 (js ''dtps_'') = js ''dtps_''" by (simp add: js_def)
  ultimately show ?thesis
    by (simp add: resolvePrincipal_def sample_key_row_def tokenHash_def) (simp add: sample_platform_def)
qed

lemma sample_body:
  "e_body (sample_envelope 2) = [(js ''seller_company_id'', JStr (js ''acme'')), (js ''status'', JStr (js ''draft''))]"
  "e_body (sample_envelope 3) = [(js ''seller_company_id'', JStr (js ''acme'')), (js ''status'', JStr (js ''active''))]"
  by (simp_all add: sample_envelope_def sample_listing_def)

lemma listing_info:
  "ti_roles (sample_info 2) = [(js ''seller'', js ''seller_company_id'')]" "ti_transitions (sample_info 2) = xs_transitions x_listing"
  "ti_schema (sample_info 2) = x_listing" "sample_info 3 = sample_info 2"
  "ti_subject (sample_info 2) = js ''seller_company_id''" "ti_namespace (sample_info 2) \<noteq> js ''core''"
proof -
  have "namespaceOf (js ''trade.listing'') = js ''trade''" by code_simp
  then show "ti_namespace (sample_info 2) \<noteq> js ''core''" by (simp add: sample_info_def info_of_def)
qed (simp_all add: sample_info_def info_of_def ti_roles_def ti_transitions_def x_listing_def e_listing_def)

lemma listing_rules:
  "check_rules (sample_validated 2) None = Inr ()"
  "check_rules (sample_validated 3) (Some (sample_record 2)) = Inr ()"
proof -
  have roles: "js ''seller'' \<in> set (rolesOf (sample_info 2) (e_body (sample_envelope n)) (party_of (with_source (sample_envelope n'))))"
    if "n = 2 \<or> n = 3" for n n'
    using that by (auto simp: rolesOf_def listing_info sample_body party_of_def)
  have cont: "checkRoleContinuity (sample_info 2) p (e_body (sample_envelope 3)) q = Inr ()"
      "checkRoleContinuity (sample_info 2) None (e_body (sample_envelope 2)) q = Inr ()"
    if "p = Some (e_body (sample_envelope 2))" for p q
    using that by (simp_all add: checkRoleContinuity_def listing_info x_listing_def sample_body member0_def)
  have st: "statusOf (sample_info 2) (Some (e_body (sample_envelope 2))) = Some (js ''draft'')"
      "statusOf (sample_info 2) (Some (e_body (sample_envelope 3))) = Some (js ''active'')"
    by (simp_all add: statusOf_def listing_info x_listing_def sample_body)
  have integ: "checkIntegrity (js ''trade.listing'') i r b p = Inr ()" for i r b p
    by (simp add: checkIntegrity_def)
  show "check_rules (sample_validated 2) None = Inr ()"
    using roles [of 2 2]
    by (simp add: check_rules_def sample_validated_def cont integ checkTransition_def check_machine_def listing_info
        x_listing_def allowed_def Let_def st)
  show "check_rules (sample_validated 3) (Some (sample_record 2)) = Inr ()"
    using roles [of 2 3]
    by (simp add: check_rules_def sample_validated_def cont integ checkTransition_def check_machine_def listing_info
        x_listing_def allowed_def Let_def sample_record_row check_locks_def)
      (auto simp: st transition_row_def)
qed

definition sample_db2 :: db where
  "sample_db2 = sample_db1\<lparr>db_records := [sample_record 1, sample_record 2], db_events := [sample_event 1, sample_event 2],
     db_next_seq := 3\<rparr>"

definition sample_db3 :: db where
  "sample_db3 = sample_db1\<lparr>db_records := [sample_record 1, (sample_record 2)\<lparr>rr_is_head := False\<rparr>, sample_record 3],
     db_events := [sample_event 1, sample_event 2, sample_event 3], db_next_seq := 4\<rparr>"

lemma sample_authorized:
  assumes "n = 2 \<or> n = 3" "prev = (if n = 2 then None else Some (sample_record 2))"
  shows "authorizeWrite sample_platform (sample_ctx n) d (sample_validated n) prev = Inr ()"
  using assms listing_info
  by (auto simp: authorizeWrite_def sample_ctx_def context_for_def key_principal_def sample_key_row_def sample_validated_def
      check_key_owner_def record_parties_def sample_record_row Let_def split: if_splits)

lemma sample_readable: "can_read_row pl cx d (sample_record n)"
  by (simp add: can_read_row_def record_visibility_def canRead_def sample_record_row)

lemma sample_record_status:
  "n = 2 \<or> n = 3 \<Longrightarrow> statusFromBody (v_info (sample_validated n)) (e_body (v_env (sample_validated n))) = rr_status (sample_record n)"
  by (auto simp: sample_validated_def sample_record_row statusFromBody_def listing_info x_listing_def sample_body)

lemma no_hook: "n = 2 \<or> n = 3 \<Longrightarrow> runHooks pl cx (sample_validated n) prev p = ret []"
  by (auto simp: runHooks_def sample_validated_def Let_def)

lemma sample_db1_exists:
  "companyExists sample_db1 (js ''acme'')" "key_taken sample_db1 sample_key"
  "record_exists sample_db1 i \<longleftrightarrow> i = sample_id 1"
  by (auto simp: exists_row sample_db1_def sample_company_row_def sample_key_row_def sample_record_row)

lemma sample_decide2: "decide sample_platform (sample_ctx 2) sample_db1 (sample_validated 2) = Inr (Append None)"
proof -
  have fetch: "fetchRecordRow sample_db1 (sample_id 2) = None"
    using sample_db1_exists(3) [of "sample_id 2"] by (simp add: fetchRecordRow_def record_exists_def)
  have id: "\<not> is_identity_type (js ''trade.listing'')" by (simp add: is_identity_type_def)
  have cx: "cx_principal (sample_ctx 2) \<noteq> None" by (simp add: sample_ctx_def context_for_def)
  have v: "v_env (sample_validated 2) = with_source (sample_envelope 2)" "v_info (sample_validated 2) = sample_info 2"
    by (simp_all add: sample_validated_def)
  have auth: "authorizeWrite sample_platform (sample_ctx 2) sample_db1 (sample_validated 2) None = Inr ()"
    by (rule sample_authorized) simp_all
  show ?thesis
    by (simp add: decide_def v id cx fetch auth find_previous_def supersedes_target_def check_subject_def listing_info
        listing_rules sample_db1_exists sample_body Let_def)
qed

lemma sample_append2:
  "append_record sample_platform (sample_ctx 2) (sample_validated 2) None p sample_db1 = (Inr [], sample_db2)"
proof -
  let ?d = "sample_db1\<lparr>db_records := [sample_record 1, (sample_record 2)\<lparr>rr_seq := None\<rparr>]\<rparr>"
  have rec: "insertRecord sample_platform (sample_ctx 2) (sample_validated 2) (rr_status (sample_record 2)) sample_db1 = (Inr (), ?d)"
    using sample_insert_record [of 2 sample_db1] sample_db1_exists by (simp add: sample_record_row sample_db1_def)
  have "ev_seq (sample_event 1) = 1" by (simp add: sample_event_def event_row_of_def)
  then have ev: "insertEvent sample_platform (sample_ctx 2) (sample_validated 2) (rr_status (sample_record 2)) ?d = (Inr 2, sample_db2)"
    using sample_insert_event [of ?d 2 "[sample_record 1]"] by (simp add: sample_record_row sample_db1_def sample_db2_def)
  show ?thesis
    by (simp add: append_record_def abind_def ret_def sample_record_status no_hook rec ev flip_head_def Let_def del: One_nat_def)
qed

lemma sample_write2:
  "\<exists>r. writeRecord sample_platform (sample_ctx 2) (JObj (envelope_source (sample_envelope 2))) sample_db1 = (Inr r, sample_db2) \<and>
     wr_created r"
proof -
  have "record_exists sample_db2 (sample_id 2)" by (simp add: exists_row sample_db2_def sample_record_row)
  then obtain row where "stored (sample_id 2) sample_db2 = Inr row"
    using stored_sample isUuid_sample_id [of 2] by fastforce
  then have row: "stored (e_record_id (v_env (sample_validated 2))) sample_db2 = Inr row"
    by (simp add: sample_validated_def)
  have v: "validateSignedEnvelope sample_platform (JObj (envelope_source (sample_envelope 2))) = Inr (sample_validated 2)"
    by (rule sample_validates_to) simp
  have cx: "cx_principal (sample_ctx 2) = Some (key_principal sample_key_row)" by (simp add: sample_ctx_def context_for_def)
  show ?thesis
    by (simp add: writeRecord_def abind_def query_def store_def ret_def catch_def v sample_decide2 cx requirePrincipal_def
        require_def sample_append2 row)
qed

lemma sample_request2:
  "\<exists>r. handle sample_runtime sample_clock (sample_request 2) sample_db1 = ((201, Written r), sample_db2)"
proof -
  obtain r where r: "writeRecord sample_platform (sample_ctx 2) (JObj (envelope_source (sample_envelope 2))) sample_db1 = (Inr r, sample_db2)"
      "wr_created r" using sample_write2 by blast
  have cx: "context_for sample_clock (Some (key_principal sample_key_row)) = sample_ctx 2" by (simp add: sample_ctx_def)
  have who: "resolvePrincipal sample_platform sample_db1 (Some (js ''Bearer dtps_'')) = Inr (Some (key_principal sample_key_row))"
    by (rule resolve_sample_token) (simp_all add: sample_db1_def)
  have "write_route sample_runtime sample_clock (sample_request 2) [js ''records''] sample_db1 = (Inr (201, Written r), sample_db2)"
    by (simp add: write_route_def sample_parts posted_def act_defs store_def read_sample [of 2] atomicWrite_def
        who cx r created_def Let_def)
  then show ?thesis
    by (simp add: handle_def route_def abind_def query_def store_def sample_parts path_records who)
qed

text \<open>The third request supersedes the listing.\<close>

lemma sample_db2_exists:
  "companyExists sample_db2 (js ''acme'')" "key_taken sample_db2 sample_key"
  "record_exists sample_db2 i \<longleftrightarrow> i = sample_id 1 \<or> i = sample_id 2"
  by (auto simp: exists_row sample_db2_def sample_db1_def sample_company_row_def sample_key_row_def sample_record_row)

lemma sample_decide3: "decide sample_platform (sample_ctx 3) sample_db2 (sample_validated 3) = Inr (Append (Some (sample_record 2)))"
proof -
  have new: "fetchRecordRow sample_db2 (sample_id 3) = None"
    using sample_db2_exists(3) [of "sample_id 3"] by (simp add: fetchRecordRow_def record_exists_def)
  have old: "fetchRecordRow sample_db2 (sample_id 2) = Some (sample_record 2)"
    using isUuid_sample_id [of 2] by (simp add: fetchRecordRow_def the_row_def sample_db2_def sample_record_row)
  have id: "\<not> is_identity_type (js ''trade.listing'')" by (simp add: is_identity_type_def)
  have cx: "cx_principal (sample_ctx 3) \<noteq> None" by (simp add: sample_ctx_def context_for_def)
  have v: "v_env (sample_validated 3) = with_source (sample_envelope 3)" "v_info (sample_validated 3) = sample_info 2"
    by (simp_all add: sample_validated_def listing_info)
  have auth: "authorizeWrite sample_platform (sample_ctx 3) sample_db2 (sample_validated 3) (Some (sample_record 2)) = Inr ()"
    by (rule sample_authorized) simp_all
  have "sample_id 2 \<noteq> []" by (simp add: sample_id_def)
  then show ?thesis
    by (simp add: decide_def v id cx new old auth find_previous_def supersedes_target_def check_subject_def listing_info
        listing_rules sample_db2_exists sample_body sample_readable check_chain_def sample_record_row sameSet_def Let_def)
qed

lemma sample_append3:
  "append_record sample_platform (sample_ctx 3) (sample_validated 3) (Some (sample_record 2)) p sample_db2 = (Inr [], sample_db3)"
proof -
  let ?rs = "[sample_record 1, (sample_record 2)\<lparr>rr_is_head := False\<rparr>]"
  let ?d = "sample_db2\<lparr>db_records := [sample_record 1, sample_record 2, (sample_record 3)\<lparr>rr_seq := None\<rparr>]\<rparr>"
  let ?e = "sample_db2\<lparr>db_records := ?rs @ [(sample_record 3)\<lparr>rr_seq := None\<rparr>]\<rparr>"
  have rec: "insertRecord sample_platform (sample_ctx 3) (sample_validated 3) (rr_status (sample_record 3)) sample_db2 = (Inr (), ?d)"
    using sample_insert_record [of 3 sample_db2] sample_db2_exists by (simp add: sample_record_row sample_db2_def)
  have flip: "flip_head (Some (sample_record 2)) ?d = (Inr (), ?e)"
    by (simp add: flip_head_def statement_def update_record_def sample_record_row records_limited_update_def)
  have seqs: "ev_seq (sample_event 1) = 1" "ev_seq (sample_event 2) = 2" by (simp_all add: sample_event_def event_row_of_def)
  have ev: "insertEvent sample_platform (sample_ctx 3) (sample_validated 3) (rr_status (sample_record 3)) ?e = (Inr 3, sample_db3)"
    using sample_insert_event [of ?e 3 ?rs] seqs
    by (simp add: sample_record_row sample_db2_def sample_db1_def sample_db3_def del: One_nat_def)
  show ?thesis
    by (simp add: append_record_def abind_def ret_def sample_record_status no_hook rec flip ev Let_def
        del: One_nat_def append.simps)
qed

lemma sample_write3:
  "\<exists>r. writeRecord sample_platform (sample_ctx 3) (JObj (envelope_source (sample_envelope 3))) sample_db2 = (Inr r, sample_db3) \<and>
     wr_created r"
proof -
  have "record_exists sample_db3 (sample_id 3)" by (simp add: exists_row sample_db3_def sample_record_row)
  then obtain row where "stored (sample_id 3) sample_db3 = Inr row"
    using stored_sample isUuid_sample_id [of 3] by fastforce
  then have row: "stored (e_record_id (v_env (sample_validated 3))) sample_db3 = Inr row"
    by (simp add: sample_validated_def)
  have v: "validateSignedEnvelope sample_platform (JObj (envelope_source (sample_envelope 3))) = Inr (sample_validated 3)"
    by (rule sample_validates_to) simp
  have cx: "cx_principal (sample_ctx 3) = Some (key_principal sample_key_row)" by (simp add: sample_ctx_def context_for_def)
  show ?thesis
    by (simp add: writeRecord_def abind_def query_def store_def ret_def catch_def v sample_decide3 cx requirePrincipal_def
        require_def sample_append3 row)
qed

lemma sample_request3:
  "\<exists>r. handle sample_runtime sample_clock (sample_request 3) sample_db2 = ((201, Written r), sample_db3)"
proof -
  obtain r where r: "writeRecord sample_platform (sample_ctx 3) (JObj (envelope_source (sample_envelope 3))) sample_db2 = (Inr r, sample_db3)"
      "wr_created r" using sample_write3 by blast
  have cx: "context_for sample_clock (Some (key_principal sample_key_row)) = sample_ctx 3"
    by (simp add: sample_ctx_def)
  have who: "resolvePrincipal sample_platform sample_db2 (Some (js ''Bearer dtps_'')) = Inr (Some (key_principal sample_key_row))"
    by (rule resolve_sample_token) (simp_all add: sample_db2_def sample_db1_def)
  have "write_route sample_runtime sample_clock (sample_request 3) [js ''records''] sample_db2 = (Inr (201, Written r), sample_db3)"
    by (simp add: write_route_def sample_parts posted_def act_defs store_def read_sample [of 3] atomicWrite_def
        who cx r created_def Let_def)
  then show ?thesis
    by (simp add: handle_def route_def abind_def query_def store_def sample_parts path_records who)
qed

end

