(* ===== verification/StoreInvariant.thy ===== *)
theory StoreInvariant
  imports StoreLog Samples
begin

text \<open>
  The states that requests can bring the store into, and what holds in all of them: the chains of
  superseding records, their heads, and the event log.
\<close>

inductive reachable :: "runtime \<Rightarrow> db \<Rightarrow> bool" for rt where
  empty: "reachable rt empty_db"
| request: "reachable rt d \<Longrightarrow> handle rt ck rq d = (resp, d') \<Longrightarrow> reachable rt d'"

inductive_cases reachable_cases: "reachable rt d"

text \<open>An invariant of the log: one that the empty store has and that every step of the log keeps.\<close>

locale log_invariant =
  fixes rt :: runtime and holds :: "db \<Rightarrow> bool"
  assumes initially: "holds empty_db"
    and kept: "holds d \<Longrightarrow> log_step (rt_platform rt) d d' \<Longrightarrow> holds d'"
begin

lemma always: "reachable rt d \<Longrightarrow> holds d"
  by (induction rule: reachable.induct) (auto intro: initially kept dest: handle_log_step)

end

subsection \<open>Rows under \<open>flip\<close>\<close>

lemma flip_simps [simp]:
  "rr_record_id (flip p r) = rr_record_id r" "rr_root_id (flip p r) = rr_root_id r" "rr_type (flip p r) = rr_type r"
  "rr_namespace (flip p r) = rr_namespace r" "rr_version (flip p r) = rr_version r" "rr_subject (flip p r) = rr_subject r"
  "rr_counterparties (flip p r) = rr_counterparties r" "rr_issuer_key (flip p r) = rr_issuer_key r"
  "rr_issuer_company (flip p r) = rr_issuer_company r" "rr_issuer_module (flip p r) = rr_issuer_module r"
  "rr_visibility (flip p r) = rr_visibility r" "rr_supersedes (flip p r) = rr_supersedes r"
  "rr_status (flip p r) = rr_status r" "rr_created_at (flip p r) = rr_created_at r" "rr_body (flip p r) = rr_body r"
  "rr_envelope (flip p r) = rr_envelope r" "rr_payload_hash (flip p r) = rr_payload_hash r"
  "rr_signature (flip p r) = rr_signature r" "rr_seq (flip p r) = rr_seq r"
  by (simp_all add: flip_def split: option.splits)

lemma flip_is_head: "rr_is_head (flip p r) \<longleftrightarrow> rr_is_head r \<and> (\<forall>q. p = Some q \<longrightarrow> rr_record_id r \<noteq> rr_record_id q)"
  by (simp add: flip_def split: option.splits)

lemma new_record_simps [simp]:
  "rr_record_id (new_record pl cx v n) = e_record_id (v_env v)" "rr_root_id (new_record pl cx v n) = e_root_id (v_env v)"
  "rr_type (new_record pl cx v n) = e_type (v_env v)" "rr_namespace (new_record pl cx v n) = e_namespace (v_env v)"
  "rr_version (new_record pl cx v n) = e_version (v_env v)" "rr_subject (new_record pl cx v n) = e_subject (v_env v)"
  "rr_counterparties (new_record pl cx v n) = e_counterparties (v_env v)"
  "rr_issuer_key (new_record pl cx v n) = e_issuer_key (v_env v)"
  "rr_issuer_company (new_record pl cx v n) = e_issuer_company (v_env v)"
  "rr_issuer_module (new_record pl cx v n) = e_issuer_module (v_env v)"
  "rr_visibility (new_record pl cx v n) = e_visibility (v_env v)" "rr_supersedes (new_record pl cx v n) = e_supersedes (v_env v)"
  "rr_is_head (new_record pl cx v n)" "rr_status (new_record pl cx v n) = statusFromBody (v_info v) (e_body (v_env v))"
  "rr_created_at (new_record pl cx v n) = e_created_at (v_env v)" "rr_body (new_record pl cx v n) = pl_jsonb pl (e_body (v_env v))"
  "rr_envelope (new_record pl cx v n) = pl_jsonb pl (e_source (v_env v))" "rr_payload_hash (new_record pl cx v n) = v_hash v"
  "rr_signature (new_record pl cx v n) = e_signature (v_env v)" "rr_seq (new_record pl cx v n) = Some n"
  by (simp_all add: new_record_def record_row_of_def Let_def)

lemma set_take_map: "set (take i (map f xs)) = f ` set (take i xs)"
  by (simp add: take_map)

subsection \<open>Record ids and chains\<close>

definition unique_ids :: "db \<Rightarrow> bool" where
  "unique_ids d \<longleftrightarrow> distinct (map rr_record_id (db_records d))"

text \<open>A record continues an earlier one: same chain, type, subject, parties and visibility.\<close>

definition continues :: "record_row \<Rightarrow> record_row \<Rightarrow> bool" where
  "continues q r \<longleftrightarrow> rr_root_id r = rr_root_id q \<and> rr_type r = rr_type q \<and> rr_subject r = rr_subject q \<and>
     sameSet (rr_counterparties q) (rr_counterparties r) \<and> rr_visibility r = rr_visibility q"

definition linked :: "record_row list \<Rightarrow> record_row \<Rightarrow> bool" where
  "linked before r \<longleftrightarrow>
     (case rr_supersedes r of
        None \<Rightarrow> rr_root_id r = rr_record_id r
      | Some s \<Rightarrow> (\<exists>q \<in> set before. rr_record_id q = s \<and> continues q r))"

definition chains_linked :: "db \<Rightarrow> bool" where
  "chains_linked d \<longleftrightarrow> (\<forall>i < length (db_records d). linked (take i (db_records d)) (db_records d ! i))"

definition one_successor :: "db \<Rightarrow> bool" where
  "one_successor d \<longleftrightarrow> distinct (filter (\<lambda>s. s \<noteq> None) (map rr_supersedes (db_records d)))"

definition is_superseded :: "db \<Rightarrow> jstr \<Rightarrow> bool" where
  "is_superseded d i \<longleftrightarrow> (\<exists>s \<in> set (db_records d). rr_supersedes s = Some i)"

definition heads_current :: "db \<Rightarrow> bool" where
  "heads_current d \<longleftrightarrow> (\<forall>r \<in> set (db_records d). rr_is_head r \<longleftrightarrow> \<not> is_superseded d (rr_record_id r))"

definition chain_ok :: "db \<Rightarrow> bool" where
  "chain_ok d \<longleftrightarrow> unique_ids d \<and> chains_linked d \<and> one_successor d \<and> heads_current d"

lemma linked_flip: "linked (map (flip p) before) (flip p r) \<longleftrightarrow> linked before r"
  by (auto simp: linked_def continues_def split: option.splits)

lemma chains_linked_snoc:
  assumes "chains_linked d" "db_records d' = map (flip p) (db_records d) @ [new]" "linked (db_records d) new"
  shows "chains_linked d'"
proof -
  let ?rs = "db_records d"
  have "linked (take i (db_records d')) (db_records d' ! i)" if "i \<le> length ?rs" for i
  proof (cases "i = length ?rs")
    case True
    have "linked (map (flip p) ?rs) new"
      using assms(3) by (auto simp: linked_def continues_def split: option.splits)
    then show ?thesis by (simp add: assms(2) True nth_append)
  next
    case False
    then have "i < length ?rs" using that by simp
    then show ?thesis
      using assms(1) linked_flip [of p "take i ?rs" "?rs ! i"]
      by (simp add: assms(2) nth_append chains_linked_def take_map)
  qed
  then show ?thesis by (simp add: chains_linked_def assms(2) less_Suc_eq_le)
qed

lemma linked_target:
  assumes "chains_linked d" "s \<in> set (db_records d)" "rr_supersedes s = Some i"
  shows "i \<in> rr_record_id ` set (db_records d)"
proof -
  obtain k where k: "k < length (db_records d)" "s = db_records d ! k" using assms(2) by (auto simp: in_set_conv_nth)
  then have "linked (take k (db_records d)) s" using assms(1) by (auto simp: chains_linked_def)
  then show ?thesis using assms(3) by (auto simp: linked_def dest: in_set_takeD)
qed

lemma linked_target_self: "linked before r \<Longrightarrow> rr_supersedes r = Some i \<Longrightarrow> i \<in> rr_record_id ` set before"
  by (auto simp: linked_def)

lemma check_chain_ok:
  "check_chain q env = Inr () \<longleftrightarrow> rr_is_head q \<and> rr_type q = e_type env \<and> rr_subject q = e_subject env \<and>
     rr_root_id q = e_root_id env \<and> sameSet (rr_counterparties q) (e_counterparties env) \<and> rr_visibility q = e_visibility env"
  by (auto simp: check_chain_def)

lemma follows_linked:
  assumes "validateSignedEnvelope pl input = Inr v" "follows d v prev"
  shows "linked (db_records d) (new_record pl cx v n)"
proof (cases prev)
  case None
  obtain "well_formed_envelope (v_env v)" using validated_facts [OF assms(1)] by blast
  then show ?thesis using assms(2) None by (simp add: linked_def follows_def well_formed_envelope_def)
next
  case (Some q)
  then show ?thesis
    using assms(2) by (auto simp: linked_def follows_def continues_def check_chain_ok)
qed

lemma chain_ok_append:
  assumes ok: "chain_ok d" and valid: "validateSignedEnvelope pl input = Inr v" and follow: "follows d v prev"
    and app: "appends pl cx v prev st d d'"
  shows "chain_ok d'"
proof -
  define new where "new = new_record pl cx v (db_next_seq d)"
  let ?rs = "db_records d"
  have ids: "unique_ids d" and links: "chains_linked d" and single: "one_successor d" and heads: "heads_current d"
    using ok by (auto simp: chain_ok_def)
  have rs': "db_records d' = map (flip prev) ?rs @ [new]" and fresh: "rr_record_id new \<notin> rr_record_id ` set ?rs"
    using app by (simp_all add: appends_def new_def)
  have sup: "rr_supersedes new = Some s \<Longrightarrow> r \<in> set ?rs \<Longrightarrow> rr_supersedes r \<noteq> Some s" for s r
    using app by (auto simp: appends_def new_def)
  have link: "linked ?rs new" unfolding new_def using valid follow by (rule follows_linked)
  have "unique_ids d'"
    using ids fresh by (simp add: unique_ids_def rs' comp_def)
  moreover have "chains_linked d'" using links rs' link by (rule chains_linked_snoc)
  moreover have "one_successor d'"
  proof -
    have eq: "map rr_supersedes (db_records d') = map rr_supersedes ?rs @ [rr_supersedes new]"
      by (simp add: rs' comp_def)
    have "Some s \<notin> rr_supersedes ` set ?rs" if "rr_supersedes new = Some s" for s
      using sup [OF that] by force
    then show ?thesis
      using single unfolding one_successor_def eq by (cases "rr_supersedes new") simp_all
  qed
  moreover have "heads_current d'"
  proof -
    have sup': "is_superseded d' i \<longleftrightarrow> is_superseded d i \<or> rr_supersedes new = Some i" for i
      by (auto simp: is_superseded_def rs')
    have prev_id: "rr_supersedes new = map_option rr_record_id prev"
      using follow by (auto simp: follows_def new_def split: option.splits)
    have old: "rr_is_head (flip prev r) \<longleftrightarrow> \<not> is_superseded d' (rr_record_id r)" if "r \<in> set ?rs" for r
      using heads that by (auto simp: heads_current_def flip_is_head sup' prev_id)
    have "\<not> is_superseded d (rr_record_id new)"
      using linked_target [OF links] fresh by (auto simp: is_superseded_def)
    moreover have "rr_supersedes new \<noteq> Some (rr_record_id new)"
      using linked_target_self [OF link] fresh by blast
    moreover have "rr_is_head new" by (simp add: new_def)
    ultimately show ?thesis using old by (auto simp: heads_current_def rs' sup')
  qed
  ultimately show ?thesis by (simp add: chain_ok_def)
qed

lemma same_records_chain: "db_records d' = db_records d \<Longrightarrow> chain_ok d \<Longrightarrow> chain_ok d'"
  by (simp add: chain_ok_def unique_ids_def chains_linked_def one_successor_def heads_current_def is_superseded_def)

interpretation chains: log_invariant rt chain_ok for rt
proof
  show "chain_ok empty_db"
    by (simp add: chain_ok_def empty_db_def unique_ids_def chains_linked_def one_successor_def heads_current_def)
  show "chain_ok d'" if "chain_ok d" "log_step (rt_platform rt) d d'" for d d'
    using that unfolding log_step_def appends_known_def by (blast intro: same_records_chain chain_ok_append)
qed

subsection \<open>Events\<close>

definition event_matches :: "record_row \<Rightarrow> event_row \<Rightarrow> bool" where
  "event_matches r e \<longleftrightarrow>
     rr_seq r = Some (ev_seq e) \<and> ev_record_id e = rr_record_id r \<and> ev_root_id e = rr_root_id r \<and> ev_type e = rr_type r \<and>
     ev_namespace e = rr_namespace r \<and> ev_version e = rr_version r \<and> ev_subject e = rr_subject r \<and>
     ev_counterparties e = rr_counterparties r \<and> ev_issuer_key e = rr_issuer_key r \<and>
     ev_issuer_company e = rr_issuer_company r \<and> ev_issuer_module e = rr_issuer_module r \<and>
     ev_visibility e = rr_visibility r \<and> ev_supersedes e = rr_supersedes r \<and> ev_status e = rr_status r \<and>
     ev_created_at e = rr_created_at r"

definition events_ok :: "db \<Rightarrow> bool" where
  "events_ok d \<longleftrightarrow> list_all2 event_matches (db_records d) (db_events d) \<and> sorted_wrt (<) (map ev_seq (db_events d)) \<and>
     (\<forall>e \<in> set (db_events d). 1 \<le> ev_seq e \<and> ev_seq e < db_next_seq d) \<and> 1 \<le> db_next_seq d"

lemma event_matches_flip: "event_matches (flip p r) e \<longleftrightarrow> event_matches r e"
  by (simp add: event_matches_def)

lemma events_ok_append:
  assumes "events_ok d" "appends pl cx v prev (statusFromBody (v_info v) (e_body (v_env v))) d d'"
  shows "events_ok d'"
proof -
  let ?new = "new_record pl cx v (db_next_seq d)"
  let ?e = "event_row_of pl cx (v_env v) (statusFromBody (v_info v) (e_body (v_env v))) (db_next_seq d)"
  have seq: "ev_seq ?e = db_next_seq d" by (simp add: event_row_of_def)
  have "event_matches ?new ?e" by (simp add: event_matches_def event_row_of_def)
  moreover have "list_all2 event_matches (map (flip prev) (db_records d)) (db_events d)"
    using assms(1) by (simp add: events_ok_def list_all2_map1 event_matches_flip)
  ultimately have "list_all2 event_matches (db_records d') (db_events d')"
    using assms(2) by (simp add: appends_def list_all2_appendI)
  then show ?thesis
    using assms seq by (auto simp: events_ok_def appends_def sorted_wrt_append)
qed

interpretation event_log: log_invariant rt events_ok for rt
proof
  show "events_ok empty_db" by (simp add: events_ok_def empty_db_def)
  show "events_ok d'" if "events_ok d" "log_step (rt_platform rt) d d'" for d d'
    using that unfolding log_step_def appends_known_def
    by (elim disjE exE conjE) (force simp: events_ok_def evolves_def, blast intro: events_ok_append)
qed

subsection \<open>One current record per chain\<close>

definition one_head :: "db \<Rightarrow> bool" where
  "one_head d \<longleftrightarrow> chain_ok d \<and>
     (\<forall>r \<in> set (db_records d). rr_root_id r \<in> rr_record_id ` set (db_records d) \<and>
        (\<exists>!h. h \<in> set (db_records d) \<and> rr_root_id h = rr_root_id r \<and> rr_is_head h))"

lemma unique_row: "unique_ids d \<Longrightarrow> q \<in> set (db_records d) \<Longrightarrow> r \<in> set (db_records d) \<Longrightarrow>
    rr_record_id q = rr_record_id r \<Longrightarrow> q = r"
  by (simp add: unique_ids_def distinct_map inj_on_def)

lemma flip_other: "(\<And>q. prev = Some q \<Longrightarrow> rr_record_id r \<noteq> rr_record_id q) \<Longrightarrow> flip prev r = r"
  by (simp add: flip_def split: option.splits)

lemma one_head_append:
  assumes ok: "one_head d" and valid: "validateSignedEnvelope pl input = Inr v" and follow: "follows d v prev"
    and app: "appends pl cx v prev st d d'"
  shows "one_head d'"
proof -
  define new where "new = new_record pl cx v (db_next_seq d)"
  let ?rs = "db_records d"
  have chain: "chain_ok d" and roots: "\<forall>r \<in> set ?rs. rr_root_id r \<in> rr_record_id ` set ?rs"
    using ok by (auto simp: one_head_def)
  have rs': "db_records d' = map (flip prev) ?rs @ [new]" and fresh: "rr_record_id new \<notin> rr_record_id ` set ?rs"
    using app by (simp_all add: appends_def new_def)
  have set': "set (db_records d') = flip prev ` set ?rs \<union> {new}" by (auto simp: rs')
  have heads: "\<exists>!h. h \<in> set ?rs \<and> rr_root_id h = rr_root_id r \<and> rr_is_head h" if "r \<in> set ?rs" for r
    using ok that by (simp add: one_head_def)
  have chain': "chain_ok d'" using chain valid follow app by (rule chain_ok_append)
  have uniq: "unique_ids d" using chain by (simp add: chain_ok_def)
  have new_head: "rr_is_head new" by (simp add: new_def)
  have ids': "rr_record_id ` set (db_records d') = insert (rr_record_id new) (rr_record_id ` set ?rs)"
    by (auto simp: set' image_iff)
  show ?thesis
  proof (cases prev)
    case None
    then have root: "rr_root_id new = rr_record_id new"
      using follow follows_linked [OF valid follow, of cx "db_next_seq d"]
      by (simp add: linked_def follows_def new_def)
    have same: "flip prev r = r" for r by (simp add: None flip_def)
    have set_none: "set (db_records d') = insert new (set ?rs)" by (auto simp: set' same)
    have strange: "rr_root_id h \<noteq> rr_root_id new" if "h \<in> set ?rs" for h
      using roots fresh root that by metis
    have "\<exists>!h. h \<in> set (db_records d') \<and> rr_root_id h = rr_root_id r \<and> rr_is_head h" if "r \<in> set (db_records d')" for r
    proof (cases "r = new")
      case True
      then show ?thesis using strange new_head by (intro ex1I [of _ new]) (auto simp: set' same)
    next
      case False
      then have "r \<in> set ?rs" using that by (auto simp: set' same)
      then obtain h where h: "h \<in> set ?rs" "rr_root_id h = rr_root_id r" "rr_is_head h"
          "\<And>h'. h' \<in> set ?rs \<Longrightarrow> rr_root_id h' = rr_root_id r \<Longrightarrow> rr_is_head h' \<Longrightarrow> h' = h"
        using heads [of r] by blast
      have "x = h" if x: "x \<in> set (db_records d')" "rr_root_id x = rr_root_id r" "rr_is_head x" for x
        using x strange [OF \<open>r \<in> set ?rs\<close>] h(4) by (metis insert_iff set_none)
      then show ?thesis using h(1-3) by (intro ex1I [of _ h]) (simp_all add: set_none)
    qed
    moreover have "rr_root_id r \<in> insert (rr_record_id new) (rr_record_id ` set ?rs)" if "r \<in> set (db_records d')" for r
      using that roots root by (auto simp: set' same)
    ultimately show ?thesis using chain' unfolding one_head_def ids' by blast
  next
    case (Some q)
    then have q: "q \<in> set ?rs" "rr_is_head q" "rr_root_id new = rr_root_id q"
      using follow by (auto simp: follows_def check_chain_ok new_def)
    have root_heads: "h \<in> set ?rs \<Longrightarrow> rr_root_id h = rr_root_id q \<Longrightarrow> rr_is_head h \<Longrightarrow> h = q" for h
      using heads [OF q(1)] q by blast
    have old: "h \<in> set ?rs \<Longrightarrow> rr_is_head (flip prev h) \<longleftrightarrow> rr_is_head h \<and> h \<noteq> q" for h
      using unique_row [OF uniq _ q(1)] by (auto simp: flip_is_head Some)
    have same: "h \<in> set ?rs \<Longrightarrow> h \<noteq> q \<Longrightarrow> flip prev h = h" for h
      using unique_row [OF uniq _ q(1)] by (intro flip_other) (auto simp: Some)
    have one: "\<exists>!h. h \<in> set (db_records d') \<and> rr_root_id h = \<rho> \<and> rr_is_head h" if "\<rho> \<in> rr_root_id ` set ?rs" for \<rho>
    proof (cases "\<rho> = rr_root_id q")
      case True
      have "h = new" if h: "h \<in> set (db_records d')" "rr_root_id h = \<rho>" "rr_is_head h" for h
        using h root_heads old True by (auto simp: set')
      then show ?thesis using new_head q(3) True by (intro ex1I [of _ new]) (auto simp: set')
    next
      case False
      from that obtain r where r: "r \<in> set ?rs" "rr_root_id r = \<rho>" by blast
      obtain h where h: "h \<in> set ?rs" "rr_root_id h = \<rho>" "rr_is_head h"
          "\<And>h'. h' \<in> set ?rs \<Longrightarrow> rr_root_id h' = \<rho> \<Longrightarrow> rr_is_head h' \<Longrightarrow> h' = h"
        using heads [OF r(1)] unfolding r(2) by blast
      have "h \<noteq> q" using h(2) False by blast
      then have "flip prev h = h" using same h(1) by blast
      then have "h \<in> set (db_records d')" using h(1) unfolding set' by (metis UnI1 image_eqI)
      moreover have "x = h" if x: "x \<in> set (db_records d')" "rr_root_id x = \<rho>" "rr_is_head x" for x
      proof -
        have "x \<noteq> new" using x(2) q(3) False by blast
        then obtain y where y: "x = flip prev y" "y \<in> set ?rs" using x(1) by (auto simp: set')
        then have "y = h" using x(2,3) h(4) old by simp
        then show "x = h" using y(1) \<open>flip prev h = h\<close> by simp
      qed
      ultimately show ?thesis using h(2,3) by blast
    qed
    have known: "rr_root_id r \<in> rr_root_id ` set ?rs" if "r \<in> set (db_records d')" for r
      using that q(1,3) by (auto simp: set')
    have "rr_root_id r \<in> insert (rr_record_id new) (rr_record_id ` set ?rs)" if "r \<in> set (db_records d')" for r
      using that roots q(1,3) by (auto simp: set')
    then show ?thesis unfolding one_head_def ids' using one known by (intro conjI chain' ballI) auto
  qed
qed

interpretation heads: log_invariant rt one_head for rt
proof
  show "one_head empty_db" using chains.initially by (simp add: one_head_def) (simp add: empty_db_def)
  show "one_head d'" if "one_head d" "log_step (rt_platform rt) d d'" for d d'
    using that unfolding log_step_def appends_known_def
    by (elim disjE exE conjE) (simp add: one_head_def same_records_chain, blast intro: one_head_append)
qed

subsection \<open>What every reachable store satisfies\<close>

lemma sample_reachable: "reachable sample_runtime sample_db1" "reachable sample_runtime sample_db2" "reachable sample_runtime sample_db3"
proof -
  show 1: "reachable sample_runtime sample_db1"
    using sample_request1 reachable.request [OF reachable.empty] by blast
  show 2: "reachable sample_runtime sample_db2" using sample_request2 reachable.request [OF 1] by blast
  show "reachable sample_runtime sample_db3" using sample_request3 reachable.request [OF 2] by blast
qed

text \<open>C14. Chains never fork and never merge: in every state that requests can reach, record ids are unique, no record is
  superseded twice, every superseding record continues an earlier one with the same root, type, subject, parties and
  visibility, and \<open>is_head\<close> marks exactly the records that nothing supersedes.\<close>

theorem chains_are_linear:
  assumes "reachable rt d"
  shows "unique_ids d \<and> chains_linked d \<and> one_successor d \<and> heads_current d"
  using chains.always [OF assms] by (simp add: chain_ok_def)

lemma chains_are_linear_witness:
  "unique_ids sample_db3 \<and> chains_linked sample_db3 \<and> one_successor sample_db3 \<and> heads_current sample_db3 \<and>
     is_superseded sample_db3 (sample_id 2)"
  using chains_are_linear [OF sample_reachable(3)] by (simp add: is_superseded_def sample_db3_def sample_record_row)

text \<open>C15. Every chain has exactly one current version: for each stored record there is one and only one head among the
  records with its \<open>root_id\<close>.\<close>

theorem chain_has_one_head:
  assumes "reachable rt d" "r \<in> set (db_records d)"
  shows "\<exists>!h. h \<in> set (db_records d) \<and> rr_root_id h = rr_root_id r \<and> rr_is_head h"
  using heads.always [OF assms(1)] assms(2) by (simp add: one_head_def)

lemma chain_has_one_head_witness:
  "\<exists>!h. h \<in> set (db_records sample_db3) \<and> rr_root_id h = rr_root_id (sample_record 3) \<and> rr_is_head h"
  using chain_has_one_head [OF sample_reachable(3), of "sample_record 3"] by (simp add: sample_db3_def)

text \<open>C16. The event log is the history of the records: in every reachable state there is exactly one event per record, in
  the order of the records and with their columns; sequence numbers start at one, strictly increase, and the next
  one is larger than all that were given out.\<close>

theorem events_mirror_records:
  assumes "reachable rt d"
  shows "list_all2 event_matches (db_records d) (db_events d) \<and> sorted_wrt (<) (map ev_seq (db_events d)) \<and>
     (\<forall>e \<in> set (db_events d). 1 \<le> ev_seq e \<and> ev_seq e < db_next_seq d)"
  using event_log.always [OF assms] by (simp add: events_ok_def)

lemma events_mirror_records_witness:
  "list_all2 event_matches (db_records sample_db3) [sample_event 1, sample_event 2, sample_event 3]"
  using events_mirror_records [OF sample_reachable(3)] by (simp add: sample_db3_def del: One_nat_def)

end
