(* ===== verification/Requests.thy ===== *)
theory Requests
  imports StoreInvariant
begin

text \<open>
  What a single request can do: which answers change the store, who may write, and what a repeated write
  gets.
\<close>

subsection \<open>Which answers change the tables\<close>

lemma writeRecord_ack: "writeRecord pl cx input d = (Inr r, d') \<Longrightarrow> \<not> wr_created r \<Longrightarrow> d' = d"
  by (cases rule: writeRecord_cases, assumption) auto

lemma createCompany_replay: "createCompany pl cx input d = (Inr r, d') \<Longrightarrow> \<not> wr_created (cr_result r) \<Longrightarrow> d' = d"
  by (cases rule: createCompany_cases, assumption) (auto simp: genesis_answer_def)

lemma createModule_replay: "createModule pl cx input d = (Inr r, d') \<Longrightarrow> \<not> wr_created (cr_result r) \<Longrightarrow> d' = d"
  by (cases rule: createModule_cases, assumption) (auto simp: genesis_answer_def)

definition same_tables :: "db \<Rightarrow> db \<Rightarrow> bool" where
  "same_tables d d' \<longleftrightarrow> (\<exists>n. d' = d\<lparr>db_next_seq := n\<rparr>)"

lemma same_tables_refl: "same_tables d d"
proof -
  have "d = d\<lparr>db_next_seq := db_next_seq d\<rparr>" by simp
  then show ?thesis unfolding same_tables_def by blast
qed

lemma write_answer:
  assumes "abind (posted rt rq) (\<lambda>input. abind (atomicWrite rt ck rq (run input)) (\<lambda>a. ret (created (new a) (f a)))) d = (r, d')"
    and "\<And>input cx a d1. run input cx d = (Inr a, d1) \<Longrightarrow> \<not> new a \<Longrightarrow> d1 = d"
    and "\<And>b. r \<noteq> Inr (201, b)"
  shows "same_tables d d'"
  using assms(1)
proof (cases rule: abind_cases)
  case (first e)
  then show ?thesis using posted_unchanged same_tables_refl by blast
next
  case (second input d1)
  have d1: "d1 = d" using posted_unchanged second(1) by blast
  from second(2) show ?thesis unfolding d1
  proof (cases rule: abind_cases)
    case (first e)
    then show ?thesis by (cases rule: atomicWrite_cases) (auto simp: same_tables_def)
  next
    case (second a d2)
    then have "\<not> new a" "d' = d2" using assms(3) [of "f a"] by (auto simp: ret_def created_def)
    moreover obtain who where "run input (context_for ck who) d = (Inr a, d2)"
      using second(1) by (cases rule: atomicWrite_cases) auto
    ultimately show ?thesis using assms(2) same_tables_refl by blast
  qed
qed

lemma write_route_answer:
  assumes "write_route rt ck rq path d = (r, d')" "\<And>b. r \<noteq> Inr (201, b)"
  shows "same_tables d d'"
proof -
  have quiet: "same_tables d d'" if "abind (posted rt rq) (\<lambda>input. read_only (g input)) d = (r, d')" for g
    using that by (cases rule: abind_cases)
      (auto simp: read_only_def query_def dest!: posted_unchanged intro: same_tables_refl)
  consider "take 2 path = [js ''debug'', js ''canonicalize'']" | "path = [js ''companies'']" | "path = [js ''modules'']"
    | "path = [js ''records'']"
    | "take 2 path \<noteq> [js ''debug'', js ''canonicalize'']" "path \<notin> {[js ''companies''], [js ''modules''], [js ''records'']}"
    by blast
  then show ?thesis
  proof cases
    case 1
    then show ?thesis using assms(1) by (auto simp: write_route_def Let_def intro: quiet)
  next
    case 2
    with assms show ?thesis
      by (simp add: write_route_def Let_def) (erule write_answer, erule (1) createCompany_replay, simp)
  next
    case 3
    with assms show ?thesis
      by (simp add: write_route_def Let_def) (erule write_answer, erule (1) createModule_replay, simp)
  next
    case 4
    with assms show ?thesis
      by (simp add: write_route_def Let_def) (erule write_answer, erule (1) writeRecord_ack, simp)
  next
    case 5
    then have "d' = d" using assms(1) by (auto simp: write_route_def Let_def fail_def)
    then show ?thesis by (simp add: same_tables_refl)
  qed
qed

lemma route_parts:
  assumes "route rt ck rq d = (r, d')"
  obtains (reads) "d' = d" "\<And>a. r \<noteq> Inr (201, a)"
    | (writes) path where "rq_method rq = POST" "write_route rt ck rq path d = (r, d')"
proof -
  have quiet: "d' = d \<and> (\<forall>a. r \<noteq> Inr (201, a))" if "read_route pl cx rq path d = (r, d')" for pl cx path
    using that by (auto simp: read_route_def read_only_def query_def store_def ok_def split: list.splits if_splits sum.splits)
      (simp_all add: map_sum_def ok_def split: sum.splits)
  show thesis
    using assms quiet reads writes unfolding route_def
    by (auto simp: query_def fail_def elim!: abind_cases split: if_splits)
qed

text \<open>C10. A request changes the tables only when it is answered with status 201: after every other answer, errors and
  acknowledged retries included, the store is as before, and at most some sequence numbers have been used up.\<close>

theorem only_created_changes_tables:
  assumes "handle rt ck rq d = ((status, a), d')" "status \<noteq> 201"
  shows "\<exists>n. d' = d\<lparr>db_next_seq := n\<rparr>"
proof (cases "rq_method rq = OPTIONS")
  case True
  then show ?thesis using assms same_tables_refl by (auto simp: handle_def same_tables_def)
next
  case False
  then obtain r where r: "route rt ck rq d = (r, d')" "\<And>b. r \<noteq> Inr (201, b)"
    using assms by (auto simp: handle_def split: prod.splits sum.splits)
  have "same_tables d d'"
    using r(1)
  proof (cases rule: route_parts)
    case reads
    then show ?thesis by (simp add: same_tables_refl)
  next
    case (writes path)
    then show ?thesis using r(2) write_route_answer by blast
  qed
  then show ?thesis by (simp add: same_tables_def)
qed

lemma only_created_changes_tables_witness:
  "fst (handle sample_runtime sample_clock (sample_request 2) empty_db) = (401, ErrorBody auth_invalid) \<and>
     (\<exists>n. snd (handle sample_runtime sample_clock (sample_request 2) empty_db) = empty_db\<lparr>db_next_seq := n\<rparr>)"
proof -
  let ?h = "handle sample_runtime sample_clock (sample_request 2) empty_db"
  have "bearerFrom (Some (js ''Bearer dtps_'')) = Some (js ''dtps_'')" by code_simp
  moreover have "take 5 (js ''dtps_'') = js ''dtps_''" by (simp add: js_def)
  ultimately have "resolvePrincipal sample_platform empty_db (Some (js ''Bearer dtps_'')) = Inl (Store auth_invalid)"
    by (simp add: resolvePrincipal_def empty_db_def)
  then have a: "fst ?h = (401, ErrorBody auth_invalid)"
    by (simp add: handle_def route_def abind_def query_def store_def sample_parts path_records error_response_def)
  have "?h = ((401, ErrorBody auth_invalid), snd ?h)" using a by (metis prod.collapse)
  from only_created_changes_tables [OF this] a show ?thesis by simp
qed

text \<open>C11. Nothing is lost: whatever a request does and however it ends, every record and every event stays at its place
  with its contents (only \<open>is_head\<close> may be cleared and an unset \<open>seq\<close> be set), companies, modules and keys stay, a
  key keeps its id, material, owner and token, and a revoked key stays revoked.\<close>

theorem store_is_append_only:
  "let d' = snd (handle rt ck rq d) in
     grows record_kept (db_records d) (db_records d') \<and> grows (=) (db_events d) (db_events d') \<and>
     grows key_kept (db_keys d) (db_keys d') \<and> grows company_kept (db_companies d) (db_companies d') \<and>
     grows module_kept (db_modules d) (db_modules d') \<and> db_next_seq d \<le> db_next_seq d'"
  using handle_evolves [of rt ck rq d "fst (handle rt ck rq d)" "snd (handle rt ck rq d)"] by (simp add: evolves_def Let_def)

subsection \<open>Who may write\<close>

lemma write_done:
  assumes "abind (posted rt rq) (\<lambda>input. abind (atomicWrite rt ck rq (run input)) (\<lambda>a. ret (created (new a) (f a)))) d =
      (Inr (st, b), d')"
  obtains input a who where "readJson rt rq = Inr input" "resolvePrincipal (rt_platform rt) d (rq_authorization rq) = Inr who"
    "run input (context_for ck who) d = (Inr a, d')" "st = (if new a then 201 else 200)" "b = f a"
proof -
  from assms obtain input a where i: "readJson rt rq = Inr input" and a: "atomicWrite rt ck rq (run input) d = (Inr a, d')"
      and b: "st = (if new a then 201 else 200)" "b = f a"
    by (auto simp: ok_iff posted_def created_def)
  from a show thesis
    by (cases rule: atomicWrite_cases) (use i b that in auto)
qed

lemma written_run:
  assumes "handle rt ck rq d = ((201, Written r), d')"
  obtains input who where "readJson rt rq = Inr input" "resolvePrincipal (rt_platform rt) d (rq_authorization rq) = Inr who"
    "writeRecord (rt_platform rt) (context_for ck who) input d = (Inr r, d')" "wr_created r"
proof -
  have "rq_method rq \<noteq> OPTIONS" using assms by (auto simp: handle_def)
  then have "route rt ck rq d = (Inr (201, Written r), d')"
    using assms by (auto simp: handle_def error_response_def split: prod.splits sum.splits failure.splits)
  then obtain path where w: "write_route rt ck rq path d = (Inr (201, Written r), d')"
    by (cases rule: route_parts) auto
  have no: "\<not> abind (posted rt rq) (\<lambda>input. read_only (map_sum id Canonical (g input))) d = (Inr (201, Written r), d')" for g
    by (auto simp: read_only_def store_def ok_def ok_iff)
  have path: "path = [js ''records'']"
  proof (rule ccontr)
    assume "path \<noteq> [js ''records'']"
    then show False
      using w no by (auto simp: write_route_def Let_def fail_def elim!: write_done split: if_splits)
  qed
  show thesis
    using w that by (auto simp: write_route_def Let_def path elim!: write_done split: if_splits)
qed

definition live_grant :: "platform \<Rightarrow> db \<Rightarrow> int \<Rightarrow> jstr \<Rightarrow> jstr \<Rightarrow> jstr \<Rightarrow> bool" where
  "live_grant pl d now grantee grantor type \<longleftrightarrow>
     (\<exists>g \<in> set (db_grants d). g_grantee g = grantee \<and> g_grantor g = grantor \<and> g_status g = js ''active'' \<and>
        grantCovers (pl_date_ms pl) g type (js ''write'') now)"

lemma hasGrant_live:
  "hasGrant (pl_date_ms pl) (grantsForModule d m) c type (js ''write'') now \<longleftrightarrow> live_grant pl d now m c type"
  by (auto simp: hasGrant_def grantsForModule_def live_grant_def)

text \<open>C12. Only the rightful writer: a record is created through \<open>POST /records\<close> only if the request's bearer token is that
  of an active key, the envelope is validly signed by this very key, the key's owner is the issuing company itself or
  a module with a live write grant from it for this type, and the issuing company is the subject or a counterparty
  of the record being superseded (of the record itself, for a genesis).\<close>

theorem created_record_is_authorized:
  assumes "handle rt ck rq d = ((201, Written r), d')"
  shows "\<exists>input v k token prev. readJson rt rq = Inr input \<and> validateSignedEnvelope (rt_platform rt) input = Inr v \<and>
     k \<in> set (db_keys d) \<and> kr_status k = js ''active'' \<and> kr_id k = e_issuer_key (v_env v) \<and>
     bearerFrom (rq_authorization rq) = Some token \<and> kr_token_hash k = Some (tokenHash (rt_platform rt) token) \<and>
     find_previous (rt_platform rt) (context_for ck (Some (key_principal k))) d (v_env v) = Inr prev \<and>
     e_issuer_company (v_env v) \<in>
       set (case prev of None \<Rightarrow> e_subject (v_env v) # e_counterparties (v_env v) | Some q \<Rightarrow> record_parties q) \<and>
     (case kr_owner_kind k of
        KCompany \<Rightarrow> kr_owner_id k = e_issuer_company (v_env v) \<and> e_issuer_module (v_env v) = None
      | KModule \<Rightarrow> e_issuer_module (v_env v) = Some (kr_owner_id k) \<and>
          live_grant (rt_platform rt) d (ck_now ck) (kr_owner_id k) (e_issuer_company (v_env v)) (e_type (v_env v)))"
proof -
  let ?pl = "rt_platform rt"
  obtain input who where run: "readJson rt rq = Inr input" "resolvePrincipal ?pl d (rq_authorization rq) = Inr who"
    "writeRecord ?pl (context_for ck who) input d = (Inr r, d')" "wr_created r"
    using assms by (rule written_run)
  from run(3) show ?thesis
  proof (cases rule: writeRecord_cases)
    case (append v prev p minted row)
    then have who: "who = Some p" by (simp add: context_for_def)
    obtain k token where k: "k \<in> set (db_keys d)" "kr_status k = js ''active''" "p = key_principal k"
        "bearerFrom (rq_authorization rq) = Some token" "kr_token_hash k = Some (tokenHash ?pl token)"
      using resolved_key_active [of ?pl d "rq_authorization rq" p] run(2) who by auto
    note auth = decide_append(2) [OF append(2)] and prev = decide_append(1) [OF append(2)]
    have p: "pr_key_id p = e_issuer_key (v_env v)" "check_key_owner p (v_env v) (v_info v) = Inr ()"
        "e_issuer_company (v_env v) \<in> set (case prev of None \<Rightarrow> e_subject (v_env v) # e_counterparties (v_env v) | Some q \<Rightarrow> record_parties q)"
        "pr_kind p = KModule \<longrightarrow> live_grant ?pl d (ck_now ck) (pr_id p) (e_issuer_company (v_env v)) (e_type (v_env v))"
      using auth by (auto simp: authorizeWrite_def append(3) context_for_def who Let_def ok_iff if_Inl_ok hasGrant_live split: option.splits if_splits)
    have "case kr_owner_kind k of
        KCompany \<Rightarrow> kr_owner_id k = e_issuer_company (v_env v) \<and> e_issuer_module (v_env v) = None
      | KModule \<Rightarrow> e_issuer_module (v_env v) = Some (kr_owner_id k) \<and>
          live_grant ?pl d (ck_now ck) (kr_owner_id k) (e_issuer_company (v_env v)) (e_type (v_env v))"
      using p(2,4) k(3) by (auto simp: check_key_owner_def key_principal_def split: principal_kind.splits if_splits)
    moreover have "kr_id k = e_issuer_key (v_env v)" using p(1) k(3) by (simp add: key_principal_def)
    ultimately show ?thesis using run(1) append(1) k p(3) prev who by blast
  qed (use run(4) in simp)
qed

lemma created_record_is_authorized_witness:
  "\<exists>r k. handle sample_runtime sample_clock (sample_request 2) sample_db1 = ((201, Written r), sample_db2) \<and>
     k \<in> set (db_keys sample_db1) \<and> kr_status k = js ''active'' \<and> kr_id k = sample_key"
proof -
  obtain r where r: "handle sample_runtime sample_clock (sample_request 2) sample_db1 = ((201, Written r), sample_db2)"
    using sample_request2 by blast
  obtain k where "k \<in> set (db_keys sample_db1)" "kr_status k = js ''active''"
    using created_record_is_authorized [OF r] by blast
  then show ?thesis using r by (auto simp: sample_db1_def sample_key_row_def)
qed

subsection \<open>Retries\<close>

lemma the_row_snoc: "the_row key k (rs @ [r]) = (case the_row key k rs of Some x \<Rightarrow> Some x | None \<Rightarrow> if key r = k then Some r else None)"
  by (induction rs) (auto simp: the_row_def)

lemma the_row_flip: "the_row rr_record_id i (map (flip p) rs) = map_option (flip p) (the_row rr_record_id i rs)"
  by (induction rs) (auto simp: the_row_def)

lemma appended_row:
  assumes "appends pl cx v prev st d d'"
  shows "fetchRecordRow d' (e_record_id (v_env v)) = Some (new_record pl cx v (db_next_seq d))"
proof -
  have "the_row rr_record_id (e_record_id (v_env v)) (db_records d) = None"
    using assms by (simp add: the_row_None appends_def)
  then show ?thesis using assms by (simp add: appends_def fetchRecordRow_def the_row_snoc the_row_flip)
qed

lemma appended_old_row:
  assumes "appends pl cx v prev st d d'" "fetchRecordRow d i = Some r"
  shows "fetchRecordRow d' i = Some (flip prev r)"
  using assms by (auto simp: appends_def fetchRecordRow_def the_row_snoc the_row_flip split: if_splits)

definition hooked :: "jstr \<Rightarrow> bool" where
  "hooked type \<longleftrightarrow> type = js ''core.company'' \<or> type = js ''core.module'' \<or> type = js ''core.grant''"

lemma append_keeps_grants:
  assumes "append_record pl cx v prev p d = (Inr minted, d')" "\<not> hooked (e_type (v_env v))"
  shows "db_grants d' = db_grants d" "minted = []"
proof -
  from assms(1) obtain d1 d2 d3 seq where 1: "insertRecord pl cx v (statusFromBody (v_info v) (e_body (v_env v))) d = (Inr (), d1)"
      "flip_head prev d1 = (Inr (), d2)" "insertEvent pl cx v (statusFromBody (v_info v) (e_body (v_env v))) d2 = (Inr seq, d3)"
      and 2: "runHooks pl cx v prev p d3 = (Inr minted, d')"
    by (auto simp: append_record_def Let_def ok_iff)
  have "d' = d3" "minted = []" using 2 assms(2) by (simp_all add: runHooks_def hooked_def ret_def Let_def)
  then show "db_grants d' = db_grants d" "minted = []"
    using insertRecord_effect(1) [OF 1(1)] flip_head_effect [OF 1(2)] insertEvent_effect(2) [OF 1(3)] by simp_all
qed

lemma find_previous_again:
  assumes "find_previous pl cx d env = Inr prev" "appends pl cx v p st d d'" "db_grants d' = db_grants d"
  shows "find_previous pl cx d' env = Inr (map_option (flip p) prev)"
proof (cases "supersedes_target env")
  case None
  then show ?thesis using assms(1) by (auto simp: find_previous_def split: option.splits if_splits)
next
  case (Some s)
  then obtain r where r: "fetchRecordRow d s = Some r" "can_read_row pl cx d r" "prev = Some r"
    using assms(1) by (auto simp: find_previous_def split: option.splits if_splits)
  have "grantsFor d' w = grantsFor d w" for w
    using assms(3) by (simp add: grantsFor_def grantsForModule_def split: option.splits)
  then have "can_read_row pl cx d' (flip p r)"
    using r(2) by (simp add: can_read_row_def record_visibility_def)
  then show ?thesis using appended_old_row [OF assms(2) r(1)] r(3) by (simp add: find_previous_def Some)
qed



end
