(* ===== verification/Provenance.thy ===== *)
theory Provenance
  imports Requests
begin

text \<open>
  Where the rows of a reachable store come from, and what that means for their readers: every record can be
  attributed and verified again, and the history of a chain obeys the rules of its type.
\<close>

subsection \<open>What a jsonb column keeps\<close>

fun path_value :: "jval \<Rightarrow> jstr list \<Rightarrow> jval" where
  "path_value v [] = v"
| "path_value v (k # ks) = path_value (field v k) ks"

text \<open>
  The documented behaviour of \<open>jsonb\<close>: a stored object reads back with the same value under every path, but
  for the order of members, the sign of a zero, and undefined members, which \<open>JSON.stringify\<close> drops.
\<close>

definition jsonb_faithful :: "platform \<Rightarrow> bool" where
  "jsonb_faithful pl \<longleftrightarrow> (\<forall>kvs ks. norm (path_value (JObj (pl_jsonb pl kvs)) ks) = norm (path_value (JObj kvs) ks))"

lemma norm_eq_JStr [simp]: "norm v = JStr s \<longleftrightarrow> v = JStr s"
  by (cases v rule: norm.cases) auto

lemma norm_eq_JNull: "norm v = JNull \<longleftrightarrow> nullish v"
  by (cases v rule: norm.cases) (auto simp: nullish_def)

lemma jsonb_member: "jsonb_faithful pl \<Longrightarrow> norm (member (pl_jsonb pl kvs) k) = norm (member kvs k)"
proof -
  assume "jsonb_faithful pl"
  then have "norm (path_value (JObj (pl_jsonb pl kvs)) [k]) = norm (path_value (JObj kvs) [k])"
    unfolding jsonb_faithful_def by blast
  then show ?thesis by simp
qed

lemma jsonb_field: "jsonb_faithful pl \<Longrightarrow> norm (field (member (pl_jsonb pl kvs) j) k) = norm (field (member kvs j) k)"
proof -
  assume "jsonb_faithful pl"
  then have "norm (path_value (JObj (pl_jsonb pl kvs)) [j, k]) = norm (path_value (JObj kvs) [j, k])"
    unfolding jsonb_faithful_def by blast
  then show ?thesis by simp
qed

lemma jsonb_text: "jsonb_faithful pl \<Longrightarrow> member (pl_jsonb pl kvs) k = JStr s \<longleftrightarrow> member kvs k = JStr s"
  using jsonb_member [of pl kvs k] by (metis norm_eq_JStr)

lemma jsonb_statusOf: "jsonb_faithful pl \<Longrightarrow> statusOf info (Some (pl_jsonb pl b)) = statusOf info (Some b)"
proof -
  assume "jsonb_faithful pl"
  then have "str_of (member (pl_jsonb pl b) f) = str_of (member b f)" for f
    using jsonb_text [of pl b f] by (metis not_None_eq str_of_eq_Some)
  then show ?thesis by (simp add: statusOf_def split: option.splits)
qed

lemma norm_signed_value:
  "norm (signed_value src f) =
     (if f = js ''counterparty_ids'' \<and> norm (member src f) = JNull then JArr [] else norm (member src f))"
  by (auto simp: signed_value_def Let_def norm_eq_JNull nullish_def)

lemma jsonb_signingInput:
  assumes "jsonb_faithful pl" "signingInput src = Inr b"
  shows "signingInput (pl_jsonb pl src) = Inr b"
proof -
  have "norm (signed_value (pl_jsonb pl src) f) = norm (signed_value src f)" for f
    unfolding norm_signed_value jsonb_member [OF assms(1)] ..
  then show ?thesis using signingInput_eq_iff [OF assms(2), of "pl_jsonb pl src"] by simp
qed

subsection \<open>Where a row comes from\<close>

definition came_from :: "platform \<Rightarrow> db \<Rightarrow> record_row \<Rightarrow> bool" where
  "came_from pl d r \<longleftrightarrow>
     (\<exists>cx input v n. validateSignedEnvelope pl input = Inr v \<and> r\<lparr>rr_is_head := True\<rparr> = new_record pl cx v n \<and>
        issuer_known d (rr_issuer_key r) (rr_issuer_company r) (rr_issuer_module r) \<and> grant_names_module v \<and>
        (\<forall>s. rr_supersedes r = Some s \<longrightarrow> (\<exists>q \<in> set (db_records d). rr_record_id q = s \<and> check_rules v (Some q) = Inr ())))"

definition provenance :: "platform \<Rightarrow> db \<Rightarrow> bool" where
  "provenance pl d \<longleftrightarrow> (\<forall>r \<in> set (db_records d). came_from pl d r)"

lemma check_rules_body: "rr_body q = rr_body q' \<Longrightarrow> check_rules v (Some q) = check_rules v (Some q')"
  by (simp add: check_rules_def)

lemma flip_forget: "(flip p r)\<lparr>rr_is_head := True\<rparr> = r\<lparr>rr_is_head := True\<rparr>"
  by (simp add: flip_def split: option.splits)

lemma came_from_later:
  assumes "came_from pl d r" "evolves d d'" "db_records d' = map (flip p) (db_records d) @ rest"
  shows "came_from pl d' (flip p r)"
proof -
  obtain cx input v n where v: "validateSignedEnvelope pl input = Inr v" "r\<lparr>rr_is_head := True\<rparr> = new_record pl cx v n"
    and known: "issuer_known d (rr_issuer_key r) (rr_issuer_company r) (rr_issuer_module r)" and named: "grant_names_module v"
    and prev: "\<And>s. rr_supersedes r = Some s \<Longrightarrow> \<exists>q \<in> set (db_records d). rr_record_id q = s \<and> check_rules v (Some q) = Inr ()"
    using assms(1) unfolding came_from_def by blast
  have "\<exists>q \<in> set (db_records d'). rr_record_id q = s \<and> check_rules v (Some q) = Inr ()" if "rr_supersedes r = Some s" for s
  proof -
    from prev [OF that] obtain q where "q \<in> set (db_records d)" "rr_record_id q = s" "check_rules v (Some q) = Inr ()"
      by blast
    then show ?thesis using check_rules_body [of "flip p q" q v] by (intro bexI [of _ "flip p q"]) (auto simp: assms(3))
  qed
  then show ?thesis
    using v named issuer_known_evolves [OF known assms(2)] unfolding came_from_def flip_forget flip_simps by blast
qed

lemma provenance_step:
  assumes "provenance pl d" "log_step pl d d'"
  shows "provenance pl d'"
proof -
  have ev: "evolves d d'" using assms(2) by (simp add: log_step_def)
  consider "db_records d' = db_records d" | "appends_known pl d d'" using assms(2) by (auto simp: log_step_def)
  then show ?thesis
  proof cases
    case 1
    have "came_from pl d' r" if "r \<in> set (db_records d')" for r
      using came_from_later [of pl d r d' None "[]"] assms(1) ev that 1 by (simp add: provenance_def flip_def)
    then show ?thesis by (simp add: provenance_def)
  next
    case 2
    then obtain cx input v prev where v: "validateSignedEnvelope pl input = Inr v" "follows d v prev"
        "appends pl cx v prev (statusFromBody (v_info v) (e_body (v_env v))) d d'"
        "issuer_known d' (e_issuer_key (v_env v)) (e_issuer_company (v_env v)) (e_issuer_module (v_env v))"
        "grant_names_module v"
      unfolding appends_known_def by blast
    define new where "new = new_record pl cx v (db_next_seq d)"
    have rs': "db_records d' = map (flip prev) (db_records d) @ [new]" using v(3) by (simp add: appends_def new_def)
    have "\<exists>q \<in> set (db_records d'). rr_record_id q = s \<and> check_rules v (Some q) = Inr ()" if s: "rr_supersedes new = Some s" for s
    proof -
      obtain q where "q \<in> set (db_records d)" "rr_record_id q = s" "check_rules v (Some q) = Inr ()"
        using v(2) s by (auto simp: follows_def new_def split: option.splits)
      then show ?thesis
        using check_rules_body [of "flip prev q" q v] by (intro bexI [of _ "flip prev q"]) (auto simp: rs')
    qed
    moreover have "new\<lparr>rr_is_head := True\<rparr> = new" by (simp add: new_def new_record_def record_row_of_def Let_def)
    ultimately have "came_from pl d' new"
      using v(1,4,5) unfolding came_from_def new_def by (simp only: new_record_simps) blast
    moreover have "came_from pl d' (flip prev r)" if "r \<in> set (db_records d)" for r
      using came_from_later [OF _ ev rs'] assms(1) that by (simp add: provenance_def)
    ultimately show ?thesis by (auto simp: provenance_def rs')
  qed
qed

interpretation origins: log_invariant rt "provenance (rt_platform rt)" for rt
  by unfold_locales (simp add: provenance_def empty_db_def, erule (1) provenance_step)

lemma record_origin:
  assumes "reachable rt d" "r \<in> set (db_records d)"
  obtains cx input v n where "validateSignedEnvelope (rt_platform rt) input = Inr v"
    "r\<lparr>rr_is_head := True\<rparr> = new_record (rt_platform rt) cx v n"
    "issuer_known d (rr_issuer_key r) (rr_issuer_company r) (rr_issuer_module r)" "grant_names_module v"
    "\<And>q. q \<in> set (db_records d) \<Longrightarrow> rr_supersedes r = Some (rr_record_id q) \<Longrightarrow> check_rules v (Some q) = Inr ()"
proof -
  have "came_from (rt_platform rt) d r" using origins.always [OF assms(1)] assms(2) by (simp add: provenance_def)
  then obtain cx input v n where v: "validateSignedEnvelope (rt_platform rt) input = Inr v"
      "r\<lparr>rr_is_head := True\<rparr> = new_record (rt_platform rt) cx v n"
      "issuer_known d (rr_issuer_key r) (rr_issuer_company r) (rr_issuer_module r)" "grant_names_module v"
    and prev: "\<And>s. rr_supersedes r = Some s \<Longrightarrow> \<exists>q \<in> set (db_records d). rr_record_id q = s \<and> check_rules v (Some q) = Inr ()"
    unfolding came_from_def by blast
  have "unique_ids d" using chains.always [OF assms(1)] by (simp add: chain_ok_def)
  then have "check_rules v (Some q) = Inr ()" if "q \<in> set (db_records d)" "rr_supersedes r = Some (rr_record_id q)" for q
    using prev [OF that(2)] that(1) unique_row by metis
  with v that show ?thesis by blast
qed

lemma row_columns:
  assumes "r\<lparr>rr_is_head := True\<rparr> = new_record pl cx v n"
  shows "rr_type r = e_type (v_env v)" "rr_namespace r = e_namespace (v_env v)" "rr_body r = pl_jsonb pl (e_body (v_env v))"
    "rr_envelope r = pl_jsonb pl (e_source (v_env v))" "rr_payload_hash r = v_hash v"
    "rr_issuer_company r = e_issuer_company (v_env v)" "rr_subject r = e_subject (v_env v)"
    "rr_counterparties r = e_counterparties (v_env v)"
    "rr_status r = statusOf (v_info v) (Some (e_body (v_env v)))"
  using arg_cong [OF assms, of rr_type] arg_cong [OF assms, of rr_namespace] arg_cong [OF assms, of rr_body] arg_cong [OF assms, of rr_envelope]
    arg_cong [OF assms, of rr_payload_hash] arg_cong [OF assms, of rr_issuer_company] arg_cong [OF assms, of rr_subject]
    arg_cong [OF assms, of rr_counterparties] arg_cong [OF assms, of rr_status]
  by (simp_all add: statusFromBody_eq)

lemma sample_faithful: "jsonb_faithful (rt_platform sample_runtime)"
  by (simp add: jsonb_faithful_def sample_runtime_def sample_platform_def)

subsection \<open>Records can be verified again\<close>

text \<open>C17. The store is not to be trusted, it can be checked: the envelope column of every stored record, read back from
  jsonb, still passes signature verification, and its payload hash is the one in the hash column.\<close>

theorem stored_records_verify:
  assumes "reachable rt d" "r \<in> set (db_records d)" "jsonb_faithful (rt_platform rt)"
  shows "\<exists>w. verifyRecord (pl_verify (rt_platform rt)) (pl_sha256Hex (rt_platform rt)) (rr_envelope r) = Inr w \<and>
     vr_ok w \<and> vr_payload_hash w = rr_payload_hash r"
proof -
  let ?pl = "rt_platform rt"
  obtain cx input v n where v: "validateSignedEnvelope ?pl input = Inr v" "r\<lparr>rr_is_head := True\<rparr> = new_record ?pl cx v n"
    using record_origin [OF assms(1,2)] by metis
  note cols = row_columns [OF v(2)]
  obtain src where src: "read_envelope src = Some (v_env v)" "check_signature ?pl src = Inr (v_hash v)"
    using validated_facts [OF v(1)] by blast
  note env = read_envelope_source [OF src(1)]
  obtain w where w: "verifyRecord (pl_verify ?pl) (pl_sha256Hex ?pl) src = Inr w" "vr_ok w" "vr_payload_hash w = v_hash v"
    using src(2) by (auto simp: check_signature_def ok_iff split: if_splits)
  obtain b k s raw where b: "signingInput src = Inr b" "field (member src (js ''issuer'')) (js ''key_id'') = JStr k"
      "member src (js ''signature'') = JStr s" "decodeSignature s = Inr raw" "verifyBytes (pl_verify ?pl) k b raw = Inr True"
    using verifyRecord_ok_iff [OF w(1)] w(2) by blast
  let ?row = "pl_jsonb ?pl src"
  have row: "signingInput ?row = Inr b" "field (member ?row (js ''issuer'')) (js ''key_id'') = JStr k"
      "member ?row (js ''signature'') = JStr s"
    using jsonb_signingInput [OF assms(3) b(1)] jsonb_field [OF assms(3), of src "js ''issuer''" "js ''key_id''"]
      jsonb_text [OF assms(3), of src "js ''signature''" s] b(2,3)
    by simp_all
  have hash: "vr_payload_hash w' = pl_sha256Hex ?pl b"
    if "verifyRecord (pl_verify ?pl) (pl_sha256Hex ?pl) env' = Inr w'" "signingInput env' = Inr b" for env' w'
    using that by (auto simp: verifyRecord_def Let_def split: sum.splits)
  obtain w' where w': "verifyRecord (pl_verify ?pl) (pl_sha256Hex ?pl) ?row = Inr w'"
    using row(1) by (auto simp: verifyRecord_def Let_def split: sum.splits)
  then have "vr_ok w'" using verifyRecord_ok_iff [OF w'] row b(4,5) by blast
  then show ?thesis
    using w' hash [OF w' row(1)] hash [OF w(1) b(1)] w(3) cols(4,5) env by auto
qed

lemma stored_records_verify_witness:
  "\<exists>w. verifyRecord (pl_verify sample_platform) (pl_sha256Hex sample_platform) (rr_envelope (sample_record 3)) = Inr w \<and> vr_ok w"
  using stored_records_verify [OF sample_reachable(3) _ sample_faithful, of "sample_record 3"]
  by (auto simp: sample_db3_def sample_runtime_def)

text \<open>Every record can be attributed: its issuing company is registered, and its issuing key is on file, bound to that
  company or to the registered module that signed for it.\<close>

theorem records_are_attributable:
  assumes "reachable rt d" "r \<in> set (db_records d)"
  shows "issuer_known d (rr_issuer_key r) (rr_issuer_company r) (rr_issuer_module r)"
  using record_origin [OF assms] by metis

lemma records_are_attributable_witness: "issuer_known sample_db3 sample_key (js ''acme'') None"
proof -
  have "rr_issuer_company (sample_record 3) = js ''acme''" "rr_issuer_module (sample_record 3) = None"
      "rr_issuer_key (sample_record 3) = sample_key"
    by (simp_all add: sample_record_def record_row_of_def sample_validated_def sample_envelope_def sample_listing_def Let_def)
  then show ?thesis
    using records_are_attributable [OF sample_reachable(3), of "sample_record 3"] by (simp add: sample_db3_def)
qed

subsection \<open>The history of a chain\<close>

lemma superseding_rules:
  assumes "reachable rt d" "q \<in> set (db_records d)" "r \<in> set (db_records d)" "rr_supersedes r = Some (rr_record_id q)"
    and "typeInfo (rr_type r) = Inr (Some info)" "jsonb_faithful (rt_platform rt)"
  shows "\<exists>body party. checkRoleContinuity info (Some (rr_body q)) body party = Inr () \<and>
     checkTransition info (Some (rr_body q)) body (rolesOf info (rr_body q) party) = Inr () \<and>
     party = \<lparr>p_issuer = rr_issuer_company r, p_subject = rr_subject r, p_counterparties = rr_counterparties r\<rparr> \<and>
     rr_status r = statusOf info (Some body) \<and> rr_body r = pl_jsonb (rt_platform rt) body"
proof -
  obtain cx input v n where v: "validateSignedEnvelope (rt_platform rt) input = Inr v"
      "r\<lparr>rr_is_head := True\<rparr> = new_record (rt_platform rt) cx v n" "check_rules v (Some q) = Inr ()"
    using record_origin [OF assms(1,3)] assms(2,4) by metis
  note cols = row_columns [OF v(2)]
  have info: "v_info v = info" using validated_facts [OF v(1)] assms(5) cols(1) by auto
  from v(3) show ?thesis
    by (intro exI [of _ "e_body (v_env v)"] exI [of _ "party_of (v_env v)"])
      (auto simp: check_rules_def Let_def ok_iff info cols party_of_def)
qed

lemma statusOf_stored:
  assumes "reachable rt d" "r \<in> set (db_records d)" "typeInfo (rr_type r) = Inr (Some info)" "jsonb_faithful (rt_platform rt)"
  shows "rr_status r = statusOf info (Some (rr_body r))"
proof -
  obtain cx input v n where v: "validateSignedEnvelope (rt_platform rt) input = Inr v"
      "r\<lparr>rr_is_head := True\<rparr> = new_record (rt_platform rt) cx v n"
    using record_origin [OF assms(1,2)] by metis
  note cols = row_columns [OF v(2)]
  have "v_info v = info" using validated_facts [OF v(1)] assms(3) cols(1) by auto
  then show ?thesis using cols(3,9) jsonb_statusOf [OF assms(4)] by simp
qed

lemma continues_type:
  assumes "reachable rt d" "q \<in> set (db_records d)" "r \<in> set (db_records d)" "rr_supersedes r = Some (rr_record_id q)"
  shows "continues q r"
proof -
  have ok: "chain_ok d" using chains.always [OF assms(1)] .
  obtain i where i: "i < length (db_records d)" "r = db_records d ! i" using assms(3) by (auto simp: in_set_conv_nth)
  then have "linked (take i (db_records d)) r" using ok by (simp add: chain_ok_def chains_linked_def)
  then obtain q' where "q' \<in> set (take i (db_records d))" "rr_record_id q' = rr_record_id q" "continues q' r"
    using assms(4) by (auto simp: linked_def)
  then show ?thesis using ok assms(2) unique_row in_set_takeD unfolding chain_ok_def by metis
qed

text \<open>C19. The status column tells the story of the state machine: whenever a record supersedes another and the status
  differs, the type declares that transition and the issuer of the new record holds, by the old one, a role that may
  make it.\<close>

theorem status_history:
  assumes "reachable rt d" "q \<in> set (db_records d)" "r \<in> set (db_records d)" "rr_supersedes r = Some (rr_record_id q)"
    and "typeInfo (rr_type r) = Inr (Some info)" "ti_transitions info = Some t" "has_text (t_status_field t)"
    and "rr_status q \<noteq> rr_status r" "jsonb_faithful (rt_platform rt)"
  shows "\<exists>tr \<in> set (t_transitions t). Some (tr_from tr) = rr_status q \<and> Some (tr_to tr) = rr_status r \<and>
     allowed (rolesOf info (rr_body q) \<lparr>p_issuer = rr_issuer_company r, p_subject = rr_subject r,
       p_counterparties = rr_counterparties r\<rparr>) (tr_by tr)"
proof -
  obtain body party where body: "checkTransition info (Some (rr_body q)) body (rolesOf info (rr_body q) party) = Inr ()"
      "party = \<lparr>p_issuer = rr_issuer_company r, p_subject = rr_subject r, p_counterparties = rr_counterparties r\<rparr>"
      "rr_status r = statusOf info (Some body)"
    using superseding_rules [OF assms(1-5,9)] by blast
  have "rr_type q = rr_type r" using continues_type [OF assms(1-4)] by (simp add: continues_def)
  then have "rr_status q = statusOf info (Some (rr_body q))" using statusOf_stored [OF assms(1,2) _ assms(9)] assms(5) by simp
  then show ?thesis
    using check_machine_moves [OF _ assms(6,7), of "rr_body q" body] body assms(8) unfolding checkTransition_supersede by metis
qed

lemma listing_type: "typeInfo (js ''trade.listing'') = Inr (Some (sample_info 2))"
  using validated_facts [OF sample_validates_to [of 2]] by (auto simp: sample_validated_def)

lemma status_history_witness:
  "\<exists>tr \<in> set (t_transitions (the (xs_transitions x_listing))). tr_from tr = js ''draft'' \<and> tr_to tr = js ''active''"
proof -
  let ?q = "(sample_record 2)\<lparr>rr_is_head := False\<rparr>"
  have "?q \<in> set (db_records sample_db3)" "sample_record 3 \<in> set (db_records sample_db3)"
      "rr_supersedes (sample_record 3) = Some (rr_record_id ?q)" "rr_type (sample_record 3) = js ''trade.listing''"
      "rr_status ?q = Some (js ''draft'')" "rr_status (sample_record 3) = Some (js ''active'')"
    by (simp_all add: sample_db3_def sample_record_row)
  moreover have "ti_transitions (sample_info 2) = Some (the (xs_transitions x_listing))"
      "has_text (t_status_field (the (xs_transitions x_listing)))"
    by (simp_all add: listing_info x_listing_def)
  ultimately show ?thesis
    using status_history [OF sample_reachable(3), of ?q "sample_record 3", OF _ _ _ _ _ _ _ sample_faithful] listing_type by auto
qed

text \<open>A party of a record: the company in a role field, when it is one.\<close>

definition party_in :: "record_row \<Rightarrow> jstr \<Rightarrow> jstr option" where
  "party_in r f = str_of (member (rr_body r) f)"

lemma strict_eq_str: "strict_eq v w \<Longrightarrow> str_of v = str_of w"
  by (cases "(v, w)" rule: strict_eq.cases) auto

lemma str_of_member0: "str_of (member0 b f) = str_of (member b f)"
  by (cases "member b f") (auto simp: member0_def or_null_def)

lemma party_kept:
  assumes "reachable rt d" "q \<in> set (db_records d)" "r \<in> set (db_records d)" "rr_supersedes r = Some (rr_record_id q)"
    and "typeInfo (rr_type r) = Inr (Some info)" "jsonb_faithful (rt_platform rt)"
    and "(role, f) \<in> set (ti_roles info)" "role \<notin> set (xs_third_party_roles (ti_schema info))"
  shows "party_in r f = party_in q f"
proof -
  obtain body party where body: "checkRoleContinuity info (Some (rr_body q)) body party = Inr ()"
      "rr_body r = pl_jsonb (rt_platform rt) body"
    using superseding_rules [OF assms(1-6)] by blast
  have "strict_eq (member0 (rr_body q) f) (member0 body f)"
    using body(1) assms(7,8) unfolding checkRoleContinuity_def role_continuity_ok by fastforce
  then have "str_of (member (rr_body q) f) = str_of (member body f)"
    by (auto simp: str_of_member0 dest: strict_eq_str)
  moreover have "str_of (member (rr_body r) f) = str_of (member body f)"
    unfolding body(2) using jsonb_text [OF assms(6), of body f] by (metis not_None_eq str_of_eq_Some)
  ultimately show ?thesis by (simp add: party_in_def)
qed

text \<open>C20. The parties of a trade cannot be exchanged: for every role that its type gives to a trading party, all records
  of a chain name the same company.\<close>

theorem chain_parties_fixed:
  assumes "reachable rt d" "q \<in> set (db_records d)" "r \<in> set (db_records d)" "rr_root_id q = rr_root_id r"
    and "typeInfo (rr_type r) = Inr (Some info)" "jsonb_faithful (rt_platform rt)"
    and "(role, f) \<in> set (ti_roles info)" "role \<notin> set (xs_third_party_roles (ti_schema info))"
  shows "party_in q f = party_in r f"
proof -
  have ok: "chain_ok d" using chains.always [OF assms(1)] .
  let ?rs = "db_records d"
  have root: "\<exists>z \<in> set ?rs. rr_record_id z = rr_root_id (?rs ! i) \<and> rr_type z = rr_type (?rs ! i) \<and>
      (typeInfo (rr_type (?rs ! i)) = Inr (Some info) \<longrightarrow> party_in (?rs ! i) f = party_in z f)" if "i < length ?rs" for i
    using that
  proof (induction i rule: less_induct)
    case (less i)
    have linked: "linked (take i ?rs) (?rs ! i)" using ok less.prems by (simp add: chain_ok_def chains_linked_def)
    show ?case
    proof (cases "rr_supersedes (?rs ! i)")
      case None
      then show ?thesis using linked less.prems by (intro bexI [of _ "?rs ! i"]) (simp_all add: linked_def)
    next
      case (Some s)
      then obtain p where p: "p \<in> set (take i ?rs)" "rr_record_id p = s" "continues p (?rs ! i)"
        using linked by (auto simp: linked_def)
      then obtain j where j: "j < i" "p = ?rs ! j" using less.prems by (auto simp: in_set_conv_nth)
      then have jl: "j < length ?rs" using less.prems by simp
      have "party_in (?rs ! i) f = party_in p f" if "typeInfo (rr_type (?rs ! i)) = Inr (Some info)"
        by (rule party_kept [OF assms(1) _ _ _ that assms(6-8)]) (use j jl less.prems p Some in auto)
      then show ?thesis using less.IH [OF j(1) jl] p(3) j(2) by (auto simp: continues_def)
    qed
  qed
  obtain i j where "i < length ?rs" "?rs ! i = q" "j < length ?rs" "?rs ! j = r"
    using assms(2,3) by (auto simp: in_set_conv_nth)
  with root [of i] root [of j] obtain y z where yz: "y \<in> set ?rs" "z \<in> set ?rs" "rr_record_id y = rr_record_id z"
      "rr_type y = rr_type q" "rr_type z = rr_type r"
      "typeInfo (rr_type q) = Inr (Some info) \<longrightarrow> party_in q f = party_in y f"
      "typeInfo (rr_type r) = Inr (Some info) \<longrightarrow> party_in r f = party_in z f"
    using assms(4) by auto
  then have "y = z" using ok unique_row unfolding chain_ok_def by blast
  then show ?thesis using yz assms(5) by simp
qed

lemma chain_parties_fixed_witness:
  "party_in ((sample_record 2)\<lparr>rr_is_head := False\<rparr>) (js ''seller_company_id'') = party_in (sample_record 3) (js ''seller_company_id'')"
proof (rule chain_parties_fixed [OF sample_reachable(3), where role = "js ''seller''"])
  show "typeInfo (rr_type (sample_record 3)) = Inr (Some (sample_info 2))"
    using listing_type by (simp add: sample_record_row)
qed (simp_all add: sample_faithful sample_db3_def sample_record_row listing_info x_listing_def)

end
