(* ===== verification/Reads.thy ===== *)
theory Reads
  imports Provenance
begin

text \<open>
  What readers can rely on.  The condition that the database applies before the limit is exactly what
  \<open>canRead\<close> allows, so a page of records or events is never short and never skips a visible row, and a
  poller that follows the cursors of the event feed receives every event it may see, once and in order.
\<close>

subsection \<open>Rows of a reachable store\<close>

lemma stored_wf:
  assumes "reachable rt d" "jsonb_faithful (rt_platform rt)" "r \<in> set (db_records d)"
  shows "wf_row (record_visibility r)"
proof -
  obtain cx input v n where v: "validateSignedEnvelope (rt_platform rt) input = Inr v"
      "r\<lparr>rr_is_head := True\<rparr> = new_record (rt_platform rt) cx v n" "grant_names_module v"
    using record_origin [OF assms(1,3)] by metis
  note cols = row_columns [OF v(2)]
  have "e_namespace (v_env v) = namespaceOf (e_type (v_env v))"
    using validated_facts [OF v(1)] by (auto simp: well_formed_envelope_def)
  moreover have "\<exists>m. member (rr_body r) (js ''module_id'') = JStr m" if "rr_type r = js ''core.grant''"
    using v(3) that jsonb_text [OF assms(2)] by (auto simp: cols grant_names_module_def)
  ultimately show ?thesis by (auto simp: wf_row_def record_visibility_def cols(1,2))
qed

lemma events_in_order:
  assumes "reachable rt d"
  shows "list_all2 event_matches (db_records d) (db_events d)" "sorted_wrt (<) (map ev_seq (db_events d))"
    "\<forall>e \<in> set (db_events d). 1 \<le> ev_seq e \<and> ev_seq e < db_next_seq d"
  using event_log.always [OF assms] by (simp_all add: events_ok_def)

lemma record_seqs:
  assumes "reachable rt d"
  shows "map rr_seq (db_records d) = map (Some \<circ> ev_seq) (db_events d)"
proof -
  have "list_all2 event_matches rs es \<Longrightarrow> map rr_seq rs = map (Some \<circ> ev_seq) es" for rs es
    by (induction rule: list_all2_induct) (simp_all add: event_matches_def)
  then show ?thesis using events_in_order(1) [OF assms] .
qed

lemma filter_the_row: "distinct (map f xs) \<Longrightarrow> x \<in> set xs \<Longrightarrow> filter (\<lambda>y. f y = f x) xs = [x]"
proof (induction xs)
  case (Cons a xs)
  show ?case
  proof (cases "a = x")
    case True
    then have "\<forall>y \<in> set xs. f y \<noteq> f x" using Cons.prems(1) by (metis distinct.simps(2) imageI list.set_map list.simps(9))
    then show ?thesis using True by (simp add: filter_empty_conv)
  next
    case False
    then have x: "x \<in> set xs" "f a \<noteq> f x" using Cons.prems by auto
    then show ?thesis using Cons.IH Cons.prems(1) by simp
  qed
qed simp

text \<open>The join of events and records pairs each event with its record.\<close>

lemma joined_pairs:
  assumes "reachable rt d"
  shows "joined_events d = zip (db_events d) (db_records d)"
proof -
  have unique: "distinct (map rr_record_id (db_records d))"
    using chains.always [OF assms] by (simp add: chain_ok_def unique_ids_def)
  have "list_all2 event_matches rs es \<Longrightarrow> set rs \<subseteq> set (db_records d) \<Longrightarrow>
      concat (map (\<lambda>e. map (Pair e) (filter (\<lambda>r. rr_record_id r = ev_record_id e) (db_records d))) es) = zip es rs" for rs es
  proof (induction rule: list_all2_induct)
    case (Cons r rs e es)
    moreover have "ev_record_id e = rr_record_id r" using Cons.hyps by (simp add: event_matches_def)
    ultimately show ?case using filter_the_row [OF unique, of r] by simp
  qed simp
  then show ?thesis using events_in_order(1) [OF assms] unfolding joined_events_def by blast
qed

lemma joined_matches:
  assumes "reachable rt d" "(e, r) \<in> set (joined_events d)"
  shows "event_matches r e" "r \<in> set (db_records d)" "e \<in> set (db_events d)"
proof -
  have zip: "(e, r) \<in> set (zip (db_events d) (db_records d))" using assms(2) by (simp add: joined_pairs [OF assms(1)])
  then show "r \<in> set (db_records d)" "e \<in> set (db_events d)" by (auto dest: set_zip_leftD set_zip_rightD)
  have "list_all2 event_matches rs es \<Longrightarrow> (e, r) \<in> set (zip es rs) \<Longrightarrow> event_matches r e" for rs es
    by (induction rule: list_all2_induct) auto
  then show "event_matches r e" using events_in_order(1) [OF assms(1)] zip by blast
qed

lemma event_visibility_record: "event_matches r e \<Longrightarrow> event_visibility (e, r) = record_visibility r"
  by (simp add: event_matches_def event_visibility_def record_visibility_def)

lemma joined_sorted:
  assumes "reachable rt d"
  shows "sorted_wrt (<) (map (\<lambda>er. ev_seq (fst er)) (joined_events d))"
proof -
  have "length (db_events d) = length (db_records d)"
    using events_in_order(1) [OF assms] by (simp add: list_all2_lengthD)
  then have "map fst (joined_events d) = db_events d" by (simp add: joined_pairs [OF assms])
  moreover have "map (\<lambda>er. ev_seq (fst er)) (joined_events d) = map ev_seq (map fst (joined_events d))" by simp
  ultimately have "map (\<lambda>er. ev_seq (fst er)) (joined_events d) = map ev_seq (db_events d)" by (simp only:)
  then show ?thesis using events_in_order(2) [OF assms] by simp
qed

subsection \<open>Selections are exact\<close>

lemma prefilter_row_exact:
  assumes "wf_row x"
  shows "prefilter_row pl cx d pre post x \<longleftrightarrow>
     canRead (pl_date_ms pl) x (cx_principal cx) (grantsFor d (cx_principal cx)) (cx_now cx)"
proof -
  obtain c ps where c: "readPrefilter (pl_date_ms pl) (cx_principal cx) (grantsFor d (cx_principal cx)) (length pre + 1) (cx_now cx) = (c, ps)"
    by fastforce
  have "holds (pl_pg_text pl) x (pre @ ps @ post) c = Some True \<longleftrightarrow>
      canRead (pl_date_ms pl) x (cx_principal cx) (grantsFor d (cx_principal cx)) (cx_now cx)"
    by (rule prefilter_holds [OF assms _ c]) simp
  then show ?thesis by (simp only: prefilter_row_def c Let_def case_prod_conv)
qed

text \<open>The rows that a query asks for and its caller may read, in the order of the log.\<close>

definition visible_records :: "platform \<Rightarrow> ctx \<Rightarrow> db \<Rightarrow> list_query \<Rightarrow> record_row list" where
  "visible_records pl cx d q = filter (\<lambda>r. list_filter q r \<and> can_read_row pl cx d r) (db_records d)"

definition visible_events :: "platform \<Rightarrow> ctx \<Rightarrow> db \<Rightarrow> jstr option \<Rightarrow> int \<Rightarrow> joined_event list" where
  "visible_events pl cx d company after =
     filter (\<lambda>er. after < ev_seq (fst er) \<and> company_filter company er \<and> can_read_event pl cx d er) (joined_events d)"

interpretation stored_rows: exact_selection "\<lambda>r. wf_row (record_visibility r)"
  "\<lambda>r. list_filter q r \<and> can_read_row pl cx d r"
  "\<lambda>r. list_filter q r \<and> prefilter_row pl cx d (list_params q) [] (record_visibility r)" for pl cx d q
  by unfold_locales (simp add: prefilter_row_exact can_read_row_def)

lemma filter_after_take:
  assumes "\<And>x. x \<in> set xs \<Longrightarrow> Q x"
  shows "take n (filter Q (take (n + 1) xs)) = take n xs"
proof -
  have "filter Q (take (n + 1) xs) = take (n + 1) xs" using assms by (intro filter_True ballI) (blast dest: in_set_takeD)
  then show ?thesis by simp
qed

lemma page_limit_pos: "0 < page_limit usual l"
  by (simp add: page_limit_def)

lemma sorted_filter_key: "sorted_wrt (<) (map f xs) \<Longrightarrow> sorted (map f (filter Q xs))" for f :: "'a \<Rightarrow> int"
  by (rule sorted_filter) (rule strict_sorted_imp_sorted)

lemma by_seq_reachable:
  assumes "reachable rt d"
  shows "by_seq (filter Q (db_records d)) = filter Q (db_records d)"
proof -
  let ?rs = "filter Q (db_records d)"
  have seqs: "map rr_seq (db_records d) = map Some (map ev_seq (db_events d))" using record_seqs [OF assms] by simp
  have some: "rr_seq r \<noteq> None" if "r \<in> set ?rs" for r
  proof -
    have "rr_seq r \<in> set (map rr_seq (db_records d))" using that by simp
    then show ?thesis unfolding seqs by auto
  qed
  have "filter (\<lambda>r. rr_seq r \<noteq> None) ?rs = ?rs" by (rule filter_True) (use some in blast)
  moreover have "filter (\<lambda>r. rr_seq r = None) ?rs = []" by (rule filter_False) (use some in blast)
  moreover have "map (\<lambda>r. the (rr_seq r)) (db_records d) = map the (map rr_seq (db_records d))" by simp
  then have "map (\<lambda>r. the (rr_seq r)) (db_records d) = map ev_seq (db_events d)" unfolding seqs by simp
  then have "sorted_wrt (<) (map (\<lambda>r. the (rr_seq r)) (db_records d))" using events_in_order(2) [OF assms] by simp
  then have "sorted (map (\<lambda>r. the (rr_seq r)) ?rs)" by (rule sorted_filter_key)
  ultimately show ?thesis by (simp add: by_seq_def sort_key_id_if_sorted)
qed

text \<open>C21. A page of records is complete: on a reachable store, \<open>listRecords\<close> returns exactly the first records, in the order
  they were appended, that match the query and that the caller may read, as many as the limit allows, and a cursor
  exactly when there are more.\<close>

theorem record_pages_complete:
  assumes "reachable rt d" "jsonb_faithful (rt_platform rt)"
    and "case lq_root_id q of None \<Rightarrow> True | Some i \<Rightarrow> isUuid i"
  shows "listRecords (rt_platform rt) cx d q =
     (let rows = visible_records (rt_platform rt) cx d q; page = take (page_limit 50 (lq_limit q)) rows in
      (map (rowToRecord d) page,
       if page_limit 50 (lq_limit q) < length rows then Some (seq_text (rr_seq (last page))) else None))"
proof -
  let ?pl = "rt_platform rt" and ?n = "page_limit 50 (lq_limit q)"
  let ?rows = "visible_records ?pl cx d q"
  have wf: "\<forall>r \<in> set (db_records d). wf_row (record_visibility r)" using stored_wf [OF assms(1,2)] by blast
  have selected: "filter (\<lambda>r. list_filter q r \<and> prefilter_row ?pl cx d (list_params q) [] (record_visibility r)) (db_records d) = ?rows"
    unfolding visible_records_def by (rule stored_rows.filter_selected [OF wf])
  have sorted: "by_seq ?rows = ?rows" unfolding visible_records_def by (rule by_seq_reachable [OF assms(1)])
  have page: "take ?n (filter (can_read_row ?pl cx d) (take (?n + 1) ?rows)) = take ?n ?rows"
    by (rule filter_after_take) (simp add: visible_records_def)
  have "\<not> (case lq_root_id q of None \<Rightarrow> False | Some i \<Rightarrow> \<not> isUuid i)" using assms(3) by (simp split: option.splits)
  moreover have "?n < length (take (?n + 1) ?rows) \<and> take ?n ?rows \<noteq> [] \<longleftrightarrow> ?n < length ?rows"
    using page_limit_pos [of 50 "lq_limit q"] by auto
  ultimately show ?thesis unfolding listRecords_def Let_def selected sorted page by simp
qed

lemma record_pages_complete_witness:
  "fst (listRecords sample_platform (sample_ctx 1) sample_db3 \<lparr>lq_subject = None, lq_type = Some (js ''trade.listing''),
     lq_namespace = None, lq_counterparty = None, lq_root_id = None, lq_include_superseded = True, lq_after = None,
     lq_limit = Some 1\<rparr>) = [rowToRecord sample_db3 ((sample_record 2)\<lparr>rr_is_head := False\<rparr>)]"
proof -
  let ?q = "\<lparr>lq_subject = None, lq_type = Some (js ''trade.listing''), lq_namespace = None, lq_counterparty = None,
     lq_root_id = None, lq_include_superseded = True, lq_after = None, lq_limit = Some 1\<rparr>"
  have readable: "can_read_row sample_platform (sample_ctx 1) d r" if "rr_visibility r = js ''public''" for r d
    using that by (simp add: can_read_row_def record_visibility_def canRead_def)
  have "visible_records sample_platform (sample_ctx 1) sample_db3 ?q = [(sample_record 2)\<lparr>rr_is_head := False\<rparr>, sample_record 3]"
    by (simp add: visible_records_def sample_db3_def list_filter_def matches_text_def sample_record_row readable del: One_nat_def)
  then show ?thesis
    using record_pages_complete [OF sample_reachable(3) sample_faithful, of ?q "sample_ctx 1"]
    by (simp add: sample_runtime_def page_limit_def Let_def)
qed

text \<open>A page of the event feed is complete: on a reachable store, \<open>listEvents\<close> returns exactly the first events after the
  given cursor that the caller may read, in sequence order, as many as the limit allows, and the cursor of the last
  one exactly when there are more.\<close>

theorem event_pages_complete:
  assumes "reachable rt d" "jsonb_faithful (rt_platform rt)" "cx_principal cx \<noteq> None" "read_after (eq_after q) = Inr after"
  shows "\<exists>page. listEvents (rt_platform rt) cx d q = Inr page \<and>
     (let rows = visible_events (rt_platform rt) cx d (eq_company q) after; n = page_limit 100 (eq_limit q) in
      ep_events page = map view_of (take n rows) \<and>
      ep_next_cursor page = (if n < length rows then Some (cursor (ev_seq (fst (rows ! (n - 1))))) else None))"
proof -
  let ?pl = "rt_platform rt" and ?n = "page_limit 100 (eq_limit q)" and ?seq = "\<lambda>er :: joined_event. ev_seq (fst er)"
  let ?rows = "visible_events ?pl cx d (eq_company q) after"
  have readable: "can_read_event ?pl cx d er \<longleftrightarrow> prefilter_row ?pl cx d ps [] (event_visibility er)"
    if "er \<in> set (joined_events d)" for er ps
  proof -
    obtain e r where er: "er = (e, r)" by fastforce
    have "event_visibility er = record_visibility r" "wf_row (record_visibility r)"
      using joined_matches [OF assms(1)] that stored_wf [OF assms(1,2)] by (auto simp: er event_visibility_record)
    then show ?thesis by (simp add: can_read_event_def prefilter_row_exact)
  qed
  have selected: "filter (\<lambda>er. after < ?seq er \<and> company_filter (eq_company q) er \<and>
      prefilter_row ?pl cx d (event_params after (eq_company q)) [] (event_visibility er)) (joined_events d) = ?rows"
    unfolding visible_events_def by (rule filter_cong [OF refl]) (use readable in blast)
  have "sorted (map ?seq ?rows)"
    unfolding visible_events_def by (rule sorted_filter_key [OF joined_sorted [OF assms(1)]])
  then have sorted: "sort_key ?seq ?rows = ?rows" by (rule sort_key_id_if_sorted)
  have page: "take ?n (filter (can_read_event ?pl cx d) (take (?n + 1) ?rows)) = take ?n ?rows"
    by (rule filter_after_take) (simp add: visible_events_def)
  have last: "take (?n + 1) ?rows ! (min (length (take (?n + 1) ?rows)) ?n - 1) = ?rows ! (?n - 1)" if "?n < length ?rows"
    using that page_limit_pos [of 100 "eq_limit q"] by (simp add: min_def)
  show ?thesis
    unfolding listEvents_def Let_def assms(4) ebind_simps selected sorted page using assms(3) last by auto
qed

lemma event_pages_complete_witness:
  "\<exists>page. listEvents sample_platform (sample_ctx 2) sample_db3 \<lparr>eq_company = None, eq_after = None, eq_limit = Some 2\<rparr> = Inr page \<and>
     length (ep_events page) = 2 \<and> ep_next_cursor page = Some (cursor 2)"
proof -
  let ?q = "\<lparr>eq_company = None, eq_after = None, eq_limit = Some 2\<rparr>"
  have "can_read_event sample_platform (sample_ctx 2) sample_db3 (e, r)" if "ev_visibility e = js ''public''" for e r
    using that by (simp add: can_read_event_def event_visibility_def canRead_def)
  moreover have "joined_events sample_db3 = zip [sample_event 1, sample_event 2, sample_event 3]
      [sample_record 1, (sample_record 2)\<lparr>rr_is_head := False\<rparr>, sample_record 3]"
    using joined_pairs [OF sample_reachable(3)] by (simp add: sample_db3_def)
  ultimately have "visible_events sample_platform (sample_ctx 2) sample_db3 None 0 = [(sample_event 1, sample_record 1),
      (sample_event 2, (sample_record 2)\<lparr>rr_is_head := False\<rparr>), (sample_event 3, sample_record 3)]"
    by (simp add: visible_events_def company_filter_def sample_event_def event_row_of_def)
  moreover have "cx_principal (sample_ctx 2) \<noteq> None" by (simp add: sample_ctx_def context_for_def)
  then obtain page where "listEvents (rt_platform sample_runtime) (sample_ctx 2) sample_db3 ?q = Inr page \<and>
     (let rows = visible_events (rt_platform sample_runtime) (sample_ctx 2) sample_db3 (eq_company ?q) 0;
        n = page_limit 100 (eq_limit ?q) in
      ep_events page = map view_of (take n rows) \<and>
      ep_next_cursor page = (if n < length rows then Some (cursor (ev_seq (fst (rows ! (n - 1))))) else None))"
    using event_pages_complete [OF sample_reachable(3) sample_faithful, of "sample_ctx 2" ?q 0] by (auto simp: read_after_def)
  moreover have "rt_platform sample_runtime = sample_platform" by (simp add: sample_runtime_def)
  moreover have "page_limit 100 (eq_limit ?q) = 2" by (simp add: page_limit_def)
  moreover have "ev_seq (sample_event 2) = 2" by (simp add: sample_event_def event_row_of_def)
  ultimately show ?thesis by (intro exI [of _ page]) (simp add: Let_def)
qed

subsection \<open>Polling\<close>

lemma decimal_value_cursor: "0 \<le> n \<Longrightarrow> decimal_value (cursor n) = nat n"
  by (simp add: decimal_value_def cursor_def zero_pad_def value_be_append int_str_def value_nat_str digit_val_def)

lemma safe_decimal_cursor: "0 \<le> n \<Longrightarrow> n \<le> MAX_SAFE \<Longrightarrow> safe_decimal (cursor n) = Some n"
proof -
  assume n: "0 \<le> n" "n \<le> MAX_SAFE"
  have "list_all is_digit (cursor n)" "cursor n \<noteq> []"
    using n nat_str_digits by (auto simp: cursor_def zero_pad_def int_str_def list_all_iff is_digit_def)
  then show ?thesis using n by (simp add: safe_decimal_def decimal_value_cursor)
qed

text \<open>A client that follows \<open>next_cursor\<close> until the feed has no more; \<open>None\<close> when a request fails or the fuel ends.\<close>

fun poll :: "platform \<Rightarrow> ctx \<Rightarrow> db \<Rightarrow> jstr option \<Rightarrow> int option \<Rightarrow> nat \<Rightarrow> jstr option \<Rightarrow> event_view list option" where
  "poll pl cx d company limit 0 after = None"
| "poll pl cx d company limit (Suc fuel) after =
     (case listEvents pl cx d \<lparr>eq_company = company, eq_after = after, eq_limit = limit\<rparr> of
        Inl _ \<Rightarrow> None
      | Inr page \<Rightarrow>
          (case ep_next_cursor page of
             None \<Rightarrow> Some (ep_events page)
           | Some c \<Rightarrow> map_option ((@) (ep_events page)) (poll pl cx d company limit fuel (Some c))))"

lemma filter_beyond:
  fixes f :: "'a \<Rightarrow> int"
  assumes "sorted_wrt (<) (map f xs)" "n < length xs"
  shows "filter (\<lambda>x. f (xs ! n) < f x) xs = drop (Suc n) xs"
proof -
  have less: "f (xs ! i) < f (xs ! j)" if "i < j" "j < length xs" for i j
    using assms(1) that by (simp add: sorted_wrt_iff_nth_less)
  have "\<not> f (xs ! n) < f x" if "x \<in> set (take (Suc n) xs)" for x
    using that assms(2) less by (fastforce simp: in_set_conv_nth less_Suc_eq)
  moreover have "f (xs ! n) < f x" if "x \<in> set (drop (Suc n) xs)" for x
    using that less by (auto simp: in_set_conv_nth)
  moreover have "filter (\<lambda>x. f (xs ! n) < f x) xs =
      filter (\<lambda>x. f (xs ! n) < f x) (take (Suc n) xs) @ filter (\<lambda>x. f (xs ! n) < f x) (drop (Suc n) xs)"
    by (metis append_take_drop_id filter_append)
  ultimately show ?thesis by simp
qed

lemma visible_later:
  "after \<le> n \<Longrightarrow> filter (\<lambda>er. n < ev_seq (fst er)) (visible_events pl cx d company after) = visible_events pl cx d company n"
  unfolding visible_events_def filter_filter by (rule filter_cong) auto

lemma visible_after_page:
  assumes "reachable rt d" "n < length (visible_events pl cx d company after)"
  shows "visible_events pl cx d company (ev_seq (fst (visible_events pl cx d company after ! n))) =
     drop (Suc n) (visible_events pl cx d company after)"
proof -
  let ?rows = "visible_events pl cx d company after" and ?seq = "\<lambda>er :: joined_event. ev_seq (fst er)"
  have "?rows ! n \<in> set ?rows" using assms(2) by simp
  then have later: "after < ?seq (?rows ! n)" by (simp add: visible_events_def)
  have "sorted_wrt (<) (map ?seq ?rows)"
    using joined_sorted [OF assms(1)] by (simp add: visible_events_def sorted_wrt_map sorted_wrt_filter)
  then have "drop (Suc n) ?rows = filter (\<lambda>er. ?seq (?rows ! n) < ?seq er) ?rows" by (rule filter_beyond [OF _ assms(2), symmetric])
  also have "\<dots> = visible_events pl cx d company (?seq (?rows ! n))" using later by (intro visible_later) simp
  finally show ?thesis ..
qed

lemma poll_complete:
  assumes "reachable rt d" "jsonb_faithful (rt_platform rt)" "cx_principal cx \<noteq> None" "db_next_seq d \<le> MAX_SAFE"
    and "read_after from = Inr after" "length (visible_events (rt_platform rt) cx d company after) < fuel"
  shows "poll (rt_platform rt) cx d company limit fuel from =
     Some (map view_of (visible_events (rt_platform rt) cx d company after))"
  using assms(5,6)
proof (induction fuel arbitrary: "from" after)
  case (Suc fuel)
  let ?pl = "rt_platform rt" and ?q = "\<lparr>eq_company = company, eq_after = from, eq_limit = limit\<rparr>"
  let ?rows = "visible_events ?pl cx d company after" and ?n = "page_limit 100 limit"
  obtain page where page: "listEvents ?pl cx d ?q = Inr page" "ep_events page = map view_of (take ?n ?rows)"
      "ep_next_cursor page = (if ?n < length ?rows then Some (cursor (ev_seq (fst (?rows ! (?n - 1))))) else None)"
    using event_pages_complete [OF assms(1-3), of ?q after] Suc.prems(1) by (auto simp: Let_def)
  show ?case
  proof (cases "?n < length ?rows")
    case False
    then show ?thesis using page by simp
  next
    case True
    let ?last = "?rows ! (?n - 1)"
    have n: "0 < ?n" "Suc (?n - 1) = ?n" using page_limit_pos [of 100 limit] by simp_all
    have "?last \<in> set ?rows" using True n by simp
    then have "fst ?last \<in> set (db_events d)"
      using joined_matches(3) [OF assms(1), of "fst ?last" "snd ?last"] by (simp add: visible_events_def)
    then have "1 \<le> ev_seq (fst ?last)" "ev_seq (fst ?last) < db_next_seq d" using events_in_order(3) [OF assms(1)] by auto
    then have after: "read_after (Some (cursor (ev_seq (fst ?last)))) = Inr (ev_seq (fst ?last))"
      using assms(4) by (simp add: read_after_def safe_decimal_cursor require_def)
    have rest: "visible_events ?pl cx d company (ev_seq (fst ?last)) = drop ?n ?rows"
      using visible_after_page [OF assms(1), of "?n - 1" ?pl cx company after] True n by simp
    have "poll ?pl cx d company limit fuel (Some (cursor (ev_seq (fst ?last)))) = Some (map view_of (drop ?n ?rows))"
      using Suc.IH [OF after] Suc.prems(2) True n unfolding rest by simp
    moreover have "map view_of (take ?n ?rows) @ map view_of (drop ?n ?rows) = map view_of ?rows"
      by (simp flip: map_append)
    ultimately show ?thesis using page True by simp
  qed
qed simp

text \<open>C22. Polling loses nothing and ends: a client that follows the cursors of the event feed receives, after finitely many
  pages of any size, every event that it may read after its starting point, each once and in sequence order.\<close>

theorem polling_is_complete:
  assumes "reachable rt d" "jsonb_faithful (rt_platform rt)" "cx_principal cx \<noteq> None" "db_next_seq d \<le> MAX_SAFE"
    and "read_after from = Inr after"
  shows "\<exists>enough. \<forall>fuel \<ge> enough. poll (rt_platform rt) cx d company limit fuel from =
     Some (map view_of (visible_events (rt_platform rt) cx d company after))"
  using poll_complete [OF assms(1-5)] by (intro exI [of _ "Suc (length (visible_events (rt_platform rt) cx d company after))"]) simp

lemma polling_is_complete_witness:
  "\<exists>enough. \<forall>fuel \<ge> enough. poll sample_platform (sample_ctx 2) sample_db3 None (Some 1) fuel None =
     Some (map view_of (visible_events sample_platform (sample_ctx 2) sample_db3 None 0))"
proof -
  have "rt_platform sample_runtime = sample_platform" by (simp add: sample_runtime_def)
  moreover have "cx_principal (sample_ctx 2) \<noteq> None" by (simp add: sample_ctx_def context_for_def)
  moreover have "db_next_seq sample_db3 \<le> MAX_SAFE" by (simp add: sample_db3_def MAX_SAFE_def)
  moreover have "read_after None = Inr 0" by (simp add: read_after_def)
  ultimately show ?thesis using polling_is_complete [OF sample_reachable(3) sample_faithful] by metis
qed

end
