(* ===== verification/Disputes.thy ===== *)
theory Disputes
  imports Provenance
begin

text \<open>
  What becomes of a disputed contract.  The state machine of \<open>trade.contract\<close> leaves the resolution of a dispute to
  the arbitrator, \<open>checkRoleContinuity\<close> wants the arbitrator to be no party of the contract, and
  \<open>authorizeWrite\<close> lets only parties write.
\<close>

definition arbitrator_field :: jstr where
  "arbitrator_field = js ''arbitrator_company_id''"

definition resolved :: "jstr option \<Rightarrow> bool" where
  "resolved status \<longleftrightarrow> status = Some (js ''resolved_buyer'') \<or> status = Some (js ''resolved_seller'')"

definition contract_open :: "record_row \<Rightarrow> bool" where
  "contract_open r \<longleftrightarrow> \<not> resolved (rr_status r) \<and> rr_status r = statusOf contract_info (Some (rr_body r)) \<and>
     (\<forall>p \<in> set (record_parties r). member (rr_body r) arbitrator_field \<noteq> JStr p)"

definition disputes_open :: "db \<Rightarrow> bool" where
  "disputes_open d \<longleftrightarrow> (\<forall>r \<in> set (db_records d). rr_type r = js ''trade.contract'' \<longrightarrow> contract_open r)"

subsection \<open>The rules of a contract\<close>

lemma contract_machine:
  "ti_transitions contract_info = Some (the (xs_transitions x_contract))"
  "has_text (t_status_field (the (xs_transitions x_contract)))"
  "t_initial_status (the (xs_transitions x_contract)) = [js ''active'']"
  by (simp_all add: ti_transitions_def contract_info_def info_of_def x_contract_def)

lemma resolution_is_arbitrators:
  assumes "tr \<in> set (t_transitions (the (xs_transitions x_contract)))" "resolved (Some (tr_to tr))"
  shows "tr_by tr = [js ''arbitrator'']"
  using assms by (auto simp: x_contract_def transition_row_def resolved_def)

lemma arbitrator_role:
  "js ''arbitrator'' \<in> set (rolesOf contract_info body party) \<longleftrightarrow> member body arbitrator_field = JStr (p_issuer party)"
  by (auto simp: rolesOf_def ti_roles_def contract_info_def info_of_def x_contract_def arbitrator_field_def)

lemma arbitrator_is_third:
  assumes "checkRoleContinuity contract_info prev new party = Inr ()" "p \<in> set (p_subject party # p_counterparties party)"
  shows "member new arbitrator_field \<noteq> JStr p"
proof -
  have "(js ''arbitrator'', arbitrator_field) \<in> set (ti_roles contract_info)"
      "js ''arbitrator'' \<in> set (xs_third_party_roles (ti_schema contract_info))"
    by (simp_all add: ti_roles_def contract_info_def info_of_def x_contract_def arbitrator_field_def)
  then have "member0 new arbitrator_field \<noteq> JStr p"
    using assms unfolding checkRoleContinuity_def role_continuity_ok by fastforce
  then show ?thesis by (auto simp: member0_def)
qed

lemma genesis_unresolved:
  assumes "checkTransition contract_info None new roles = Inr ()"
  shows "\<not> resolved (statusOf contract_info (Some new))"
  using assms contract_machine
  by (auto simp: checkTransition_def check_machine_def resolved_def Let_def ok_iff split: if_splits option.splits)

lemma supersede_unresolved:
  assumes "checkTransition contract_info (Some prev) new (rolesOf contract_info prev party) = Inr ()"
    and "\<not> resolved (statusOf contract_info (Some prev))" "member prev arbitrator_field \<noteq> JStr (p_issuer party)"
  shows "\<not> resolved (statusOf contract_info (Some new))"
proof
  assume res: "resolved (statusOf contract_info (Some new))"
  then have "statusOf contract_info (Some prev) \<noteq> statusOf contract_info (Some new)" using assms(2) by auto
  then obtain tr where tr: "tr \<in> set (t_transitions (the (xs_transitions x_contract)))"
      "Some (tr_to tr) = statusOf contract_info (Some new)" "allowed (rolesOf contract_info prev party) (tr_by tr)"
    using check_machine_moves [OF _ contract_machine(1,2), of prev new] assms(1) unfolding checkTransition_supersede by metis
  then have "tr_by tr = [js ''arbitrator'']" using resolution_is_arbitrators res by metis
  then show False using tr(3) assms(3) by (simp add: allowed_def arbitrator_role)
qed

subsection \<open>Every reachable store\<close>

lemma contract_open_flip [simp]: "contract_open (flip p r) = contract_open r"
  by (simp add: contract_open_def record_parties_def flip_def split: option.splits)

lemma new_contract_open:
  assumes "jsonb_faithful pl" "disputes_open d" "validateSignedEnvelope pl input = Inr v" "follows d v prev"
    and "e_type (v_env v) = js ''trade.contract''"
  shows "contract_open (new_record pl cx v n)"
proof -
  let ?r = "new_record pl cx v n" and ?b = "e_body (v_env v)" and ?p = "party_of (v_env v)"
  have "?r\<lparr>rr_is_head := True\<rparr> = ?r" by (simp add: new_record_def record_row_of_def Let_def)
  note cols = row_columns [OF this]
  have info: "v_info v = contract_info"
    using validated_facts [OF assms(3)] assms(5) typeInfo_contract by (auto simp: contract_info_def)
  have "\<not> is_identity_type (e_type (v_env v))" by (simp add: assms(5) is_identity_type_def)
  then have rules: "check_rules v prev = Inr ()" using assms(4) by (auto simp: follows_def split: option.splits)
  then have third: "checkRoleContinuity contract_info (map_option rr_body prev) ?b ?p = Inr ()"
    by (simp add: check_rules_def Let_def ok_iff info)
  have "\<not> resolved (statusOf contract_info (Some ?b))"
  proof (cases prev)
    case None
    then show ?thesis using rules by (auto simp: check_rules_def Let_def ok_iff info dest: genesis_unresolved)
  next
    case (Some q)
    then have q: "q \<in> set (db_records d)" "rr_type q = js ''trade.contract''"
        "e_issuer_company (v_env v) \<in> set (record_parties q)"
      using assms(4,5) by (auto simp: follows_def check_chain_def split: if_splits)
    then have "contract_open q" using assms(2) by (simp add: disputes_open_def)
    then have "\<not> resolved (statusOf contract_info (Some (rr_body q)))"
        "member (rr_body q) arbitrator_field \<noteq> JStr (p_issuer ?p)"
      using q(3) by (auto simp: contract_open_def party_of_def)
    then show ?thesis
      using rules by (intro supersede_unresolved [of "rr_body q" ?b ?p]) (auto simp: check_rules_def Let_def ok_iff info Some)
  qed
  moreover have "member (rr_body ?r) arbitrator_field \<noteq> JStr p" if "p \<in> set (record_parties ?r)" for p
    using arbitrator_is_third [OF third, of p] that cols jsonb_text [OF assms(1), of ?b arbitrator_field p]
    by (auto simp: record_parties_def party_of_def)
  ultimately show ?thesis
    using cols jsonb_statusOf [OF assms(1)] by (simp add: contract_open_def info)
qed

lemma disputes_open_step:
  assumes "jsonb_faithful pl" "disputes_open d" "log_step pl d d'"
  shows "disputes_open d'"
proof -
  consider "db_records d' = db_records d" | "appends_known pl d d'" using assms(3) by (auto simp: log_step_def)
  then show ?thesis
  proof cases
    case 2
    then obtain cx input v prev where v: "validateSignedEnvelope pl input = Inr v" "follows d v prev"
        "appends pl cx v prev (statusFromBody (v_info v) (e_body (v_env v))) d d'"
      unfolding appends_known_def by blast
    have "contract_open (new_record pl cx v (db_next_seq d))" if "e_type (v_env v) = js ''trade.contract''"
      using new_contract_open [OF assms(1,2) v(1,2) that] .
    then show ?thesis using v(3) assms(2) by (auto simp: disputes_open_def appends_def)
  qed (use assms(2) in \<open>simp add: disputes_open_def\<close>)
qed

interpretation disputes: log_invariant rt "\<lambda>d. jsonb_faithful (rt_platform rt) \<longrightarrow> disputes_open d" for rt
  by unfold_locales (simp add: disputes_open_def empty_db_def, use disputes_open_step in blast)

text \<open>The arbitrator alone is missing: the state machine would accept the resolution from a writer with that role.\<close>

lemma arbitrator_would_resolve:
  assumes "statusOf contract_info (Some prev) = Some (js ''disputed'')" "statusOf contract_info (Some new) = Some (js ''resolved_buyer'')"
  shows "check_machine contract_info (Some prev) new roles = guard (js ''arbitrator'' \<in> set roles) transition_forbidden"
proof -
  have "filter (\<lambda>tr. tr_from tr = js ''disputed'' \<and> tr_to tr = js ''resolved_buyer'') (t_transitions (the (xs_transitions x_contract))) =
      [transition_row ''disputed'' ''resolved_buyer'' [''arbitrator''] (Some ''P7D'') None None]"
    by (simp add: x_contract_def transition_row_def)
  then show ?thesis
    using assms contract_machine(1,2) by (simp add: check_machine_def Let_def) (simp add: transition_row_def allowed_def)
qed

text \<open>C18. A dispute is never resolved: in no store that requests can reach is there a contract with one of the two resolved
  statuses, since the only company that may make the transition is one that may not write the record.\<close>

theorem disputes_never_resolved:
  assumes "reachable rt d" "jsonb_faithful (rt_platform rt)"
  shows "\<not> (\<exists>r \<in> set (db_records d). rr_type r = js ''trade.contract'' \<and>
     (rr_status r = Some (js ''resolved_buyer'') \<or> rr_status r = Some (js ''resolved_seller'')))"
  using disputes.always [OF assms(1)] assms(2) by (auto simp: disputes_open_def contract_open_def resolved_def)

lemma disputes_never_resolved_witness:
  "\<not> (\<exists>r \<in> set (db_records sample_db3). rr_type r = js ''trade.contract'' \<and>
     (rr_status r = Some (js ''resolved_buyer'') \<or> rr_status r = Some (js ''resolved_seller'')))"
  by (rule disputes_never_resolved [OF sample_reachable(3) sample_faithful])

end
