(* ===== verification/Decimal.thy ===== *)
theory Decimal
  imports JsonValue
begin

text \<open>
  \<^verbatim>\<open>sdk/src/profiles/decimal.ts\<close>: exact fixed-point arithmetic.  An amount with scale \<open>s\<close> is the integer count
  of its units of \<open>10 ^ -s\<close>, as the code's \<open>bigint\<close>; the text form is bounded to 18 integral digits.
\<close>

datatype decimal_error =
    UnsupportedScale | NotDecimalText | NegativeNotPermitted | PrecisionExceeded | MagnitudeExceeded

definition MAX_INTEGER_DIGITS :: nat where
  "MAX_INTEGER_DIGITS = 18"

definition checkScale :: "int \<Rightarrow> decimal_error + unit" where
  "checkScale scale = guard (0 \<le> scale \<and> scale \<le> 12) UnsupportedScale"

text \<open>\<open>/^-?\d+(?:\.\d+)?$/\<close>, and the text split at the point: integral and fractional digits.\<close>

definition DOT :: cunit where
  "DOT = 0x2e"

definition MINUS :: cunit where
  "MINUS = 0x2d"

definition unsigned_part :: "jstr \<Rightarrow> jstr" where
  "unsigned_part s = (if s \<noteq> [] \<and> hd s = MINUS then tl s else s)"

definition whole_digits :: "jstr \<Rightarrow> jstr" where
  "whole_digits s = takeWhile is_digit (unsigned_part s)"

definition after_whole :: "jstr \<Rightarrow> jstr" where
  "after_whole s = dropWhile is_digit (unsigned_part s)"

definition decimal_text :: "jstr \<Rightarrow> bool" where
  "decimal_text s \<longleftrightarrow> whole_digits s \<noteq> [] \<and>
     (after_whole s = [] \<or> hd (after_whole s) = DOT \<and> tl (after_whole s) \<noteq> [] \<and> list_all is_digit (tl (after_whole s)))"

definition fraction_digits :: "jstr \<Rightarrow> jstr" where
  "fraction_digits s = tl (after_whole s)"

definition is_negative :: "jstr \<Rightarrow> bool" where
  "is_negative s \<longleftrightarrow> s \<noteq> [] \<and> hd s = MINUS"

definition pad_end :: "nat \<Rightarrow> jstr \<Rightarrow> jstr" where
  "pad_end n s = s @ replicate (n - length s) 0x30"

definition magnitude :: "jstr \<Rightarrow> nat \<Rightarrow> int" where
  "magnitude s scale =
     int (decimal_value (whole_digits s)) * 10 ^ scale + int (decimal_value (pad_end scale (fraction_digits s)))"

definition parseDecimal :: "jval \<Rightarrow> int \<Rightarrow> bool \<Rightarrow> decimal_error + int" where
  "parseDecimal v scale allowNegative =
     ebind (checkScale scale) (\<lambda>_.
     case str_of v of
       None \<Rightarrow> Inl NotDecimalText
     | Some s \<Rightarrow>
         if int (length s) > int MAX_INTEGER_DIGITS + scale + 2 \<or> \<not> decimal_text s then Inl NotDecimalText
         else if is_negative s \<and> \<not> allowNegative then Inl NegativeNotPermitted
         else if length (whole_digits s) > MAX_INTEGER_DIGITS \<or> int (length (fraction_digits s)) > scale
         then Inl PrecisionExceeded
         else
           let m = magnitude s (nat scale) in
           Inr (if is_negative s then - m else m))"

definition trim_zeros :: "jstr \<Rightarrow> jstr" where
  "trim_zeros s = rev (dropWhile (\<lambda>c. c = 0x30) (rev s))"

definition formatDecimal :: "int \<Rightarrow> int \<Rightarrow> decimal_error + jstr" where
  "formatDecimal v scale =
     ebind (checkScale scale) (\<lambda>_.
     let m = \<bar>v\<bar>; divisor = 10 ^ nat scale; whole = int_str (m div divisor) in
     if length whole > MAX_INTEGER_DIGITS then Inl MagnitudeExceeded
     else
       let fraction = trim_zeros (zero_pad (nat scale) (int_str (m mod divisor))) in
       Inr ((if v < 0 then [MINUS] else []) @ whole @ (if fraction = [] then [] else DOT # fraction)))"

text \<open>The fraction for scale 0 is the text 0, which the trimming removes.\<close>

definition multiplyRounded :: "int \<Rightarrow> int \<Rightarrow> int \<Rightarrow> int \<Rightarrow> int \<Rightarrow> decimal_error + int" where
  "multiplyRounded a aScale b bScale resultScale =
     ebind (checkScale aScale) (\<lambda>_. ebind (checkScale bScale) (\<lambda>_. ebind (checkScale resultScale) (\<lambda>_.
     let product = a * b; shift = aScale + bScale - resultScale in
     if shift \<le> 0 then Inr (product * 10 ^ nat (- shift))
     else
       let divisor = 10 ^ nat shift; rounded = (\<bar>product\<bar> + divisor div 2) div divisor in
       Inr (if product < 0 then - rounded else rounded))))"

subsection \<open>The text form\<close>

lemma trim_zeros_restore: "s = trim_zeros s @ replicate (length s - length (trim_zeros s)) 0x30"
proof -
  let ?z = "\<lambda>c :: cunit. c = 0x30"
  have split: "rev s = takeWhile ?z (rev s) @ dropWhile ?z (rev s)" by simp
  have len: "length s = length (takeWhile ?z (rev s)) + length (dropWhile ?z (rev s))"
    by (metis length_append length_rev takeWhile_dropWhile_id)
  have "takeWhile ?z (rev s) = replicate (length (takeWhile ?z (rev s))) 0x30"
    by (rule replicate_eqI) (auto dest: set_takeWhileD)
  moreover have "length (takeWhile ?z (rev s)) = length s - length (trim_zeros s)"
    using len by (simp add: trim_zeros_def)
  ultimately have "s = rev (dropWhile ?z (rev s)) @ rev (replicate (length s - length (trim_zeros s)) 0x30)"
    using arg_cong [OF split, of rev] by (metis rev_append rev_rev_ident)
  then show ?thesis by (simp add: trim_zeros_def)
qed

lemma length_trim_zeros: "length (trim_zeros s) \<le> length s"
  using length_dropWhile_le [of _ "rev s"] by (simp add: trim_zeros_def)

lemma pad_trim_zeros: "length s = n \<Longrightarrow> pad_end n (trim_zeros s) = s"
  using trim_zeros_restore [of s] by (simp add: pad_end_def)

lemma decimal_value_pad_trim:
  assumes "length s = n \<or> n = 0 \<and> decimal_value s = 0"
  shows "decimal_value (pad_end n (trim_zeros s)) = decimal_value s"
  using assms
proof
  assume "n = 0 \<and> decimal_value s = 0"
  moreover have "decimal_value (trim_zeros s) \<le> decimal_value s"
    using trim_zeros_restore [of s] decimal_value_append [of "trim_zeros s" "replicate (length s - length (trim_zeros s)) 0x30"]
    by simp
  ultimately show ?thesis by (simp add: pad_end_def)
qed (simp add: pad_trim_zeros)

text \<open>What the reader sees in a text that the printer made.\<close>

lemma digits_text: "list_all is_digit (nat_str n)"
  by (simp add: list_all_iff nat_str_digits)

lemma punctuation [simp]: "\<not> is_digit DOT" "\<not> is_digit MINUS"
  by (simp_all add: is_digit_def DOT_def MINUS_def)

lemma read_printed:
  assumes "list_all is_digit w" "w \<noteq> []" "list_all is_digit f"
    and "s = (if neg then [MINUS] else []) @ w @ (if f = [] then [] else DOT # f)"
  shows "whole_digits s = w" "fraction_digits s = f" "decimal_text s" "is_negative s = neg"
proof -
  have "hd w \<noteq> MINUS" using assms(1,2) by (metis punctuation(2) list.set_sel(1) list_all_iff)
  then have u: "unsigned_part s = w @ (if f = [] then [] else DOT # f)" and n: "is_negative s = neg"
    using assms(2,4) by (auto simp: unsigned_part_def is_negative_def)
  have w: "takeWhile is_digit (w @ t) = w" "dropWhile is_digit (w @ t) = t" if "t = [] \<or> \<not> is_digit (hd t)" for t
    using assms(1) that by (auto simp: list_all_iff takeWhile_append2 dropWhile_append2 takeWhile_eq_Nil_iff dropWhile_eq_self_iff)
  have whole: "whole_digits s = w" and rest: "after_whole s = (if f = [] then [] else DOT # f)"
    unfolding whole_digits_def after_whole_def u by (subst w; simp)+
  show "whole_digits s = w" "is_negative s = neg" by fact+
  show "fraction_digits s = f" by (simp add: fraction_digits_def rest)
  show "decimal_text s" using assms(2,3) by (simp add: decimal_text_def whole rest)
qed

lemma checkScale_ok [ok_iff]: "checkScale scale = Inr u \<longleftrightarrow> 0 \<le> scale \<and> scale \<le> 12"
  by (simp add: checkScale_def guard_ok)

definition within_profile :: "int \<Rightarrow> int \<Rightarrow> bool" where
  "within_profile v scale \<longleftrightarrow> \<bar>v\<bar> < 10 ^ (MAX_INTEGER_DIGITS + nat scale)"

lemma int_str_nonneg: "0 \<le> m \<Longrightarrow> int_str m = nat_str (nat m)"
  by (simp add: int_str_def)

lemma whole_length:
  "0 \<le> m \<Longrightarrow> length (int_str (m div 10 ^ n)) \<le> MAX_INTEGER_DIGITS \<longleftrightarrow> m < 10 ^ (MAX_INTEGER_DIGITS + n)"
proof -
  assume m: "0 \<le> m"
  then obtain k where k: "m = int k" by (metis nonneg_int_cases)
  have "m div 10 ^ n = int (k div 10 ^ n)" by (simp add: k zdiv_int)
  then have "int_str (m div 10 ^ n) = nat_str (k div 10 ^ n)" by (simp add: int_str_nonneg)
  then have "length (int_str (m div 10 ^ n)) \<le> MAX_INTEGER_DIGITS \<longleftrightarrow> k div 10 ^ n < 10 ^ MAX_INTEGER_DIGITS"
    using length_nat_str_le [of MAX_INTEGER_DIGITS "k div 10 ^ n"] by (simp add: MAX_INTEGER_DIGITS_def)
  also have "\<dots> \<longleftrightarrow> k < 10 ^ MAX_INTEGER_DIGITS * 10 ^ n" by (simp add: div_less_iff_less_mult)
  also have "\<dots> \<longleftrightarrow> m < 10 ^ (MAX_INTEGER_DIGITS + n)"
    unfolding k power_add [symmetric] by (metis of_nat_less_iff of_nat_numeral of_nat_power)
  finally show ?thesis .
qed

text \<open>Printing fails exactly when the magnitude needs more than 18 integral digits.\<close>

lemma formatDecimal_ok_iff:
  assumes "0 \<le> scale" "scale \<le> 12"
  shows "is_ok (formatDecimal v scale) \<longleftrightarrow> within_profile v scale"
  using assms whole_length [of "\<bar>v\<bar>" "nat scale"]
  by (auto simp: formatDecimal_def Let_def is_ok_iff ok_iff within_profile_def if_Inl_ok)

lemma parse_formatted:
  assumes "formatDecimal v scale = Inr s"
  shows "parseDecimal (JStr s) scale True = Inr v" "is_negative s \<longleftrightarrow> v < 0"
proof -
  define m where "m = \<bar>v\<bar>"
  define n where "n = nat scale"
  define w where "w = int_str (m div 10 ^ n)"
  define d where "d = zero_pad n (int_str (m mod 10 ^ n))"
  have scale: "0 \<le> scale" "scale \<le> 12" and len: "length w \<le> MAX_INTEGER_DIGITS"
    and s: "s = (if v < 0 then [MINUS] else []) @ w @ (if trim_zeros d = [] then [] else DOT # trim_zeros d)"
    using assms by (auto simp: formatDecimal_def Let_def ok_iff if_Inl_ok m_def n_def w_def d_def split: if_splits)
  have m: "0 \<le> m" by (simp add: m_def)
  have w: "w = nat_str (nat (m div 10 ^ n))" using m by (simp add: w_def int_str_nonneg pos_imp_zdiv_nonneg_iff)
  have d: "d = zero_pad n (nat_str (nat (m mod 10 ^ n)))" by (simp add: d_def int_str_nonneg)
  have value_d: "int (decimal_value d) = m mod 10 ^ n" unfolding d by simp
  have "length d = n \<or> n = 0 \<and> decimal_value d = 0"
  proof (cases "n = 0")
    case False
    have "nat (m mod 10 ^ n) < 10 ^ n" by (simp add: nat_less_iff)
    then have "length (nat_str (nat (m mod 10 ^ n))) \<le> n" using False by (simp add: length_nat_str_le)
    then show ?thesis by (simp add: d)
  qed (use value_d in simp)
  then have fraction: "int (decimal_value (pad_end n (trim_zeros d))) = m mod 10 ^ n"
    using decimal_value_pad_trim [of d n] value_d by simp
  have "list_all is_digit d" unfolding d zero_pad_def using digits_text by (auto simp: list_all_iff is_digit_def)
  then have digits: "list_all is_digit (trim_zeros d)"
    using trim_zeros_restore [of d] by (metis list_all_append)
  have short: "length (trim_zeros d) \<le> n"
  proof (cases "n = 0")
    case True
    then have "d = [0x30]" using value_d by (simp add: d nat_str_def zero_pad_def)
    then show ?thesis by (simp add: trim_zeros_def)
  next
    case False
    then have "length d = n" using \<open>length d = n \<or> n = 0 \<and> decimal_value d = 0\<close> by simp
    then show ?thesis using length_trim_zeros [of d] by simp
  qed
  note r = read_printed [OF _ _ digits s]
  have wd: "list_all is_digit w" "w \<noteq> []" unfolding w by (simp_all add: digits_text)
  have "int (length s) \<le> int MAX_INTEGER_DIGITS + scale + 2"
    using len short scale by (auto simp: s n_def)
  moreover have "magnitude s n = m"
    unfolding magnitude_def r(1,2) [OF wd] fraction unfolding w using m
    using div_mult_mod_eq [of m "10 ^ n"] by (simp add: pos_imp_zdiv_nonneg_iff)
  moreover have "(if is_negative s then - m else m) = v" using r(4) [OF wd] by (simp add: m_def)
  ultimately show "parseDecimal (JStr s) scale True = Inr v"
    using scale len short r [OF wd] by (simp add: parseDecimal_def ok_iff Let_def n_def checkScale_def guard_def)
  show "is_negative s \<longleftrightarrow> v < 0" by (rule r(4) [OF wd])
qed

lemma parse_unsigned: "\<not> is_negative s \<Longrightarrow> parseDecimal (JStr s) scale neg = parseDecimal (JStr s) scale True"
  by (simp add: parseDecimal_def)

lemma parse_formatted_nonneg: "formatDecimal v scale = Inr s \<Longrightarrow> 0 \<le> v \<Longrightarrow> parseDecimal (JStr s) scale neg = Inr v"
  using parse_formatted [of v scale s] parse_unsigned [of s scale neg] by simp

lemma parse_nonneg: "parseDecimal x scale False = Inr v \<Longrightarrow> 0 \<le> v"
  by (auto simp: parseDecimal_def ok_iff Let_def magnitude_def split: option.splits if_splits)

lemma parse_within:
  assumes "parseDecimal x scale neg = Inr v"
  shows "0 \<le> scale \<and> scale \<le> 12 \<and> within_profile v scale"
proof -
  obtain s where scale: "0 \<le> scale" "scale \<le> 12" and s: "decimal_text s" "length (whole_digits s) \<le> MAX_INTEGER_DIGITS"
      "int (length (fraction_digits s)) \<le> scale" "v = (if is_negative s then - magnitude s (nat scale) else magnitude s (nat scale))"
    using assms by (auto simp: parseDecimal_def ok_iff Let_def if_Inl_ok split: option.splits if_splits)
  let ?n = "nat scale"
  have dig: "list_all is_digit (whole_digits s)" by (auto simp: whole_digits_def list_all_iff dest: set_takeWhileD)
  have "decimal_value (whole_digits s) < 10 ^ MAX_INTEGER_DIGITS"
    using decimal_value_bound [OF dig] s(2) by (meson less_le_trans power_increasing one_le_numeral)
  then have w: "int (decimal_value (whole_digits s)) + 1 \<le> 10 ^ MAX_INTEGER_DIGITS"
    by (metis of_nat_less_iff of_nat_numeral of_nat_power zless_imp_add1_zle)
  have "list_all is_digit (fraction_digits s)" using s(1) by (auto simp: decimal_text_def fraction_digits_def)
  then have "list_all is_digit (pad_end ?n (fraction_digits s))" by (auto simp: pad_end_def list_all_iff is_digit_def)
  moreover have "length (pad_end ?n (fraction_digits s)) = ?n" using s(3) by (simp add: pad_end_def)
  ultimately have "decimal_value (pad_end ?n (fraction_digits s)) < 10 ^ ?n" using decimal_value_bound by metis
  then have f: "int (decimal_value (pad_end ?n (fraction_digits s))) < 10 ^ ?n"
    by (metis of_nat_less_iff of_nat_numeral of_nat_power)
  have "magnitude s ?n < (int (decimal_value (whole_digits s)) + 1) * 10 ^ ?n"
    using f by (simp add: magnitude_def algebra_simps)
  also have "\<dots> \<le> 10 ^ MAX_INTEGER_DIGITS * 10 ^ ?n" using w by (intro mult_right_mono) simp_all
  finally have "magnitude s ?n < 10 ^ (MAX_INTEGER_DIGITS + ?n)" by (simp add: power_add)
  moreover have "0 \<le> magnitude s ?n" by (simp add: magnitude_def)
  ultimately show ?thesis using scale s(4) by (simp add: within_profile_def)
qed

text \<open>Amounts survive their text form: every amount within the profile's 18 integral digits is printed, and the printed text
  reads back as the same amount; what the reader accepts is always within those bounds.\<close>

theorem decimal_roundtrip:
  assumes "0 \<le> scale" "scale \<le> 12" "within_profile v scale"
  shows "\<exists>s. formatDecimal v scale = Inr s \<and> parseDecimal (JStr s) scale True = Inr v"
proof -
  obtain s where s: "formatDecimal v scale = Inr s" using assms formatDecimal_ok_iff [of scale v] by (auto simp: is_ok_iff)
  then show ?thesis using parse_formatted(1) [OF s] by blast
qed

lemma decimal_roundtrip_witness: "\<exists>s. formatDecimal (-12050) 3 = Inr s \<and> parseDecimal (JStr s) 3 True = Inr (-12050)"
  by (rule decimal_roundtrip) (simp_all add: within_profile_def MAX_INTEGER_DIGITS_def)

lemma format_example: "formatDecimal (-12050) 3 = Inr (js ''-12.05'')"
  by code_simp

subsection \<open>Rounding\<close>

lemma half_up:
  fixes p :: int
  assumes "1 \<le> k"
  shows "2 * ((p + 10 ^ k div 2) div 10 ^ k) * 10 ^ k \<le> 2 * p + 10 ^ k \<and>
     2 * p + 10 ^ k < 2 * ((p + 10 ^ k div 2) div 10 ^ k + 1) * 10 ^ k"
proof -
  let ?d = "10 ^ k :: int" and ?q = "(p + 10 ^ k div 2) div 10 ^ k"
  have "even ?d" using assms by simp
  then have half: "2 * (?d div 2) = ?d" by simp
  have "0 < ?d" by simp
  then have "0 \<le> (p + ?d div 2) mod ?d" "(p + ?d div 2) mod ?d < ?d" by (rule pos_mod_sign, rule pos_mod_bound)
  then have "?q * ?d \<le> p + ?d div 2" "p + ?d div 2 < ?q * ?d + ?d"
    using div_mult_mod_eq [of "p + ?d div 2" ?d] by linarith+
  then show ?thesis using half by (simp add: algebra_simps)
qed

text \<open>C23. Multiplication rounds half away from zero: the result is the nearest amount at the result scale, a tie going to the
  larger magnitude, and it has the sign of the exact product.\<close>

theorem multiply_rounds_half_away:
  assumes "multiplyRounded a aScale b bScale resultScale = Inr r" "resultScale < aScale + bScale"
  shows "let d = 10 ^ nat (aScale + bScale - resultScale) in
     2 * \<bar>r\<bar> * d \<le> 2 * \<bar>a * b\<bar> + d \<and> 2 * \<bar>a * b\<bar> + d < 2 * (\<bar>r\<bar> + 1) * d \<and> (r = 0 \<or> sgn r = sgn (a * b))"
proof -
  define k where "k = nat (aScale + bScale - resultScale)"
  define q where "q = (\<bar>a * b\<bar> + 10 ^ k div 2) div 10 ^ k"
  have k: "1 \<le> k" using assms(2) by (simp add: k_def)
  have r: "r = (if a * b < 0 then - q else q)"
    using assms by (auto simp: multiplyRounded_def ok_iff Let_def q_def k_def split: if_splits)
  have q: "0 \<le> q" by (simp add: q_def pos_imp_zdiv_nonneg_iff)
  have abs: "\<bar>r\<bar> = q" using r q by auto
  have "r = 0 \<or> sgn r = sgn (a * b)"
  proof (cases "a * b = 0")
    case True
    have "(10::int) ^ k div 2 < 10 ^ k" by (rule int_div_less_self) simp_all
    moreover have "q = (10 ^ k div 2) div 10 ^ k" unfolding q_def True by simp
    ultimately have "q = 0" by (simp add: div_pos_pos_trivial)
    then show ?thesis using r by simp
  next
    case False
    then show ?thesis using r q by (auto simp: sgn_if split: if_splits)
  qed
  then show ?thesis using half_up [OF k, of "\<bar>a * b\<bar>"] unfolding Let_def abs k_def [symmetric] q_def by blast
qed

lemma multiply_rounds_half_away_witness: "multiplyRounded 1500 3 1 6 6 = Inr 2 \<and> 2 * \<bar>2\<bar> * 10 ^ 3 \<le> 2 * \<bar>1500 * 1\<bar> + (10 ^ 3 :: int)"
proof -
  have m: "multiplyRounded 1500 3 1 6 6 = Inr 2" by code_simp
  then show ?thesis using multiply_rounds_half_away [OF m] by (simp add: Let_def)
qed

end
