(* ===== verification/Inventory.thy ===== *)
theory Inventory
  imports TextForms Decimal "HOL-Library.AList"
begin

text \<open>
  \<^verbatim>\<open>sdk/src/profiles/inventory.ts\<close>: the reducer of one stock pool.  The persisted state is typed, as the code
  assumes; the event is any value, because the reducer tests its shape itself.  A \<open>Record\<close> is an association
  list in insertion order.  A refused event leaves the state as it was; every exception is the issue \<open>invalid\<close>.
\<close>

record inventory =
  iv_company :: jstr
  iv_pool :: jstr
  iv_product :: jstr
  iv_base_unit :: jstr
  iv_revision :: int
  iv_on_hand :: jstr
  iv_reservations :: "(jstr \<times> jstr) list"
  iv_packaging :: "(jstr \<times> members) list"
  iv_observations :: "(jstr \<times> jstr) list"

datatype inventory_issue =
    Invalid | WrongScope | ObservationConflict | RevisionConflict | PackagingConflict | UnknownPackaging
  | UnitMismatch | InsufficientStock | InsufficientReservation

text \<open>An accepted event: whether it was a duplicate, and the state after it.\<close>

type_synonym inventory_result = "inventory_issue + bool \<times> inventory"

definition UNITS :: "jstr list" where
  "UNITS = map js [''lb'', ''kg'', ''oz'', ''ton'', ''case'', ''pallet'', ''unit'']"

definition identity :: "jval \<Rightarrow> bool" where
  "identity v = (case str_of v of None \<Rightarrow> False | Some s \<Rightarrow> 0 < length s \<and> length s \<le> 200)"

definition supported_unit :: "jval \<Rightarrow> bool" where
  "supported_unit v = (case str_of v of None \<Rightarrow> False | Some s \<Rightarrow> s \<in> set UNITS)"

definition inventoryKey :: "jval list \<Rightarrow> jstr option" where
  "inventoryKey parts = digestOf (JArr parts)"

definition packagingDigest :: "jval \<Rightarrow> jstr option" where
  "packagingDigest packaging =
     digestOf (JObj [(js ''profile'', JStr (js ''dtp.packaging/1'')), (js ''packaging'', packaging)])"

definition createInventoryState :: "jstr \<Rightarrow> jstr \<Rightarrow> jstr \<Rightarrow> jstr \<Rightarrow> inventory option" where
  "createInventoryState company pool product unit =
     (if \<not> list_all identity [JStr company, JStr pool, JStr product] \<or> unit \<notin> set UNITS then None
      else Some \<lparr>iv_company = company, iv_pool = pool, iv_product = product, iv_base_unit = unit, iv_revision = 0,
        iv_on_hand = js ''0'', iv_reservations = [], iv_packaging = [], iv_observations = []\<rparr>)"

text \<open>The exceptions of the decimal functions and of the digest end in the reducer's \<open>catch\<close>.\<close>

definition parse3 :: "jval \<Rightarrow> bool \<Rightarrow> inventory_issue + int" where
  "parse3 v neg = map_err (\<lambda>_. Invalid) (parseDecimal v 3 neg)"

definition format3 :: "int \<Rightarrow> inventory_issue + jstr" where
  "format3 n = map_err (\<lambda>_. Invalid) (formatDecimal n 3)"

definition digest :: "jstr option \<Rightarrow> inventory_issue + jstr" where
  "digest d = require Invalid d"

definition check_event :: "inventory \<Rightarrow> jval \<Rightarrow> inventory_issue + int" where
  "check_event s e =
     (if list_all (\<lambda>k. identity (ev e k)) [''company_id'', ''pool_id'', ''source_id'', ''observation_id'']
      then case safe_integer (ev e ''expected_revision'') of
          None \<Rightarrow> Inl Invalid
        | Some expected \<Rightarrow>
            if 0 \<le> expected \<and> 0 \<le> iv_revision s \<and> iv_revision s \<le> MAX_SAFE then Inr expected else Inl Invalid
      else Inl Invalid)"

definition in_scope :: "inventory \<Rightarrow> jval \<Rightarrow> bool" where
  "in_scope s e \<longleftrightarrow> ev e ''company_id'' = JStr (iv_company s) \<and> ev e ''pool_id'' = JStr (iv_pool s)"

definition is_kind :: "jval \<Rightarrow> string \<Rightarrow> bool" where
  "is_kind e k \<longleftrightarrow> ev e ''kind'' = JStr (js k)"

definition allowed_members :: "jval \<Rightarrow> string list" where
  "allowed_members e =
     [''company_id'', ''pool_id'', ''source_id'', ''observation_id'', ''expected_revision'', ''occurred_at'', ''kind''] @
     (if is_kind e ''packaging'' then [''packaging'']
      else [''quantity'', ''unit'', ''packaging_pin''] @
        (if is_kind e ''receive'' \<or> is_kind e ''adjust'' then [''reason''] else [''reservation_id'']))"

definition known_members :: "jval \<Rightarrow> bool" where
  "known_members e =
     (case object_of e of None \<Rightarrow> True | Some kvs \<Rightarrow> list_all (\<lambda>kv. fst kv \<in> set (map js (allowed_members e))) kvs)"

text \<open>\<open>Object.keys(v).sort().join(',')\<close> of an object\<close>

definition member_names :: "jval \<Rightarrow> jstr" where
  "member_names v = (case object_of v of None \<Rightarrow> [] | Some kvs \<Rightarrow> join_comma (sort (map fst kvs)))"

definition observation_key :: "jval \<Rightarrow> jstr option" where
  "observation_key e = inventoryKey [ev e ''company_id'', ev e ''source_id'', ev e ''observation_id'']"

definition observed :: "inventory \<Rightarrow> jstr \<Rightarrow> jstr \<Rightarrow> inventory" where
  "observed s key h =
     s\<lparr>iv_revision := iv_revision s + 1, iv_observations := AList.update key h (iv_observations s)\<rparr>"

definition apply_packaging :: "inventory \<Rightarrow> inventory \<Rightarrow> jval \<Rightarrow> inventory_issue + inventory" where
  "apply_packaging s next e =
     (let pack = ev e ''packaging'' in
      if \<not> truthy pack \<or>
        member_names pack \<noteq> js ''base_unit,base_units_per_pack,company_id,pack_unit,packaging_id,product_id,version'' \<or>
        \<not> identity (ev pack ''packaging_id'') \<or> \<not> identity (ev pack ''version'')
      then Inl Invalid
      else if ev pack ''company_id'' \<noteq> JStr (iv_company s) \<or> ev pack ''product_id'' \<noteq> JStr (iv_product s) \<or>
        ev pack ''base_unit'' \<noteq> JStr (iv_base_unit s)
      then Inl WrongScope
      else if \<not> supported_unit (ev pack ''pack_unit'') \<or> strict_eq (ev pack ''pack_unit'') (ev pack ''base_unit'')
      then Inl UnitMismatch
      else
        ebind (parse3 (ev pack ''base_units_per_pack'') False) (\<lambda>per.
        if per \<le> 0 then Inl Invalid
        else
          ebind (digest (inventoryKey [ev pack ''packaging_id'', ev pack ''version''])) (\<lambda>key.
          ebind (case map_of (iv_packaging next) key of
              None \<Rightarrow> Inr ()
            | Some old \<Rightarrow>
                ebind (digest (packagingDigest (JObj old))) (\<lambda>a.
                ebind (digest (packagingDigest pack)) (\<lambda>b. guard (a = b) PackagingConflict))) (\<lambda>_.
          ebind (require Invalid (object_of pack)) (\<lambda>kvs.
          Inr (next\<lparr>iv_packaging := AList.update key kvs (iv_packaging next)\<rparr>))))))"

text \<open>
  \<open>/^[0-9a-f]{64}$/.test(v)\<close> converts \<open>v\<close> to a text first: an array of one value prints as that value, and no
  other value of JSON prints as 64 hexadecimal digits.
\<close>

fun printed_text :: "jval \<Rightarrow> jstr option" where
  "printed_text (JStr s) = Some s"
| "printed_text (JArr [v]) = printed_text v"
| "printed_text _ = None"

definition hex64_test :: "jval \<Rightarrow> bool" where
  "hex64_test v = (case printed_text v of None \<Rightarrow> False | Some s \<Rightarrow> hex64 s)"

text \<open>A quantity in pack units, in base units: the pinned packaging revision must be the registered one.\<close>

definition convert_quantity :: "inventory \<Rightarrow> jval \<Rightarrow> int \<Rightarrow> inventory_issue + int" where
  "convert_quantity s e quantity =
     (let pin = ev e ''packaging_pin'' in
      if \<not> truthy pin \<or> member_names pin \<noteq> js ''digest,packaging_id,version'' \<or> \<not> identity (ev pin ''packaging_id'') \<or>
        \<not> identity (ev pin ''version'') \<or> \<not> hex64_test (ev pin ''digest'')
      then Inl UnknownPackaging
      else
        ebind (digest (inventoryKey [ev pin ''packaging_id'', ev pin ''version''])) (\<lambda>key.
        case map_of (iv_packaging s) key of
          None \<Rightarrow> Inl UnknownPackaging
        | Some pack \<Rightarrow>
            ebind (digest (packagingDigest (JObj pack))) (\<lambda>h.
            if ev pin ''digest'' \<noteq> JStr h then Inl PackagingConflict
            else if \<not> strict_eq (member pack (js ''pack_unit'')) (ev e ''unit'') \<or>
              member pack (js ''base_unit'') \<noteq> JStr (iv_base_unit s)
            then Inl UnitMismatch
            else
              ebind (parse3 (member pack (js ''base_units_per_pack'')) False) (\<lambda>per.
              if quantity * per mod 1000 \<noteq> 0 then Inl Invalid else Inr (quantity * per div 1000)))))"

definition STOCK_KINDS :: "string list" where
  "STOCK_KINDS = [''receive'', ''adjust'', ''reserve'', ''release'', ''fulfill'']"

definition has_member :: "jval \<Rightarrow> string \<Rightarrow> bool" where
  "has_member e k = (case object_of e of None \<Rightarrow> False | Some kvs \<Rightarrow> js k \<in> fst ` set kvs)"

definition event_quantity :: "inventory \<Rightarrow> jval \<Rightarrow> inventory_issue + int" where
  "event_quantity s e =
     (if \<not> list_ex (is_kind e) STOCK_KINDS then Inl Invalid
      else if has_member e ''reason'' \<and> ev e ''reason'' \<noteq> JUndef \<and> \<not> identity (ev e ''reason'') then Inl Invalid
      else if is_kind e ''adjust'' \<and> \<not> identity (ev e ''reason'') then Inl Invalid
      else
        ebind (parse3 (ev e ''quantity'') (is_kind e ''adjust'')) (\<lambda>quantity.
        if quantity = 0 then Inl Invalid
        else if \<not> supported_unit (ev e ''unit'') then Inl UnitMismatch
        else
          ebind
            (if ev e ''unit'' = JStr (iv_base_unit s)
             then if truthy (ev e ''packaging_pin'') then Inl UnitMismatch else Inr quantity
             else convert_quantity s e quantity) (\<lambda>base.
          ebind (format3 base) (\<lambda>_. Inr base))))"

definition reserved_total :: "(jstr \<times> jstr) list \<Rightarrow> inventory_issue + int" where
  "reserved_total rs = ebind (traverse (\<lambda>r. parse3 (JStr (snd r)) False) rs) (\<lambda>ns. Inr (sum_list ns))"

definition reserved_under :: "inventory \<Rightarrow> jstr \<Rightarrow> inventory_issue + int" where
  "reserved_under s key =
     (case map_of (iv_reservations s) key of None \<Rightarrow> Inr 0 | Some t \<Rightarrow> parse3 (JStr t) False)"

definition with_on_hand :: "inventory \<Rightarrow> int \<Rightarrow> inventory_issue + inventory" where
  "with_on_hand s n = ebind (format3 n) (\<lambda>t. Inr (s\<lparr>iv_on_hand := t\<rparr>))"

definition with_reservation :: "inventory \<Rightarrow> jstr \<Rightarrow> int \<Rightarrow> inventory_issue + inventory" where
  "with_reservation s key n = ebind (format3 n) (\<lambda>t. Inr (s\<lparr>iv_reservations := AList.update key t (iv_reservations s)\<rparr>))"

text \<open>The three movements of a reservation, as the steps of the handler.\<close>

definition reserve_more :: "inventory \<Rightarrow> jstr \<Rightarrow> int \<Rightarrow> int \<Rightarrow> int \<Rightarrow> inventory_issue + inventory" where
  "reserve_more next key current quantity onHand =
     ebind (with_reservation next key (current + quantity)) (\<lambda>next'. with_on_hand next' onHand)"

definition reserve_less :: "inventory \<Rightarrow> jstr \<Rightarrow> int \<Rightarrow> int \<Rightarrow> int \<Rightarrow> inventory_issue + inventory" where
  "reserve_less next key current quantity onHand =
     ebind
       (if current - quantity = 0
        then Inr (next\<lparr>iv_reservations := AList.delete key (iv_reservations next)\<rparr>)
        else with_reservation next key (current - quantity)) (\<lambda>next'. with_on_hand next' onHand)"

definition apply_reservation :: "inventory \<Rightarrow> inventory \<Rightarrow> jval \<Rightarrow> int \<Rightarrow> int \<Rightarrow> int \<Rightarrow> inventory_issue + inventory" where
  "apply_reservation s next e quantity onHand reserved =
     (if \<not> identity (ev e ''reservation_id'') then Inl Invalid
      else
        ebind (digest (inventoryKey [ev e ''reservation_id''])) (\<lambda>key.
        ebind (reserved_under s key) (\<lambda>current.
        if is_kind e ''reserve'' then
          if quantity > onHand - reserved then Inl InsufficientStock
          else reserve_more next key current quantity onHand
        else if quantity > current then Inl InsufficientReservation
        else reserve_less next key current quantity (if is_kind e ''fulfill'' then onHand - quantity else onHand))))"

definition apply_stock :: "inventory \<Rightarrow> inventory \<Rightarrow> jval \<Rightarrow> int \<Rightarrow> inventory_issue + inventory" where
  "apply_stock s next e quantity =
     ebind (parse3 (JStr (iv_on_hand s)) False) (\<lambda>onHand.
     ebind (reserved_total (iv_reservations s)) (\<lambda>reserved.
     if reserved > onHand then Inl Invalid
     else if is_kind e ''receive'' \<or> is_kind e ''adjust'' then
       if onHand + quantity < reserved then Inl InsufficientStock
       else with_on_hand next (onHand + quantity)
     else apply_reservation s next e quantity onHand reserved))"

definition applyInventoryEvent :: "inventory \<Rightarrow> jval \<Rightarrow> inventory_result" where
  "applyInventoryEvent s e =
     ebind (check_event s e) (\<lambda>expected.
     if \<not> in_scope s e then Inl WrongScope
     else if \<not> utc_time (ev e ''occurred_at'') then Inl Invalid
     else if \<not> known_members e then Inl Invalid
     else
       ebind (digest (digestOf e)) (\<lambda>eventHash.
       ebind (digest (observation_key e)) (\<lambda>key.
       case map_of (iv_observations s) key of
         Some h \<Rightarrow> if h = eventHash then Inr (True, s) else Inl ObservationConflict
       | None \<Rightarrow>
           if iv_revision s \<ge> MAX_SAFE then Inl Invalid
           else if expected \<noteq> iv_revision s then Inl RevisionConflict
           else
             let next = observed s key eventHash in
             map_sum id (Pair False)
               (if is_kind e ''packaging'' then apply_packaging s next e
                else ebind (event_quantity s e) (\<lambda>quantity. apply_stock s next e quantity)))))"

text \<open>The state that the caller persists: of a refused event, the state as it was.\<close>

definition after_event :: "inventory \<Rightarrow> jval \<Rightarrow> inventory" where
  "after_event s e = (case applyInventoryEvent s e of Inl _ \<Rightarrow> s | Inr (_, s') \<Rightarrow> s')"

subsection \<open>Well-formed stock\<close>

lemma parse3_ok [ok_iff]: "parse3 v neg = Inr n \<longleftrightarrow> parseDecimal v 3 neg = Inr n"
  by (simp add: parse3_def)

lemma format3_ok [ok_iff]: "format3 n = Inr t \<longleftrightarrow> formatDecimal n 3 = Inr t"
  by (simp add: format3_def)

lemma digest_ok [ok_iff]: "digest d = Inr h \<longleftrightarrow> d = Some h"
  by (simp add: digest_def ok_iff)

lemma is_kind_unique: "is_kind e k \<Longrightarrow> is_kind e k' \<longleftrightarrow> k' = k"
  by (auto simp: is_kind_def)

definition packs_ok :: "inventory \<Rightarrow> bool" where
  "packs_ok s \<longleftrightarrow> (\<forall>(k, pack) \<in> set (iv_packaging s).
     \<exists>per. parse3 (member pack (js ''base_units_per_pack'')) False = Inr per \<and> 0 < per)"

text \<open>On-hand stock and the sum of the reservations, in thousandths.\<close>

definition stock :: "inventory \<Rightarrow> int \<Rightarrow> int \<Rightarrow> bool" where
  "stock s h r \<longleftrightarrow> parse3 (JStr (iv_on_hand s)) False = Inr h \<and> reserved_total (iv_reservations s) = Inr r"

definition positive_reservations :: "inventory \<Rightarrow> bool" where
  "positive_reservations s \<longleftrightarrow>
     distinct (map fst (iv_reservations s)) \<and>
     (\<forall>(k, t) \<in> set (iv_reservations s). \<exists>n. parse3 (JStr t) False = Inr n \<and> 0 < n)"

definition inventory_ok :: "inventory \<Rightarrow> bool" where
  "inventory_ok s \<longleftrightarrow> packs_ok s \<and> positive_reservations s \<and> (\<exists>h r. stock s h r \<and> r \<le> h)"

lemma reserved_total_Nil [simp]: "reserved_total [] = Inr 0"
  by (simp add: reserved_total_def)

lemma reserved_total_Cons:
  "reserved_total (x # xs) = Inr t \<longleftrightarrow> (\<exists>n m. parse3 (JStr (snd x)) False = Inr n \<and> reserved_total xs = Inr m \<and> t = n + m)"
  by (auto simp: reserved_total_def ebind_ok)

lemma reserved_total_update:
  assumes "parse3 (JStr u) False = Inr n"
  shows "reserved_total rs = Inr t \<Longrightarrow>
     (case map_of rs k of None \<Rightarrow> Inr 0 | Some v \<Rightarrow> parse3 (JStr v) False) = Inr m \<Longrightarrow>
     reserved_total (AList.update k u rs) = Inr (t - m + n)"
proof (induction rs arbitrary: t)
  case Nil
  then show ?case using assms by (simp add: reserved_total_Cons)
next
  case (Cons x rs)
  obtain a b where x: "parse3 (JStr (snd x)) False = Inr a" "reserved_total rs = Inr b" "t = a + b"
    using Cons.prems(1) by (auto simp: reserved_total_Cons)
  show ?case
  proof (cases "fst x = k")
    case True
    then have "m = a" using Cons.prems(2) x(1) by (cases x) simp
    then show ?thesis using True x assms by (simp add: reserved_total_Cons)
  next
    case False
    then have "reserved_total (AList.update k u rs) = Inr (b - m + n)" using Cons.prems(2) x by (intro Cons.IH) (cases x, simp)+
    then show ?thesis using False x by (simp add: reserved_total_Cons)
  qed
qed

lemma reserved_total_delete:
  "reserved_total rs = Inr t \<Longrightarrow> distinct (map fst rs) \<Longrightarrow>
     (case map_of rs k of None \<Rightarrow> Inr 0 | Some v \<Rightarrow> parse3 (JStr v) False) = Inr m \<Longrightarrow>
     reserved_total (AList.delete k rs) = Inr (t - m)"
proof (induction rs arbitrary: t)
  case (Cons x rs)
  obtain a b where x: "parse3 (JStr (snd x)) False = Inr a" "reserved_total rs = Inr b" "t = a + b"
    using Cons.prems(1) by (auto simp: reserved_total_Cons)
  show ?case
  proof (cases "fst x = k")
    case True
    then have "m = a" "k \<notin> fst ` set rs" using Cons.prems(2,3) x(1) by (cases x, simp)+
    then show ?thesis using True x by (simp add: delete_id)
  next
    case False
    then have "reserved_total (AList.delete k rs) = Inr (b - m)" using Cons.prems(2,3) x by (intro Cons.IH) (cases x, simp)+
    then show ?thesis using False x by (cases x) (simp add: reserved_total_Cons)
  qed
qed simp

lemma reserved_total_nonneg: "reserved_total rs = Inr t \<Longrightarrow> 0 \<le> t"
  by (induction rs arbitrary: t) (auto simp: reserved_total_Cons ok_iff dest: parse_nonneg)

lemma set_update_subset: "set (AList.update k v xs) \<subseteq> insert (k, v) (set xs)"
  by (induction xs) auto

lemma set_delete_subset: "set (AList.delete k xs) \<subseteq> set xs"
  by (induction xs) auto

lemma positive_update:
  assumes "positive_reservations s" "formatDecimal n 3 = Inr t" "0 < n"
  shows "positive_reservations (s\<lparr>iv_reservations := AList.update k t (iv_reservations s)\<rparr>)"
proof -
  have "parse3 (JStr t) False = Inr n" using parse_formatted_nonneg [OF assms(2)] assms(3) by (simp add: ok_iff)
  then show ?thesis
    using assms(1,3) set_update_subset [of k t "iv_reservations s"]
    by (fastforce simp: positive_reservations_def distinct_update)
qed

lemma positive_delete:
  "positive_reservations s \<Longrightarrow> positive_reservations (s\<lparr>iv_reservations := AList.delete k (iv_reservations s)\<rparr>)"
  using set_delete_subset [of k "iv_reservations s"] by (auto simp: positive_reservations_def distinct_delete)

lemma positive_observed [simp]: "positive_reservations (observed s k h) = positive_reservations s"
  by (simp add: positive_reservations_def observed_def)

lemma observed_simps [simp]:
  "iv_reservations (observed s k h) = iv_reservations s" "iv_on_hand (observed s k h) = iv_on_hand s"
  "iv_packaging (observed s k h) = iv_packaging s" "iv_company (observed s k h) = iv_company s"
  "iv_pool (observed s k h) = iv_pool s" "iv_product (observed s k h) = iv_product s"
  "iv_base_unit (observed s k h) = iv_base_unit s" "iv_revision (observed s k h) = iv_revision s + 1"
  "iv_observations (observed s k h) = AList.update k h (iv_observations s)"
  by (simp_all add: observed_def)

text \<open>An event's quantity in base units is never zero, and negative only in a correction.\<close>

lemma event_quantity_sign:
  assumes "packs_ok s" "event_quantity s e = Inr q"
  shows "q \<noteq> 0 \<and> (\<not> is_kind e ''adjust'' \<longrightarrow> 0 < q)"
proof -
  obtain n where n: "parseDecimal (ev e ''quantity'') 3 (is_kind e ''adjust'') = Inr n" "n \<noteq> 0"
    and q: "q = n \<or> convert_quantity s e n = Inr q"
    using assms(2) by (auto simp: event_quantity_def ok_iff if_Inl_ok split: if_splits)
  have sign: "\<not> is_kind e ''adjust'' \<Longrightarrow> 0 < n" using n parse_nonneg by fastforce
  from q show ?thesis
  proof
    assume "convert_quantity s e n = Inr q"
    then obtain key pack per where pack: "map_of (iv_packaging s) key = Some pack"
        "parseDecimal (member pack (js ''base_units_per_pack'')) 3 False = Inr per" "n * per mod 1000 = 0" "q = n * per div 1000"
      by (auto simp: convert_quantity_def Let_def ok_iff if_Inl_ok split: option.splits)
    have "0 < per" using assms(1) map_of_SomeD [OF pack(1)] pack(2) by (fastforce simp: packs_ok_def ok_iff)
    moreover have "n * per = 1000 * q" using pack(3,4) by (metis mult.commute div_mult_mod_eq add.right_neutral)
    ultimately show ?thesis using sign n(2) by (metis mult_eq_0_iff mult_pos_pos zero_less_mult_pos zero_less_numeral less_irrefl)
  qed (use sign n(2) in simp)
qed

text \<open>What an event of a kind does to the stock: on hand, reserved.\<close>

definition stock_change :: "jval \<Rightarrow> int \<Rightarrow> int \<times> int" where
  "stock_change e q =
     (if is_kind e ''receive'' \<or> is_kind e ''adjust'' then (q, 0)
      else if is_kind e ''reserve'' then (0, q)
      else if is_kind e ''fulfill'' then (- q, - q)
      else (0, - q))"

definition stock_step :: "inventory \<Rightarrow> inventory \<Rightarrow> jval \<Rightarrow> int \<Rightarrow> bool" where
  "stock_step s s' e q \<longleftrightarrow> (\<forall>h r. stock s h r \<longrightarrow>
     (case stock_change e q of (dh, dr) \<Rightarrow> stock s' (h + dh) (r + dr) \<and> r + dr \<le> h + dh))"

lemma with_on_hand_stock:
  assumes "with_on_hand s n = Inr s'" "reserved_total (iv_reservations s) = Inr r" "0 \<le> n"
  shows "stock s' n r \<and> iv_reservations s' = iv_reservations s \<and> iv_packaging s' = iv_packaging s \<and>
     iv_revision s' = iv_revision s \<and> iv_observations s' = iv_observations s"
  using assms parse_formatted_nonneg by (auto simp: with_on_hand_def stock_def ok_iff)

lemma with_reservation_stock:
  assumes "with_reservation s k n = Inr s'" "positive_reservations s" "0 < n"
    and "reserved_total (iv_reservations s) = Inr r" "reserved_under s k = Inr m"
  shows "positive_reservations s' \<and> reserved_total (iv_reservations s') = Inr (r - m + n) \<and> iv_packaging s' = iv_packaging s"
proof -
  obtain t where t: "formatDecimal n 3 = Inr t" "s' = s\<lparr>iv_reservations := AList.update k t (iv_reservations s)\<rparr>"
    using assms(1) by (auto simp: with_reservation_def ok_iff)
  have "parse3 (JStr t) False = Inr n" using parse_formatted_nonneg [OF t(1)] assms(3) by (simp add: ok_iff)
  then show ?thesis
    using t positive_update [OF assms(2) t(1) assms(3)] reserved_total_update assms(4,5) by (simp add: reserved_under_def)
qed

lemma reserved_under_le:
  assumes "reserved_total (iv_reservations s) = Inr r" "reserved_under s k = Inr m"
    and "distinct (map fst (iv_reservations s))"
  shows "0 \<le> m \<and> m \<le> r"
proof -
  have "reserved_total (AList.delete k (iv_reservations s)) = Inr (r - m)"
    using reserved_total_delete assms by (simp add: reserved_under_def)
  then have "m \<le> r" using reserved_total_nonneg by fastforce
  moreover have "0 \<le> m"
    using assms(2) parse_nonneg by (fastforce simp: reserved_under_def ok_iff split: option.splits)
  ultimately show ?thesis by simp
qed

lemma reserve_more_step:
  assumes "reserve_more next key m q h = Inr s'" "positive_reservations next" "0 < q"
    and "reserved_total (iv_reservations next) = Inr r" "reserved_under next key = Inr m" "r + q \<le> h"
  shows "stock s' h (r + q) \<and> positive_reservations s' \<and> iv_packaging s' = iv_packaging next"
proof -
  obtain n' where n': "with_reservation next key (m + q) = Inr n'" "with_on_hand n' h = Inr s'"
    using assms(1) by (auto simp: reserve_more_def ok_iff)
  have m: "0 \<le> m" "m \<le> r" using reserved_under_le assms(2,4,5) by (auto simp: positive_reservations_def)
  have "positive_reservations n' \<and> reserved_total (iv_reservations n') = Inr (r + q) \<and> iv_packaging n' = iv_packaging next"
    using with_reservation_stock [OF n'(1) assms(2) _ assms(4,5)] m assms(3) by simp
  then show ?thesis
    using with_on_hand_stock [OF n'(2)] m assms(3,6) by (auto simp: positive_reservations_def)
qed

lemma reserve_less_step:
  assumes "reserve_less next key m q h = Inr s'" "positive_reservations next" "q \<le> m" "0 \<le> h"
    and "reserved_total (iv_reservations next) = Inr r" "reserved_under next key = Inr m"
  shows "stock s' h (r - q) \<and> positive_reservations s' \<and> iv_packaging s' = iv_packaging next"
proof -
  obtain n' where n': "(if m - q = 0 then Inr (next\<lparr>iv_reservations := AList.delete key (iv_reservations next)\<rparr>)
      else with_reservation next key (m - q)) = Inr n'" "with_on_hand n' h = Inr s'"
    using assms(1) by (auto simp: reserve_less_def ok_iff)
  have "positive_reservations n' \<and> reserved_total (iv_reservations n') = Inr (r - q) \<and> iv_packaging n' = iv_packaging next"
  proof (cases "m = q")
    case True
    then have n: "n' = next\<lparr>iv_reservations := AList.delete key (iv_reservations next)\<rparr>" using n'(1) by simp
    have "reserved_total (AList.delete key (iv_reservations next)) = Inr (r - q)"
      using reserved_total_delete [OF assms(5)] assms(2,6) True by (simp add: positive_reservations_def reserved_under_def)
    then show ?thesis using positive_delete assms(2) by (simp add: n)
  next
    case False
    then have "with_reservation next key (m - q) = Inr n'" using n'(1) by simp
    then show ?thesis using with_reservation_stock [OF _ assms(2) _ assms(5,6)] False assms(3) by fastforce
  qed
  then show ?thesis
    using with_on_hand_stock [OF n'(2)] assms(4) by (auto simp: positive_reservations_def)
qed

lemma apply_reservation_step:
  assumes "apply_reservation s next e q h r = Inr s'" "positive_reservations s" "0 < q" "stock s h r" "r \<le> h"
    and "iv_reservations next = iv_reservations s" "iv_packaging next = iv_packaging s"
    and "is_kind e ''reserve'' \<or> is_kind e ''release'' \<or> is_kind e ''fulfill''"
  shows "(case stock_change e q of (dh, dr) \<Rightarrow> stock s' (h + dh) (r + dr) \<and> r + dr \<le> h + dh) \<and>
     positive_reservations s' \<and> iv_packaging s' = iv_packaging s"
proof -
  have nx: "positive_reservations next" "reserved_total (iv_reservations next) = Inr r"
      "reserved_under next = reserved_under s" "0 \<le> r"
    using assms(2,4,6) reserved_total_nonneg by (auto simp: positive_reservations_def stock_def reserved_under_def fun_eq_iff)
  obtain key m where m: "reserved_under s key = Inr m"
    and rest: "(if is_kind e ''reserve'' then
          if q > h - r then Inl InsufficientStock else reserve_more next key m q h
        else if q > m then Inl InsufficientReservation
        else reserve_less next key m q (if is_kind e ''fulfill'' then h - q else h)) = Inr s'"
    using assms(1) by (auto simp: apply_reservation_def ok_iff if_Inl_ok)
  have le: "m \<le> r" using reserved_under_le [OF _ m] assms(2,4) by (simp add: stock_def positive_reservations_def)
  show ?thesis
  proof (cases "is_kind e ''reserve''")
    case True
    then have "reserve_more next key m q h = Inr s'" "q \<le> h - r" using rest by (auto split: if_splits)
    then show ?thesis
      using True reserve_more_step nx m assms(3,7) by (fastforce simp: stock_change_def is_kind_unique [OF True])
  next
    case False
    then have less: "reserve_less next key m q (if is_kind e ''fulfill'' then h - q else h) = Inr s'" "q \<le> m"
      using rest by (auto split: if_splits)
    have "stock s' (if is_kind e ''fulfill'' then h - q else h) (r - q) \<and> positive_reservations s' \<and> iv_packaging s' = iv_packaging next"
      using less m nx assms(5) le by (intro reserve_less_step) auto
    moreover have "\<not> is_kind e ''receive''" "\<not> is_kind e ''adjust''"
      using assms(8) False is_kind_unique by auto
    ultimately show ?thesis using False le less(2) assms(3,5,7) by (auto simp: stock_change_def split: if_splits)
  qed
qed

lemma apply_stock_step:
  assumes "apply_stock s next e q = Inr s'" "positive_reservations s" "q \<noteq> 0" "\<not> is_kind e ''adjust'' \<longrightarrow> 0 < q"
    and "stock s h r" "iv_reservations next = iv_reservations s" "iv_packaging next = iv_packaging s"
    and "list_ex (is_kind e) STOCK_KINDS"
  shows "(case stock_change e q of (dh, dr) \<Rightarrow> stock s' (h + dh) (r + dr) \<and> r + dr \<le> h + dh) \<and>
     positive_reservations s' \<and> iv_packaging s' = iv_packaging s"
proof -
  have r: "r \<le> h" "0 \<le> r" and rest: "(if is_kind e ''receive'' \<or> is_kind e ''adjust'' then
       if h + q < r then Inl InsufficientStock else with_on_hand next (h + q)
     else apply_reservation s next e q h r) = Inr s'"
    using assms(1,5) reserved_total_nonneg by (auto simp: apply_stock_def stock_def ok_iff if_Inl_ok)
  show ?thesis
  proof (cases "is_kind e ''receive'' \<or> is_kind e ''adjust''")
    case True
    then have "with_on_hand next (h + q) = Inr s'" "r \<le> h + q" using rest by (auto split: if_splits)
    then show ?thesis
      using True with_on_hand_stock assms(2,5,6,7) r by (fastforce simp: stock_change_def stock_def positive_reservations_def)
  next
    case False
    then have "apply_reservation s next e q h r = Inr s'" using rest by simp
    then show ?thesis
      by (rule apply_reservation_step) (use assms False r in \<open>auto simp: STOCK_KINDS_def\<close>)
  qed
qed

lemma apply_packaging_keeps:
  assumes "apply_packaging s next e = Inr s'"
  shows "iv_reservations s' = iv_reservations next \<and> iv_on_hand s' = iv_on_hand next \<and> (packs_ok next \<longrightarrow> packs_ok s')"
proof -
  obtain key kvs per where p: "s' = next\<lparr>iv_packaging := AList.update key kvs (iv_packaging next)\<rparr>"
      "object_of (ev e ''packaging'') = Some kvs" "parse3 (ev (ev e ''packaging'') ''base_units_per_pack'') False = Inr per" "0 < per"
    using assms by (auto simp: apply_packaging_def Let_def ok_iff if_Inl_ok)
  have "ev (ev e ''packaging'') ''base_units_per_pack'' = member kvs (js ''base_units_per_pack'')"
    using p(2) by (simp add: ev_def [of "JObj kvs"])
  then show ?thesis using p set_update_subset [of key kvs "iv_packaging next"] by (fastforce simp: packs_ok_def)
qed

subsection \<open>Accepted events\<close>

text \<open>What an accepted event does.  A duplicate changes nothing; any other event is recorded and counted once.\<close>

lemma apply_event_cases:
  assumes "applyInventoryEvent s e = Inr (dup, s')"
  obtains (duplicate) key h where "dup" "s' = s" "map_of (iv_observations s) key = Some h" "digestOf e = Some h"
      "observation_key e = Some key"
  | (applied) key h where "\<not> dup" "digestOf e = Some h" "observation_key e = Some key"
      "map_of (iv_observations s) key = None" "iv_revision s < MAX_SAFE" "safe_integer (ev e ''expected_revision'') = Some (iv_revision s)"
      "(if is_kind e ''packaging'' then apply_packaging s (observed s key h) e
        else ebind (event_quantity s e) (apply_stock s (observed s key h) e)) = Inr s'"
proof -
  obtain expected where expected: "check_event s e = Inr expected" using assms by (auto simp: applyInventoryEvent_def ok_iff)
  then have safe: "safe_integer (ev e ''expected_revision'') = Some expected"
    by (auto simp: check_event_def split: if_splits option.splits)
  obtain h key where hk: "digestOf e = Some h" "observation_key e = Some key"
    using assms expected by (auto simp: applyInventoryEvent_def ok_iff if_Inl_ok)
  show thesis
  proof (cases "map_of (iv_observations s) key")
    case (Some g)
    then show ?thesis using assms expected hk
      by (auto simp: applyInventoryEvent_def digest_def require_def if_Inl_ok split: if_splits intro: duplicate)
  next
    case None
    then show ?thesis using assms expected safe hk
      by (intro applied [of h key]) (auto simp: applyInventoryEvent_def Let_def digest_def require_def if_Inl_ok map_sum_ok not_le split: if_splits)
  qed
qed

text \<open>Well-formedness is kept by every accepted event, and the stock moves by exactly the event's quantity.\<close>

lemma apply_stock_event:
  assumes "inventory_ok s" "event_quantity s e = Inr q" "apply_stock s (observed s key g) e q = Inr s'"
  shows "stock_step s s' e q \<and> inventory_ok s'"
proof -
  have ok: "packs_ok s" "positive_reservations s" using assms(1) by (auto simp: inventory_ok_def)
  have kind: "list_ex (is_kind e) STOCK_KINDS" using assms(2) by (simp add: event_quantity_def split: if_splits)
  have step: "(case stock_change e q of (dh, dr) \<Rightarrow> stock s' (h + dh) (r + dr) \<and> r + dr \<le> h + dh) \<and>
     positive_reservations s' \<and> iv_packaging s' = iv_packaging s" if "stock s h r" for h r
    by (rule apply_stock_step [OF assms(3) ok(2)]) (use event_quantity_sign [OF ok(1) assms(2)] kind that in auto)
  obtain h r where "stock s h r" using assms(1) by (auto simp: inventory_ok_def)
  then have "inventory_ok s'" using step [of h r] ok(1) by (auto simp: inventory_ok_def packs_ok_def split: prod.splits)
  then show ?thesis using step by (auto simp: stock_step_def)
qed

lemma apply_event_keeps:
  assumes "inventory_ok s" "applyInventoryEvent s e = Inr (dup, s')"
  shows "inventory_ok s'"
  using assms(2)
proof (cases rule: apply_event_cases)
  case duplicate
  then show ?thesis using assms(1) by simp
next
  case (applied key h)
  show ?thesis
  proof (cases "is_kind e ''packaging''")
    case True
    then have "apply_packaging s (observed s key h) e = Inr s'" using applied by simp
    from apply_packaging_keeps [OF this] show ?thesis
      using assms(1) by (auto simp: inventory_ok_def packs_ok_def positive_reservations_def stock_def)
  next
    case False
    then show ?thesis using applied apply_stock_event [OF assms(1)] by (auto simp: ok_iff)
  qed
qed

lemma parse_zero: "parseDecimal (JStr (js ''0'')) 3 False = Inr 0"
proof (rule parse_formatted_nonneg)
  show "formatDecimal 0 3 = Inr (js ''0'')" by code_simp
qed simp

lemma createInventoryState_ok: "createInventoryState c p r u = Some s \<Longrightarrow> inventory_ok s"
  by (auto simp: createInventoryState_def inventory_ok_def packs_ok_def positive_reservations_def stock_def ok_iff parse_zero
    split: if_splits)

lemma after_event_keeps: "inventory_ok s \<Longrightarrow> inventory_ok (after_event s e)"
  using apply_event_keeps [of s e] by (auto simp: after_event_def split: sum.splits)

lemma after_events_keep: "inventory_ok s \<Longrightarrow> inventory_ok (foldl after_event s es)"
  by (induction es arbitrary: s) (simp_all add: after_event_keeps)

subsection \<open>Redelivery\<close>

text \<open>The reducer has seen the event: it answers with a duplicate and changes nothing.\<close>

definition seen :: "inventory \<Rightarrow> jval \<Rightarrow> bool" where
  "seen s e \<longleftrightarrow> applyInventoryEvent s e = Inr (True, s)"

lemma seen_iff:
  "seen s e \<longleftrightarrow> (\<exists>h key expected. check_event s e = Inr expected \<and> in_scope s e \<and> utc_time (ev e ''occurred_at'') \<and>
     known_members e \<and> digestOf e = Some h \<and> observation_key e = Some key \<and> map_of (iv_observations s) key = Some h)"
proof
  assume "seen s e"
  then have a: "applyInventoryEvent s e = Inr (True, s)" by (simp add: seen_def)
  then show "\<exists>h key expected. check_event s e = Inr expected \<and> in_scope s e \<and> utc_time (ev e ''occurred_at'') \<and>
     known_members e \<and> digestOf e = Some h \<and> observation_key e = Some key \<and> map_of (iv_observations s) key = Some h"
    by (cases rule: apply_event_cases) (use a in \<open>auto simp: applyInventoryEvent_def ok_iff if_Inl_ok\<close>)
qed (auto simp: seen_def applyInventoryEvent_def digest_def require_def)

text \<open>The fields that only \<open>observed\<close> sets.\<close>

definition same_frame :: "inventory \<Rightarrow> inventory \<Rightarrow> bool" where
  "same_frame s s' \<longleftrightarrow> iv_observations s' = iv_observations s \<and> iv_revision s' = iv_revision s \<and>
     iv_company s' = iv_company s \<and> iv_pool s' = iv_pool s \<and> iv_product s' = iv_product s \<and> iv_base_unit s' = iv_base_unit s"

lemma same_frame_trans: "same_frame a b \<Longrightarrow> same_frame b c \<Longrightarrow> same_frame a c"
  by (simp add: same_frame_def)

lemma with_on_hand_frame: "with_on_hand s n = Inr s' \<Longrightarrow> same_frame s s'"
  by (auto simp: with_on_hand_def ok_iff same_frame_def)

lemma with_reservation_frame: "with_reservation s k n = Inr s' \<Longrightarrow> same_frame s s'"
  by (auto simp: with_reservation_def ok_iff same_frame_def)

lemma reserve_more_frame: "reserve_more s k m q h = Inr s' \<Longrightarrow> same_frame s s'"
  unfolding reserve_more_def ebind_ok using same_frame_trans with_on_hand_frame with_reservation_frame by blast

lemma reserve_less_frame:
  assumes "reserve_less s k m q h = Inr s'"
  shows "same_frame s s'"
proof -
  obtain n' where n': "(if m - q = 0 then Inr (s\<lparr>iv_reservations := AList.delete k (iv_reservations s)\<rparr>)
      else with_reservation s k (m - q)) = Inr n'" "with_on_hand n' h = Inr s'"
    using assms by (auto simp: reserve_less_def ebind_ok)
  have "same_frame s n'"
  proof (cases "m - q = 0")
    case True
    then have "n' = s\<lparr>iv_reservations := AList.delete k (iv_reservations s)\<rparr>" using n'(1) by simp
    then show ?thesis by (simp add: same_frame_def)
  next
    case False
    then show ?thesis using n'(1) with_reservation_frame by simp
  qed
  then show ?thesis using with_on_hand_frame [OF n'(2)] same_frame_trans by blast
qed

lemma apply_stock_frame: "apply_stock s next e q = Inr s' \<Longrightarrow> same_frame next s'"
  by (auto simp: apply_stock_def apply_reservation_def ebind_ok if_Inl_ok split: if_splits
    dest: with_on_hand_frame reserve_more_frame reserve_less_frame)

lemma apply_packaging_frame: "apply_packaging s next e = Inr s' \<Longrightarrow> same_frame next s'"
  by (auto simp: apply_packaging_def Let_def ebind_ok if_Inl_ok same_frame_def)

lemma applied_frame:
  assumes "applyInventoryEvent s e = Inr (False, s')"
  obtains key h where "digestOf e = Some h" "observation_key e = Some key" "map_of (iv_observations s) key = None"
    "iv_revision s < MAX_SAFE" "same_frame (observed s key h) s'"
  using assms
proof (cases rule: apply_event_cases)
  case (applied key h)
  have "same_frame (observed s key h) s'"
    using applied(7) apply_packaging_frame apply_stock_frame by (auto simp: ebind_ok split: if_splits)
  then show ?thesis using applied that by simp
qed simp

lemma applied_seen:
  assumes "applyInventoryEvent s e = Inr (dup, s')"
  shows "seen s' e"
proof (cases dup)
  case True
  have "s' = s" using assms by (cases rule: apply_event_cases) (use True in auto)
  then show ?thesis using True assms by (simp add: seen_def)
next
  case False
  then have a: "applyInventoryEvent s e = Inr (False, s')" using assms by simp
  obtain expected where "check_event s e = Inr expected" "in_scope s e" "utc_time (ev e ''occurred_at'')" "known_members e"
    using a by (auto simp: applyInventoryEvent_def ebind_ok if_Inl_ok)
  moreover obtain key h where "digestOf e = Some h" "observation_key e = Some key" "iv_revision s < MAX_SAFE"
      "same_frame (observed s key h) s'"
    using applied_frame [OF a] by metis
  ultimately show ?thesis
    by (auto simp: seen_iff same_frame_def in_scope_def check_event_def update_conv' split: if_splits option.splits)
qed

lemma seen_after:
  assumes "seen s e"
  shows "seen (after_event s x) e"
proof (cases "applyInventoryEvent s x")
  case (Inr r)
  obtain dup s' where r: "r = (dup, s')" by (cases r)
  show ?thesis
  proof (cases dup)
    case True
    have "s' = s" using Inr [unfolded r] True by (cases rule: apply_event_cases) auto
    then show ?thesis using Inr r assms by (simp add: after_event_def)
  next
    case False
    then have "applyInventoryEvent s x = Inr (False, s')" using Inr r by simp
    then obtain key h where k: "map_of (iv_observations s) key = None" "iv_revision s < MAX_SAFE" "same_frame (observed s key h) s'"
      by (rule applied_frame)
    moreover obtain key' h' expected where "check_event s e = Inr expected" "in_scope s e" "utc_time (ev e ''occurred_at'')"
        "known_members e" "digestOf e = Some h'" "observation_key e = Some key'" "map_of (iv_observations s) key' = Some h'"
      using assms by (auto simp: seen_iff)
    moreover from this k(1) have "key' \<noteq> key" by auto
    ultimately have "seen s' e"
      by (auto simp: seen_iff same_frame_def in_scope_def check_event_def update_conv' split: if_splits option.splits)
    then show ?thesis using Inr r by (simp add: after_event_def)
  qed
qed (use assms in \<open>simp add: after_event_def\<close>)

lemma seen_later: "seen s e \<Longrightarrow> seen (foldl after_event s es) e"
  by (induction es arbitrary: s) (simp_all add: seen_after)

subsection \<open>What the profile promises\<close>

definition empty_pool :: inventory where
  "empty_pool = \<lparr>iv_company = js ''acme'', iv_pool = js ''main'', iv_product = js ''apples'', iv_base_unit = js ''lb'',
     iv_revision = 0, iv_on_hand = js ''0'', iv_reservations = [], iv_packaging = [], iv_observations = []\<rparr>"

lemma empty_pool_created:
  "createInventoryState (js ''acme'') (js ''main'') (js ''apples'') (js ''lb'') = Some empty_pool"
  by (simp add: createInventoryState_def empty_pool_def identity_def UNITS_def)

text \<open>C24. 
  Stock is never oversold.  Whatever events the reducer of a new pool is given, in whatever order, the persisted
  on-hand quantity is a valid decimal, every reservation is a positive one held under a key of its own, and the
  reservations together never exceed what is on hand.
\<close>
theorem stock_never_oversold:
  assumes "createInventoryState company pool product unit = Some s"
  shows "\<exists>onHand reserved. stock (foldl after_event s es) onHand reserved \<and> 0 \<le> reserved \<and> reserved \<le> onHand \<and>
     positive_reservations (foldl after_event s es)"
  using after_events_keep [OF createInventoryState_ok [OF assms], of es] reserved_total_nonneg
  by (fastforce simp: inventory_ok_def stock_def)

lemma stock_never_oversold_witness:
  "\<exists>onHand reserved. stock (foldl after_event empty_pool [JNull, JObj []]) onHand reserved \<and> 0 \<le> reserved \<and>
     reserved \<le> onHand \<and> positive_reservations (foldl after_event empty_pool [JNull, JObj []])"
  by (rule stock_never_oversold [OF empty_pool_created])

text \<open>
  Every outcome of the reducer.  A refused event leaves the state as it was and a duplicate changes nothing; any other
  accepted event raises the revision it expected by one, and then a packaging revision leaves the stock alone while a
  stock event moves on-hand and reserved stock by exactly its converted quantity: a receipt or correction adds it to
  the stock on hand, a reservation to the reserved stock, a release takes it off the reserved stock and a fulfilment
  off both.
\<close>
theorem stock_moves_by_events:
  assumes "inventory_ok s"
  shows "case applyInventoryEvent s e of
       Inl _ \<Rightarrow> after_event s e = s
     | Inr (True, s') \<Rightarrow> s' = s
     | Inr (False, s') \<Rightarrow>
         safe_integer (ev e ''expected_revision'') = Some (iv_revision s) \<and> iv_revision s' = iv_revision s + 1 \<and>
         (if is_kind e ''packaging'' then iv_on_hand s' = iv_on_hand s \<and> iv_reservations s' = iv_reservations s
          else \<exists>q. event_quantity s e = Inr q \<and> q \<noteq> 0 \<and> stock_step s s' e q)"
proof (cases "applyInventoryEvent s e")
  case (Inr r)
  obtain dup s' where r: "r = (dup, s')" by (cases r)
  from Inr [unfolded r] show ?thesis
  proof (cases rule: apply_event_cases)
    case (applied key h)
    have "iv_revision s' = iv_revision s + 1"
      using applied_frame [of s e s'] Inr r applied(1) by (fastforce simp: same_frame_def)
    moreover have "if is_kind e ''packaging'' then iv_on_hand s' = iv_on_hand s \<and> iv_reservations s' = iv_reservations s
          else \<exists>q. event_quantity s e = Inr q \<and> q \<noteq> 0 \<and> stock_step s s' e q"
      using applied(7) apply_packaging_keeps [of s "observed s key h" e s'] apply_stock_event [OF assms] event_quantity_sign assms
      by (fastforce simp: inventory_ok_def ok_iff split: if_splits)
    ultimately show ?thesis using Inr r applied by simp
  qed (use Inr r in simp)
qed (simp add: after_event_def)

lemma stock_moves_by_events_witness:
  "inventory_ok empty_pool \<and>
   (case applyInventoryEvent empty_pool (JObj []) of
       Inl _ \<Rightarrow> after_event empty_pool (JObj []) = empty_pool
     | Inr (True, s') \<Rightarrow> s' = empty_pool
     | Inr (False, s') \<Rightarrow>
         safe_integer (ev (JObj []) ''expected_revision'') = Some (iv_revision empty_pool) \<and> iv_revision s' = iv_revision empty_pool + 1 \<and>
         (if is_kind (JObj []) ''packaging'' then iv_on_hand s' = iv_on_hand empty_pool \<and> iv_reservations s' = iv_reservations empty_pool
          else \<exists>q. event_quantity empty_pool (JObj []) = Inr q \<and> q \<noteq> 0 \<and> stock_step empty_pool s' (JObj []) q))"
  using createInventoryState_ok [OF empty_pool_created] stock_moves_by_events by blast

text \<open>
  At-least-once delivery is safe.  Once an event has been accepted, delivering it again after any further events
  changes nothing: its observation stays recorded under the event's own digest.
\<close>
theorem redelivery_ignored:
  "case applyInventoryEvent s e of Inl _ \<Rightarrow> foldl after_event s (e # es) = foldl after_event s es
   | Inr (_, s') \<Rightarrow> foldl after_event s (e # es @ [e]) = foldl after_event s' es"
proof (cases "applyInventoryEvent s e")
  case (Inr r)
  obtain dup s' where r: "r = (dup, s')" by (cases r)
  have "seen (foldl after_event s' es) e" using seen_later applied_seen Inr r by blast
  then show ?thesis using Inr r by (simp add: after_event_def seen_def)
qed (simp add: after_event_def)

end
