(* ===== verification/IdentityControl.thy ===== *)
theory IdentityControl
  imports TextForms Envelope
begin

text \<open>
  \<^verbatim>\<open>sdk/src/foundation/identity.ts\<close>: the control state of an identity, the documents that its owner signs to change
  it, and the leases that its resolver signs.  A document is any value, because the functions test its shape; the
  state is typed, and is copied as the value it has on the wire.  Parameters: \<open>webcrypto_verify\<close>, \<open>ed25519_sign\<close> and
  \<open>sha256Hex\<close> of WebCrypto, and \<open>url_origin\<close>, the origin that the platform's URL parser reads, if it parses at all.
  Instants of the host's clock are integers.
\<close>

datatype identity_refusal =
    ComplexityExceeded | IntegerRequired | TextTooLong | DataRequired | ObjectTooLarge | BadFieldName | DataTooLarge
  | NotCanonical canon_error | ClosedObject | BadTimestamp | BadClock | PlainArray | BoundedArray | BadKey | NotAKey key_error
  | KeysRequired | UniqueKeys | InvalidQuorum | SeparateKeys | PayloadTooLarge | DuplicateSignature | InvalidSignature
  | QuorumRequired | EnrollmentNeedsGenesis | BindingMismatch | EnrollmentExpired | BadNonce | BadResolver | ResolverControls
  | AllKeysMustSign | BarrierPending | StaleHead | UnsupportedTransition | OutsideWindow | RecoveryFixed | OperationalFixed
  | RetiredKey | PossessionRequired | HistoryCapacity | BadAudience | BadIdentity | BadChallenge | NotCurrentResolver
  | EpochMustAdvance | ControllerKey | WrongIdentity | ContextMismatch | AuthorityMismatch | LeaseExpired | BadHead
  | BadPredecessor | BadDigest | UntrustedResolver | DigestMismatch | Rollback | ConflictingCheckpoint

text \<open>A sequence of \<open>need(condition, reason)\<close>.\<close>

fun needs :: "(bool \<times> 'e) list \<Rightarrow> 'e + unit" where
  "needs [] = Inr ()"
| "needs ((ok, reason) # cs) = (if ok then needs cs else Inl reason)"

lemma needs_ok [ok_iff]: "needs cs = Inr u \<longleftrightarrow> list_all fst cs"
  by (induction cs) (auto split: if_splits)

declare needs.simps [simp del]

record key_set =
  ks_keys :: "jstr list"
  ks_threshold :: int

record control =
  co_identity :: jstr
  co_sequence :: int
  co_previous :: "jstr option"
  co_operational :: key_set
  co_recovery :: key_set
  co_effective :: int

record identity_state =
  st_genesis_digest :: jstr
  st_head :: control
  st_head_digest :: jstr
  st_retired :: "jstr list"
  st_resolver :: jstr
  st_resolver_key :: jstr
  st_epoch :: int
  st_last_lease :: int
  st_last_update :: int

definition LEASE_MS :: int where "LEASE_MS = 30000"
definition CLOCK_MARGIN_MS :: int where "CLOCK_MARGIN_MS = 5000"

definition jint :: "int \<Rightarrow> jval" where
  "jint n = JNum (JInt n)"

definition opt_text :: "jstr option \<Rightarrow> jval" where
  "opt_text t = (case t of None \<Rightarrow> JNull | Some s \<Rightarrow> JStr s)"

definition key_set_value :: "key_set \<Rightarrow> jval" where
  "key_set_value ks = JObj [(js ''keys'', JArr (map JStr (ks_keys ks))), (js ''threshold'', jint (ks_threshold ks))]"

definition control_value :: "control \<Rightarrow> jval" where
  "control_value c = JObj
     [(js ''identity_id'', JStr (co_identity c)), (js ''sequence'', jint (co_sequence c)),
      (js ''previous_digest'', opt_text (co_previous c)), (js ''operational'', key_set_value (co_operational c)),
      (js ''recovery'', key_set_value (co_recovery c)), (js ''effective_at'', jint (co_effective c))]"

definition state_value :: "identity_state \<Rightarrow> jval" where
  "state_value s = JObj
     [(js ''genesis_digest'', JStr (st_genesis_digest s)), (js ''head'', control_value (st_head s)),
      (js ''head_digest'', JStr (st_head_digest s)), (js ''retired_keys'', JArr (map JStr (st_retired s))),
      (js ''resolver_id'', JStr (st_resolver s)), (js ''resolver_key'', JStr (st_resolver_key s)),
      (js ''resolver_epoch'', jint (st_epoch s)), (js ''last_lease_expiry'', jint (st_last_lease s)),
      (js ''last_update'', jint (st_last_update s))]"

subsection \<open>Reading a document\<close>

text \<open>
  \<open>copyIdentityData\<close>: the walk counts every value it visits, so the counter is passed along.  The copy of a value of
  JSON is the value itself; accessors, symbols and prototypes do not occur among values.
\<close>

definition FORBIDDEN_NAMES :: "jstr list" where
  "FORBIDDEN_NAMES = map js [''__proto__'', ''constructor'', ''prototype'']"

fun visit :: "nat \<Rightarrow> jval \<Rightarrow> nat \<Rightarrow> identity_refusal + nat"
  and visit_all :: "nat \<Rightarrow> jval list \<Rightarrow> nat \<Rightarrow> identity_refusal + nat"
  and visit_members :: "nat \<Rightarrow> members \<Rightarrow> nat \<Rightarrow> identity_refusal + nat" where
  "visit level v nodes =
     (if nodes + 1 > 16384 \<or> level > 16 then Inl ComplexityExceeded
      else case v of
        JNull \<Rightarrow> Inr (nodes + 1)
      | JBool _ \<Rightarrow> Inr (nodes + 1)
      | JNum _ \<Rightarrow> if safe_integer v = None then Inl IntegerRequired else Inr (nodes + 1)
      | JStr s \<Rightarrow>
          if length s > 4096 then Inl TextTooLong
          else ebind (map_err NotCanonical (canonicalize v)) (\<lambda>_. Inr (nodes + 1))
      | JArr vs \<Rightarrow> if length vs > 4096 then Inl BoundedArray else visit_all (level + 1) vs (nodes + 1)
      | JObj kvs \<Rightarrow> if length kvs > 32 then Inl ObjectTooLarge else visit_members (level + 1) kvs (nodes + 1)
      | _ \<Rightarrow> Inl DataRequired)"
| "visit_all level [] nodes = Inr nodes"
| "visit_all level (v # vs) nodes = ebind (visit level v nodes) (visit_all level vs)"
| "visit_members level [] nodes = Inr nodes"
| "visit_members level ((k, v) # kvs) nodes =
     (if k \<in> set FORBIDDEN_NAMES then Inl BadFieldName else ebind (visit level v nodes) (visit_members level kvs))"

definition copyIdentityData :: "jval \<Rightarrow> identity_refusal + jval" where
  "copyIdentityData v =
     ebind (visit 0 v 0) (\<lambda>_.
     ebind (map_err NotCanonical (canonicalBytes v)) (\<lambda>b.
     if length b \<le> 1024 * 1024 then Inr v else Inl DataTooLarge))"

definition closed_object :: "string list \<Rightarrow> jval \<Rightarrow> bool" where
  "closed_object names v =
     (case object_of v of
        None \<Rightarrow> False
      | Some kvs \<Rightarrow> length kvs = length names \<and> list_all (\<lambda>kv. fst kv \<in> set (map js names)) kvs \<and>
          list_all (\<lambda>k. js k \<in> fst ` set kvs) names)"

text \<open>\<open>timestamp\<close> and \<open>clock\<close>, of a document's member and of the host's clock.\<close>

definition timestamp :: "jval \<Rightarrow> identity_refusal + int" where
  "timestamp v =
     (case safe_integer v of None \<Rightarrow> Inl BadTimestamp | Some n \<Rightarrow> if 0 \<le> n then Inr n else Inl BadTimestamp)"

definition clock_timestamp :: "int \<Rightarrow> identity_refusal + unit" where
  "clock_timestamp now = guard (0 \<le> now \<and> now \<le> MAX_SAFE) BadTimestamp"

definition host_clock :: "int \<Rightarrow> identity_refusal + unit" where
  "host_clock now = needs [(0 \<le> now \<and> now \<le> MAX_SAFE, BadTimestamp), (now \<le> MAX_SAFE - 300000, BadClock)]"

definition bounded_array :: "nat \<Rightarrow> nat \<Rightarrow> jval \<Rightarrow> identity_refusal + jval list" where
  "bounded_array lo hi v =
     (case array_of v of
        None \<Rightarrow> Inl PlainArray
      | Some vs \<Rightarrow> if lo \<le> length vs \<and> length vs \<le> hi then Inr vs else Inl BoundedArray)"

definition check_key :: "jval \<Rightarrow> identity_refusal + jstr" where
  "check_key v =
     (case str_of v of
        None \<Rightarrow> Inl BadKey
      | Some k \<Rightarrow> if length k > 64 then Inl BadKey else ebind (map_err NotAKey (decodeKeyId k)) (\<lambda>_. Inr k))"

definition keySet :: "jval \<Rightarrow> identity_refusal + key_set" where
  "keySet v =
     ebind (needs [(closed_object [''keys'', ''threshold''] v, ClosedObject)]) (\<lambda>_.
     ebind (bounded_array 1 8 (ev v ''keys'')) (\<lambda>vs.
     ebind (needs [(list_all (\<lambda>k. str_of k \<noteq> None) vs, KeysRequired), (distinct vs, UniqueKeys)]) (\<lambda>_.
     ebind (traverse check_key vs) (\<lambda>keys.
     case safe_integer (ev v ''threshold'') of
       None \<Rightarrow> Inl InvalidQuorum
     | Some t \<Rightarrow>
         if 1 \<le> t \<and> t \<le> int (length keys) then Inr \<lparr>ks_keys = keys, ks_threshold = t\<rparr> else Inl InvalidQuorum))))"

text \<open>\<open>sets(p.operational, p.recovery)\<close>\<close>

definition key_sets :: "jval \<Rightarrow> identity_refusal + key_set \<times> key_set" where
  "key_sets p =
     ebind (keySet (ev p ''operational'')) (\<lambda>operational.
     ebind (keySet (ev p ''recovery'')) (\<lambda>recovery.
     if list_ex (\<lambda>k. k \<in> set (ks_keys recovery)) (ks_keys operational) then Inl SeparateKeys
     else Inr (operational, recovery)))"

text \<open>The bytes that a document of a domain is signed over, and the keys whose signatures over them verify.\<close>

definition domain_bytes :: "string \<Rightarrow> jval \<Rightarrow> canon_error + byte list" where
  "domain_bytes domain body = canonicalBytes (JObj [(js ''domain'', JStr (js domain)), (js ''body'', body)])"

definition check_identity_signature ::
  "(byte list \<Rightarrow> byte list \<Rightarrow> byte list \<Rightarrow> bool) \<Rightarrow> byte list \<Rightarrow> jstr list \<Rightarrow> jval \<Rightarrow> identity_refusal + jstr" where
  "check_identity_signature webcrypto_verify bytes signers s =
     ebind (needs [(closed_object [''key_id'', ''signature''] s, ClosedObject)]) (\<lambda>_.
     ebind (check_key (ev s ''key_id'')) (\<lambda>k.
     case str_of (ev s ''signature'') of
       None \<Rightarrow> Inl DuplicateSignature
     | Some t \<Rightarrow>
         if length t > 128 \<or> k \<in> set signers then Inl DuplicateSignature
         else
           ebind (map_err NotAKey (decodeSignature t)) (\<lambda>raw.
           ebind (map_err NotAKey (verifyBytes webcrypto_verify k bytes raw)) (\<lambda>ok.
           if ok then Inr k else Inl InvalidSignature))))"

fun check_signatures ::
  "(byte list \<Rightarrow> byte list \<Rightarrow> byte list \<Rightarrow> bool) \<Rightarrow> byte list \<Rightarrow> jstr list \<Rightarrow> jval list \<Rightarrow> identity_refusal + jstr list" where
  "check_signatures V bytes signers [] = Inr signers"
| "check_signatures V bytes signers (s # ss) =
     ebind (check_identity_signature V bytes signers s) (\<lambda>k. check_signatures V bytes (signers @ [k]) ss)"

definition verified ::
  "(byte list \<Rightarrow> byte list \<Rightarrow> byte list \<Rightarrow> bool) \<Rightarrow> string \<Rightarrow> jval \<Rightarrow> identity_refusal + jstr list" where
  "verified webcrypto_verify domain doc =
     ebind (needs [(closed_object [''body'', ''signatures''] doc, ClosedObject)]) (\<lambda>_.
     ebind (bounded_array 1 24 (ev doc ''signatures'')) (\<lambda>signatures.
     ebind (map_err NotCanonical (domain_bytes domain (ev doc ''body''))) (\<lambda>bytes.
     if length bytes > 16384 then Inl PayloadTooLarge
     else check_signatures webcrypto_verify bytes [] signatures)))"

definition quorum :: "key_set \<Rightarrow> jstr list \<Rightarrow> identity_refusal + unit" where
  "quorum ks signers =
     guard (ks_threshold ks \<le> int (length (filter (\<lambda>k. k \<in> set signers) (ks_keys ks)))) QuorumRequired"

definition digest_of :: "(byte list \<Rightarrow> jstr) \<Rightarrow> jval \<Rightarrow> identity_refusal + jstr" where
  "digest_of sha256Hex v = ebind (map_err NotCanonical (canonicalBytes v)) (\<lambda>b. Inr (sha256Hex b))"

definition signIdentity ::
  "(byte list \<Rightarrow> byte list \<Rightarrow> byte list) \<Rightarrow> string \<Rightarrow> jval \<Rightarrow> (jstr \<times> jstr) list \<Rightarrow> identity_refusal + jval" where
  "signIdentity ed25519_sign domain body keys =
     ebind (map_err NotCanonical (domain_bytes domain body)) (\<lambda>bytes.
     ebind (traverse (\<lambda>(keyId, secretKey).
         ebind (map_err NotAKey (signBytes ed25519_sign secretKey bytes)) (\<lambda>sig.
         ebind (map_err NotAKey (encodeSignature sig)) (\<lambda>text.
         Inr (JObj [(js ''key_id'', JStr keyId), (js ''signature'', JStr text)])))) keys) (\<lambda>signatures.
     Inr (JObj [(js ''body'', body), (js ''signatures'', JArr signatures)])))"

subsection \<open>The operations\<close>

definition uuid_text :: "jval \<Rightarrow> bool" where
  "uuid_text v = (case str_of v of None \<Rightarrow> False | Some s \<Rightarrow> isUuid s)"

definition hex64_text :: "jval \<Rightarrow> bool" where
  "hex64_text v = (case str_of v of None \<Rightarrow> False | Some s \<Rightarrow> hex64 s)"

text \<open>An exact http or https origin: the URL parser reads it, as its own origin.\<close>

definition origin_ok :: "(jstr \<Rightarrow> jstr option) \<Rightarrow> jval \<Rightarrow> bool" where
  "origin_ok url_origin v =
     (case str_of v of
        None \<Rightarrow> False
      | Some a \<Rightarrow> length a \<le> 2048 \<and> url_origin a = Some a \<and>
          (take 5 a = js ''http:'' \<or> take 6 a = js ''https:''))"

definition check_request :: "(jstr \<Rightarrow> jstr option) \<Rightarrow> jval \<Rightarrow> jval \<Rightarrow> jval \<Rightarrow> identity_refusal + unit" where
  "check_request url_origin identity_id audience challenge =
     needs [(uuid_text identity_id, BadIdentity), (hex64_text challenge, BadChallenge),
       (origin_ok url_origin audience, BadAudience)]"

definition is_int :: "jval \<Rightarrow> int \<Rightarrow> bool" where
  "is_int v n \<longleftrightarrow> strict_eq v (jint n)"

definition controlling :: "control \<Rightarrow> jstr list" where
  "controlling c = ks_keys (co_operational c) @ ks_keys (co_recovery c)"

definition identity_id_of :: "jstr \<Rightarrow> jstr" where
  "identity_id_of h = take 8 h @ js ''-'' @ take 4 (drop 8 h) @ js ''-'' @ take 4 (drop 12 h) @ js ''-'' @
     take 4 (drop 16 h) @ js ''-'' @ take 12 (drop 20 h)"

definition createIdentity ::
  "(byte list \<Rightarrow> byte list \<Rightarrow> byte list \<Rightarrow> bool) \<Rightarrow> (byte list \<Rightarrow> jstr) \<Rightarrow> jval \<Rightarrow> jval \<Rightarrow> int \<Rightarrow>
   identity_refusal + identity_state" where
  "createIdentity webcrypto_verify sha256Hex doc resolver now =
     ebind (copyIdentityData doc) (\<lambda>_.
     ebind (copyIdentityData resolver) (\<lambda>_.
     ebind (host_clock now) (\<lambda>_.
     let body = ev doc ''body'' in
     ebind (needs [(closed_object [''body'', ''signatures''] doc, ClosedObject),
         (closed_object [''nonce'', ''operational'', ''recovery''] body, ClosedObject),
         (uuid_text (ev body ''nonce''), BadNonce),
         (closed_object [''id'', ''key_id''] resolver, ClosedObject),
         (uuid_text (ev resolver ''id''), BadResolver)]) (\<lambda>_.
     ebind (check_key (ev resolver ''key_id'')) (\<lambda>resolver_key.
     ebind (key_sets body) (\<lambda>(operational, recovery).
     let all_keys = ks_keys operational @ ks_keys recovery in
     ebind (needs [(resolver_key \<notin> set all_keys, ResolverControls)]) (\<lambda>_.
     ebind (verified webcrypto_verify ''DTP-PERSON-GENESIS-1'' doc) (\<lambda>signers.
     ebind (needs [(list_all (\<lambda>k. k \<in> set signers) all_keys, AllKeysMustSign)]) (\<lambda>_.
     ebind (map_err NotCanonical (domain_bytes ''DTP-PERSON-GENESIS-1'' body)) (\<lambda>bytes.
     let genesis_digest = sha256Hex bytes;
         head = \<lparr>co_identity = identity_id_of genesis_digest, co_sequence = 0, co_previous = None,
           co_operational = operational, co_recovery = recovery, co_effective = now\<rparr> in
     ebind (digest_of sha256Hex (control_value head)) (\<lambda>head_digest.
     ebind (require BadResolver (str_of (ev resolver ''id''))) (\<lambda>resolver_id.
     Inr \<lparr>st_genesis_digest = genesis_digest, st_head = head, st_head_digest = head_digest, st_retired = [],
       st_resolver = resolver_id, st_resolver_key = resolver_key, st_epoch = 0, st_last_lease = now,
       st_last_update = now\<rparr>))))))))))))"

text \<open>The checks that a transition and a rehome share.\<close>

definition check_barrier :: "identity_state \<Rightarrow> int \<Rightarrow> identity_refusal + unit" where
  "check_barrier s now = needs [(st_last_update s \<le> now \<and> co_effective (st_head s) \<le> now, BarrierPending)]"

definition names_next_head :: "identity_state \<Rightarrow> jval \<Rightarrow> bool" where
  "names_next_head s p \<longleftrightarrow>
     ev p ''identity_id'' = JStr (co_identity (st_head s)) \<and> ev p ''expected_digest'' = JStr (st_head_digest s) \<and>
     is_int (ev p ''sequence'') (co_sequence (st_head s) + 1) \<and> safe_integer (ev p ''sequence'') \<noteq> None"

definition check_window :: "jval \<Rightarrow> int \<Rightarrow> identity_refusal + unit" where
  "check_window p now =
     ebind (timestamp (ev p ''issued_at'')) (\<lambda>issued.
     ebind (timestamp (ev p ''expires_at'')) (\<lambda>expires.
     guard (issued \<le> now \<and> now < expires \<and> issued < expires \<and> expires - issued \<le> 300000) OutsideWindow))"

definition same_text :: "jval \<Rightarrow> jval \<Rightarrow> identity_refusal + bool" where
  "same_text v w =
     ebind (map_err NotCanonical (canonicalize v)) (\<lambda>a.
     ebind (map_err NotCanonical (canonicalize w)) (\<lambda>b. Inr (a = b)))"

definition TRANSITION_FIELDS :: "string list" where
  "TRANSITION_FIELDS = [''identity_id'', ''expected_digest'', ''sequence'', ''kind'', ''operational'', ''recovery'',
     ''issued_at'', ''expires_at'']"

definition of_kind :: "jval \<Rightarrow> string \<Rightarrow> bool" where
  "of_kind p k \<longleftrightarrow> ev p ''kind'' = JStr (js k)"

text \<open>A rotation or a recovery keeps the recovery set, a change of the recovery policy keeps the operational one.\<close>

definition keeps_other_set :: "control \<Rightarrow> jval \<Rightarrow> identity_refusal + unit" where
  "keeps_other_set c p =
     (if of_kind p ''rotate'' \<or> of_kind p ''recover''
      then ebind (same_text (ev p ''recovery'') (key_set_value (co_recovery c))) (\<lambda>same. guard same RecoveryFixed)
      else ebind (same_text (ev p ''operational'') (key_set_value (co_operational c))) (\<lambda>same. guard same OperationalFixed))"

definition transitionIdentity ::
  "(byte list \<Rightarrow> byte list \<Rightarrow> byte list \<Rightarrow> bool) \<Rightarrow> (byte list \<Rightarrow> jstr) \<Rightarrow> identity_state \<Rightarrow> jval \<Rightarrow> int \<Rightarrow>
   identity_refusal + identity_state" where
  "transitionIdentity webcrypto_verify sha256Hex s doc now =
     ebind (copyIdentityData (state_value s)) (\<lambda>_.
     ebind (copyIdentityData doc) (\<lambda>_.
     ebind (host_clock now) (\<lambda>_.
     ebind (check_barrier s now) (\<lambda>_.
     let p = ev doc ''body''; c = st_head s in
     ebind (needs [(closed_object [''body'', ''signatures''] doc, ClosedObject), (closed_object TRANSITION_FIELDS p, ClosedObject),
         (names_next_head s p, StaleHead),
         (list_ex (of_kind p) [''rotate'', ''recover'', ''recovery-policy''], UnsupportedTransition)]) (\<lambda>_.
     ebind (check_window p now) (\<lambda>_.
     ebind (key_sets p) (\<lambda>(operational, recovery).
     ebind (verified webcrypto_verify ''DTP-IDENTITY-TRANSITION-1'' doc) (\<lambda>signers.
     ebind (quorum (if of_kind p ''rotate'' then co_operational c else co_recovery c) signers) (\<lambda>_.
     ebind (keeps_other_set c p) (\<lambda>_.
     let old = controlling c; new = ks_keys operational @ ks_keys recovery;
         retired = st_retired s @ filter (\<lambda>k. k \<notin> set new) old in
     ebind (needs [(st_resolver_key s \<notin> set new, ResolverControls),
         (\<not> list_ex (\<lambda>k. k \<in> set (st_retired s)) new, RetiredKey),
         (list_all (\<lambda>k. k \<in> set signers) (filter (\<lambda>k. k \<notin> set old) new), PossessionRequired),
         (length retired \<le> 4096, HistoryCapacity)]) (\<lambda>_.
     let head = \<lparr>co_identity = co_identity c, co_sequence = co_sequence c + 1, co_previous = Some (st_head_digest s),
           co_operational = operational, co_recovery = recovery,
           co_effective = max now (st_last_lease s + CLOCK_MARGIN_MS)\<rparr> in
     ebind (digest_of sha256Hex (control_value head)) (\<lambda>head_digest.
     Inr (s\<lparr>st_head := head, st_head_digest := head_digest, st_retired := retired, st_last_update := now\<rparr>)))))))))))))"

definition REHOME_FIELDS :: "string list" where
  "REHOME_FIELDS = [''identity_id'', ''expected_digest'', ''sequence'', ''from'', ''to'', ''issued_at'', ''expires_at'']"

definition leaves_resolver :: "identity_state \<Rightarrow> jval \<Rightarrow> bool" where
  "leaves_resolver s p \<longleftrightarrow> ev (ev p ''from'') ''resolver_id'' = JStr (st_resolver s) \<and>
     is_int (ev (ev p ''from'') ''resolver_epoch'') (st_epoch s)"

definition rehomeIdentity ::
  "(byte list \<Rightarrow> byte list \<Rightarrow> byte list \<Rightarrow> bool) \<Rightarrow> (byte list \<Rightarrow> jstr) \<Rightarrow> (jstr \<Rightarrow> jstr option) \<Rightarrow> identity_state \<Rightarrow>
   jval \<Rightarrow> int \<Rightarrow> identity_refusal + identity_state" where
  "rehomeIdentity webcrypto_verify sha256Hex url_origin s doc now =
     ebind (copyIdentityData (state_value s)) (\<lambda>_.
     ebind (copyIdentityData doc) (\<lambda>_.
     ebind (host_clock now) (\<lambda>_.
     ebind (check_barrier s now) (\<lambda>_.
     let p = ev doc ''body''; to = ev p ''to''; c = st_head s in
     ebind (needs [(closed_object [''body'', ''signatures''] doc, ClosedObject), (closed_object REHOME_FIELDS p, ClosedObject),
         (closed_object [''resolver_id'', ''resolver_epoch''] (ev p ''from''), ClosedObject),
         (closed_object [''resolver_id'', ''resolver_key'', ''audience'', ''resolver_epoch''] to, ClosedObject),
         (names_next_head s p, StaleHead), (leaves_resolver s p, NotCurrentResolver),
         (uuid_text (ev to ''resolver_id'') \<and> safe_integer (ev to ''resolver_epoch'') \<noteq> None \<and>
            is_int (ev to ''resolver_epoch'') (st_epoch s + 1), EpochMustAdvance)]) (\<lambda>_.
     ebind (check_key (ev to ''resolver_key'')) (\<lambda>resolver_key.
     ebind (needs [(origin_ok url_origin (ev to ''audience''), BadAudience)]) (\<lambda>_.
     ebind (check_window p now) (\<lambda>_.
     ebind (needs [(resolver_key \<notin> set (controlling c @ st_retired s), ControllerKey)]) (\<lambda>_.
     ebind (verified webcrypto_verify ''DTP-IDENTITY-REHOME-1'' doc) (\<lambda>signers.
     ebind (quorum (co_recovery c) signers) (\<lambda>_.
     ebind (map_err NotCanonical (domain_bytes ''DTP-IDENTITY-REHOME-1'' p)) (\<lambda>bytes.
     let head = \<lparr>co_identity = co_identity c, co_sequence = co_sequence c + 1, co_previous = Some (sha256Hex bytes),
           co_operational = co_operational c, co_recovery = co_recovery c, co_effective = now\<rparr> in
     ebind (digest_of sha256Hex (control_value head)) (\<lambda>head_digest.
     ebind (require EpochMustAdvance (str_of (ev to ''resolver_id''))) (\<lambda>resolver_id.
     Inr (s\<lparr>st_head := head, st_head_digest := head_digest, st_resolver := resolver_id, st_resolver_key := resolver_key,
       st_epoch := st_epoch s + 1, st_last_lease := now + LEASE_MS, st_last_update := now\<rparr>)))))))))))))))"

definition ENROLLMENT_FIELDS :: "string list" where
  "ENROLLMENT_FIELDS = [''identity_id'', ''genesis_digest'', ''resolver_id'', ''resolver_key'', ''audience'', ''nonce'',
     ''issued_at'', ''expires_at'']"

definition binds_resolver :: "identity_state \<Rightarrow> jval \<Rightarrow> jval \<Rightarrow> bool" where
  "binds_resolver s b audience \<longleftrightarrow>
     ev b ''identity_id'' = JStr (co_identity (st_head s)) \<and> ev b ''genesis_digest'' = JStr (st_genesis_digest s) \<and>
     ev b ''resolver_id'' = JStr (st_resolver s) \<and> ev b ''resolver_key'' = JStr (st_resolver_key s) \<and>
     strict_eq (ev b ''audience'') audience"

definition verifyResolverEnrollment ::
  "(byte list \<Rightarrow> byte list \<Rightarrow> byte list \<Rightarrow> bool) \<Rightarrow> (jstr \<Rightarrow> jstr option) \<Rightarrow> identity_state \<Rightarrow> jval \<Rightarrow> jval \<Rightarrow> int \<Rightarrow>
   identity_refusal + unit" where
  "verifyResolverEnrollment webcrypto_verify url_origin s doc audience now =
     ebind (copyIdentityData (state_value s)) (\<lambda>_.
     ebind (copyIdentityData doc) (\<lambda>_.
     ebind (clock_timestamp now) (\<lambda>_.
     let b = ev doc ''body'' in
     ebind (needs [(closed_object [''body'', ''signatures''] doc, ClosedObject), (closed_object ENROLLMENT_FIELDS b, ClosedObject),
         (co_sequence (st_head s) = 0 \<and> st_epoch s = 0, EnrollmentNeedsGenesis),
         (binds_resolver s b audience, BindingMismatch)]) (\<lambda>_.
     ebind (check_request url_origin (ev b ''identity_id'') (ev b ''audience'') (ev b ''nonce'')) (\<lambda>_.
     ebind (timestamp (ev b ''issued_at'')) (\<lambda>issued.
     ebind (timestamp (ev b ''expires_at'')) (\<lambda>expires.
     ebind (needs [(issued \<le> now \<and> now < expires \<and> expires - issued \<le> 300000, EnrollmentExpired)]) (\<lambda>_.
     ebind (verified webcrypto_verify ''DTP-IDENTITY-ENROLLMENT-1'' doc) (\<lambda>signers.
     ebind (quorum (co_operational (st_head s)) signers) (\<lambda>_.
     quorum (co_recovery (st_head s)) signers))))))))))"

text \<open>A lease: the resolver's signed statement of the current head, answering one verifier's challenge.\<close>

definition lease_body :: "identity_state \<Rightarrow> jval \<Rightarrow> int \<Rightarrow> jval" where
  "lease_body s input now = JObj
     [(js ''identity_id'', ev input ''identity_id''), (js ''audience'', ev input ''audience''),
      (js ''challenge'', ev input ''challenge''), (js ''resolver_id'', JStr (st_resolver s)),
      (js ''resolver_epoch'', jint (st_epoch s)), (js ''head'', control_value (st_head s)),
      (js ''head_digest'', JStr (st_head_digest s)), (js ''issued_at'', jint now), (js ''expires_at'', jint (now + LEASE_MS))]"

definition issueResolution ::
  "(byte list \<Rightarrow> byte list \<Rightarrow> byte list) \<Rightarrow> (jstr \<Rightarrow> jstr option) \<Rightarrow> identity_state \<Rightarrow> jval \<Rightarrow> jstr \<times> jstr \<Rightarrow> int \<Rightarrow>
   identity_refusal + identity_state \<times> jval" where
  "issueResolution ed25519_sign url_origin s input resolverKey now =
     ebind (copyIdentityData (state_value s)) (\<lambda>_.
     ebind (copyIdentityData input) (\<lambda>_.
     ebind (host_clock now) (\<lambda>_.
     ebind (needs [(closed_object [''identity_id'', ''audience'', ''challenge''] input, ClosedObject)]) (\<lambda>_.
     ebind (check_request url_origin (ev input ''identity_id'') (ev input ''audience'') (ev input ''challenge'')) (\<lambda>_.
     ebind (needs [(ev input ''identity_id'' = JStr (co_identity (st_head s)) \<and> fst resolverKey = st_resolver_key s,
         WrongIdentity)]) (\<lambda>_.
     ebind (check_barrier s now) (\<lambda>_.
     ebind (signIdentity ed25519_sign ''DTP-IDENTITY-RESOLUTION-1'' (lease_body s input now) [resolverKey]) (\<lambda>proof.
     Inr (s\<lparr>st_last_lease := max (st_last_lease s) (now + LEASE_MS), st_last_update := now\<rparr>, proof)))))))))"

definition RESOLUTION_FIELDS :: "string list" where
  "RESOLUTION_FIELDS = [''identity_id'', ''audience'', ''challenge'', ''resolver_id'', ''resolver_epoch'', ''head'',
     ''head_digest'', ''issued_at'', ''expires_at'']"

definition CONTROL_FIELDS :: "string list" where
  "CONTROL_FIELDS = [''identity_id'', ''sequence'', ''previous_digest'', ''operational'', ''recovery'', ''effective_at'']"

text \<open>The lease's head: well formed, in effect when the lease was signed, and with a predecessor unless it is the first.\<close>

definition check_head :: "jval \<Rightarrow> int \<Rightarrow> identity_refusal + int" where
  "check_head b issued =
     (let h = ev b ''head'' in
      ebind (needs [(closed_object CONTROL_FIELDS h, ClosedObject)]) (\<lambda>_.
      ebind (key_sets h) (\<lambda>_.
      ebind (timestamp (ev h ''effective_at'')) (\<lambda>effective.
      case safe_integer (ev h ''sequence'') of
        None \<Rightarrow> Inl BadHead
      | Some sequence \<Rightarrow>
          ebind (needs [(strict_eq (ev h ''identity_id'') (ev b ''identity_id'') \<and> 0 \<le> sequence \<and> effective \<le> issued, BadHead),
            (if sequence = 0 then ev h ''previous_digest'' = JNull else hex64_text (ev h ''previous_digest''), BadPredecessor),
            (hex64_text (ev b ''head_digest''), BadDigest)]) (\<lambda>_.
          Inr sequence)))))"

definition verifyResolution ::
  "(byte list \<Rightarrow> byte list \<Rightarrow> byte list \<Rightarrow> bool) \<Rightarrow> (byte list \<Rightarrow> jstr) \<Rightarrow> (jstr \<Rightarrow> jstr option) \<Rightarrow> jval \<Rightarrow> jval \<Rightarrow> int \<Rightarrow>
   identity_refusal + jval" where
  "verifyResolution webcrypto_verify sha256Hex url_origin proof expected now =
     ebind (copyIdentityData proof) (\<lambda>_.
     ebind (copyIdentityData expected) (\<lambda>_.
     ebind (clock_timestamp now) (\<lambda>_.
     ebind (check_request url_origin (ev expected ''identity_id'') (ev expected ''audience'') (ev expected ''challenge'')) (\<lambda>_.
     let b = ev proof ''body'' in
     ebind (needs [(closed_object [''body'', ''signatures''] proof, ClosedObject), (closed_object RESOLUTION_FIELDS b, ClosedObject),
         (list_all (\<lambda>k. strict_eq (ev b k) (ev expected k)) [''identity_id'', ''audience'', ''challenge''], ContextMismatch),
         (list_all (\<lambda>k. strict_eq (ev b k) (ev expected k)) [''resolver_id'', ''resolver_epoch''], AuthorityMismatch)]) (\<lambda>_.
     ebind (timestamp (ev b ''issued_at'')) (\<lambda>issued.
     ebind (timestamp (ev b ''expires_at'')) (\<lambda>expires.
     ebind (needs [(issued \<le> now \<and> now < expires \<and> issued < expires \<and> expires - issued \<le> LEASE_MS, LeaseExpired)]) (\<lambda>_.
     ebind (check_head b issued) (\<lambda>sequence.
     ebind (verified webcrypto_verify ''DTP-IDENTITY-RESOLUTION-1'' proof) (\<lambda>signers.
     ebind (needs [(length signers = 1 \<and> ev expected ''resolver_key'' \<in> JStr ` set signers, UntrustedResolver)]) (\<lambda>_.
     ebind (digest_of sha256Hex (ev b ''head'')) (\<lambda>h.
     ebind (needs [(ev b ''head_digest'' = JStr h, DigestMismatch)]) (\<lambda>_.
     case safe_integer (ev expected ''minimum_sequence'') of
       None \<Rightarrow> Inl Rollback
     | Some least \<Rightarrow>
         ebind (needs [(0 \<le> least \<and> least \<le> sequence, Rollback),
           (sequence = least \<and> ev expected ''minimum_digest'' \<noteq> JNull \<longrightarrow>
              strict_eq (ev b ''head_digest'') (ev expected ''minimum_digest''), ConflictingCheckpoint)]) (\<lambda>_.
         Inr (ev b ''head'')))))))))))))))"

end
