(* ===== verification/WireText.thy ===== *)
theory WireText
  imports CanonicalBytes
begin

text \<open>
  Values whose texts are printable ASCII without quotation marks and reverse soliduses, and whose numbers are safe
  integers: they always have canonical bytes, of a length that the value bounds.
\<close>

definition clean_unit :: "cunit \<Rightarrow> bool" where
  "clean_unit c \<longleftrightarrow> 0x20 \<le> c \<and> c < 0x7f \<and> c \<noteq> 0x22 \<and> c \<noteq> 0x5c"

definition clean :: "jstr \<Rightarrow> bool" where
  "clean s \<longleftrightarrow> list_all clean_unit s"

fun wire :: "jval \<Rightarrow> bool" where
  "wire JNull = True"
| "wire (JBool b) = True"
| "wire (JNum n) = (case n of JInt i \<Rightarrow> \<bar>i\<bar> \<le> MAX_SAFE | _ \<Rightarrow> False)"
| "wire (JStr s) = clean s"
| "wire (JArr vs) = list_all wire vs"
| "wire (JObj kvs) = list_all (\<lambda>kv. clean (fst kv) \<and> wire (snd kv)) kvs"
| "wire _ = False"

fun width :: "jval \<Rightarrow> nat" where
  "width (JNum n) = 17"
| "width (JStr s) = length s + 2"
| "width (JArr vs) = 2 + sum_list (map (\<lambda>v. width v + 1) vs)"
| "width (JObj kvs) = 2 + sum_list (map (\<lambda>kv. length (fst kv) + width (snd kv) + 4) kvs)"
| "width _ = 5"

lemma clean_Nil [simp]: "clean []"
  by (simp add: clean_def)

lemma clean_append [simp]: "clean (s @ t) \<longleftrightarrow> clean s \<and> clean t"
  by (simp add: clean_def)

lemma clean_replicate [simp]: "clean (replicate n c) \<longleftrightarrow> n = 0 \<or> clean_unit c"
  by (auto simp: clean_def list_all_iff)

lemma clean_take: "clean s \<Longrightarrow> clean (take n s)"
  by (auto simp: clean_def list_all_iff dest: in_set_takeD)

lemma clean_drop: "clean s \<Longrightarrow> clean (drop n s)"
  by (auto simp: clean_def list_all_iff dest: in_set_dropD)

lemma clean_js [simp]:
  "clean (js s) \<longleftrightarrow> list_all (\<lambda>c. (32 :: nat) \<le> of_char c \<and> of_char c < (127 :: nat) \<and> c \<noteq> CHR 0x22 \<and> c \<noteq> CHR 0x5c) s"
proof -
  have "clean_unit (jc c) \<longleftrightarrow> (32 :: nat) \<le> of_char c \<and> of_char c < (127 :: nat) \<and> c \<noteq> CHR 0x22 \<and> c \<noteq> CHR 0x5c" for c
    using jc_eq_iff [of c "CHR 0x22"] jc_eq_iff [of c "CHR 0x5c"]
    by (simp add: clean_unit_def word_le_nat_alt word_less_nat_alt)
  then show ?thesis by (simp add: clean_def js_def list_all_iff)
qed

lemma wire_JNum [simp]: "wire (JNum (JInt i)) \<longleftrightarrow> \<bar>i\<bar> \<le> MAX_SAFE"
  by simp

subsection \<open>The length of the canonical text\<close>

definition ascii :: "jstr \<Rightarrow> bool" where
  "ascii s \<longleftrightarrow> (\<forall>c \<in> set s. c < 0x80)"

lemma ascii_simps [simp]: "ascii []" "ascii (c # s) \<longleftrightarrow> c < 0x80 \<and> ascii s" "ascii (s @ t) \<longleftrightarrow> ascii s \<and> ascii t"
  by (auto simp: ascii_def)

lemma clean_ascii: "clean s \<Longrightarrow> ascii s"
  by (auto simp: clean_def clean_unit_def ascii_def list_all_iff word_less_nat_alt)

lemma clean_checks: assumes "clean s" shows "checkString s p = Inr ()" "checkName s p = Inr ()" "json_quote s = 0x22 # s @ [0x22]"
proof -
  have c: "clean_unit c" if "c \<in> set s" for c using assms that by (simp add: clean_def list_all_iff)
  have "\<not> is_high c \<and> \<not> is_low c" if "clean_unit c" for c
    using that by (simp add: clean_unit_def is_high_def is_low_def word_le_nat_alt word_less_nat_alt)
  then have "\<forall>c \<in> set t. clean_unit c \<Longrightarrow> \<not> lone_from q t" for q t
    by (induction t arbitrary: q) auto
  then show "checkString s p = Inr ()" using c by (simp add: checkString_def lone_surrogate_def)
  show "checkName s p = Inr ()" using c by (simp add: checkName_def name_unit_ok_def clean_unit_def)
  have "json_escape d = [d]" if "clean_unit d" for d
  proof -
    have "0x20 \<le> unat d" using that by (simp add: clean_unit_def word_le_nat_alt)
    then show ?thesis using that
      by (auto simp: json_escape_def clean_unit_def word_less_nat_alt unat_eq_nat_uint [symmetric] word_unat_eq_iff)
  qed
  then have "\<forall>d \<in> set t. clean_unit d \<Longrightarrow> concat (map json_escape t) = t" for t
    by (induction t) auto
  then show "json_quote s = 0x22 # s @ [0x22]" using c by (simp add: json_quote_def)
qed

lemma int_text_bound: "\<bar>i\<bar> \<le> MAX_SAFE \<Longrightarrow> length (int_str i) \<le> 17 \<and> ascii (int_str i)"
proof -
  assume i: "\<bar>i\<bar> \<le> MAX_SAFE"
  have "length (nat_str n) \<le> 16 \<and> ascii (nat_str n)" if "n \<le> nat MAX_SAFE" for n
  proof -
    have "n < 10 ^ 16" using that by (simp add: MAX_SAFE_def)
    then have "length (nat_str n) \<le> 16" by (subst length_nat_str_le) simp_all
    moreover have "c < 0x80" if "c \<in> set (nat_str n)" for c
      using nat_str_digits [OF that] by (simp add: is_digit_def word_le_nat_alt word_less_nat_alt)
    ultimately show ?thesis by (simp add: ascii_def)
  qed
  from this [of "nat (- i)"] this [of "nat i"] i show ?thesis
    by (auto simp: int_str_def nat_le_iff)
qed

lemma join_comma_bound: "length (join_comma ps) \<le> sum_list (map (\<lambda>p. length p + 1) ps)"
  by (induction ps rule: join_comma.induct) auto

lemma join_comma_ascii: "\<forall>p \<in> set ps. ascii p \<Longrightarrow> ascii (join_comma ps)"
  by (induction ps rule: join_comma.induct) auto

lemma sum_list_sorted_members:
  "sum_list (map f (sorted_members kvs)) \<le> sum_list (map (f :: _ \<Rightarrow> nat) kvs)"
proof -
  have "sum_list (map f (sort_key fst xs)) = sum_list (map f xs)" for xs
    by (metis mset_map mset_sort sum_mset_sum_list)
  moreover have "sum_list (map f (filter P kvs)) \<le> sum_list (map f kvs)" for P
    by (induction kvs) auto
  ultimately show ?thesis by (simp add: sorted_members_def)
qed

lemma wire_serializes:
  "wire v \<Longrightarrow> \<exists>s. serialize v path = Inr s \<and> length s \<le> width v \<and> ascii s"
  "list_all wire vs \<Longrightarrow> \<exists>ps. serialize_items vs path i = Inr ps \<and>
     sum_list (map (\<lambda>p. length p + 1) ps) \<le> sum_list (map (\<lambda>v. width v + 1) vs) \<and> (\<forall>p \<in> set ps. ascii p)"
  "list_all (\<lambda>kv. clean (fst kv) \<and> wire (snd kv)) kvs \<Longrightarrow> \<exists>ps. serialize_members kvs path = Inr ps \<and>
     sum_list (map (\<lambda>p. length p + 1) ps) \<le> sum_list (map (\<lambda>kv. length (fst kv) + width (snd kv) + 4) kvs) \<and> (\<forall>p \<in> set ps. ascii p)"
proof (induction v path and vs path i and kvs path rule: serialize_serialize_items_serialize_members.induct)
  case (4 n path)
  then show ?case using int_text_bound by (auto simp: num_text_def split: jnum.splits)
next
  case (5 s path)
  then show ?case using clean_checks [of s] clean_ascii [of s] by (simp add: clean_ascii)
next
  case (7 vs path)
  then obtain ps where "serialize_items vs path 0 = Inr ps" "\<forall>p \<in> set ps. ascii p"
      "sum_list (map (\<lambda>p. length p + 1) ps) \<le> sum_list (map (\<lambda>v. width v + 1) vs)" by auto
  then show ?case using join_comma_bound [of ps] join_comma_ascii [of ps] by simp
next
  case (8 kvs path)
  have "list_all (\<lambda>kv. clean (fst kv) \<and> wire (snd kv)) (sorted_members kvs)"
    using "8.prems" by (auto simp: list_all_iff sorted_members_def)
  from "8.IH" [OF this] obtain ps where "serialize_members (sorted_members kvs) path = Inr ps" "\<forall>p \<in> set ps. ascii p"
      "sum_list (map (\<lambda>p. length p + 1) ps) \<le> sum_list (map (\<lambda>kv. length (fst kv) + width (snd kv) + 4) (sorted_members kvs))"
    by auto
  then show ?case
    using join_comma_bound [of ps] join_comma_ascii [of ps] sum_list_sorted_members [of "\<lambda>kv. length (fst kv) + width (snd kv) + 4" kvs]
    by simp
next
  case (11 v vs path i)
  then obtain p ps where "serialize v (idx_path path i) = Inr p" "serialize_items vs path (Suc i) = Inr ps"
      "length p \<le> width v" "ascii p" "\<forall>p \<in> set ps. ascii p"
      "sum_list (map (\<lambda>p. length p + 1) ps) \<le> sum_list (map (\<lambda>v. width v + 1) vs)"
    by auto
  then show ?case by simp
next
  case (13 k v kvs path)
  then have k: "clean k" "wire v" "list_all (\<lambda>kv. clean (fst kv) \<and> wire (snd kv)) kvs" by simp_all
  obtain p where p: "serialize v (key_path path k) = Inr p" "length p \<le> width v" "ascii p"
    using "13.IH"(1) clean_checks [OF k(1)] k(2) by auto
  obtain ps where "serialize_members kvs path = Inr ps" "\<forall>p \<in> set ps. ascii p"
      "sum_list (map (\<lambda>p. length p + 1) ps) \<le> sum_list (map (\<lambda>kv. length (fst kv) + width (snd kv) + 4) kvs)"
    using "13.IH"(2) clean_checks [OF k(1)] p k(3) by auto
  then show ?case using p clean_checks [OF k(1)] clean_ascii [OF k(1)] by simp
qed (auto simp: js_def jc_def ascii_def)

lemma utf8_ascii: "ascii s \<Longrightarrow> length (utf8_encode s) = length s"
proof -
  assume "ascii s"
  then have "length (concat (map utf8_point (code_points s))) = length s"
  proof (induction s rule: code_points.induct)
    case (2 c)
    then show ?case by (auto simp: utf8_point_def is_high_def is_low_def word_le_nat_alt word_less_nat_alt)
  next
    case (3 c d ds)
    then have "\<not> is_high c \<and> \<not> is_low c" "unat c < 0x80"
      by (auto simp: is_high_def is_low_def word_le_nat_alt word_less_nat_alt)
    then show ?case using 3 by (simp add: utf8_point_def)
  qed simp
  then show ?thesis by (simp add: utf8_encode_def)
qed

lemma wire_canonical: "wire v \<Longrightarrow> \<exists>s. canonicalize v = Inr s"
  using wire_serializes(1) by (fastforce simp: canonicalize_def)

lemma wire_bytes:
  assumes "wire v"
  shows "\<exists>b. canonicalBytes v = Inr b \<and> length b \<le> width v"
  using wire_serializes(1) [OF assms, of "js ''$''"] utf8_ascii by (auto simp: canonicalBytes_def canonicalize_def)

end
