(* ===== verification/IdentityRules.thy ===== *)
theory IdentityRules
  imports IdentityControl WireText
begin

text \<open>
  What the operations of \<^verbatim>\<open>identity.ts\<close> guarantee: which documents are copied, what a key set is, and the invariant of
  the control state that every operation keeps.
\<close>

subsection \<open>Copies\<close>

fun node_count :: "jval \<Rightarrow> nat" where
  "node_count (JArr vs) = 1 + sum_list (map node_count vs)"
| "node_count (JObj kvs) = 1 + sum_list (map (\<lambda>kv. node_count (snd kv)) kvs)"
| "node_count _ = 1"

fun fits_copy :: "nat \<Rightarrow> jval \<Rightarrow> bool" where
  "fits_copy n (JStr s) = (n \<le> 16 \<and> length s \<le> 4096)"
| "fits_copy n (JArr vs) = (n \<le> 16 \<and> length vs \<le> 4096 \<and> list_all (fits_copy (n + 1)) vs)"
| "fits_copy n (JObj kvs) = (n \<le> 16 \<and> length kvs \<le> 32 \<and>
     list_all (\<lambda>kv. fst kv \<notin> set FORBIDDEN_NAMES \<and> fits_copy (n + 1) (snd kv)) kvs)"
| "fits_copy n _ = (n \<le> 16)"

lemma node_count_pos: "0 < node_count v"
  by (cases v) auto

lemma fits_copy_level: "fits_copy n v \<Longrightarrow> n \<le> 16"
  by (cases v) auto

lemma visit_ok:
  "wire v \<Longrightarrow> fits_copy n v \<Longrightarrow> m + node_count v \<le> 16384 \<Longrightarrow> visit n v m = Inr (m + node_count v)"
  "list_all wire vs \<Longrightarrow> list_all (fits_copy n) vs \<Longrightarrow> m + sum_list (map node_count vs) \<le> 16384 \<Longrightarrow>
     visit_all n vs m = Inr (m + sum_list (map node_count vs))"
  "list_all (\<lambda>kv. clean (fst kv) \<and> wire (snd kv)) kvs \<Longrightarrow>
     list_all (\<lambda>kv. fst kv \<notin> set FORBIDDEN_NAMES \<and> fits_copy n (snd kv)) kvs \<Longrightarrow>
     m + sum_list (map (\<lambda>kv. node_count (snd kv)) kvs) \<le> 16384 \<Longrightarrow>
     visit_members n kvs m = Inr (m + sum_list (map (\<lambda>kv. node_count (snd kv)) kvs))"
proof (induction n v m and n vs m and n kvs m rule: visit_visit_all_visit_members.induct)
  case (1 n v m)
  have le: "\<not> (m + 1 > 16384 \<or> n > 16)"
    using 1(3,4,5) node_count_pos [of v] fits_copy_level by fastforce
  show ?case
  proof (cases v)
    case (JNum x)
    then show ?thesis using 1(3) le by (cases x) auto
  next
    case (JStr s)
    then show ?thesis using le 1(3,4) wire_canonical [of v] by auto
  qed (use le 1 in auto)
qed (auto simp: split_beta add.assoc)

lemma copy_ok:
  assumes "wire v" "fits_copy 0 v" "node_count v \<le> 16384" "width v \<le> 1048576"
  shows "copyIdentityData v = Inr v"
  using assms visit_ok(1) [of v 0 0] wire_bytes [of v] by (fastforce simp: copyIdentityData_def)

subsection \<open>Key sets\<close>

definition key_set_ok :: "key_set \<Rightarrow> bool" where
  "key_set_ok ks \<longleftrightarrow> distinct (ks_keys ks) \<and> length (ks_keys ks) \<le> 8 \<and> 1 \<le> ks_threshold ks \<and>
     ks_threshold ks \<le> int (length (ks_keys ks)) \<and>
     list_all (\<lambda>k. length k \<le> 64 \<and> is_ok (decodeKeyId k)) (ks_keys ks)"

definition control_ok :: "control \<Rightarrow> bool" where
  "control_ok c \<longleftrightarrow> key_set_ok (co_operational c) \<and> key_set_ok (co_recovery c) \<and> distinct (controlling c)"

lemma check_key_ok: "check_key v = Inr k \<longleftrightarrow> v = JStr k \<and> length k \<le> 64 \<and> is_ok (decodeKeyId k)"
  by (auto simp: check_key_def ok_iff if_Inl_ok is_ok_iff split: option.splits)

lemma two_members:
  assumes "closed_object [a, b] v" "a \<noteq> b"
  obtains x y where "v = JObj [(js a, x), (js b, y)] \<or> v = JObj [(js b, y), (js a, x)]"
proof -
  obtain kvs where v: "v = JObj kvs" "length kvs = 2" "js a \<in> fst ` set kvs" "js b \<in> fst ` set kvs"
    using assms(1) by (auto simp: closed_object_def split: option.splits)
  obtain p q where kvs: "kvs = [p, q]" using v(2) by (auto simp: length_Suc_conv numeral_2_eq_2)
  have "js a \<noteq> js b" using assms(2) by simp
  then show ?thesis using v kvs that by (cases p; cases q) auto
qed

lemma norm_two_members:
  assumes "a < b" "x \<noteq> JUndef" "y \<noteq> JUndef"
  shows "norm (JObj [(a, x), (b, y)]) = JObj [(a, norm x), (b, norm y)]"
    "norm (JObj [(b, y), (a, x)]) = JObj [(a, norm x), (b, norm y)]"
  using assms by (auto simp: sorted_members_def)

lemma norm_key_set:
  "norm (key_set_value ks) = JObj [(js ''keys'', JArr (map JStr (ks_keys ks))), (js ''threshold'', jint (ks_threshold ks))]"
proof -
  have "js ''keys'' < js ''threshold''" by code_simp
  then have "norm (key_set_value ks) = JObj [(js ''keys'', norm (JArr (map JStr (ks_keys ks)))), (js ''threshold'', norm (jint (ks_threshold ks)))]"
    unfolding key_set_value_def by (rule norm_two_members(1)) (simp_all add: jint_def)
  then show ?thesis by (simp add: jint_def num_norm_def comp_def)
qed

lemma keySet_ok:
  assumes "keySet v = Inr ks"
  shows "key_set_ok ks \<and> norm v = norm (key_set_value ks)"
proof -
  obtain vs t where vs: "closed_object [''keys'', ''threshold''] v" "ev v ''keys'' = JArr vs" "1 \<le> length vs" "length vs \<le> 8" "distinct vs"
      "traverse check_key vs = Inr (ks_keys ks)" "safe_integer (ev v ''threshold'') = Some (ks_threshold ks)"
      "1 \<le> ks_threshold ks" "ks_threshold ks \<le> int (length (ks_keys ks))"
    using assms by (auto simp: keySet_def bounded_array_def ok_iff if_Inl_ok split: option.splits if_splits)
  have keys: "vs = map JStr (ks_keys ks) \<and> list_all (\<lambda>k. length k \<le> 64 \<and> is_ok (decodeKeyId k)) (ks_keys ks)"
    using vs(6) [unfolded traverse_ok_iff check_key_ok] by (induction rule: list_all2_induct) auto
  have "ev v ''threshold'' = jint (ks_threshold ks)"
    using vs(7,8) by (cases "ev v ''threshold''" rule: safe_integer.cases) (auto simp: jint_def split: if_splits)
  moreover obtain x y where "v = JObj [(js ''keys'', x), (js ''threshold'', y)] \<or> v = JObj [(js ''threshold'', y), (js ''keys'', x)]"
    using two_members [OF vs(1)] by auto
  ultimately have "v = JObj [(js ''keys'', JArr vs), (js ''threshold'', jint (ks_threshold ks))] \<or>
      v = JObj [(js ''threshold'', jint (ks_threshold ks)), (js ''keys'', JArr vs)]"
    using vs(2) by (auto simp: ev_def)
  moreover have "js ''keys'' < js ''threshold''" by code_simp
  ultimately have "norm v = JObj [(js ''keys'', norm (JArr vs)), (js ''threshold'', norm (jint (ks_threshold ks)))]"
    using norm_two_members [of "js ''keys''" "js ''threshold''" "JArr vs" "jint (ks_threshold ks)"] by (auto simp: jint_def simp del: norm.simps)
  then have "norm v = norm (key_set_value ks)"
    using keys by (simp add: norm_key_set jint_def num_norm_def comp_def)
  moreover have "distinct (ks_keys ks)" "length (ks_keys ks) \<le> 8" using keys vs(4,5) by (auto simp: distinct_map)
  ultimately show ?thesis using keys vs(8,9) by (simp add: key_set_ok_def)
qed

lemma key_set_value_inj: "norm (key_set_value a) = norm (key_set_value b) \<Longrightarrow> a = b"
proof -
  assume n: "norm (key_set_value a) = norm (key_set_value b)"
  then show "a = b" by (simp add: norm_key_set jint_def inj_map_eq_map inj_def)
qed

lemma key_sets_ok:
  assumes "key_sets p = Inr (op, rec)"
  shows "key_set_ok op \<and> key_set_ok rec \<and> distinct (ks_keys op @ ks_keys rec) \<and>
     norm (ev p ''operational'') = norm (key_set_value op) \<and> norm (ev p ''recovery'') = norm (key_set_value rec)"
proof -
  have k: "keySet (ev p ''operational'') = Inr op" "keySet (ev p ''recovery'') = Inr rec"
      "\<not> list_ex (\<lambda>k. k \<in> set (ks_keys rec)) (ks_keys op)"
    using assms by (auto simp: key_sets_def ok_iff if_Inl_ok)
  then show ?thesis using keySet_ok [OF k(1)] keySet_ok [OF k(2)] by (auto simp: list_ex_iff key_set_ok_def)
qed

lemma same_text_ok:
  assumes "same_text v w = Inr True"
  shows "norm v = norm w"
proof -
  obtain a where "canonicalize v = Inr a" "canonicalize w = Inr a"
    using assms by (auto simp: same_text_def ok_iff)
  then show ?thesis by (rule canonicalize_norm_eq)
qed

subsection \<open>Signatures\<close>

text \<open>The key signed the bytes: the document carries a signature of it that \<open>verifyBytes\<close> accepts.\<close>

definition signed_by :: "(byte list \<Rightarrow> byte list \<Rightarrow> byte list \<Rightarrow> bool) \<Rightarrow> string \<Rightarrow> jval \<Rightarrow> jstr \<Rightarrow> bool" where
  "signed_by webcrypto_verify domain doc k \<longleftrightarrow>
     (\<exists>bytes raw t sigs. domain_bytes domain (ev doc ''body'') = Inr bytes \<and> ev doc ''signatures'' = JArr sigs \<and>
        decodeSignature t = Inr raw \<and> verifyBytes webcrypto_verify k bytes raw = Inr True \<and>
        (\<exists>s \<in> set sigs. ev s ''key_id'' = JStr k \<and> ev s ''signature'' = JStr t))"

lemma check_signatures_ok:
  "check_signatures V bytes seen ss = Inr signers \<Longrightarrow> distinct seen \<Longrightarrow>
     distinct signers \<and> (\<exists>ks. signers = seen @ ks \<and> length ks = length ss \<and>
       (\<forall>k \<in> set ks. \<exists>s \<in> set ss. \<exists>t raw. ev s ''key_id'' = JStr k \<and> ev s ''signature'' = JStr t \<and>
          decodeSignature t = Inr raw \<and> verifyBytes V k bytes raw = Inr True))"
proof (induction V bytes seen ss arbitrary: signers rule: check_signatures.induct)
  case (2 V bytes seen s ss)
  obtain k where k: "check_identity_signature V bytes seen s = Inr k" "check_signatures V bytes (seen @ [k]) ss = Inr signers"
    using "2.prems"(1) by (auto simp: ok_iff)
  obtain t raw where s: "ev s ''key_id'' = JStr k" "ev s ''signature'' = JStr t" "k \<notin> set seen"
      "decodeSignature t = Inr raw" "verifyBytes V k bytes raw = Inr True"
    using k(1) by (auto simp: check_identity_signature_def check_key_ok ok_iff if_Inl_ok split: option.splits if_splits)
  from "2.IH" [OF k] s(3) "2.prems"(2) obtain ks where "distinct signers" "signers = (seen @ [k]) @ ks" "length ks = length ss"
      "\<forall>k \<in> set ks. \<exists>s \<in> set ss. \<exists>t raw. ev s ''key_id'' = JStr k \<and> ev s ''signature'' = JStr t \<and>
          decodeSignature t = Inr raw \<and> verifyBytes V k bytes raw = Inr True" by auto
  then show ?case using s by (auto intro!: exI [of _ "k # ks"])
qed auto

lemma verified_ok:
  assumes "verified V domain doc = Inr signers"
  shows "distinct signers \<and> (\<forall>k \<in> set signers. signed_by V domain doc k)"
proof -
  obtain sigs bytes where d: "ev doc ''signatures'' = JArr sigs" "domain_bytes domain (ev doc ''body'') = Inr bytes"
      "check_signatures V bytes [] sigs = Inr signers"
    using assms by (auto simp: verified_def bounded_array_def ok_iff if_Inl_ok split: option.splits if_splits)
  from check_signatures_ok [OF d(3)] d(1,2) show ?thesis unfolding signed_by_def by fastforce
qed

text \<open>At least a quorum of the key set's own keys signed.\<close>

definition quorum_signed :: "(byte list \<Rightarrow> byte list \<Rightarrow> byte list \<Rightarrow> bool) \<Rightarrow> string \<Rightarrow> jval \<Rightarrow> key_set \<Rightarrow> bool" where
  "quorum_signed V domain doc ks \<longleftrightarrow>
     (\<exists>S. S \<subseteq> set (ks_keys ks) \<and> ks_threshold ks \<le> int (card S) \<and> (\<forall>k \<in> S. signed_by V domain doc k))"

lemma quorum_ok:
  assumes "quorum ks signers = Inr u" "verified V domain doc = Inr signers" "distinct (ks_keys ks)"
  shows "quorum_signed V domain doc ks"
proof -
  let ?S = "set (filter (\<lambda>k. k \<in> set signers) (ks_keys ks))"
  have "card ?S = length (filter (\<lambda>k. k \<in> set signers) (ks_keys ks))"
    using assms(3) by (intro distinct_card) simp
  then have "ks_threshold ks \<le> int (card ?S)" using assms(1) by (simp add: quorum_def ok_iff)
  moreover have "\<forall>k \<in> ?S. signed_by V domain doc k" using verified_ok [OF assms(2)] by simp
  ultimately show ?thesis unfolding quorum_signed_def by (intro exI [of _ ?S]) auto
qed

subsection \<open>The invariant of the control state\<close>

text \<open>
  The two key sets are valid and share no key, no retired key controls, the resolver's key neither controls nor ever
  did, and the recorded digest is the head's.
\<close>

definition identity_ok :: "(byte list \<Rightarrow> jstr) \<Rightarrow> identity_state \<Rightarrow> bool" where
  "identity_ok H s \<longleftrightarrow> control_ok (st_head s) \<and> 0 \<le> co_sequence (st_head s) \<and>
     set (st_retired s) \<inter> set (controlling (st_head s)) = {} \<and> length (st_retired s) \<le> 4096 \<and>
     st_resolver_key s \<notin> set (controlling (st_head s)) \<union> set (st_retired s) \<and>
     digest_of H (control_value (st_head s)) = Inr (st_head_digest s)"

lemma create_facts:
  assumes "createIdentity V H doc resolver now = Inr s"
  shows "identity_ok H s \<and> st_retired s = [] \<and> st_epoch s = 0 \<and> co_sequence (st_head s) = 0 \<and> co_previous (st_head s) = None \<and>
     co_effective (st_head s) = now \<and> st_last_lease s = now \<and> st_last_update s = now \<and>
     digest_of H (JObj [(js ''domain'', JStr (js ''DTP-PERSON-GENESIS-1'')), (js ''body'', ev doc ''body'')]) = Inr (st_genesis_digest s) \<and>
     co_identity (st_head s) = identity_id_of (st_genesis_digest s) \<and>
     (\<forall>k \<in> set (controlling (st_head s)). signed_by V ''DTP-PERSON-GENESIS-1'' doc k)"
proof -
  obtain op rec rk signers bytes h where c: "key_sets (ev doc ''body'') = Inr (op, rec)" "rk \<notin> set (ks_keys op @ ks_keys rec)"
      "verified V ''DTP-PERSON-GENESIS-1'' doc = Inr signers" "list_all (\<lambda>k. k \<in> set signers) (ks_keys op @ ks_keys rec)"
      "domain_bytes ''DTP-PERSON-GENESIS-1'' (ev doc ''body'') = Inr bytes" "st_retired s = []" "st_resolver_key s = rk"
      "st_head s = \<lparr>co_identity = identity_id_of (H bytes), co_sequence = 0, co_previous = None,
           co_operational = op, co_recovery = rec, co_effective = now\<rparr>" "st_genesis_digest s = H bytes"
      "digest_of H (control_value (st_head s)) = Inr (st_head_digest s)" "st_epoch s = 0" "st_last_lease s = now" "st_last_update s = now"
    using assms by (auto simp: createIdentity_def Let_def ok_iff split: prod.splits)
  then show ?thesis
    using key_sets_ok [OF c(1)] verified_ok [OF c(3)]
    by (auto simp: identity_ok_def control_ok_def controlling_def digest_of_def domain_bytes_def ok_iff list_all_iff)
qed

text \<open>What an accepted transition did, and who allowed it.\<close>

definition allowed_change :: "(byte list \<Rightarrow> byte list \<Rightarrow> byte list \<Rightarrow> bool) \<Rightarrow> control \<Rightarrow> jval \<Rightarrow> control \<Rightarrow> bool" where
  "allowed_change V c doc c' \<longleftrightarrow>
     (if of_kind (ev doc ''body'') ''rotate''
      then quorum_signed V ''DTP-IDENTITY-TRANSITION-1'' doc (co_operational c) \<and> co_recovery c' = co_recovery c
      else quorum_signed V ''DTP-IDENTITY-TRANSITION-1'' doc (co_recovery c) \<and>
        (if of_kind (ev doc ''body'') ''recover'' then co_recovery c' = co_recovery c
         else of_kind (ev doc ''body'') ''recovery-policy'' \<and> co_operational c' = co_operational c)) \<and>
     (\<forall>k \<in> set (controlling c') - set (controlling c). signed_by V ''DTP-IDENTITY-TRANSITION-1'' doc k)"

lemma transition_facts:
  assumes "transitionIdentity V H s doc now = Inr s'" "identity_ok H s"
  shows "identity_ok H s' \<and> allowed_change V (st_head s) doc (st_head s') \<and>
     st_retired s' = st_retired s @ filter (\<lambda>k. k \<notin> set (controlling (st_head s'))) (controlling (st_head s)) \<and>
     co_identity (st_head s') = co_identity (st_head s) \<and> co_sequence (st_head s') = co_sequence (st_head s) + 1 \<and>
     co_previous (st_head s') = Some (st_head_digest s) \<and>
     co_effective (st_head s') = max now (st_last_lease s + CLOCK_MARGIN_MS) \<and>
     st_last_update s \<le> now \<and> co_effective (st_head s) \<le> now \<and> st_last_update s' = now \<and> st_last_lease s' = st_last_lease s \<and>
     st_genesis_digest s' = st_genesis_digest s \<and> st_resolver s' = st_resolver s \<and> st_resolver_key s' = st_resolver_key s \<and>
     st_epoch s' = st_epoch s"
proof -
  let ?p = "ev doc ''body''" and ?c = "st_head s"
  obtain op rec signers u u' h where t: "check_barrier s now = Inr ()" "key_sets ?p = Inr (op, rec)"
      "list_ex (of_kind ?p) [''rotate'', ''recover'', ''recovery-policy'']"
      "verified V ''DTP-IDENTITY-TRANSITION-1'' doc = Inr signers"
      "quorum (if of_kind ?p ''rotate'' then co_operational ?c else co_recovery ?c) signers = Inr u"
      "keeps_other_set ?c ?p = Inr u'" "st_resolver_key s \<notin> set (ks_keys op @ ks_keys rec)"
      "\<not> list_ex (\<lambda>k. k \<in> set (st_retired s)) (ks_keys op @ ks_keys rec)"
      "list_all (\<lambda>k. k \<in> set signers) (filter (\<lambda>k. k \<notin> set (controlling ?c)) (ks_keys op @ ks_keys rec))"
      "length (st_retired s') \<le> 4096"
      "digest_of H (control_value (st_head s')) = Inr h"
      "st_head s' = \<lparr>co_identity = co_identity ?c, co_sequence = co_sequence ?c + 1, co_previous = Some (st_head_digest s),
           co_operational = op, co_recovery = rec, co_effective = max now (st_last_lease s + CLOCK_MARGIN_MS)\<rparr>"
      "s' = s\<lparr>st_head := st_head s', st_head_digest := h,
         st_retired := st_retired s @ filter (\<lambda>k. k \<notin> set (ks_keys op @ ks_keys rec)) (controlling ?c), st_last_update := now\<rparr>"
    using assms(1) by (auto simp: transitionIdentity_def Let_def ok_iff split: prod.splits)
  have sets: "key_set_ok op" "key_set_ok rec" "distinct (ks_keys op @ ks_keys rec)"
      "norm (ev ?p ''operational'') = norm (key_set_value op)" "norm (ev ?p ''recovery'') = norm (key_set_value rec)"
    using key_sets_ok [OF t(2)] by auto
  have c': "controlling (st_head s') = ks_keys op @ ks_keys rec" by (simp add: t(12) controlling_def)
  have same: "st_resolver_key s' = st_resolver_key s" "st_head_digest s' = h" "st_last_update s' = now" "st_last_lease s' = st_last_lease s"
      "st_epoch s' = st_epoch s" "st_genesis_digest s' = st_genesis_digest s" "st_resolver s' = st_resolver s"
      "st_retired s' = st_retired s @ filter (\<lambda>k. k \<notin> set (controlling (st_head s'))) (controlling ?c)"
    unfolding c' by (subst t(13), simp)+
  have old: "control_ok ?c" using assms(2) by (simp add: identity_ok_def)
  have keeps: "if of_kind ?p ''rotate'' \<or> of_kind ?p ''recover'' then rec = co_recovery ?c else op = co_operational ?c"
    using t(6) sets(4,5) same_text_ok key_set_value_inj by (fastforce simp: keeps_other_set_def ok_iff split: if_splits)
  have "quorum_signed V ''DTP-IDENTITY-TRANSITION-1'' doc (if of_kind ?p ''rotate'' then co_operational ?c else co_recovery ?c)"
    using quorum_ok [OF t(5,4)] old by (simp add: control_ok_def key_set_ok_def)
  then have "allowed_change V ?c doc (st_head s')"
    using keeps t(3,9,12) verified_ok [OF t(4)] c' by (auto simp: allowed_change_def list_all_iff)
  moreover have "identity_ok H s'"
    using t(7,8,10,11,12) assms(2) sets(1-3) c' same by (auto simp: identity_ok_def control_ok_def list_ex_iff)
  ultimately show ?thesis using t(1,12) same by (simp add: check_barrier_def ok_iff)
qed

lemma rehome_facts:
  assumes "rehomeIdentity V H U s doc now = Inr s'" "identity_ok H s"
  shows "identity_ok H s' \<and> quorum_signed V ''DTP-IDENTITY-REHOME-1'' doc (co_recovery (st_head s)) \<and>
     co_operational (st_head s') = co_operational (st_head s) \<and> co_recovery (st_head s') = co_recovery (st_head s) \<and>
     st_retired s' = st_retired s \<and> co_identity (st_head s') = co_identity (st_head s) \<and>
     co_sequence (st_head s') = co_sequence (st_head s) + 1 \<and> co_effective (st_head s') = now \<and>
     digest_of H (JObj [(js ''domain'', JStr (js ''DTP-IDENTITY-REHOME-1'')), (js ''body'', ev doc ''body'')]) =
       Inr (the (co_previous (st_head s'))) \<and> co_previous (st_head s') \<noteq> None \<and>
     ev (ev doc ''body'') ''expected_digest'' = JStr (st_head_digest s) \<and>
     st_last_update s \<le> now \<and> co_effective (st_head s) \<le> now \<and> st_last_update s' = now \<and> st_last_lease s' = now + LEASE_MS \<and>
     st_genesis_digest s' = st_genesis_digest s \<and> st_epoch s' = st_epoch s + 1 \<and>
     ev (ev (ev doc ''body'') ''to'') ''resolver_id'' = JStr (st_resolver s') \<and>
     ev (ev (ev doc ''body'') ''to'') ''resolver_key'' = JStr (st_resolver_key s')"
proof -
  let ?p = "ev doc ''body''" and ?c = "st_head s"
  obtain rk signers bytes h rid u where t: "check_barrier s now = Inr ()" "names_next_head s ?p"
      "check_key (ev (ev ?p ''to'') ''resolver_key'') = Inr rk" "rk \<notin> set (controlling ?c @ st_retired s)"
      "verified V ''DTP-IDENTITY-REHOME-1'' doc = Inr signers" "quorum (co_recovery ?c) signers = Inr u"
      "domain_bytes ''DTP-IDENTITY-REHOME-1'' ?p = Inr bytes" "ev (ev ?p ''to'') ''resolver_id'' = JStr rid"
      "digest_of H (control_value (st_head s')) = Inr h"
      "st_head s' = \<lparr>co_identity = co_identity ?c, co_sequence = co_sequence ?c + 1, co_previous = Some (H bytes),
           co_operational = co_operational ?c, co_recovery = co_recovery ?c, co_effective = now\<rparr>"
      "s' = s\<lparr>st_head := st_head s', st_head_digest := h, st_resolver := rid, st_resolver_key := rk,
       st_epoch := st_epoch s + 1, st_last_lease := now + LEASE_MS, st_last_update := now\<rparr>"
    using assms(1) by (auto simp: rehomeIdentity_def Let_def ok_iff)
  have same: "st_resolver_key s' = rk" "st_resolver s' = rid" "st_head_digest s' = h" "st_last_update s' = now"
      "st_last_lease s' = now + LEASE_MS" "st_epoch s' = st_epoch s + 1" "st_genesis_digest s' = st_genesis_digest s"
      "st_retired s' = st_retired s"
    by (subst t(11), simp)+
  have "quorum_signed V ''DTP-IDENTITY-REHOME-1'' doc (co_recovery ?c)"
    using quorum_ok [OF t(6,5)] assms(2) by (simp add: identity_ok_def control_ok_def key_set_ok_def)
  moreover have "identity_ok H s'"
    using t(4,9,10) assms(2) same by (auto simp: identity_ok_def control_ok_def controlling_def)
  ultimately show ?thesis
    using t(1,2,3,7,8,10) same
    by (auto simp: check_barrier_def names_next_head_def check_key_ok digest_of_def domain_bytes_def ok_iff)
qed

text \<open>A lease says what the resolver signed: the current head, for \<open>LEASE_MS\<close>; the state records its end.\<close>

lemma resolution_facts:
  assumes "issueResolution sg U s input key now = Inr (s', proof_doc)"
  shows "s' = s\<lparr>st_last_lease := max (st_last_lease s) (now + LEASE_MS), st_last_update := now\<rparr> \<and>
     st_last_update s \<le> now \<and> co_effective (st_head s) \<le> now \<and> ev proof_doc ''body'' = lease_body s input now"
proof -
  have "ev (JObj [(js ''body'', b), (js ''signatures'', x)]) ''body'' = b" for b x by (simp add: ev_def)
  then show ?thesis
    using assms by (auto simp: issueResolution_def check_barrier_def signIdentity_def ok_iff)
qed

lemma lease_body_fields:
  "ev (lease_body s input now) ''head'' = control_value (st_head s)"
  "ev (lease_body s input now) ''head_digest'' = JStr (st_head_digest s)"
  "ev (lease_body s input now) ''issued_at'' = jint now"
  "ev (lease_body s input now) ''expires_at'' = jint (now + LEASE_MS)"
  by (simp_all add: ev_def lease_body_def)

end
