(* ===== verification/IdentityLog.thy ===== *)
theory IdentityLog
  imports IdentityRules
begin

text \<open>
  \<^verbatim>\<open>sdk/src/foundation/identity-log.ts\<close>: the portable history of an identity, verified by replaying the control state
  machine under a timeline of witnesses.  A log and its parts are any values; what the verifier returns is typed.
\<close>

datatype log_refusal =
    Control identity_refusal | NotClosed | NotBounded | UnsupportedFormat | BadInstant | EnrollmentBody | FirstEntry
  | ExactlyOneCommand | CommandBody | InvalidWindow | BeforeWindow | InstantsDecrease | ExpiredBefore | BeyondBarrier
  | BeyondWindow | AudienceRequired | NotReproducible | AttestationRequired | OtherHead | AttestationKey | AttestationSignature
  | BadCheckpoint | OtherIdentities | BadPin | OtherPin | TooManyRefusals | BadTarget | OtherRehome | RefusalKey | RefusalSignature
  | RefusalInstant | NotTheDestination | NotEnrolled | Incomplete | UncommittedRehome | BadEnrollmentWindow | BadDigestText
  | UnexpectedHead | BadAck | NotHashed sha_error

definition IDENTITY_LOG_FORMAT :: jstr where "IDENTITY_LOG_FORMAT = js ''dtp-identity-log-2''"
definition LEGACY_IDENTITY_LOG_FORMAT :: jstr where "LEGACY_IDENTITY_LOG_FORMAT = js ''dtp-identity-log-1''"
definition HEAD_ATTESTATION_DOMAIN :: string where "HEAD_ATTESTATION_DOMAIN = ''DTP-IDENTITY-LOG-HEAD-1''"
definition MAX_LOG_ENTRIES :: nat where "MAX_LOG_ENTRIES = 4096"

record log_entry =
  en_effective :: int
  en_transition :: jval
  en_rehome :: jval
  en_attestation :: jval

record resolver_binding =
  rb_epoch :: int
  rb_id :: jstr
  rb_key :: jstr
  rb_audience :: jstr

record verified_head =
  vh_head :: control
  vh_digest :: jstr
  vh_epoch :: int
  vh_attested :: bool

text \<open>The verified log: the bindings by epoch, the heads, and the state after the last entry.\<close>

record verified_log =
  vl_resolvers :: "resolver_binding list"
  vl_heads :: "verified_head list"
  vl_unattested :: "nat list"
  vl_state :: identity_state

definition vl_identity :: "verified_log \<Rightarrow> jstr" where
  "vl_identity v = co_identity (st_head (vl_state v))"

definition vl_resolver :: "verified_log \<Rightarrow> resolver_binding" where
  "vl_resolver v = last (vl_resolvers v)"

definition vl_head :: "verified_log \<Rightarrow> control" where
  "vl_head v = st_head (vl_state v)"

definition vl_head_digest :: "verified_log \<Rightarrow> jstr" where
  "vl_head_digest v = st_head_digest (vl_state v)"

definition control_step :: "identity_refusal + 'a \<Rightarrow> log_refusal + 'a" where
  "control_step m = map_err Control m"

lemma control_step_ok [ok_iff]: "control_step m = Inr x \<longleftrightarrow> m = Inr x"
  by (simp add: control_step_def)

subsection \<open>Parts\<close>

definition instant :: "jval \<Rightarrow> int option" where
  "instant v = (case safe_integer v of None \<Rightarrow> None | Some n \<Rightarrow> if 0 \<le> n then Some n else None)"

definition bounded_list :: "nat \<Rightarrow> nat \<Rightarrow> jval \<Rightarrow> log_refusal + jval list" where
  "bounded_list lo hi v =
     (case array_of v of
        None \<Rightarrow> Inl NotBounded
      | Some vs \<Rightarrow> if lo \<le> length vs \<and> length vs \<le> hi then Inr vs else Inl NotBounded)"

text \<open>\<open>v && typeof v === 'object'\<close>\<close>

definition object_like :: "jval \<Rightarrow> bool" where
  "object_like v \<longleftrightarrow> object_of v \<noteq> None \<or> array_of v \<noteq> None"

definition attestation_value :: "control \<Rightarrow> jstr \<Rightarrow> jstr \<Rightarrow> int \<Rightarrow> jval" where
  "attestation_value c head_digest resolver_id resolver_epoch = JObj
     [(js ''identity_id'', JStr (co_identity c)), (js ''resolver_id'', JStr resolver_id), (js ''resolver_epoch'', jint resolver_epoch),
      (js ''sequence'', jint (co_sequence c)), (js ''head_digest'', JStr head_digest), (js ''effective_at'', jint (co_effective c))]"

definition binding :: "identity_state \<Rightarrow> jstr \<Rightarrow> resolver_binding" where
  "binding s audience =
     \<lparr>rb_epoch = st_epoch s, rb_id = st_resolver s, rb_key = st_resolver_key s, rb_audience = audience\<rparr>"

text \<open>The one signature of a resolver over a document of a domain; the two documents that have one read it alike.\<close>

definition check_sole_signature ::
  "(byte list \<Rightarrow> byte list \<Rightarrow> byte list \<Rightarrow> bool) \<Rightarrow> log_refusal \<Rightarrow> log_refusal \<Rightarrow> string \<Rightarrow> jval \<Rightarrow> jstr \<Rightarrow> jval \<Rightarrow>
   log_refusal + unit" where
  "check_sole_signature webcrypto_verify bad_key bad_signature domain body key s =
     ebind (needs [(closed_object [''key_id'', ''signature''] s, NotClosed)]) (\<lambda>_.
     case str_of (ev s ''signature'') of
       None \<Rightarrow> Inl bad_key
     | Some t \<Rightarrow>
         if ev s ''key_id'' \<noteq> JStr key \<or> length t > 128 then Inl bad_key
         else
           ebind (control_step (map_err NotCanonical (domain_bytes domain body))) (\<lambda>bytes.
           ebind (control_step (map_err NotAKey (decodeSignature t))) (\<lambda>raw.
           ebind (control_step (map_err NotAKey (verifyBytes webcrypto_verify key bytes raw))) (\<lambda>ok.
           guard ok bad_signature))))"

definition checkAttestation ::
  "(byte list \<Rightarrow> byte list \<Rightarrow> byte list \<Rightarrow> bool) \<Rightarrow> jval \<Rightarrow> jval \<Rightarrow> jstr \<Rightarrow> log_refusal + unit" where
  "checkAttestation webcrypto_verify doc expected resolverKey =
     ebind (needs [(closed_object [''body'', ''signatures''] doc, NotClosed)]) (\<lambda>_.
     ebind (bounded_list 1 1 (ev doc ''signatures'')) (\<lambda>signatures.
     ebind (control_step (same_text (ev doc ''body'') expected)) (\<lambda>same.
     ebind (guard same OtherHead) (\<lambda>_.
     check_sole_signature webcrypto_verify AttestationKey AttestationSignature HEAD_ATTESTATION_DOMAIN expected resolverKey
       (hd signatures)))))"

text \<open>\<open>window\<close>: when the signed window allows the effective instant; it returns the end of the window.\<close>

definition log_window :: "jval \<Rightarrow> int \<Rightarrow> int \<Rightarrow> log_refusal + int" where
  "log_window body at previous =
     (case (instant (ev body ''issued_at''), instant (ev body ''expires_at'')) of
        (Some issued, Some expires) \<Rightarrow>
          ebind (needs [(issued \<le> at, BeforeWindow), (previous \<le> at, InstantsDecrease), (previous < expires, ExpiredBefore)])
            (\<lambda>_. Inr expires)
      | _ \<Rightarrow> Inl InvalidWindow)"

definition read_entry :: "bool \<Rightarrow> jval \<Rightarrow> log_refusal + log_entry" where
  "read_entry legacy raw =
     ebind (control_step (copyIdentityData raw)) (\<lambda>e.
     ebind (needs [(closed_object (if legacy then [''effective_at'', ''transition'', ''attestation'']
         else [''effective_at'', ''transition'', ''rehome'', ''attestation'']) e, NotClosed)]) (\<lambda>_.
     case instant (ev e ''effective_at'') of
       None \<Rightarrow> Inl BadInstant
     | Some at \<Rightarrow> Inr \<lparr>en_effective = at, en_transition = ev e ''transition'',
         en_rehome = (if legacy then JNull else ev e ''rehome''), en_attestation = ev e ''attestation''\<rparr>))"

subsection \<open>Replay\<close>

text \<open>
  The witness timeline: a transition is accepted at the last instant that its signed window allows, under exactly the
  lease barrier that yields the logged instant; a rehome when it took effect.
\<close>

definition replay_transition ::
  "(byte list \<Rightarrow> byte list \<Rightarrow> byte list \<Rightarrow> bool) \<Rightarrow> (byte list \<Rightarrow> jstr) \<Rightarrow> identity_state \<Rightarrow> jval \<Rightarrow> int \<Rightarrow>
   log_refusal + identity_state" where
  "replay_transition V H s command at =
     (let previous = co_effective (st_head s) in
      ebind (needs [(closed_object [''body'', ''signatures''] command, NotClosed), (object_like (ev command ''body''), CommandBody)]) (\<lambda>_.
      ebind (log_window (ev command ''body'') at previous) (\<lambda>expires.
      ebind (needs [(at \<le> expires - 1 + LEASE_MS + CLOCK_MARGIN_MS, BeyondBarrier)]) (\<lambda>_.
      control_step (transitionIdentity V H (s\<lparr>st_last_update := previous, st_last_lease := at - CLOCK_MARGIN_MS\<rparr>) command
        (min (expires - 1) at))))))"

definition replay_rehome ::
  "(byte list \<Rightarrow> byte list \<Rightarrow> byte list \<Rightarrow> bool) \<Rightarrow> (byte list \<Rightarrow> jstr) \<Rightarrow> (jstr \<Rightarrow> jstr option) \<Rightarrow> identity_state \<Rightarrow>
   jval \<Rightarrow> int \<Rightarrow> log_refusal + identity_state \<times> resolver_binding" where
  "replay_rehome V H U s move at =
     (let previous = co_effective (st_head s) in
      ebind (needs [(closed_object [''body'', ''signatures''] move, NotClosed), (object_like (ev move ''body''), CommandBody)]) (\<lambda>_.
      ebind (log_window (ev move ''body'') at previous) (\<lambda>expires.
      ebind (needs [(at < expires, BeyondWindow)]) (\<lambda>_.
      ebind (control_step (rehomeIdentity V H U (s\<lparr>st_last_update := previous\<rparr>) move at)) (\<lambda>s'.
      ebind (require AudienceRequired (str_of (ev (ev (ev move ''body'') ''to'') ''audience''))) (\<lambda>audience.
      Inr (s', binding s' audience)))))))"

definition replay_command ::
  "(byte list \<Rightarrow> byte list \<Rightarrow> byte list \<Rightarrow> bool) \<Rightarrow> (byte list \<Rightarrow> jstr) \<Rightarrow> (jstr \<Rightarrow> jstr option) \<Rightarrow> verified_log \<Rightarrow> nat \<Rightarrow>
   log_entry \<Rightarrow> log_refusal + identity_state \<times> resolver_binding list" where
  "replay_command V H U v n e =
     (if (en_transition e = JNull) = (en_rehome e = JNull) then Inl ExactlyOneCommand
      else
        ebind
          (if en_transition e \<noteq> JNull
           then ebind (replay_transition V H (vl_state v) (en_transition e) (en_effective e)) (\<lambda>s'. Inr (s', vl_resolvers v))
           else ebind (replay_rehome V H U (vl_state v) (en_rehome e) (en_effective e)) (\<lambda>(s', r). Inr (s', vl_resolvers v @ [r])))
          (\<lambda>(s', resolvers).
        ebind (needs [(co_effective (st_head s') = en_effective e \<and> co_sequence (st_head s') = int n, NotReproducible)]) (\<lambda>_.
        Inr (s', resolvers))))"

text \<open>The end of each round: the attestation of the head, and what the round records.\<close>

definition note_head ::
  "(byte list \<Rightarrow> byte list \<Rightarrow> byte list \<Rightarrow> bool) \<Rightarrow> bool \<Rightarrow> verified_log \<Rightarrow> nat \<Rightarrow> log_entry \<Rightarrow> log_refusal + verified_log" where
  "note_head V require_attestation v n e =
     (let s = vl_state v; current = vl_resolver v; attested = en_attestation e \<noteq> JNull in
      ebind
        (if \<not> attested then guard (\<not> require_attestation) AttestationRequired
         else checkAttestation V (en_attestation e)
           (attestation_value (st_head s) (st_head_digest s) (rb_id current) (rb_epoch current)) (rb_key current)) (\<lambda>_.
      Inr (v\<lparr>vl_heads := vl_heads v @ [\<lparr>vh_head = st_head s, vh_digest = st_head_digest s, vh_epoch = rb_epoch current, vh_attested = attested\<rparr>],
             vl_unattested := vl_unattested v @ (if attested then [] else [n])\<rparr>)))"

fun replay_entries ::
  "(byte list \<Rightarrow> byte list \<Rightarrow> byte list \<Rightarrow> bool) \<Rightarrow> (byte list \<Rightarrow> jstr) \<Rightarrow> (jstr \<Rightarrow> jstr option) \<Rightarrow> bool \<Rightarrow> verified_log \<Rightarrow> nat \<Rightarrow>
   log_entry list \<Rightarrow> log_refusal + verified_log" where
  "replay_entries V H U strict v n [] = Inr v"
| "replay_entries V H U strict v n (e # es) =
     ebind (replay_command V H U v n e) (\<lambda>(s', resolvers).
     ebind (note_head V strict (v\<lparr>vl_state := s', vl_resolvers := resolvers\<rparr>) n e) (\<lambda>v'.
     replay_entries V H U strict v' (Suc n) es))"

text \<open>The genesis head: it takes effect when the resolver accepts the enrollment, inside the window that the owner signed.\<close>

definition enrolled_resolver :: "jval \<Rightarrow> jval" where
  "enrolled_resolver enrollment = JObj
     [(js ''id'', ev (ev enrollment ''body'') ''resolver_id''), (js ''key_id'', ev (ev enrollment ''body'') ''resolver_key'')]"

definition replay_genesis ::
  "(byte list \<Rightarrow> byte list \<Rightarrow> byte list \<Rightarrow> bool) \<Rightarrow> (byte list \<Rightarrow> jstr) \<Rightarrow> (jstr \<Rightarrow> jstr option) \<Rightarrow> jval \<Rightarrow> jval \<Rightarrow> int \<Rightarrow>
   log_refusal + verified_log" where
  "replay_genesis V H U genesis enrollment at =
     (let audience = ev (ev enrollment ''body'') ''audience'' in
      ebind (control_step (createIdentity V H genesis (enrolled_resolver enrollment) at)) (\<lambda>s.
      ebind (control_step (verifyResolverEnrollment V U s enrollment audience at)) (\<lambda>_.
      ebind (require AudienceRequired (str_of audience)) (\<lambda>audience.
      Inr \<lparr>vl_resolvers = [binding s audience], vl_heads = [], vl_unattested = [], vl_state = s\<rparr>))))"

text \<open>The verifier after it has read the parts of the log.\<close>

definition verify_parts ::
  "(byte list \<Rightarrow> byte list \<Rightarrow> byte list \<Rightarrow> bool) \<Rightarrow> (byte list \<Rightarrow> jstr) \<Rightarrow> (jstr \<Rightarrow> jstr option) \<Rightarrow> bool \<Rightarrow> jval \<Rightarrow> jval \<Rightarrow>
   log_entry list \<Rightarrow> log_refusal + verified_log" where
  "verify_parts V H U require_attestation genesis enrollment entries =
     ebind (needs [(closed_object [''body'', ''signatures''] enrollment, NotClosed),
         (object_like (ev enrollment ''body''), EnrollmentBody),
         (en_transition (hd entries) = JNull \<and> en_rehome (hd entries) = JNull, FirstEntry)]) (\<lambda>_.
     ebind (replay_genesis V H U genesis enrollment (en_effective (hd entries))) (\<lambda>v.
     ebind (note_head V require_attestation v 0 (hd entries)) (\<lambda>v'.
     replay_entries V H U require_attestation v' 1 (tl entries))))"

definition verifyIdentityLog ::
  "(byte list \<Rightarrow> byte list \<Rightarrow> byte list \<Rightarrow> bool) \<Rightarrow> (byte list \<Rightarrow> jstr) \<Rightarrow> (jstr \<Rightarrow> jstr option) \<Rightarrow> bool \<Rightarrow> jval \<Rightarrow>
   log_refusal + verified_log" where
  "verifyIdentityLog V H U require_attestation input =
     ebind (needs [(closed_object [''format'', ''genesis'', ''enrollment'', ''entries''] input, NotClosed)]) (\<lambda>_.
     let legacy = (ev input ''format'' = JStr LEGACY_IDENTITY_LOG_FORMAT) in
     ebind (needs [(legacy \<or> ev input ''format'' = JStr IDENTITY_LOG_FORMAT, UnsupportedFormat)]) (\<lambda>_.
     ebind (bounded_list 1 MAX_LOG_ENTRIES (ev input ''entries'')) (\<lambda>raw.
     ebind (control_step (copyIdentityData (ev input ''genesis''))) (\<lambda>genesis.
     ebind (control_step (copyIdentityData (ev input ''enrollment''))) (\<lambda>enrollment.
     ebind (traverse (read_entry legacy) raw) (\<lambda>entries.
     verify_parts V H U require_attestation genesis enrollment entries))))))"

end
