(* ===== verification/IdentityRuns.thy ===== *)
theory IdentityRuns
  imports IdentityRules
begin

text \<open>
  The life of an identity at its resolver: transitions, rehomes and leases in any order, each accepted or refused.
  The model keeps the leases that were issued, which the code hands to verifiers and does not store.
\<close>

datatype identity_command =
    Transition jval int
  | Rehome jval int
  | Resolve jval "jstr \<times> jstr" int

record lease =
  le_head :: control
  le_issued :: int
  le_expires :: int
  le_proof :: jval

definition host_step ::
  "(byte list \<Rightarrow> byte list \<Rightarrow> byte list \<Rightarrow> bool) \<Rightarrow> (byte list \<Rightarrow> jstr) \<Rightarrow> (byte list \<Rightarrow> byte list \<Rightarrow> byte list) \<Rightarrow>
   (jstr \<Rightarrow> jstr option) \<Rightarrow> identity_state \<times> lease list \<Rightarrow> identity_command \<Rightarrow> identity_state \<times> lease list" where
  "host_step V H ed25519_sign U host cmd =
     (case host of (s, leases) \<Rightarrow>
       (case cmd of
          Transition doc now \<Rightarrow>
            (case transitionIdentity V H s doc now of Inl _ \<Rightarrow> (s, leases) | Inr s' \<Rightarrow> (s', leases))
        | Rehome doc now \<Rightarrow>
            (case rehomeIdentity V H U s doc now of Inl _ \<Rightarrow> (s, leases) | Inr s' \<Rightarrow> (s', leases))
        | Resolve input key now \<Rightarrow>
            (case issueResolution ed25519_sign U s input key now of
               Inl _ \<Rightarrow> (s, leases)
             | Inr (s', resolution) \<Rightarrow>
                 (s', leases @ [\<lparr>le_head = st_head s, le_issued = now, le_expires = now + LEASE_MS, le_proof = resolution\<rparr>]))))"

definition same_keys :: "control \<Rightarrow> control \<Rightarrow> bool" where
  "same_keys a b \<longleftrightarrow> co_operational a = co_operational b \<and> co_recovery a = co_recovery b"

text \<open>Two leases, the earlier first: they vouch for the same keys, or the first ends a clock margin before the second begins.\<close>

definition apart :: "lease \<Rightarrow> lease \<Rightarrow> bool" where
  "apart l m \<longleftrightarrow> same_keys (le_head l) (le_head m) \<or> le_expires l + CLOCK_MARGIN_MS \<le> le_issued m"

text \<open>What the signed lease says is what the model recorded.\<close>

definition lease_states :: "lease \<Rightarrow> bool" where
  "lease_states l \<longleftrightarrow>
     (let b = ev (le_proof l) ''body'' in
      ev b ''head'' = control_value (le_head l) \<and> ev b ''issued_at'' = jint (le_issued l) \<and>
      ev b ''expires_at'' = jint (le_expires l))"

definition host_ok :: "(byte list \<Rightarrow> jstr) \<Rightarrow> identity_state \<times> lease list \<Rightarrow> bool" where
  "host_ok H host \<longleftrightarrow>
     (case host of (s, leases) \<Rightarrow>
       identity_ok H s \<and> st_last_lease s \<le> st_last_update s + LEASE_MS \<and> list_all lease_states leases \<and> sorted_wrt apart leases \<and>
       (\<forall>l \<in> set leases. le_expires l \<le> st_last_lease s \<and>
          (same_keys (le_head l) (st_head s) \<or> le_expires l + CLOCK_MARGIN_MS \<le> co_effective (st_head s))))"

lemma same_keys_trans: "same_keys a b \<Longrightarrow> same_keys b c \<Longrightarrow> same_keys a c"
  by (simp add: same_keys_def)

lemma host_step_ok:
  assumes "host_ok H host"
  shows "host_ok H (host_step V H sg U host cmd)"
proof -
  obtain s ls where host: "host = (s, ls)" by (cases host)
  note inv = assms [unfolded host host_ok_def prod.case]
  show ?thesis
  proof (cases cmd)
    case (Transition doc now)
    show ?thesis
    proof (cases "transitionIdentity V H s doc now")
      case (Inr s')
      have "identity_ok H s' \<and> co_effective (st_head s') = max now (st_last_lease s + CLOCK_MARGIN_MS) \<and> st_last_lease s' = st_last_lease s \<and>
          st_last_update s \<le> now \<and> st_last_update s' = now"
        using transition_facts [OF Inr] inv by simp
      then show ?thesis using Inr inv by (auto simp: host_step_def host Transition host_ok_def)
    qed (use assms in \<open>simp add: host_step_def host Transition\<close>)
  next
    case (Rehome doc now)
    show ?thesis
    proof (cases "rehomeIdentity V H U s doc now")
      case (Inr s')
      have r: "identity_ok H s'" "same_keys (st_head s) (st_head s')" "co_effective (st_head s) \<le> co_effective (st_head s')"
          "st_last_update s \<le> now" "st_last_lease s' = now + LEASE_MS" "st_last_update s' = now"
        using rehome_facts [OF Inr] inv by (simp_all add: same_keys_def)
      have "le_expires l \<le> now + LEASE_MS \<and>
          (same_keys (le_head l) (st_head s') \<or> le_expires l + CLOCK_MARGIN_MS \<le> co_effective (st_head s'))" if "l \<in> set ls" for l
        using that inv r same_keys_trans [OF _ r(2), of "le_head l"] by fastforce
      then show ?thesis using Inr inv r by (simp add: host_step_def host Rehome host_ok_def)
    qed (use assms in \<open>simp add: host_step_def host Rehome\<close>)
  next
    case (Resolve input key now)
    show ?thesis
    proof (cases "issueResolution sg U s input key now")
      case (Inr r)
      obtain s' doc where r: "r = (s', doc)" by (cases r)
      note f = resolution_facts [OF Inr [unfolded r]]
      then show ?thesis using Inr inv
        by (auto simp: host_step_def host Resolve r host_ok_def sorted_wrt_append apart_def lease_states_def lease_body_fields
            identity_ok_def same_keys_def)
    qed (use assms in \<open>simp add: host_step_def host Resolve\<close>)
  qed
qed

definition identity_after ::
  "(byte list \<Rightarrow> byte list \<Rightarrow> byte list \<Rightarrow> bool) \<Rightarrow> (byte list \<Rightarrow> jstr) \<Rightarrow> (byte list \<Rightarrow> byte list \<Rightarrow> byte list) \<Rightarrow>
   (jstr \<Rightarrow> jstr option) \<Rightarrow> identity_state \<Rightarrow> identity_command list \<Rightarrow> identity_state \<times> lease list" where
  "identity_after V H sg U s cmds = foldl (host_step V H sg U) (s, []) cmds"

lemma host_ok_created: "createIdentity V H doc r now = Inr s \<Longrightarrow> host_ok H (s, [])"
  using create_facts [of V H doc r now s] by (simp add: host_ok_def LEASE_MS_def)

lemma host_run_ok: "host_ok H host \<Longrightarrow> host_ok H (foldl (host_step V H sg U) host cmds)"
  by (induction cmds arbitrary: host) (simp_all add: host_step_ok)

lemma identity_after_ok: "createIdentity V H doc r now = Inr s \<Longrightarrow> host_ok H (identity_after V H sg U s cmds)"
  using host_run_ok host_ok_created by (simp add: identity_after_def)

subsection \<open>Retired keys\<close>

definition keys_forward :: "identity_state \<Rightarrow> identity_state \<Rightarrow> bool" where
  "keys_forward s s' \<longleftrightarrow> set (st_retired s) \<subseteq> set (st_retired s') \<and>
     set (controlling (st_head s)) - set (controlling (st_head s')) \<subseteq> set (st_retired s')"

lemma keys_forward_refl: "keys_forward s s"
  by (simp add: keys_forward_def)

lemma keys_forward_trans: "keys_forward a b \<Longrightarrow> keys_forward b c \<Longrightarrow> keys_forward a c"
  by (auto simp: keys_forward_def)

lemma host_step_forward:
  assumes "host_ok H host"
  shows "keys_forward (fst host) (fst (host_step V H sg U host cmd))"
proof -
  obtain s ls where host: "host = (s, ls)" by (cases host)
  have ok: "identity_ok H s" using assms by (simp add: host host_ok_def)
  show ?thesis
  proof (cases cmd)
    case (Transition doc now)
    have "keys_forward s s'" if "transitionIdentity V H s doc now = Inr s'" for s'
    proof -
      have "st_retired s' = st_retired s @ filter (\<lambda>k. k \<notin> set (controlling (st_head s'))) (controlling (st_head s))"
        using transition_facts [OF that ok] by blast
      then show ?thesis by (auto simp: keys_forward_def)
    qed
    then show ?thesis by (simp add: host_step_def host Transition keys_forward_refl split: sum.splits)
  next
    case (Rehome doc now)
    have "keys_forward s s'" if "rehomeIdentity V H U s doc now = Inr s'" for s'
      using rehome_facts [OF that ok] by (simp add: keys_forward_def controlling_def)
    then show ?thesis by (simp add: host_step_def host Rehome keys_forward_refl split: sum.splits)
  next
    case (Resolve input key now)
    have "keys_forward s s'" if "issueResolution sg U s input key now = Inr (s', doc)" for s' doc
      using resolution_facts [OF that] by (simp add: keys_forward_def)
    then show ?thesis by (simp add: host_step_def host Resolve keys_forward_refl split: sum.splits)
  qed
qed

lemma host_run_forward:
  "host_ok H host \<Longrightarrow> keys_forward (fst host) (fst (foldl (host_step V H sg U) host cmds))"
proof (induction cmds arbitrary: host)
  case (Cons cmd cmds)
  have "keys_forward (fst host) (fst (host_step V H sg U host cmd))" using host_step_forward Cons.prems by blast
  moreover have "keys_forward (fst (host_step V H sg U host cmd)) (fst (foldl (host_step V H sg U) (host_step V H sg U host cmd) cmds))"
    using Cons.IH host_step_ok [OF Cons.prems] by blast
  ultimately show ?case using keys_forward_trans by simp
qed (simp add: keys_forward_refl)

subsection \<open>A sample identity\<close>

definition id_bytes :: "nat \<Rightarrow> byte list" where "id_bytes n = replicate 31 0 @ [of_nat n]"

definition id_key :: "char \<Rightarrow> jstr" where "id_key d = PREFIX @ js (replicate 31 (CHR ''1'') @ [d])"

lemma id_keys: "encodeKeyId (id_bytes 1) = Inr (id_key (CHR ''2''))" "encodeKeyId (id_bytes 2) = Inr (id_key (CHR ''3''))"
  "encodeKeyId (id_bytes 3) = Inr (id_key (CHR ''4''))"
  by code_simp+

lemma decode_id_keys: "decodeKeyId (id_key (CHR ''2'')) = Inr (id_bytes 1)" "decodeKeyId (id_key (CHR ''3'')) = Inr (id_bytes 2)"
  "decodeKeyId (id_key (CHR ''4'')) = Inr (id_bytes 3)"
  using id_keys by (auto intro: key_id.decode_encode)

definition id_signature :: "jstr" where
  "id_signature = js ''ed25519:1111111111111111111111111111111111111111111111111111111111111111''"

lemma dec: "decodeSignature id_signature = Inr (replicate 64 0)"
proof -
  have "encodeSignature (replicate 64 0) = Inr id_signature" by code_simp
  then show ?thesis  by (rule signature_text.decode_encode)
qed

lemma id_verifies: assumes "c \<in> {CHR ''2'', CHR ''3'', CHR ''4''}" shows "verifyBytes (\<lambda>_ _ _. True) (id_key c) m (replicate 64 0) = Inr True"
proof -
  have pts: "canonicalPoint (replicate 32 0)" "canonicalPoint (id_bytes 1)" "canonicalPoint (id_bytes 2)" "canonicalPoint (id_bytes 3)"
    by code_simp+
  have le: "littleEndian (replicate 32 0) = 0" by code_simp
  have L: "0 < L" by (simp add: L_def)
  show ?thesis using assms pts le L by (auto simp: verifyBytes_def decode_id_keys)
qed

lemma id_key_simps [simp]: "length (id_key c) = 40" "(id_key c = id_key d) = (c = d)"
  by (simp_all add: id_key_def PREFIX_def)

lemma clean_id_key: "c \<in> {CHR ''2'', CHR ''3'', CHR ''4''} \<Longrightarrow> clean (id_key c)"
  by (auto simp: id_key_def PREFIX_def list_all_iff)

definition id_sig :: "char \<Rightarrow> jval" where
  "id_sig c = JObj [(js ''key_id'', JStr (id_key c)), (js ''signature'', JStr id_signature)]"

definition id_genesis :: jval where
  "id_genesis = JObj [(js ''body'', JObj [(js ''nonce'', JStr (js ''00000000-0000-4000-8000-000000000001'')),
       (js ''operational'', key_set_value \<lparr>ks_keys = [id_key (CHR ''2'')], ks_threshold = 1\<rparr>),
       (js ''recovery'', key_set_value \<lparr>ks_keys = [id_key (CHR ''3'')], ks_threshold = 1\<rparr>)]),
     (js ''signatures'', JArr (map id_sig [CHR ''2'', CHR ''3'']))]"

definition id_resolver :: jval where "id_resolver = JObj [(js ''id'', JStr (js ''00000000-0000-4000-8000-000000000002'')), (js ''key_id'', JStr (id_key (CHR ''4'')))]"

lemma copy_genesis: "copyIdentityData id_genesis = Inr id_genesis" "copyIdentityData id_resolver = Inr id_resolver"
  by (rule copy_ok; simp add: id_genesis_def id_resolver_def key_set_value_def jint_def MAX_SAFE_def FORBIDDEN_NAMES_def id_signature_def id_sig_def clean_id_key)+

lemma ev_JObj: "ev (JObj kvs) k = member kvs (js k)"
  by (simp add: ev_def)

lemma id_key_set: "c \<in> {CHR ''2'', CHR ''3'', CHR ''4''} \<Longrightarrow>
   keySet (key_set_value \<lparr>ks_keys = [id_key c], ks_threshold = 1\<rparr>) = Inr \<lparr>ks_keys = [id_key c], ks_threshold = 1\<rparr>"
  by (auto simp: keySet_def key_set_value_def needs_ok closed_object_def bounded_array_def ev_JObj check_key_ok jint_def MAX_SAFE_def decode_id_keys ok_iff
    check_key_def)

lemma id_uuids: "uuid_text (JStr (js ''00000000-0000-4000-8000-000000000001''))" "uuid_text (JStr (js ''00000000-0000-4000-8000-000000000002''))"
  by code_simp+

definition id_hash :: "byte list \<Rightarrow> jstr" where "id_hash bytes = replicate 64 0x30"

lemma id_check_signature:
  assumes "c \<in> {CHR ''2'', CHR ''3'', CHR ''4''}" "c \<notin> set seen"
  shows "check_identity_signature (\<lambda>_ _ _. True) bytes (map id_key seen) (id_sig c) = Inr (id_key c)"
proof -
  have "check_key (JStr (id_key c)) = Inr (id_key c)" using assms(1) by (auto simp: check_key_ok is_ok_iff decode_id_keys)
  moreover have "id_key c \<notin> id_key ` set seen" using assms(2) by auto
  moreover have "length id_signature \<le> 128" by (simp add: id_signature_def)
  moreover have "needs [(closed_object [''key_id'', ''signature''] (id_sig c), ClosedObject)] = Inr ()"
    by (simp add: needs_ok closed_object_def id_sig_def)
  ultimately show ?thesis
    using id_verifies [OF assms(1), of bytes] dec by (simp add: check_identity_signature_def id_sig_def ev_JObj)
qed

lemma id_check_signatures:
  "set cs \<subseteq> {CHR ''2'', CHR ''3'', CHR ''4''} \<Longrightarrow> distinct (seen @ cs) \<Longrightarrow>
     check_signatures (\<lambda>_ _ _. True) bytes (map id_key seen) (map id_sig cs) = Inr (map id_key (seen @ cs))"
proof (induction cs arbitrary: seen)
  case (Cons c cs)
  then have "check_signatures (\<lambda>_ _ _. True) bytes (map id_key (seen @ [c])) (map id_sig cs) = Inr (map id_key ((seen @ [c]) @ cs))"
    by (intro Cons.IH) auto
  then show ?case using id_check_signature [of c seen bytes] Cons.prems by simp
qed simp

lemma id_verified:
  assumes "wire body" "width body \<le> 16000" "set cs \<subseteq> {CHR ''2'', CHR ''3'', CHR ''4''}" "distinct cs" "cs \<noteq> []" "clean (js domain)" "length domain \<le> 100"
  shows "verified (\<lambda>_ _ _. True) domain (JObj [(js ''body'', body), (js ''signatures'', JArr (map id_sig cs))]) = Inr (map id_key cs)"
proof -
  obtain b where "domain_bytes domain body = Inr b" "length b \<le> 16384"
    using wire_bytes [of "JObj [(js ''domain'', JStr (js domain)), (js ''body'', body)]"] assms(1,2,6,7) by (auto simp: domain_bytes_def)
  moreover have "length cs \<le> 24" using card_mono [OF _ assms(3)] distinct_card [OF assms(4)] by simp
  moreover have "1 \<le> length cs" using assms(5) by (cases cs) auto
  ultimately show ?thesis
    using id_check_signatures [of cs "[]" b] assms(3,4)
    by (simp add: verified_def needs.simps closed_object_def bounded_array_def ev_JObj)
qed

definition id_set :: "char \<Rightarrow> key_set" where
  "id_set c = \<lparr>ks_keys = [id_key c], ks_threshold = 1\<rparr>"

definition id_body :: jval where
  "id_body = JObj [(js ''nonce'', JStr (js ''00000000-0000-4000-8000-000000000001'')),
       (js ''operational'', key_set_value (id_set (CHR ''2''))), (js ''recovery'', key_set_value (id_set (CHR ''3'')))]"

lemma id_genesis_eq: "id_genesis = JObj [(js ''body'', id_body), (js ''signatures'', JArr (map id_sig [CHR ''2'', CHR ''3'']))]"
  by (simp add: id_genesis_def id_body_def id_set_def)

lemma wire_id_body: "wire id_body \<and> width id_body \<le> 16000"
  by (simp add: id_body_def id_set_def key_set_value_def jint_def MAX_SAFE_def clean_id_key)

lemma id_hash_clean: "clean (id_hash b)"
  by (simp add: id_hash_def clean_def clean_unit_def list_all_iff)

lemma wire_digest: "wire v \<Longrightarrow> \<exists>h. digest_of H v = Inr h"
  using wire_bytes [of v] by (auto simp: digest_of_def)

definition id_head :: control where
  "id_head = \<lparr>co_identity = identity_id_of (id_hash []), co_sequence = 0, co_previous = None, co_operational = id_set (CHR ''2''),
     co_recovery = id_set (CHR ''3''), co_effective = 1000\<rparr>"

lemma wire_id_head: "wire (control_value id_head)"
  by (simp add: id_head_def control_value_def key_set_value_def id_set_def jint_def opt_text_def MAX_SAFE_def clean_id_key
     identity_id_of_def clean_take clean_drop id_hash_clean)

definition id_state :: identity_state where
  "id_state = \<lparr>st_genesis_digest = id_hash [], st_head = id_head, st_head_digest = id_hash [], st_retired = [],
     st_resolver = js ''00000000-0000-4000-8000-000000000002'', st_resolver_key = id_key (CHR ''4''), st_epoch = 0,
     st_last_lease = 1000, st_last_update = 1000\<rparr>"

lemma id_created: "createIdentity (\<lambda>_ _ _. True) id_hash id_genesis id_resolver 1000 = Inr id_state"
proof -
  have "key_sets id_body = Inr (id_set (CHR ''2''), id_set (CHR ''3''))"
    using id_key_set by (simp add: key_sets_def id_body_def ev_JObj id_set_def)
  moreover have "verified (\<lambda>_ _ _. True) ''DTP-PERSON-GENESIS-1'' id_genesis = Inr (map id_key [CHR ''2'', CHR ''3''])"
    unfolding id_genesis_eq using wire_id_body by (intro id_verified) simp_all
  moreover obtain b where "domain_bytes ''DTP-PERSON-GENESIS-1'' id_body = Inr b"
    using wire_bytes [of "JObj [(js ''domain'', JStr (js ''DTP-PERSON-GENESIS-1'')), (js ''body'', id_body)]"] wire_id_body
    by (auto simp: domain_bytes_def)
  moreover have "digest_of id_hash (control_value id_head) = Inr (id_hash [])"
    using wire_digest [OF wire_id_head, of id_hash] by (auto simp: digest_of_def ok_iff id_hash_def)
  moreover have "ev id_genesis ''body'' = id_body" by (simp add: id_genesis_eq ev_JObj)
  moreover have "closed_object [''body'', ''signatures''] id_genesis" "closed_object [''nonce'', ''operational'', ''recovery''] id_body"
      "closed_object [''id'', ''key_id''] id_resolver"
    by (simp_all add: closed_object_def id_genesis_eq id_body_def id_resolver_def)
  moreover have "ev id_body ''nonce'' = JStr (js ''00000000-0000-4000-8000-000000000001'')"
      "ev id_resolver ''id'' = JStr (js ''00000000-0000-4000-8000-000000000002'')" "ev id_resolver ''key_id'' = JStr (id_key (CHR ''4''))"
    by (simp_all add: id_body_def id_resolver_def ev_JObj)
  moreover have "check_key (JStr (id_key (CHR ''4''))) = Inr (id_key (CHR ''4''))" by (simp add: check_key_ok is_ok_iff decode_id_keys)
  moreover have "id_hash b = id_hash []" by (simp add: id_hash_def)
  ultimately show ?thesis
    by (simp add: createIdentity_def copy_genesis host_clock_def needs.simps id_uuids require_def id_set_def MAX_SAFE_def Let_def id_head_def id_state_def)
qed
subsection \<open>What the state machine guarantees\<close>

text \<open>C25. 
  Keys never come back.  However an identity's transitions, rehomes and leases interleave, a key that controlled it
  once and does not any more never controls it again, and never becomes its resolver's key.
\<close>
theorem retired_keys_never_return:
  assumes "createIdentity V H doc r now = Inr s"
  shows "(set (controlling (st_head (fst (identity_after V H sg U s cs)))) -
      set (controlling (st_head (fst (identity_after V H sg U s (cs @ ds)))))) \<inter>
    insert (st_resolver_key (fst (identity_after V H sg U s (cs @ ds @ es))))
      (set (controlling (st_head (fst (identity_after V H sg U s (cs @ ds @ es)))))) = {}"
proof -
  let ?h = "\<lambda>cs. identity_after V H sg U s cs"
  have ok: "host_ok H (?h cs)" for cs by (rule identity_after_ok [OF assms])
  have forward: "keys_forward (fst (?h cs)) (fst (?h (cs @ ds)))" for cs ds
    using host_run_forward [OF ok] by (simp add: identity_after_def)
  have "set (controlling (st_head (fst (?h cs)))) - set (controlling (st_head (fst (?h (cs @ ds))))) \<subseteq> set (st_retired (fst (?h (cs @ ds @ es))))"
    using forward [of cs ds] forward [of "cs @ ds" es] by (auto simp: keys_forward_def)
  moreover have "identity_ok H (fst (?h (cs @ ds @ es)))" using ok [of "cs @ ds @ es"] by (simp add: host_ok_def split_beta)
  ultimately show ?thesis by (auto simp: identity_ok_def)
qed

lemma retired_keys_never_return_witness:
  "createIdentity (\<lambda>_ _ _. True) id_hash id_genesis id_resolver 1000 = Inr id_state \<and>
    (set (controlling (st_head (fst (identity_after (\<lambda>_ _ _. True) id_hash (\<lambda>_ m. m) Some id_state [])))) -
      set (controlling (st_head (fst (identity_after (\<lambda>_ _ _. True) id_hash (\<lambda>_ m. m) Some id_state ([] @ [Transition JNull 2000])))))) \<inter>
    insert (st_resolver_key (fst (identity_after (\<lambda>_ _ _. True) id_hash (\<lambda>_ m. m) Some id_state ([] @ [Transition JNull 2000] @ [Rehome JNull 3000]))))
      (set (controlling (st_head (fst (identity_after (\<lambda>_ _ _. True) id_hash (\<lambda>_ m. m) Some id_state ([] @ [Transition JNull 2000] @ [Rehome JNull 3000])))))) = {}"
  using id_created retired_keys_never_return by blast



text \<open>C27. 
  Only the owner's quorums change control.  A command leaves the head alone, or it is a transition whose document the
  right quorum of the current head signed, or a rehome that the recovery quorum signed and that changes no key; each
  new head is the next in sequence, the new keys of a transition prove possession, a rotation or a recovery keeps the
  recovery set, and a change of the recovery policy keeps the operational set.
\<close>
theorem control_changes_authorized:
  assumes "createIdentity V H doc r now = Inr s"
    and "s1 = fst (identity_after V H sg U s cmds)" "s2 = fst (identity_after V H sg U s (cmds @ [cmd]))"
  shows "st_head s2 = st_head s1 \<or>
    (co_sequence (st_head s2) = co_sequence (st_head s1) + 1 \<and> co_identity (st_head s2) = co_identity (st_head s1) \<and>
     (case cmd of
        Transition doc _ \<Rightarrow> allowed_change V (st_head s1) doc (st_head s2) \<and> co_previous (st_head s2) = Some (st_head_digest s1)
      | Rehome doc _ \<Rightarrow> quorum_signed V ''DTP-IDENTITY-REHOME-1'' doc (co_recovery (st_head s1)) \<and>
          same_keys (st_head s1) (st_head s2) \<and> ev (ev doc ''body'') ''expected_digest'' = JStr (st_head_digest s1)
      | Resolve _ _ _ \<Rightarrow> False))"
proof -
  obtain ls where h: "identity_after V H sg U s cmds = (s1, ls)" using assms(2) by (cases "identity_after V H sg U s cmds") simp
  then have step: "s2 = fst (host_step V H sg U (s1, ls) cmd)" using assms(3) by (simp add: identity_after_def)
  have ok: "identity_ok H s1" using identity_after_ok [OF assms(1), of sg U cmds] h by (simp add: host_ok_def)
  show ?thesis
  proof (cases cmd)
    case (Transition doc n)
    show ?thesis
      using transition_facts [of V H s1 doc n s2, OF _ ok] step by (cases "transitionIdentity V H s1 doc n") (simp_all add: host_step_def Transition)
  next
    case (Rehome doc n)
    show ?thesis
      using rehome_facts [of V H U s1 doc n s2, OF _ ok] step
      by (cases "rehomeIdentity V H U s1 doc n") (simp_all add: host_step_def Rehome same_keys_def)
  next
    case (Resolve input key n)
    show ?thesis
    proof (cases "issueResolution sg U s1 input key n")
      case (Inr q)
      then show ?thesis using resolution_facts [of sg U s1 input key n "fst q" "snd q"] step
        by (simp add: host_step_def Resolve split_beta)
    qed (use step in \<open>simp add: host_step_def Resolve\<close>)
  qed
qed

lemma control_changes_authorized_witness:
  "createIdentity (\<lambda>_ _ _. True) id_hash id_genesis id_resolver 1000 = Inr id_state \<and>
   st_head (fst (identity_after (\<lambda>_ _ _. True) id_hash (\<lambda>_ m. m) Some id_state ([] @ [Resolve JNull ([], []) 2000]))) =
     st_head (fst (identity_after (\<lambda>_ _ _. True) id_hash (\<lambda>_ m. m) Some id_state []))"
  using id_created control_changes_authorized [OF id_created refl refl, of "\<lambda>_ m. m" Some "[]" "Resolve JNull ([], []) 2000"]
  by simp

end
