(* ===== verification/IdentityLogRules.thy ===== *)
theory IdentityLogRules
  imports IdentityLog IdentityRuns
begin

text \<open>
  What a verified log is: one history of control that the owner's quorums authorized head by head, hash-linked, in which
  no key comes back.
\<close>

text \<open>One head follows another by a document of the owner: a transition, or a rehome to the next resolver epoch.\<close>

definition head_follows ::
  "(byte list \<Rightarrow> byte list \<Rightarrow> byte list \<Rightarrow> bool) \<Rightarrow> (byte list \<Rightarrow> jstr) \<Rightarrow> verified_head \<Rightarrow> verified_head \<Rightarrow> bool" where
  "head_follows V H h h' \<longleftrightarrow>
     (let c = vh_head h; c' = vh_head h' in
      co_identity c' = co_identity c \<and> co_sequence c' = co_sequence c + 1 \<and> co_effective c \<le> co_effective c' \<and>
      (\<exists>doc. allowed_change V c doc c' \<and> co_previous c' = Some (vh_digest h) \<and> vh_epoch h' = vh_epoch h \<or>
        quorum_signed V ''DTP-IDENTITY-REHOME-1'' doc (co_recovery c) \<and> same_keys c c' \<and> vh_epoch h' = vh_epoch h + 1 \<and>
        ev (ev doc ''body'') ''expected_digest'' = JStr (vh_digest h) \<and>
        digest_of H (JObj [(js ''domain'', JStr (js ''DTP-IDENTITY-REHOME-1'')), (js ''body'', ev doc ''body'')]) =
          Inr (the (co_previous c')) \<and> co_previous c' \<noteq> None))"

definition head_of :: "identity_state \<Rightarrow> bool \<Rightarrow> verified_head" where
  "head_of s attested =
     \<lparr>vh_head = st_head s, vh_digest = st_head_digest s, vh_epoch = st_epoch s, vh_attested = attested\<rparr>"

text \<open>The verifier's progress before it notes the head of its state, and after.\<close>

definition walk_ok ::
  "(byte list \<Rightarrow> byte list \<Rightarrow> byte list \<Rightarrow> bool) \<Rightarrow> (byte list \<Rightarrow> jstr) \<Rightarrow> verified_log \<Rightarrow> bool" where
  "walk_ok V H v \<longleftrightarrow>
     identity_ok H (vl_state v) \<and> successively (head_follows V H) (vl_heads v) \<and>
     map (\<lambda>h. co_sequence (vh_head h)) (vl_heads v) = map int [0..<length (vl_heads v)] \<and>
     map rb_epoch (vl_resolvers v) = map int [0..<length (vl_resolvers v)] \<and> vl_resolvers v \<noteq> [] \<and>
     (rb_epoch (vl_resolver v), rb_id (vl_resolver v), rb_key (vl_resolver v)) =
       (st_epoch (vl_state v), st_resolver (vl_state v), st_resolver_key (vl_state v)) \<and>
     (\<forall>h \<in> set (vl_heads v). digest_of H (control_value (vh_head h)) = Inr (vh_digest h) \<and>
        co_identity (vh_head h) = vl_identity v \<and>
        0 \<le> vh_epoch h \<and> vh_epoch h \<le> st_epoch (vl_state v) \<and>
        set (controlling (vh_head h)) \<subseteq> set (controlling (vl_head v)) \<union> set (st_retired (vl_state v)))"

definition at_head :: "verified_log \<Rightarrow> bool" where
  "at_head v \<longleftrightarrow> vl_heads v \<noteq> [] \<and> (\<exists>a. last (vl_heads v) = head_of (vl_state v) a)"

lemma transition_same_witness:
  "identity_ok H (s\<lparr>st_last_update := a, st_last_lease := b\<rparr>) = identity_ok H s"
  "identity_ok H (s\<lparr>st_last_update := a\<rparr>) = identity_ok H s"
  by (simp_all add: identity_ok_def)

lemma replay_transition_facts:
  assumes "replay_transition V H s doc at = Inr s'" "identity_ok H s" "co_effective (st_head s') = at"
  shows "identity_ok H s' \<and> head_follows V H (head_of s a) (head_of s' b) \<and> keys_forward s s' \<and>
     st_epoch s' = st_epoch s \<and> st_resolver s' = st_resolver s \<and> st_resolver_key s' = st_resolver_key s"
proof -
  obtain expires where t: "transitionIdentity V H (s\<lparr>st_last_update := co_effective (st_head s), st_last_lease := at - CLOCK_MARGIN_MS\<rparr>) doc
        (min (expires - 1) at) = Inr s'" "log_window (ev doc ''body'') at (co_effective (st_head s)) = Inr expires"
    using assms(1) by (auto simp: replay_transition_def Let_def ok_iff)
  have "co_effective (st_head s) \<le> at" using t(2) by (auto simp: log_window_def ok_iff split: option.splits)
  moreover note f = transition_facts [OF t(1)] 
  ultimately show ?thesis
    using assms(2,3) f by (auto simp: transition_same_witness head_follows_def head_of_def keys_forward_def)
qed

lemma replay_rehome_facts:
  assumes "replay_rehome V H U s doc at = Inr (s', r)" "identity_ok H s" "co_effective (st_head s') = at"
  shows "identity_ok H s' \<and> head_follows V H (head_of s a) (head_of s' b) \<and> keys_forward s s' \<and>
     st_epoch s' = st_epoch s + 1 \<and> rb_epoch r = st_epoch s' \<and> rb_id r = st_resolver s' \<and> rb_key r = st_resolver_key s'"
proof -
  obtain expires where t: "rehomeIdentity V H U (s\<lparr>st_last_update := co_effective (st_head s)\<rparr>) doc at = Inr s'"
      "log_window (ev doc ''body'') at (co_effective (st_head s)) = Inr expires" "\<exists>audience. r = binding s' audience"
    using assms(1) by (auto simp: replay_rehome_def Let_def ok_iff)
  have "co_effective (st_head s) \<le> at" using t(2) by (auto simp: log_window_def ok_iff split: option.splits)
  moreover note f = rehome_facts [OF t(1)]
  ultimately show ?thesis
    using assms(2) f t(3)
    by (auto simp: transition_same_witness head_follows_def head_of_def keys_forward_def same_keys_def controlling_def binding_def)
qed

lemma epochs_last:
  assumes "map rb_epoch rs = map int [0..<length rs]" "rs \<noteq> []"
  shows "rb_epoch (last rs) = int (length rs - 1)"
  using arg_cong [OF assms(1), of last] assms(2) by (simp add: last_map)

lemma replay_command_facts:
  assumes "replay_command V H U v n e = Inr (s', rs)" "walk_ok V H v" "at_head v"
  shows "walk_ok V H (v\<lparr>vl_state := s', vl_resolvers := rs\<rparr>) \<and> (\<forall>b. head_follows V H (last (vl_heads v)) (head_of s' b)) \<and>
     co_sequence (st_head s') = int n"
proof -
  let ?s = "vl_state v"
  have ok: "identity_ok H ?s" using assms(2) by (simp add: walk_ok_def)
  obtain a where last: "last (vl_heads v) = head_of ?s a" using assms(3) by (auto simp: at_head_def)
  have eff: "co_effective (st_head s') = en_effective e" "co_sequence (st_head s') = int n"
    using assms(1) by (auto simp: replay_command_def ok_iff if_Inl_ok split: prod.splits)
  have step: "identity_ok H s' \<and> (\<forall>b. head_follows V H (head_of ?s a) (head_of s' b)) \<and> keys_forward ?s s' \<and> st_epoch ?s \<le> st_epoch s' \<and>
      map rb_epoch rs = map int [0..<length rs] \<and> rs \<noteq> [] \<and>
      (rb_epoch (last rs), rb_id (last rs), rb_key (last rs)) = (st_epoch s', st_resolver s', st_resolver_key s')"
  proof (cases "en_transition e = JNull")
    case False
    then have t: "replay_transition V H ?s (en_transition e) (en_effective e) = Inr s'" "rs = vl_resolvers v"
      using assms(1) by (auto simp: replay_command_def ok_iff if_Inl_ok split: if_splits)
    show ?thesis using replay_transition_facts [OF t(1) ok eff(1)] t(2) assms(2) by (simp add: walk_ok_def vl_resolver_def)
  next
    case True
    then obtain r where t: "replay_rehome V H U ?s (en_rehome e) (en_effective e) = Inr (s', r)" "rs = vl_resolvers v @ [r]"
      using assms(1) by (auto simp: replay_command_def ok_iff if_Inl_ok split: if_splits)
    have old: "map rb_epoch (vl_resolvers v) = map int [0..<length (vl_resolvers v)]" "vl_resolvers v \<noteq> []"
        "rb_epoch (last (vl_resolvers v)) = st_epoch ?s"
      using assms(2) by (auto simp: walk_ok_def vl_resolver_def)
    have "rb_epoch (last (vl_resolvers v)) = int (length (vl_resolvers v) - 1)" by (rule epochs_last [OF old(1,2)])
    then have "st_epoch s' = int (length (vl_resolvers v))"
      using replay_rehome_facts [OF t(1) ok eff(1)] old(2,3) by (simp add: of_nat_diff Suc_le_eq)
    then show ?thesis using replay_rehome_facts [OF t(1) ok eff(1)] t(2) old(1) by simp
  qed
  have "co_identity (st_head s') = co_identity (st_head ?s)"
    using step by (auto simp: head_follows_def head_of_def Let_def)
  moreover have "set (controlling (st_head ?s)) \<union> set (st_retired ?s) \<subseteq> set (controlling (st_head s')) \<union> set (st_retired s')"
    using step by (auto simp: keys_forward_def)
  ultimately show ?thesis
    using step assms(2) eff(2) last unfolding walk_ok_def vl_identity_def vl_head_def vl_resolver_def by fastforce
qed

lemma note_head_facts:
  assumes "note_head V strict v n e = Inr v'" "walk_ok V H v" "co_sequence (st_head (vl_state v)) = int (length (vl_heads v))"
    and "vl_heads v \<noteq> [] \<Longrightarrow> \<forall>b. head_follows V H (last (vl_heads v)) (head_of (vl_state v) b)"
  shows "walk_ok V H v' \<and> at_head v' \<and> vl_state v' = vl_state v \<and> vl_resolvers v' = vl_resolvers v \<and>
     (\<exists>a. vl_heads v' = vl_heads v @ [head_of (vl_state v) a] \<and> (strict \<longrightarrow> a))"
proof -
  obtain a where v': "vl_heads v' = vl_heads v @ [head_of (vl_state v) a]" "vl_state v' = vl_state v" "vl_resolvers v' = vl_resolvers v"
      "strict \<longrightarrow> a"
    using assms(1,2) by (auto simp: note_head_def Let_def ok_iff head_of_def walk_ok_def split: if_splits)
  have "successively (head_follows V H) (vl_heads v')"
    using v'(1) assms(2,4) by (cases "vl_heads v = []") (auto simp: successively_append_iff walk_ok_def)
  moreover have "identity_ok H (vl_state v)" "0 \<le> st_epoch (vl_state v)"
  proof -
    show "identity_ok H (vl_state v)" using assms(2) by (simp add: walk_ok_def)
    show "0 \<le> st_epoch (vl_state v)" using epochs_last [of "vl_resolvers v"] assms(2) by (auto simp: walk_ok_def vl_resolver_def)
  qed
  ultimately show ?thesis
    using v' assms(2,3) by (auto simp: walk_ok_def at_head_def vl_identity_def vl_head_def vl_resolver_def head_of_def identity_ok_def)
qed

lemma replay_command_resolvers: "replay_command V H U v n e = Inr (s', rs) \<Longrightarrow> \<exists>r. rs = vl_resolvers v @ r"
  by (auto simp: replay_command_def ok_iff if_Inl_ok split: if_splits prod.splits)

lemma note_head_resolvers: "note_head V strict v n e = Inr v' \<Longrightarrow> vl_resolvers v' = vl_resolvers v"
  by (auto simp: note_head_def Let_def ok_iff)

lemma replay_entries_resolvers: "replay_entries V H U strict v n es = Inr v' \<Longrightarrow> \<exists>r. vl_resolvers v' = vl_resolvers v @ r"
proof (induction es arbitrary: v n)
  case (Cons e es)
  obtain s' rs w where "replay_command V H U v n e = Inr (s', rs)"
      "note_head V strict (v\<lparr>vl_state := s', vl_resolvers := rs\<rparr>) n e = Inr w" "replay_entries V H U strict w (Suc n) es = Inr v'"
    using Cons.prems by (auto simp: ok_iff)
  then show ?case using Cons.IH [of w] replay_command_resolvers note_head_resolvers by fastforce
qed simp

lemma replay_entries_facts:
  "replay_entries V H U strict v n es = Inr v' \<Longrightarrow> walk_ok V H v \<Longrightarrow> at_head v \<Longrightarrow> n = length (vl_heads v) \<Longrightarrow>
     walk_ok V H v' \<and> at_head v' \<and> (\<exists>hs. vl_heads v' = vl_heads v @ hs \<and> length hs = length es \<and> (strict \<longrightarrow> list_all vh_attested hs))"
proof (induction es arbitrary: v n)
  case (Cons e es)
  obtain s' rs w where w: "replay_command V H U v n e = Inr (s', rs)"
      "note_head V strict (v\<lparr>vl_state := s', vl_resolvers := rs\<rparr>) n e = Inr w" "replay_entries V H U strict w (Suc n) es = Inr v'"
    using Cons.prems(1) by (auto simp: ok_iff)
  note c = replay_command_facts [OF w(1) Cons.prems(2,3)]
  have "walk_ok V H w \<and> at_head w \<and> (\<exists>a. vl_heads w = vl_heads v @ [head_of s' a] \<and> (strict \<longrightarrow> a))"
    using note_head_facts [OF w(2)] c Cons.prems(4) by auto
  then obtain a where wok: "walk_ok V H w" "at_head w" "vl_heads w = vl_heads v @ [head_of s' a]" "strict \<longrightarrow> a" by auto
  from Cons.IH [OF w(3) wok(1,2)] wok(3) Cons.prems(4) obtain hs where "walk_ok V H v'" "at_head v'"
      "vl_heads v' = vl_heads w @ hs" "length hs = length es" "strict \<longrightarrow> list_all vh_attested hs" by auto
  then show ?case using wok(3,4) by (auto simp: head_of_def)
qed simp

lemma enrollment_facts:
  assumes "verifyResolverEnrollment V U s doc audience now = Inr ()" "identity_ok H s"
  shows "binds_resolver s (ev doc ''body'') audience \<and> quorum_signed V ''DTP-IDENTITY-ENROLLMENT-1'' doc (co_operational (st_head s)) \<and>
     quorum_signed V ''DTP-IDENTITY-ENROLLMENT-1'' doc (co_recovery (st_head s))"
  using assms quorum_ok
  by (fastforce simp: verifyResolverEnrollment_def Let_def ok_iff identity_ok_def control_ok_def key_set_ok_def)

text \<open>How a log begins: all keys of the first head signed its genesis, and both quorums enrolled the first resolver.\<close>

definition begins_with_owner :: "(byte list \<Rightarrow> byte list \<Rightarrow> byte list \<Rightarrow> bool) \<Rightarrow> jval \<Rightarrow> resolver_binding \<Rightarrow> control \<Rightarrow> bool" where
  "begins_with_owner V input r c \<longleftrightarrow>
     (\<forall>k \<in> set (controlling c). signed_by V ''DTP-PERSON-GENESIS-1'' (ev input ''genesis'') k) \<and>
     quorum_signed V ''DTP-IDENTITY-ENROLLMENT-1'' (ev input ''enrollment'') (co_operational c) \<and>
     quorum_signed V ''DTP-IDENTITY-ENROLLMENT-1'' (ev input ''enrollment'') (co_recovery c) \<and>
     ev (ev (ev input ''enrollment'') ''body'') ''resolver_id'' = JStr (rb_id r) \<and>
     ev (ev (ev input ''enrollment'') ''body'') ''resolver_key'' = JStr (rb_key r)"

lemma replay_genesis_facts:
  assumes "replay_genesis V H U genesis enrollment at = Inr v"
  shows "walk_ok V H v \<and> vl_heads v = [] \<and> co_sequence (st_head (vl_state v)) = 0 \<and> (\<exists>r. vl_resolvers v = [r]) \<and>
     (\<forall>input. ev input ''genesis'' = genesis \<longrightarrow> ev input ''enrollment'' = enrollment \<longrightarrow>
        begins_with_owner V input (hd (vl_resolvers v)) (st_head (vl_state v)))"
proof -
  let ?b = "ev enrollment ''body''"
  obtain s audience where s: "createIdentity V H genesis (enrolled_resolver enrollment) at = Inr s"
      "verifyResolverEnrollment V U s enrollment (ev ?b ''audience'') at = Inr ()"
      "v = \<lparr>vl_resolvers = [binding s audience], vl_heads = [], vl_unattested = [], vl_state = s\<rparr>"
    using assms by (auto simp: replay_genesis_def Let_def ok_iff)
  note c = create_facts [OF s(1)]
  have "binds_resolver s ?b (ev ?b ''audience'') \<and> quorum_signed V ''DTP-IDENTITY-ENROLLMENT-1'' enrollment (co_operational (st_head s)) \<and>
     quorum_signed V ''DTP-IDENTITY-ENROLLMENT-1'' enrollment (co_recovery (st_head s))"
    using enrollment_facts [OF s(2)] c by blast
  then show ?thesis using c s(3)
    by (auto simp: walk_ok_def vl_resolver_def binding_def begins_with_owner_def binds_resolver_def)
qed

lemma copy_id: "copyIdentityData v = Inr w \<Longrightarrow> w = v"
  by (auto simp: copyIdentityData_def ok_iff if_Inl_ok split: if_splits)

lemma verify_log_facts:
  assumes "verifyIdentityLog V H U strict input = Inr v"
  shows "walk_ok V H v \<and> at_head v \<and> begins_with_owner V input (hd (vl_resolvers v)) (vh_head (hd (vl_heads v))) \<and>
     (strict \<longrightarrow> list_all vh_attested (vl_heads v)) \<and> (\<exists>raw. ev input ''entries'' = JArr raw \<and> length (vl_heads v) = length raw)"
proof -
  obtain raw entries legacy v0 v1 where e: "ev input ''entries'' = JArr raw" "traverse (read_entry legacy) raw = Inr entries" "1 \<le> length raw"
      "replay_genesis V H U (ev input ''genesis'') (ev input ''enrollment'') (en_effective (hd entries)) = Inr v0"
      "note_head V strict v0 0 (hd entries) = Inr v1" "replay_entries V H U strict v1 1 (tl entries) = Inr v"
    using assms by (auto simp: verifyIdentityLog_def verify_parts_def bounded_list_def Let_def ok_iff if_Inl_ok dest!: copy_id split: option.splits if_splits)
  note g = replay_genesis_facts [OF e(4)]
  have "walk_ok V H v1 \<and> at_head v1 \<and> vl_resolvers v1 = vl_resolvers v0 \<and> (\<exists>a. vl_heads v1 = [head_of (vl_state v0) a] \<and> (strict \<longrightarrow> a))"
    using note_head_facts [OF e(5)] g by auto
  then obtain a where v1: "walk_ok V H v1" "at_head v1" "vl_resolvers v1 = vl_resolvers v0" "vl_heads v1 = [head_of (vl_state v0) a]" "strict \<longrightarrow> a"
    by auto
  obtain hs where hs: "walk_ok V H v" "at_head v" "vl_heads v = head_of (vl_state v0) a # hs" "length hs = length (tl entries)"
      "strict \<longrightarrow> list_all vh_attested hs"
    using replay_entries_facts [OF e(6) v1(1,2)] v1(4) by auto
  have "length entries = length raw" using e(2) by (auto simp: traverse_ok_iff dest: list_all2_lengthD)
  moreover have "hd (vl_resolvers v) = hd (vl_resolvers v0)"
    using replay_entries_resolvers [OF e(6)] v1(3) g by auto
  ultimately show ?thesis using g hs v1(5) e(1,3) by (auto simp: head_of_def)
qed

subsection \<open>A sample log\<close>

definition id_enrollment_body :: jval where
  "id_enrollment_body = JObj
     [(js ''identity_id'', JStr (co_identity id_head)), (js ''genesis_digest'', JStr (id_hash [])),
      (js ''resolver_id'', JStr (st_resolver id_state)), (js ''resolver_key'', JStr (st_resolver_key id_state)),
      (js ''audience'', JStr (js ''https://resolver.example'')), (js ''nonce'', JStr (id_hash [])),
      (js ''issued_at'', jint 500), (js ''expires_at'', jint 2000)]"

definition id_enrollment :: jval where
  "id_enrollment = JObj [(js ''body'', id_enrollment_body), (js ''signatures'', JArr (map id_sig [CHR ''2'', CHR ''3'']))]"

definition id_entry :: jval where
  "id_entry = JObj [(js ''effective_at'', jint 1000), (js ''transition'', JNull), (js ''rehome'', JNull), (js ''attestation'', JNull)]"

definition id_log :: jval where
  "id_log = JObj [(js ''format'', JStr IDENTITY_LOG_FORMAT), (js ''genesis'', id_genesis), (js ''enrollment'', id_enrollment),
     (js ''entries'', JArr [id_entry])]"

definition id_verified_log :: verified_log where
  "id_verified_log = \<lparr>vl_resolvers = [binding id_state (js ''https://resolver.example'')], vl_heads = [head_of id_state False],
     vl_unattested = [0], vl_state = id_state\<rparr>"

lemma copy_enrollment: "copyIdentityData id_enrollment = Inr id_enrollment" "copyIdentityData id_entry = Inr id_entry"
    "copyIdentityData (state_value id_state) = Inr (state_value id_state)"
  by (rule copy_ok; simp add: id_enrollment_def id_enrollment_body_def id_entry_def id_state_def id_head_def state_value_def control_value_def key_set_value_def
    id_set_def opt_text_def jint_def MAX_SAFE_def FORBIDDEN_NAMES_def id_sig_def id_signature_def clean_id_key id_hash_def
    identity_id_of_def clean_unit_def list_all_iff)+

lemma id_enrolled:
  "verifyResolverEnrollment (\<lambda>_ _ _. True) Some id_state id_enrollment (JStr (js ''https://resolver.example'')) 1000 = Inr ()"
proof -
  have "verified (\<lambda>_ _ _. True) ''DTP-IDENTITY-ENROLLMENT-1'' id_enrollment = Inr (map id_key [CHR ''2'', CHR ''3''])"
    unfolding id_enrollment_def
    by (rule id_verified) (simp_all add: id_enrollment_body_def id_state_def id_head_def jint_def MAX_SAFE_def clean_id_key id_hash_def identity_id_of_def
        clean_unit_def list_all_iff)
  moreover have "uuid_text (JStr (co_identity id_head))" "hex64_text (JStr (id_hash []))"
      "origin_ok Some (JStr (js ''https://resolver.example''))"
    by code_simp+
  moreover have "ev id_enrollment ''body'' = id_enrollment_body" "closed_object [''body'', ''signatures''] id_enrollment"
      "closed_object ENROLLMENT_FIELDS id_enrollment_body"
      "binds_resolver id_state id_enrollment_body (JStr (js ''https://resolver.example''))"
      "ev id_enrollment_body ''identity_id'' = JStr (co_identity id_head)" "ev id_enrollment_body ''nonce'' = JStr (id_hash [])"
      "ev id_enrollment_body ''audience'' = JStr (js ''https://resolver.example'')"
      "timestamp (ev id_enrollment_body ''issued_at'') = Inr 500" "timestamp (ev id_enrollment_body ''expires_at'') = Inr 2000"
    by (simp_all add: id_enrollment_def id_enrollment_body_def ev_JObj closed_object_def ENROLLMENT_FIELDS_def binds_resolver_def
        id_state_def jint_def timestamp_def MAX_SAFE_def)
  moreover have "co_sequence (st_head id_state) = 0" "st_epoch id_state = 0" "co_operational (st_head id_state) = id_set (CHR ''2'')"
      "co_recovery (st_head id_state) = id_set (CHR ''3'')"
    by (simp_all add: id_state_def id_head_def)
  ultimately show ?thesis
    by (simp add: verifyResolverEnrollment_def copy_enrollment clock_timestamp_def MAX_SAFE_def check_request_def needs.simps
        quorum_def id_set_def)
qed

lemma id_log_parts:
  "verify_parts (\<lambda>_ _ _. True) id_hash Some False id_genesis id_enrollment
     [\<lparr>en_effective = 1000, en_transition = JNull, en_rehome = JNull, en_attestation = JNull\<rparr>] = Inr id_verified_log"
proof -
  have "replay_genesis (\<lambda>_ _ _. True) id_hash Some id_genesis id_enrollment 1000 =
      Inr \<lparr>vl_resolvers = [binding id_state (js ''https://resolver.example'')], vl_heads = [], vl_unattested = [], vl_state = id_state\<rparr>"
  proof -
    have "enrolled_resolver id_enrollment = id_resolver"
      "ev (ev id_enrollment ''body'') ''audience'' = JStr (js ''https://resolver.example'')"
      by (simp_all add: enrolled_resolver_def id_enrollment_def id_enrollment_body_def ev_JObj id_resolver_def id_state_def)
    then show ?thesis by (simp add: replay_genesis_def Let_def id_created id_enrolled require_def control_step_def)
  qed
  moreover have "closed_object [''body'', ''signatures''] id_enrollment" "object_like (ev id_enrollment ''body'')"
    by (simp_all add: ev_JObj closed_object_def id_enrollment_def id_enrollment_body_def object_like_def)
  ultimately show ?thesis
    by (simp add: verify_parts_def needs.simps note_head_def id_verified_log_def head_of_def vl_resolver_def binding_def)
qed

lemma id_log_verifies: "verifyIdentityLog (\<lambda>_ _ _. True) id_hash Some False id_log = Inr id_verified_log"
proof -
  have "closed_object [''format'', ''genesis'', ''enrollment'', ''entries''] id_log" "ev id_log ''format'' = JStr IDENTITY_LOG_FORMAT"
      "ev id_log ''genesis'' = id_genesis" "ev id_log ''enrollment'' = id_enrollment" "ev id_log ''entries'' = JArr [id_entry]"
    by (simp_all add: id_log_def ev_JObj closed_object_def)
  moreover have "read_entry False id_entry = Inr \<lparr>en_effective = 1000, en_transition = JNull, en_rehome = JNull, en_attestation = JNull\<rparr>"
  proof -
    have "closed_object [''effective_at'', ''transition'', ''rehome'', ''attestation''] id_entry" "instant (ev id_entry ''effective_at'') = Some 1000"
        "ev id_entry ''transition'' = JNull" "ev id_entry ''rehome'' = JNull" "ev id_entry ''attestation'' = JNull"
      by (simp_all add: id_entry_def ev_JObj closed_object_def instant_def jint_def MAX_SAFE_def)
    then show ?thesis by (simp add: read_entry_def copy_enrollment control_step_def needs.simps)
  qed
  moreover have "IDENTITY_LOG_FORMAT \<noteq> LEGACY_IDENTITY_LOG_FORMAT" by (simp add: IDENTITY_LOG_FORMAT_def LEGACY_IDENTITY_LOG_FORMAT_def)
  ultimately show ?thesis
    using id_log_parts
    by (simp add: verifyIdentityLog_def bounded_list_def MAX_LOG_ENTRIES_def copy_genesis copy_enrollment control_step_def needs.simps)
qed

subsection \<open>What a verified log proves\<close>



end
