(* ===== verification/IdentityLogComplete.thy ===== *)
theory IdentityLogComplete
  imports IdentityLogRules
begin

text \<open>
  The verifier accepts every history that a host really made.  The host's run accepts commands at its own clock and under
  its own leases, which a log does not carry; the witness timeline of the replay finds instants that serve.
\<close>

subsection \<open>States that can always be copied\<close>

definition key_text :: "jstr \<Rightarrow> bool" where
  "key_text k \<longleftrightarrow> length k \<le> 64 \<and> is_ok (decodeKeyId k)"

definition safe_int :: "int \<Rightarrow> bool" where
  "safe_int n \<longleftrightarrow> \<bar>n\<bar> \<le> MAX_SAFE"

definition state_sound :: "identity_state \<Rightarrow> bool" where
  "state_sound s \<longleftrightarrow> hex64 (st_genesis_digest s) \<and> hex64 (st_head_digest s) \<and> co_identity (st_head s) = identity_id_of (st_genesis_digest s) \<and>
     (\<forall>d. co_previous (st_head s) = Some d \<longrightarrow> hex64 d) \<and> isUuid (st_resolver s) \<and> key_text (st_resolver_key s) \<and>
     list_all key_text (st_retired s) \<and> length (st_retired s) \<le> 4096 \<and> control_ok (st_head s) \<and>
     list_all safe_int [co_sequence (st_head s), co_effective (st_head s), st_epoch s, st_last_lease s, st_last_update s]"

text \<open>The clock of a state that a host keeps: the last lease ends at most one lease after the last update.\<close>

definition clock_sound :: "identity_state \<Rightarrow> bool" where
  "clock_sound s \<longleftrightarrow> 0 \<le> st_last_update s \<and> st_last_update s \<le> MAX_SAFE - 300000 \<and> st_last_lease s \<le> st_last_update s + LEASE_MS"

lemma clean_base58: "clean (base58Encode bs)"
proof -
  have "list_all clean_unit ALPHABET" by code_simp
  then show ?thesis using base58Encode_chars [of bs] by (auto simp: clean_def list_all_iff)
qed

lemma clean_key:
  assumes "key_text k"
  shows "clean k \<and> length k \<le> 64"
proof -
  obtain raw where "k = PREFIX @ base58Encode raw" using assms by (auto simp: key_text_def is_ok_iff decodeKeyId_def decode_prefixed_ok)
  then show ?thesis using assms clean_base58 by (simp add: key_text_def PREFIX_def)
qed

lemma clean_hex_lower: "list_all hex_lower s \<Longrightarrow> clean s"
proof -
  have "clean_unit c" if "hex_lower c" for c
    using that by (auto simp: hex_lower_def clean_unit_def word_le_nat_alt word_less_nat_alt)
  then show "list_all hex_lower s \<Longrightarrow> clean s" by (auto simp: clean_def list_all_iff)
qed

lemma clean_hex64: "hex64 s \<Longrightarrow> clean s \<and> length s = 64"
  by (simp add: hex64_def clean_hex_lower)

lemma clean_hex_groups: "hex_groups ns s \<Longrightarrow> clean s \<and> Suc (length s) = sum_list ns + length ns"
proof (induction ns s rule: hex_groups.induct)
  case (3 n m ns s)
  obtain c cs where c: "drop n s = c # cs" "c = jc (CHR ''-'')" "hex_groups (m # ns) cs" "length (take n s) = n" "clean (take n s)"
    using "3.prems" clean_hex_lower by (auto split: list.splits)
  have s: "s = take n s @ c # cs" using c(1) by (metis append_take_drop_id)
  have "clean cs \<and> Suc (length cs) = sum_list (m # ns) + length (m # ns)" using "3.IH" [OF c(1,3)] .
  moreover have "clean (c # cs) = clean cs" by (simp add: c(2) clean_def) (simp add: clean_unit_def jc_def)
  ultimately have "clean (take n s @ c # cs) \<and> length (take n s @ c # cs) = n + Suc (length cs) \<and>
      Suc (length cs) = sum_list (m # ns) + length (m # ns)"
    using c(4,5) by (simp only: clean_append length_append list.size) simp
  then show ?case unfolding s [symmetric] by simp
qed (auto simp: clean_hex_lower)

lemma clean_uuid: "isUuid s \<Longrightarrow> clean s \<and> length s = 36"
  using clean_hex_groups [of "[8, 4, 4, 4, 12]" s] by (simp add: isUuid_def)

lemma clean_identity_id: "clean h \<Longrightarrow> clean (identity_id_of h) \<and> length (identity_id_of h) \<le> 36"
  by (simp add: identity_id_of_def clean_take clean_drop)

lemma sum_list_le: "\<forall>x \<in> set xs. f x \<le> (c :: nat) \<Longrightarrow> length xs \<le> n \<Longrightarrow> sum_list (map f xs) \<le> n * c"
proof -
  assume "\<forall>x \<in> set xs. f x \<le> c" "length xs \<le> n"
  have "sum_list (map f xs) \<le> length xs * c" using \<open>\<forall>x \<in> set xs. f x \<le> c\<close> by (induction xs) auto
  also have "\<dots> \<le> n * c" using \<open>length xs \<le> n\<close> by simp
  finally show ?thesis .
qed

lemma key_set_copies:
  assumes "key_set_ok ks" "n \<le> 10"
  shows "wire (key_set_value ks) \<and> fits_copy n (key_set_value ks) \<and> node_count (key_set_value ks) \<le> 12 \<and> width (key_set_value ks) \<le> 1000"
proof -
  have k: "\<forall>k \<in> set (ks_keys ks). clean k \<and> length k \<le> 64"
    using assms(1) clean_key by (auto simp: key_set_ok_def key_text_def list_all_iff)
  have "sum_list (map (\<lambda>k. Suc (Suc (Suc (length k)))) (ks_keys ks)) \<le> 8 * 67"
    using k assms(1) by (intro sum_list_le) (auto simp: key_set_ok_def)
  then show ?thesis
    using k assms by (auto simp: key_set_value_def key_set_ok_def jint_def FORBIDDEN_NAMES_def list_all_iff comp_def MAX_SAFE_def sum_list_triv)
qed

lemma control_copies:
  assumes "control_ok c" "clean (co_identity c)" "length (co_identity c) \<le> 36" "safe_int (co_sequence c)" "safe_int (co_effective c)"
    and "\<And>d. co_previous c = Some d \<Longrightarrow> hex64 d"
  shows "wire (control_value c) \<and> fits_copy 1 (control_value c) \<and> node_count (control_value c) \<le> 30 \<and> width (control_value c) \<le> 3000"
proof -
  have "wire (opt_text (co_previous c)) \<and> fits_copy 2 (opt_text (co_previous c)) \<and> node_count (opt_text (co_previous c)) = 1 \<and>
      width (opt_text (co_previous c)) \<le> 66"
    using assms(6) clean_hex64 by (auto simp: opt_text_def split: option.splits)
  moreover have "key_set_ok (co_operational c)" "key_set_ok (co_recovery c)" using assms(1) by (simp_all add: control_ok_def)
  ultimately show ?thesis
    using assms(2-5) key_set_copies [of "co_operational c" 2] key_set_copies [of "co_recovery c" 2]
    by (simp add: control_value_def FORBIDDEN_NAMES_def jint_def safe_int_def numeral_2_eq_2)
qed

lemma state_copies:
  assumes "state_sound s"
  shows "copyIdentityData (state_value s) = Inr (state_value s)"
proof (rule copy_ok)
  have c: "wire (control_value (st_head s)) \<and> fits_copy 1 (control_value (st_head s)) \<and> node_count (control_value (st_head s)) \<le> 30 \<and>
      width (control_value (st_head s)) \<le> 3000"
    using assms clean_identity_id clean_hex64 by (intro control_copies) (auto simp: state_sound_def)
  have r: "\<forall>k \<in> set (st_retired s). clean k \<and> length k \<le> 64" "length (st_retired s) \<le> 4096"
    using assms clean_key by (auto simp: state_sound_def list_all_iff)
  have w: "sum_list (map (\<lambda>k. Suc (Suc (Suc (length k)))) (st_retired s)) \<le> 4096 * 67" using r by (intro sum_list_le) auto
  have k: "clean (st_resolver_key s)" "length (st_resolver_key s) \<le> 64" "clean (st_resolver s)" "length (st_resolver s) = 36"
      "clean (st_genesis_digest s)" "length (st_genesis_digest s) = 64" "clean (st_head_digest s)" "length (st_head_digest s) = 64"
    using assms clean_key clean_uuid clean_hex64 by (auto simp: state_sound_def)
  show "wire (state_value s)" using c r k assms by (simp add: state_value_def jint_def state_sound_def safe_int_def list_all_iff)
  show "fits_copy 0 (state_value s)" using c r k by (fastforce simp: state_value_def jint_def FORBIDDEN_NAMES_def list_all_iff)
  show "node_count (state_value s) \<le> 16384" using c r by (simp add: state_value_def jint_def comp_def sum_list_triv)
  show "width (state_value s) \<le> 1048576" using c w k by (simp add: state_value_def jint_def comp_def)
qed

subsection \<open>The witness of a transition\<close>

text \<open>Two states that differ only in their clock and lease fields.\<close>

definition same_control :: "identity_state \<Rightarrow> identity_state \<Rightarrow> bool" where
  "same_control s w \<longleftrightarrow> w = s\<lparr>st_last_update := st_last_update w, st_last_lease := st_last_lease w\<rparr>"

lemma same_control_iff:
  "same_control s w \<longleftrightarrow> st_genesis_digest w = st_genesis_digest s \<and> st_head w = st_head s \<and> st_head_digest w = st_head_digest s \<and>
     st_retired w = st_retired s \<and> st_resolver w = st_resolver s \<and> st_resolver_key w = st_resolver_key s \<and> st_epoch w = st_epoch s"
  by (cases s; cases w) (auto simp: same_control_def)

text \<open>A transition reads its clock and lease in three places only: the clock's range, the barrier, and the window.\<close>

lemma transition_at_other_time:
  assumes "transitionIdentity V H s doc now = Inr s'" "same_control s w" "copyIdentityData (state_value w) = Inr (state_value w)"
    and "host_clock t = Inr ()" "check_barrier w t = Inr ()" "check_window (ev doc ''body'') t = Inr ()"
    and "max t (st_last_lease w + CLOCK_MARGIN_MS) = co_effective (st_head s')"
  shows "\<exists>w'. transitionIdentity V H w doc t = Inr w' \<and> same_control s' w' \<and> st_last_update w' = t \<and> st_last_lease w' = st_last_lease w"
proof -
  let ?p = "ev doc ''body''" and ?c = "st_head s"
  obtain op rec signers h u where t: "copyIdentityData doc = Inr u" "closed_object [''body'', ''signatures''] doc"
      "closed_object TRANSITION_FIELDS ?p" "names_next_head s ?p" "list_ex (of_kind ?p) [''rotate'', ''recover'', ''recovery-policy'']"
      "key_sets ?p = Inr (op, rec)" "verified V ''DTP-IDENTITY-TRANSITION-1'' doc = Inr signers"
      "quorum (if of_kind ?p ''rotate'' then co_operational ?c else co_recovery ?c) signers = Inr ()"
      "keeps_other_set ?c ?p = Inr ()" "st_resolver_key s \<notin> set (ks_keys op @ ks_keys rec)"
      "\<not> list_ex (\<lambda>k. k \<in> set (st_retired s)) (ks_keys op @ ks_keys rec)"
      "list_all (\<lambda>k. k \<in> set signers) (filter (\<lambda>k. k \<notin> set (controlling ?c)) (ks_keys op @ ks_keys rec))"
      "length (st_retired s @ filter (\<lambda>k. k \<notin> set (ks_keys op @ ks_keys rec)) (controlling ?c)) \<le> 4096"
      "digest_of H (control_value (st_head s')) = Inr h"
      "st_head s' = \<lparr>co_identity = co_identity ?c, co_sequence = co_sequence ?c + 1, co_previous = Some (st_head_digest s),
           co_operational = op, co_recovery = rec, co_effective = max now (st_last_lease s + CLOCK_MARGIN_MS)\<rparr>"
      "s' = s\<lparr>st_head := st_head s', st_head_digest := h,
         st_retired := st_retired s @ filter (\<lambda>k. k \<notin> set (ks_keys op @ ks_keys rec)) (controlling ?c), st_last_update := now\<rparr>"
    using assms(1) by (auto simp: transitionIdentity_def Let_def ok_iff split: prod.splits)
  have w: "st_head w = ?c" "st_head_digest w = st_head_digest s" "st_retired w = st_retired s" "st_resolver_key w = st_resolver_key s"
      "names_next_head w ?p"
    using assms(2) t(4) by (simp_all add: same_control_iff names_next_head_def)
  have head: "\<lparr>co_identity = co_identity ?c, co_sequence = co_sequence ?c + 1, co_previous = Some (st_head_digest s),
       co_operational = op, co_recovery = rec, co_effective = max t (st_last_lease w + CLOCK_MARGIN_MS)\<rparr> = st_head s'"
    unfolding assms(7) by (simp add: t(15))
  let ?w' = "w\<lparr>st_head := st_head s', st_head_digest := h,
         st_retired := st_retired s @ filter (\<lambda>k. k \<notin> set (ks_keys op @ ks_keys rec)) (controlling ?c), st_last_update := t\<rparr>"
  have "transitionIdentity V H w doc t = Inr ?w'"
    using t(1-14) w assms(3-6)
    by (simp add: transitionIdentity_def Let_def needs.simps head del: set_append list_ex_append list_all_append filter_append length_append)
  moreover have "same_control s' ?w'"
    using assms(2) by (subst t(16)) (simp add: same_control_iff)
  ultimately show ?thesis by auto
qed

lemma rehome_at_same_time:
  assumes "rehomeIdentity V H U s doc now = Inr s'" "same_control s w" "copyIdentityData (state_value w) = Inr (state_value w)"
    and "check_barrier w now = Inr ()"
  shows "rehomeIdentity V H U w doc now = Inr s'"
proof -
  let ?p = "ev doc ''body''" and ?c = "st_head s"
  have w: "st_head w = ?c" "st_head_digest w = st_head_digest s" "st_retired w = st_retired s" "st_epoch w = st_epoch s"
      "names_next_head w ?p = names_next_head s ?p" "leaves_resolver w ?p = leaves_resolver s ?p"
      "w\<lparr>st_head := h, st_head_digest := d, st_resolver := r, st_resolver_key := k, st_epoch := e, st_last_lease := l, st_last_update := u\<rparr> =
        s\<lparr>st_head := h, st_head_digest := d, st_resolver := r, st_resolver_key := k, st_epoch := e, st_last_lease := l, st_last_update := u\<rparr>"
    for h d r k e l u
    using assms(2) by (auto simp: same_control_iff names_next_head_def leaves_resolver_def)
  show ?thesis
    using assms(1,3,4) unfolding rehomeIdentity_def Let_def w
    by (auto simp: ebind_ok)
qed

lemma digest_of_hash: "digest_of H v = Inr h \<Longrightarrow> \<exists>b. h = H b"
  by (auto simp: digest_of_def ok_iff)

lemma key_set_ok_texts: "key_set_ok ks \<Longrightarrow> list_all key_text (ks_keys ks)"
  by (simp add: key_set_ok_def key_text_def [abs_def])

lemma host_clock_ok: "host_clock now = Inr () \<longleftrightarrow> 0 \<le> now \<and> now \<le> MAX_SAFE - 300000"
  by (auto simp: host_clock_def needs_ok)

lemma max_safe_pos: "400000 < MAX_SAFE"
  by (simp add: MAX_SAFE_def)

lemma create_sound:
  assumes "createIdentity V H doc resolver now = Inr s" "\<forall>b. hex64 (H b)"
  shows "state_sound s \<and> clock_sound s"
proof -
  note c = create_facts [OF assms(1)]
  have "host_clock now = Inr ()" "uuid_text (JStr (st_resolver s))" "key_text (st_resolver_key s)"
    using assms(1) by (auto simp: createIdentity_def Let_def ok_iff key_text_def check_key_ok split: prod.splits)
  moreover have "hex64 (st_genesis_digest s)" "hex64 (st_head_digest s)"
    using c assms(2) digest_of_hash by (fastforce simp: identity_ok_def)+
  ultimately show ?thesis
    using c max_safe_pos by (simp add: state_sound_def clock_sound_def identity_ok_def host_clock_ok uuid_text_def safe_int_def LEASE_MS_def)
qed

lemma transition_sound:
  assumes "transitionIdentity V H s doc now = Inr s'" "state_sound s" "clock_sound s" "identity_ok H s" "\<forall>b. hex64 (H b)"
  shows "state_sound s' \<and> clock_sound s' \<and> now \<le> MAX_SAFE - 300000 \<and> check_window (ev doc ''body'') now = Inr ()"
proof -
  note f = transition_facts [OF assms(1,4)]
  have n: "host_clock now = Inr ()" "names_next_head s (ev doc ''body'')" "check_window (ev doc ''body'') now = Inr ()"
    using assms(1) by (auto simp: transitionIdentity_def Let_def ok_iff split: prod.splits)
  have seq: "safe_int (co_sequence (st_head s) + 1)"
    using n(2) assms(4) by (auto simp: names_next_head_def is_int_def jint_def safe_int_def identity_ok_def
        elim!: strict_eq.elims split: if_splits)
  have "hex64 (st_head_digest s')" using f digest_of_hash assms(5) by (fastforce simp: identity_ok_def)
  moreover have "list_all key_text (controlling (st_head s))"
    using assms(2) key_set_ok_texts by (simp add: state_sound_def control_ok_def controlling_def)
  ultimately show ?thesis
    using f n seq assms(2,3) max_safe_pos
    by (auto simp: state_sound_def clock_sound_def identity_ok_def host_clock_ok safe_int_def LEASE_MS_def CLOCK_MARGIN_MS_def list_all_iff)
qed

lemma rehome_sound:
  assumes "rehomeIdentity V H U s doc now = Inr s'" "state_sound s" "clock_sound s" "identity_ok H s" "\<forall>b. hex64 (H b)"
  shows "state_sound s' \<and> clock_sound s' \<and> now \<le> MAX_SAFE - 300000 \<and> check_window (ev doc ''body'') now = Inr () \<and>
    (\<exists>a. ev (ev (ev doc ''body'') ''to'') ''audience'' = JStr a)"
proof -
  let ?p = "ev doc ''body''"
  note f = rehome_facts [OF assms(1,4)]
  have n: "host_clock now = Inr ()" "names_next_head s ?p" "check_window ?p now = Inr ()"
      "uuid_text (ev (ev ?p ''to'') ''resolver_id'')" "safe_integer (ev (ev ?p ''to'') ''resolver_epoch'') \<noteq> None"
      "is_int (ev (ev ?p ''to'') ''resolver_epoch'') (st_epoch s + 1)" "is_ok (check_key (ev (ev ?p ''to'') ''resolver_key''))"
      "origin_ok U (ev (ev ?p ''to'') ''audience'')"
    using assms(1) by (auto simp: rehomeIdentity_def Let_def ok_iff is_ok_iff)
  have safe: "safe_int i" if "safe_integer v \<noteq> None" "is_int v i" "i \<noteq> 0" for v i
    using that by (auto simp: is_int_def jint_def safe_int_def elim!: strict_eq.elims split: if_splits)
  have seq: "safe_int (co_sequence (st_head s) + 1)"
    using n(2) assms(4) safe [of "ev ?p ''sequence''"] by (simp add: names_next_head_def identity_ok_def)
  have epoch: "safe_int (st_epoch s + 1)" using n(5,6) safe max_safe_pos by (cases "st_epoch s + 1 = 0") (auto simp: safe_int_def)
  have "hex64 (st_head_digest s')" "\<And>d. co_previous (st_head s') = Some d \<Longrightarrow> hex64 d"
    using f digest_of_hash assms(5) by (fastforce simp: identity_ok_def)+
  moreover have "key_text (st_resolver_key s')" "isUuid (st_resolver s')"
    using n(4,7) f by (auto simp: is_ok_iff check_key_ok key_text_def uuid_text_def)
  moreover have "\<exists>a. ev (ev ?p ''to'') ''audience'' = JStr a" using n(8) by (auto simp: origin_ok_def split: option.splits)
  ultimately show ?thesis
    using f n(1,3) seq epoch assms(2,3) max_safe_pos
    by (auto simp: state_sound_def clock_sound_def identity_ok_def host_clock_ok safe_int_def LEASE_MS_def)
qed

lemma resolution_sound:
  assumes "issueResolution sg U s input key now = Inr (s', doc)" "state_sound s" "clock_sound s"
  shows "state_sound s' \<and> clock_sound s'"
proof -
  note f = resolution_facts [OF assms(1)]
  have "host_clock now = Inr ()" using assms(1) by (auto simp: issueResolution_def ok_iff)
  then show ?thesis using f assms(2,3) max_safe_pos
    by (auto simp: state_sound_def clock_sound_def control_ok_def host_clock_ok safe_int_def LEASE_MS_def)
qed

subsection \<open>The log of a run\<close>

text \<open>The entries that a host records: each accepted document, with the instant at which its head takes effect.\<close>

definition recorded :: "identity_state \<Rightarrow> jval \<Rightarrow> jval \<Rightarrow> log_entry" where
  "recorded s' transition rehome =
     \<lparr>en_effective = co_effective (st_head s'), en_transition = transition, en_rehome = rehome, en_attestation = JNull\<rparr>"

fun host_log ::
  "(byte list \<Rightarrow> byte list \<Rightarrow> byte list \<Rightarrow> bool) \<Rightarrow> (byte list \<Rightarrow> jstr) \<Rightarrow> (byte list \<Rightarrow> byte list \<Rightarrow> byte list) \<Rightarrow>
   (jstr \<Rightarrow> jstr option) \<Rightarrow> identity_state \<times> lease list \<Rightarrow> identity_command list \<Rightarrow> log_entry list" where
  "host_log V H sg U host [] = []"
| "host_log V H sg U host (cmd # cmds) =
     (case cmd of
        Transition doc now \<Rightarrow>
          (case transitionIdentity V H (fst host) doc now of Inl _ \<Rightarrow> [] | Inr s' \<Rightarrow> [recorded s' doc JNull])
      | Rehome doc now \<Rightarrow>
          (case rehomeIdentity V H U (fst host) doc now of Inl _ \<Rightarrow> [] | Inr s' \<Rightarrow> [recorded s' JNull doc])
      | Resolve _ _ _ \<Rightarrow> []) @
     host_log V H sg U (host_step V H sg U host cmd) cmds"

definition command_time :: "identity_command \<Rightarrow> int" where
  "command_time cmd = (case cmd of Transition _ now \<Rightarrow> now | Rehome _ now \<Rightarrow> now | Resolve _ _ now \<Rightarrow> now)"

lemma window_instants:
  "check_window p now = Inr () \<Longrightarrow> \<exists>issued expires. instant (ev p ''issued_at'') = Some issued \<and> instant (ev p ''expires_at'') = Some expires \<and>
     issued \<le> now \<and> now < expires \<and> expires - issued \<le> 300000 \<and>
     (\<forall>t. check_window p t = Inr () \<longleftrightarrow> issued \<le> t \<and> t < expires)"
  by (auto simp: check_window_def timestamp_def instant_def ok_iff if_Inl_ok split: option.splits if_splits)

lemma closed_object_like: "closed_object names v \<Longrightarrow> object_like v \<and> v \<noteq> JNull"
  by (auto simp: closed_object_def object_like_def split: option.splits)

lemma transition_replays:
  assumes "transitionIdentity V H s doc now = Inr s'" "state_sound s" "clock_sound s" "identity_ok H s" "\<forall>b. hex64 (H b)" "same_control s w"
    and "now \<le> MAX_SAFE - 400000"
  shows "\<exists>w'. replay_transition V H w doc (co_effective (st_head s')) = Inr w' \<and> same_control s' w' \<and> state_sound w'"
proof -
  let ?p = "ev doc ''body''" and ?at = "co_effective (st_head s')" and ?previous = "co_effective (st_head s)"
  note f = transition_facts [OF assms(1,4)]
  have c: "host_clock now = Inr ()" "check_window ?p now = Inr ()" "closed_object [''body'', ''signatures''] doc" "closed_object TRANSITION_FIELDS ?p"
    using assms(1) by (auto simp: transitionIdentity_def Let_def ok_iff split: prod.splits)
  obtain issued expires where w: "instant (ev ?p ''issued_at'') = Some issued" "instant (ev ?p ''expires_at'') = Some expires"
      "issued \<le> now" "now < expires" "expires - issued \<le> 300000" "\<And>t. check_window ?p t = Inr () \<longleftrightarrow> issued \<le> t \<and> t < expires"
    using window_instants [OF c(2)] by blast
  have times: "now \<le> ?at" "?at \<le> now + LEASE_MS + CLOCK_MARGIN_MS" "?previous \<le> now" "0 \<le> now" "st_last_update s \<le> now"
    using f assms(3) c(1) by (auto simp: clock_sound_def host_clock_ok LEASE_MS_def CLOCK_MARGIN_MS_def)
  let ?t = "min (expires - 1) ?at"
  let ?w = "w\<lparr>st_last_update := ?previous, st_last_lease := ?at - CLOCK_MARGIN_MS\<rparr>"
  have head: "st_head w = st_head s" using assms(6) by (simp add: same_control_iff)
  have "\<exists>w'. transitionIdentity V H ?w doc ?t = Inr w' \<and> same_control s' w' \<and> st_last_update w' = ?t \<and> st_last_lease w' = st_last_lease ?w"
  proof (rule transition_at_other_time [OF assms(1)])
    show "same_control s ?w" using assms(6) by (simp add: same_control_iff)
    have "state_sound ?w"
      using assms(2,6,7) times max_safe_pos
      by (simp add: state_sound_def same_control_iff safe_int_def LEASE_MS_def CLOCK_MARGIN_MS_def)
    then show "copyIdentityData (state_value ?w) = Inr (state_value ?w)" by (rule state_copies)
    show "host_clock ?t = Inr ()" using times w(4) assms(7) by (auto simp: host_clock_ok LEASE_MS_def CLOCK_MARGIN_MS_def)
    show "check_barrier ?w ?t = Inr ()" using times w(4) head by (simp add: check_barrier_def needs_ok)
    show "check_window ?p ?t = Inr ()" using w(3,4,6) times by simp
    show "max ?t (st_last_lease ?w + CLOCK_MARGIN_MS) = ?at" by simp
  qed
  moreover have "log_window ?p ?at ?previous = Inr expires"
    using w times by (simp add: log_window_def needs.simps)
  moreover have "?at \<le> expires - 1 + LEASE_MS + CLOCK_MARGIN_MS" using times w(4) by simp
  moreover have "state_sound w'" if "same_control s' w'" "st_last_update w' = ?t" "st_last_lease w' = ?at - CLOCK_MARGIN_MS" for w'
  proof -
    have "state_sound s'" using transition_sound [OF assms(1-5)] by simp
    moreover have "safe_int ?t" "safe_int (?at - CLOCK_MARGIN_MS)"
      using times w(4) assms(7) max_safe_pos by (auto simp: safe_int_def LEASE_MS_def CLOCK_MARGIN_MS_def)
    ultimately show ?thesis using that by (simp add: state_sound_def same_control_iff)
  qed
  ultimately show ?thesis
    using c(3,4) closed_object_like by (simp add: replay_transition_def Let_def head needs.simps control_step_def) blast
qed

lemma rehome_replays:
  assumes "rehomeIdentity V H U s doc now = Inr s'" "state_sound s" "clock_sound s" "identity_ok H s" "\<forall>b. hex64 (H b)" "same_control s w"
    and "state_sound w"
  shows "\<exists>r. replay_rehome V H U w doc (co_effective (st_head s')) = Inr (s', r)"
proof -
  let ?p = "ev doc ''body''" and ?previous = "co_effective (st_head s)"
  note f = rehome_facts [OF assms(1,4)]
  have c: "closed_object [''body'', ''signatures''] doc" "closed_object REHOME_FIELDS ?p"
    using assms(1) by (auto simp: rehomeIdentity_def Let_def ok_iff)
  have s: "check_window ?p now = Inr ()" "\<exists>a. ev (ev ?p ''to'') ''audience'' = JStr a"
    using rehome_sound [OF assms(1-5)] by auto
  obtain issued expires where w: "instant (ev ?p ''issued_at'') = Some issued" "instant (ev ?p ''expires_at'') = Some expires"
      "issued \<le> now" "now < expires"
    using window_instants [OF s(1)] by blast
  have head: "st_head w = st_head s" using assms(6) by (simp add: same_control_iff)
  have "rehomeIdentity V H U (w\<lparr>st_last_update := ?previous\<rparr>) doc now = Inr s'"
  proof (rule rehome_at_same_time [OF assms(1)])
    show "same_control s (w\<lparr>st_last_update := ?previous\<rparr>)" using assms(6) by (simp add: same_control_iff)
    show "check_barrier (w\<lparr>st_last_update := ?previous\<rparr>) now = Inr ()" using f head by (simp add: check_barrier_def needs_ok)
    show "copyIdentityData (state_value (w\<lparr>st_last_update := ?previous\<rparr>)) = Inr (state_value (w\<lparr>st_last_update := ?previous\<rparr>))"
      using assms(7) head by (intro state_copies) (simp add: state_sound_def)
  qed
  then show ?thesis
    using c s(2) w f head closed_object_like by (auto simp: replay_rehome_def Let_def log_window_def needs.simps control_step_def require_def)
qed

lemma note_unattested: "en_attestation e = JNull \<Longrightarrow> \<exists>v'. note_head V False v n e = Inr v' \<and> vl_state v' = vl_state v"
  by (simp add: note_head_def Let_def)

lemma host_log_replays:
  assumes "\<forall>b. hex64 (H b)"
  shows "identity_ok H s \<Longrightarrow> state_sound s \<Longrightarrow> clock_sound s \<Longrightarrow> same_control s (vl_state v) \<Longrightarrow> state_sound (vl_state v) \<Longrightarrow>
     int n = co_sequence (st_head s) + 1 \<Longrightarrow> \<forall>cmd \<in> set cmds. command_time cmd \<le> MAX_SAFE - 400000 \<Longrightarrow>
     \<exists>v'. replay_entries V H U False v n (host_log V H sg U (s, ls) cmds) = Inr v' \<and>
       same_control (fst (foldl (host_step V H sg U) (s, ls) cmds)) (vl_state v')"
proof (induction cmds arbitrary: s ls v n)
  case (Cons cmd cmds)
  note later = Cons.prems(7)
  show ?case
  proof (cases cmd)
    case (Transition doc now)
    show ?thesis
    proof (cases "transitionIdentity V H s doc now")
      case (Inr s')
      note f = transition_facts [OF Inr Cons.prems(1)] and sound = transition_sound [OF Inr Cons.prems(2,3,1) assms]
      obtain w' where w': "replay_transition V H (vl_state v) doc (co_effective (st_head s')) = Inr w'" "same_control s' w'" "state_sound w'"
        using transition_replays [OF Inr Cons.prems(2,3,1) assms Cons.prems(4)] later by (auto simp: Transition command_time_def)
      have "doc \<noteq> JNull" using Inr closed_object_like by (auto simp: transitionIdentity_def Let_def ok_iff split: prod.splits)
      then have "replay_command V H U v n (recorded s' doc JNull) = Inr (w', vl_resolvers v)"
        using w' f Cons.prems(6) by (simp add: replay_command_def recorded_def needs.simps same_control_iff)
      moreover obtain v1 where v1: "note_head V False (v\<lparr>vl_state := w', vl_resolvers := vl_resolvers v\<rparr>) n (recorded s' doc JNull) = Inr v1"
          "vl_state v1 = w'"
        using note_unattested [of "recorded s' doc JNull"] by (fastforce simp: recorded_def)
      moreover have "\<exists>v'. replay_entries V H U False v1 (Suc n) (host_log V H sg U (s', ls) cmds) = Inr v' \<and>
          same_control (fst (foldl (host_step V H sg U) (s', ls) cmds)) (vl_state v')"
        using f sound w' v1(2) Cons.prems(6) later by (intro Cons.IH) auto
      moreover have "host_step V H sg U (s, ls) (Transition doc now) = (s', ls)" by (simp add: host_step_def Inr)
      ultimately show ?thesis using Inr by (simp add: Transition)
    next
      case (Inl x)
      then have "host_step V H sg U (s, ls) (Transition doc now) = (s, ls)" by (simp add: host_step_def)
      then show ?thesis using Cons Inl by (simp add: Transition)
    qed
  next
    case (Rehome doc now)
    show ?thesis
    proof (cases "rehomeIdentity V H U s doc now")
      case (Inr s')
      note f = rehome_facts [OF Inr Cons.prems(1)] and sound = rehome_sound [OF Inr Cons.prems(2,3,1) assms]
      obtain r where r: "replay_rehome V H U (vl_state v) doc (co_effective (st_head s')) = Inr (s', r)"
        using rehome_replays [OF Inr Cons.prems(2,3,1) assms Cons.prems(4,5)] by blast
      have "doc \<noteq> JNull" using Inr closed_object_like by (auto simp: rehomeIdentity_def Let_def ok_iff)
      then have "replay_command V H U v n (recorded s' JNull doc) = Inr (s', vl_resolvers v @ [r])"
        using r f Cons.prems(6) by (simp add: replay_command_def recorded_def needs.simps)
      moreover obtain v1 where v1: "note_head V False (v\<lparr>vl_state := s', vl_resolvers := vl_resolvers v @ [r]\<rparr>) n (recorded s' JNull doc) = Inr v1"
          "vl_state v1 = s'"
        using note_unattested [of "recorded s' JNull doc"] by (fastforce simp: recorded_def)
      moreover have "\<exists>v'. replay_entries V H U False v1 (Suc n) (host_log V H sg U (s', ls) cmds) = Inr v' \<and>
          same_control (fst (foldl (host_step V H sg U) (s', ls) cmds)) (vl_state v')"
        using f sound v1(2) Cons.prems(6) later by (intro Cons.IH) (auto simp: same_control_iff)
      moreover have "host_step V H sg U (s, ls) (Rehome doc now) = (s', ls)" by (simp add: host_step_def Inr)
      ultimately show ?thesis using Inr by (simp add: Rehome)
    next
      case (Inl x)
      then have "host_step V H sg U (s, ls) (Rehome doc now) = (s, ls)" by (simp add: host_step_def)
      then show ?thesis using Cons Inl by (simp add: Rehome)
    qed
  next
    case (Resolve input key now)
    show ?thesis
    proof (cases "issueResolution sg U s input key now")
      case (Inr q)
      obtain s' doc where q: "q = (s', doc)" by (cases q)
      note f = resolution_facts [OF Inr [unfolded q]] and sound = resolution_sound [OF Inr [unfolded q] Cons.prems(2,3)]
      have "identity_ok H s'" "same_control s' (vl_state v)" "co_sequence (st_head s') = co_sequence (st_head s)"
        using f Cons.prems(1,4) by (auto simp: identity_ok_def same_control_iff)
      moreover obtain ls' where "host_step V H sg U (s, ls) (Resolve input key now) = (s', ls')" by (simp add: host_step_def Inr q)
      ultimately show ?thesis using Cons.IH [of s' v n ls'] sound Cons.prems(5,6) later by (simp add: Resolve)
    next
      case (Inl x)
      then have "host_step V H sg U (s, ls) (Resolve input key now) = (s, ls)" by (simp add: host_step_def)
      then show ?thesis using Cons by (simp add: Resolve)
    qed
  qed
qed simp

text \<open>C29. 
  A log never refuses its own history.  Take any run of a host: an identity it created, the enrollment it accepted, and
  any commands, accepted or refused, at the host's own instants and under the leases it issued.  Then the parts that the
  host records, each accepted document with the instant its head takes effect, verify, and the verifier ends with the
  host's control: the same head, digest, retired keys, resolver and epoch.  (SHA-256 prints 64 hexadecimal digits, and
  the host's clock stays 400 seconds below the largest safe integer.)
\<close>
theorem host_history_verifies:
  assumes "createIdentity V H genesis (enrolled_resolver enrollment) now = Inr s"
    and "verifyResolverEnrollment V U s enrollment (ev (ev enrollment ''body'') ''audience'') now = Inr ()"
    and "\<forall>bytes. hex64 (H bytes)" and "\<forall>cmd \<in> set cmds. command_time cmd \<le> MAX_SAFE - 400000"
  shows "\<exists>v. verify_parts V H U False genesis enrollment (recorded s JNull JNull # host_log V H sg U (s, []) cmds) = Inr v \<and>
    same_control (fst (identity_after V H sg U s cmds)) (vl_state v)"
proof -
  note c = create_facts [OF assms(1)]
  have e: "closed_object [''body'', ''signatures''] enrollment" "closed_object ENROLLMENT_FIELDS (ev enrollment ''body'')"
      "check_request U (ev (ev enrollment ''body'') ''identity_id'') (ev (ev enrollment ''body'') ''audience'') (ev (ev enrollment ''body'') ''nonce'') = Inr ()"
    using assms(2) by (auto simp: verifyResolverEnrollment_def Let_def ok_iff)
  then obtain a where "str_of (ev (ev enrollment ''body'') ''audience'') = Some a"
    by (auto simp: check_request_def needs_ok origin_ok_def split: option.splits)
  then obtain v0 where v0: "replay_genesis V H U genesis enrollment now = Inr v0" "vl_state v0 = s"
    using assms(1,2) by (auto simp: replay_genesis_def Let_def control_step_def require_def)
  obtain v1 where v1: "note_head V False v0 0 (recorded s JNull JNull) = Inr v1" "vl_state v1 = s"
    using note_unattested [of "recorded s JNull JNull" V v0 0] v0(2) by (auto simp: recorded_def)
  have "\<exists>v. replay_entries V H U False v1 1 (host_log V H sg U (s, []) cmds) = Inr v \<and>
      same_control (fst (foldl (host_step V H sg U) (s, []) cmds)) (vl_state v)"
    using c create_sound [OF assms(1,3)] v1(2) assms(4) by (intro host_log_replays [OF assms(3)]) (auto simp: same_control_iff)
  then show ?thesis
    using e v0 v1(1) c closed_object_like
    by (auto simp: verify_parts_def needs.simps recorded_def identity_after_def)
qed

lemma host_history_verifies_witness:
  "\<exists>v. verify_parts (\<lambda>_ _ _. True) id_hash Some False id_genesis id_enrollment
      (recorded id_state JNull JNull # host_log (\<lambda>_ _ _. True) id_hash (\<lambda>_ m. m) Some (id_state, []) [Transition JNull 2000, Rehome JNull 3000]) = Inr v \<and>
    same_control (fst (identity_after (\<lambda>_ _ _. True) id_hash (\<lambda>_ m. m) Some id_state [Transition JNull 2000, Rehome JNull 3000])) (vl_state v)"
proof (rule host_history_verifies)
  show "createIdentity (\<lambda>_ _ _. True) id_hash id_genesis (enrolled_resolver id_enrollment) 1000 = Inr id_state"
    using id_created by (simp add: enrolled_resolver_def id_enrollment_def id_enrollment_body_def ev_JObj id_resolver_def id_state_def)
  show "verifyResolverEnrollment (\<lambda>_ _ _. True) Some id_state id_enrollment (ev (ev id_enrollment ''body'') ''audience'') 1000 = Inr ()"
    using id_enrolled by (simp add: id_enrollment_def id_enrollment_body_def ev_JObj)
  show "\<forall>bytes. hex64 (id_hash bytes)" by (simp add: id_hash_def hex64_def hex_lower_def list_all_iff)
  show "\<forall>cmd \<in> set [Transition JNull 2000, Rehome JNull 3000]. command_time cmd \<le> MAX_SAFE - 400000"
    by (simp add: command_time_def MAX_SAFE_def)
qed

end
