(* ===== verification/LogAdmission.thy ===== *)
theory LogAdmission
  imports IdentityLogComplete
begin

text \<open>
  \<^verbatim>\<open>identity-log.ts\<close>, the relying party: how two histories of an identity rank, how a log is judged against a durable
  pin, and what the refusal of a move means.  The pin is the party's own, so it is typed; refusals and logs are values.
\<close>

subsection \<open>Checkpoints and precedence\<close>

datatype checkpoint = Consistent | LogBehind | Conflict

definition compareCheckpoint :: "verified_log \<Rightarrow> int \<Rightarrow> jstr \<Rightarrow> log_refusal + checkpoint" where
  "compareCheckpoint v sequence head_digest =
     (if \<not> (\<bar>sequence\<bar> \<le> MAX_SAFE \<and> 0 \<le> sequence \<and> hex64 head_digest) then Inl BadCheckpoint
      else if sequence \<ge> int (length (vl_heads v)) then Inr LogBehind
      else if vh_digest (vl_heads v ! nat sequence) = head_digest then Inr Consistent else Inr Conflict)"

definition sameQuorum :: "key_set \<Rightarrow> key_set \<Rightarrow> bool" where
  "sameQuorum a b \<longleftrightarrow> ks_threshold a = ks_threshold b \<and> sort (ks_keys a) = sort (ks_keys b)"

datatype ranking = Equal | AExtendsB | BExtendsA | ASupersedesB | BSupersedesA | Forked

text \<open>The first position at which two head lists differ, within their common length.\<close>

fun first_difference :: "verified_head list \<Rightarrow> verified_head list \<Rightarrow> nat \<Rightarrow> nat option" where
  "first_difference (a # as) (b # bs) i = (if vh_digest a \<noteq> vh_digest b then Some i else first_difference as bs (Suc i))"
| "first_difference _ _ i = None"

definition vl_epoch :: "verified_log \<Rightarrow> int" where
  "vl_epoch v = rb_epoch (vl_resolver v)"

definition precedence :: "verified_log \<Rightarrow> verified_log \<Rightarrow> log_refusal + ranking" where
  "precedence a b =
     (if \<not> (vl_identity a = vl_identity b \<and> st_genesis_digest (vl_state a) = st_genesis_digest (vl_state b)) then Inl OtherIdentities
      else
        case first_difference (vl_heads a) (vl_heads b) 0 of
          Some i \<Rightarrow>
            if vl_epoch a = vl_epoch b then Inr Forked
            else
              let a_higher = vl_epoch a > vl_epoch b; higher = (if a_higher then a else b); lower = (if a_higher then b else a) in
              if \<not> sameQuorum (co_recovery (vh_head (vl_heads higher ! (i - 1)))) (co_recovery (vl_head lower)) then Inr Forked
              else if a_higher then Inr ASupersedesB else Inr BSupersedesA
        | None \<Rightarrow>
            if length (vl_heads a) = length (vl_heads b) then Inr Equal
            else if length (vl_heads a) > length (vl_heads b) then Inr AExtendsB else Inr BExtendsA)"

subsection \<open>Pins\<close>

record resolver_pin =
  pi_identity :: jstr
  pi_resolver :: jstr
  pi_key :: jstr
  pi_epoch :: int
  pi_sequence :: int
  pi_digest :: "jstr option"

definition pin_value :: "resolver_pin \<Rightarrow> jval" where
  "pin_value p = JObj
     [(js ''identity_id'', JStr (pi_identity p)), (js ''resolver_id'', JStr (pi_resolver p)), (js ''resolver_key'', JStr (pi_key p)),
      (js ''resolver_epoch'', jint (pi_epoch p)), (js ''minimum_sequence'', jint (pi_sequence p)),
      (js ''minimum_digest'', opt_text (pi_digest p))]"

definition checkPin :: "resolver_pin \<Rightarrow> log_refusal + unit" where
  "checkPin p =
     ebind (control_step (copyIdentityData (pin_value p))) (\<lambda>_.
     needs [(\<bar>pi_epoch p\<bar> \<le> MAX_SAFE \<and> 0 \<le> pi_epoch p \<and> \<bar>pi_sequence p\<bar> \<le> MAX_SAFE \<and> 0 \<le> pi_sequence p \<and>
       (case pi_digest p of None \<Rightarrow> True | Some d \<Rightarrow> hex64 d), BadPin)])"

definition ends_at_pin :: "resolver_pin \<Rightarrow> verified_log \<Rightarrow> bool" where
  "ends_at_pin p v \<longleftrightarrow>
     vl_identity v = pi_identity p \<and> rb_id (vl_resolver v) = pi_resolver p \<and> rb_key (vl_resolver v) = pi_key p \<and>
     vl_epoch v = pi_epoch p \<and> co_sequence (vl_head v) = pi_sequence p \<and> Some (vl_head_digest v) = pi_digest p"

definition pinnedHistory ::
  "(byte list \<Rightarrow> byte list \<Rightarrow> byte list \<Rightarrow> bool) \<Rightarrow> (byte list \<Rightarrow> jstr) \<Rightarrow> (jstr \<Rightarrow> jstr option) \<Rightarrow> resolver_pin \<Rightarrow> jval \<Rightarrow>
   log_refusal + verified_log" where
  "pinnedHistory V H U pin log =
     ebind (verifyIdentityLog V H U False log) (\<lambda>p. ebind (needs [(ends_at_pin pin p, OtherPin)]) (\<lambda>_. Inr p))"

datatype admission_refusal =
  InvalidLog | AnotherIdentity | UnknownIdentity | ForeignLineage | Behind | ConflictingHistory | UnadoptedMove | RefusedMove

datatype admission_outcome = Unchanged | Advanced | Superseded

record admission =
  ad_outcome :: admission_outcome
  ad_pin :: resolver_pin
  ad_superseded :: "(int \<times> jstr) option"

definition pin_of :: "verified_log \<Rightarrow> resolver_pin" where
  "pin_of v = \<lparr>pi_identity = vl_identity v, pi_resolver = rb_id (vl_resolver v), pi_key = rb_key (vl_resolver v), pi_epoch = vl_epoch v,
     pi_sequence = co_sequence (vl_head v), pi_digest = Some (vl_head_digest v)\<rparr>"

text \<open>A move past the pinned epoch whose destination did not attest the head that it created.\<close>

fun unadopted :: "int \<Rightarrow> verified_head list \<Rightarrow> bool" where
  "unadopted epoch (h # h' # hs) \<longleftrightarrow>
     vh_epoch h' \<noteq> vh_epoch h \<and> vh_epoch h' > epoch \<and> \<not> vh_attested h' \<or> unadopted epoch (h' # hs)"
| "unadopted epoch _ = False"

text \<open>
  \<open>judgeVerified\<close>: \<open>Inl\<close> an exception, \<open>Inr (Inl reason)\<close> a refusal, \<open>Inr (Inr admission)\<close> an admission.
\<close>

definition judgeVerified ::
  "resolver_pin \<Rightarrow> verified_log \<Rightarrow> verified_log option \<Rightarrow> bool \<Rightarrow> log_refusal + (admission_refusal + admission)" where
  "judgeVerified pin v pinned refused =
     (if vl_identity v \<noteq> pi_identity pin then Inr (Inl AnotherIdentity)
      else if refused then Inr (Inl RefusedMove)
      else
        ebind (case pinned of None \<Rightarrow> Inr False | Some p \<Rightarrow> ebind (precedence v p) (\<lambda>r. Inr (r = Forked))) (\<lambda>forked.
        if forked then Inr (Inl ConflictingHistory)
        else if (case find (\<lambda>r. rb_epoch r = pi_epoch pin) (vl_resolvers v) of
            None \<Rightarrow> True | Some r \<Rightarrow> rb_id r \<noteq> pi_resolver pin \<or> rb_key r \<noteq> pi_key pin)
        then Inr (Inl ForeignLineage)
        else if co_sequence (vl_head v) < pi_sequence pin then Inr (Inl Behind)
        else if unadopted (pi_epoch pin) (vl_heads v) then Inr (Inl UnadoptedMove)
        else
          ebind (case pi_digest pin of None \<Rightarrow> Inr Consistent | Some d \<Rightarrow> compareCheckpoint v (pi_sequence pin) d) (\<lambda>c.
          if c = Conflict then
            if vl_epoch v \<le> pi_epoch pin \<or> pinned = None then Inr (Inl ConflictingHistory)
            else Inr (Inr \<lparr>ad_outcome = Superseded, ad_pin = pin_of v,
              ad_superseded = map_option (Pair (pi_sequence pin)) (pi_digest pin)\<rparr>)
          else
            Inr (Inr \<lparr>ad_outcome = (if co_sequence (vl_head v) = pi_sequence pin \<and> vl_epoch v = pi_epoch pin then Unchanged else Advanced),
              ad_pin = pin_of v, ad_superseded = None\<rparr>))))"

subsection \<open>Refused moves\<close>

definition REHOME_REFUSAL_DOMAIN :: string where "REHOME_REFUSAL_DOMAIN = ''DTP-IDENTITY-REHOME-REFUSAL-1''"

definition rehomeDigest :: "(byte list \<Rightarrow> jstr) \<Rightarrow> jval \<Rightarrow> log_refusal + jstr" where
  "rehomeDigest sha256Hex rehome =
     ebind (control_step (copyIdentityData rehome)) (\<lambda>r.
     ebind (needs [(closed_object [''body'', ''signatures''] r, NotClosed), (closed_object REHOME_FIELDS (ev r ''body''), NotClosed)]) (\<lambda>_.
     ebind (control_step (map_err NotCanonical (domain_bytes ''DTP-IDENTITY-REHOME-1'' (ev r ''body'')))) (\<lambda>bytes.
     Inr (sha256Hex bytes))))"

record rehome_target =
  rt_resolver :: jstr
  rt_key :: jstr
  rt_epoch :: int
  rt_identity :: jstr

definition rehomeTarget :: "jval \<Rightarrow> log_refusal + rehome_target" where
  "rehomeTarget rehome =
     (let to = ev (ev rehome ''body'') ''to'' in
      ebind (needs [(closed_object [''resolver_id'', ''resolver_key'', ''audience'', ''resolver_epoch''] to, NotClosed)]) (\<lambda>_.
      case (str_of (ev to ''resolver_id''), str_of (ev to ''resolver_key''), instant (ev to ''resolver_epoch''),
          str_of (ev (ev rehome ''body'') ''identity_id'')) of
        (Some r, Some k, Some e, Some i) \<Rightarrow> Inr \<lparr>rt_resolver = r, rt_key = k, rt_epoch = e, rt_identity = i\<rparr>
      | _ \<Rightarrow> Inl BadTarget))"

definition refusal_body :: "rehome_target \<Rightarrow> jstr \<Rightarrow> int \<Rightarrow> jval" where
  "refusal_body to rehome_digest refused_at = JObj
     [(js ''identity_id'', JStr (rt_identity to)), (js ''rehome_digest'', JStr rehome_digest), (js ''resolver_id'', JStr (rt_resolver to)),
      (js ''resolver_epoch'', jint (rt_epoch to)), (js ''refused_at'', jint refused_at)]"

definition refuseRehome ::
  "(byte list \<Rightarrow> jstr) \<Rightarrow> (byte list \<Rightarrow> byte list \<Rightarrow> byte list) \<Rightarrow> jval \<Rightarrow> jstr \<times> jstr \<Rightarrow> int \<Rightarrow> log_refusal + jval" where
  "refuseRehome H ed25519_sign rehome key now =
     ebind (control_step (copyIdentityData rehome)) (\<lambda>r.
     ebind (rehomeDigest H r) (\<lambda>digest.
     ebind (rehomeTarget r) (\<lambda>to.
     ebind (needs [(0 \<le> now \<and> now \<le> MAX_SAFE, RefusalInstant), (fst key = rt_key to, NotTheDestination)]) (\<lambda>_.
     control_step (signIdentity ed25519_sign REHOME_REFUSAL_DOMAIN (refusal_body to digest now) [key])))))"

definition verifyRehomeRefusal ::
  "(byte list \<Rightarrow> byte list \<Rightarrow> byte list \<Rightarrow> bool) \<Rightarrow> (byte list \<Rightarrow> jstr) \<Rightarrow> jval \<Rightarrow> jval \<Rightarrow> log_refusal + jval" where
  "verifyRehomeRefusal V H refusal rehome =
     ebind (control_step (copyIdentityData refusal)) (\<lambda>s.
     ebind (control_step (copyIdentityData rehome)) (\<lambda>r.
     ebind (rehomeTarget r) (\<lambda>to.
     let b = ev s ''body'' in
     ebind (needs [(closed_object [''body'', ''signatures''] s, NotClosed)]) (\<lambda>_.
     ebind (bounded_list 1 1 (ev s ''signatures'')) (\<lambda>signatures.
     ebind (needs [(closed_object [''identity_id'', ''rehome_digest'', ''resolver_id'', ''resolver_epoch'', ''refused_at''] b, NotClosed)]) (\<lambda>_.
     ebind (rehomeDigest H r) (\<lambda>digest.
     ebind (needs [(ev b ''identity_id'' = JStr (rt_identity to) \<and> ev b ''rehome_digest'' = JStr digest \<and>
         ev b ''resolver_id'' = JStr (rt_resolver to) \<and> is_int (ev b ''resolver_epoch'') (rt_epoch to) \<and>
         instant (ev b ''refused_at'') \<noteq> None, OtherRehome)]) (\<lambda>_.
     ebind (check_sole_signature V RefusalKey RefusalSignature REHOME_REFUSAL_DOMAIN b (rt_key to) (hd signatures)) (\<lambda>_.
     Inr b)))))))))"

definition copyLog :: "jval \<Rightarrow> log_refusal + jval" where
  "copyLog log =
     ebind (control_step (copyIdentityData (ev log ''genesis''))) (\<lambda>genesis.
     ebind (control_step (copyIdentityData (ev log ''enrollment''))) (\<lambda>enrollment.
     ebind (require NotBounded (array_of (ev log ''entries''))) (\<lambda>raw.
     ebind (traverse (\<lambda>e. control_step (copyIdentityData e)) raw) (\<lambda>entries.
     Inr (JObj [(js ''format'', ev log ''format''), (js ''genesis'', genesis), (js ''enrollment'', enrollment),
       (js ''entries'', JArr entries)])))))"

text \<open>A later rehome leaves the refusing destination for another one.\<close>

fun escaped :: "rehome_target \<Rightarrow> jval list \<Rightarrow> log_refusal + bool" where
  "escaped refuser [] = Inr False"
| "escaped refuser (e # es) =
     (if ev e ''rehome'' = JNull then escaped refuser es
      else
        ebind (rehomeTarget (ev e ''rehome'')) (\<lambda>to.
        if rt_resolver to \<noteq> rt_resolver refuser \<and> rt_key to \<noteq> rt_key refuser then Inr True else escaped refuser es))"

definition names_rehome :: "jstr \<Rightarrow> jval \<Rightarrow> bool" where
  "names_rehome digest refusal \<longleftrightarrow> ev (ev refusal ''body'') ''rehome_digest'' = JStr digest"

fun refused_from ::
  "(byte list \<Rightarrow> byte list \<Rightarrow> byte list \<Rightarrow> bool) \<Rightarrow> (byte list \<Rightarrow> jstr) \<Rightarrow> jval list \<Rightarrow> jval list \<Rightarrow> log_refusal + bool" where
  "refused_from V H refusals [] = Inr False"
| "refused_from V H refusals (e # es) =
     (let move = ev e ''rehome'' in
      if move = JNull then refused_from V H refusals es
      else
        ebind (rehomeDigest H move) (\<lambda>digest.
        if list_ex (\<lambda>r. names_rehome digest r \<and> is_ok (verifyRehomeRefusal V H r move)) refusals
        then ebind (rehomeTarget move) (\<lambda>refuser. ebind (escaped refuser es) (\<lambda>left.
          if left then refused_from V H refusals es else Inr True))
        else refused_from V H refusals es))"

text \<open>The entries are the log's own, so an entry of the older format has no member \<open>rehome\<close> at all.\<close>

definition refusedMove ::
  "(byte list \<Rightarrow> byte list \<Rightarrow> byte list \<Rightarrow> bool) \<Rightarrow> (byte list \<Rightarrow> jstr) \<Rightarrow> jval \<Rightarrow> jval list \<Rightarrow> log_refusal + bool" where
  "refusedMove V H log refusals =
     ebind (needs [(length refusals \<le> MAX_LOG_ENTRIES, TooManyRefusals)]) (\<lambda>_.
     if refusals = [] then Inr False
     else
       ebind (copyLog log) (\<lambda>copy.
       ebind (require NotBounded (array_of (ev copy ''entries''))) (\<lambda>entries.
       refused_from V H refusals entries)))"

definition judgeIdentityLog ::
  "(byte list \<Rightarrow> byte list \<Rightarrow> byte list \<Rightarrow> bool) \<Rightarrow> (byte list \<Rightarrow> jstr) \<Rightarrow> (jstr \<Rightarrow> jstr option) \<Rightarrow> resolver_pin \<Rightarrow> jval \<Rightarrow>
   bool \<Rightarrow> jval option \<Rightarrow> jval list \<Rightarrow> log_refusal + (admission_refusal + admission)" where
  "judgeIdentityLog V H U pin log require_attestation pinned refusals =
     ebind (checkPin pin) (\<lambda>_.
     ebind (case pinned of None \<Rightarrow> Inr None | Some l \<Rightarrow> ebind (pinnedHistory V H U pin l) (\<lambda>p. Inr (Some p))) (\<lambda>held.
     case verifyIdentityLog V H U require_attestation log of
       Inl _ \<Rightarrow> Inr (Inl InvalidLog)
     | Inr v \<Rightarrow> ebind (refusedMove V H log refusals) (\<lambda>refused. judgeVerified pin v held refused)))"

text \<open>\<open>admitIdentityLog\<close> throws for a refusal.\<close>

definition admitIdentityLog ::
  "(byte list \<Rightarrow> byte list \<Rightarrow> byte list \<Rightarrow> bool) \<Rightarrow> (byte list \<Rightarrow> jstr) \<Rightarrow> (jstr \<Rightarrow> jstr option) \<Rightarrow> resolver_pin \<Rightarrow> jval \<Rightarrow>
   bool \<Rightarrow> jval option \<Rightarrow> jval list \<Rightarrow> (log_refusal + admission_refusal) + admission" where
  "admitIdentityLog V H U pin log require_attestation pinned refusals =
     ebind (map_err Inl (judgeIdentityLog V H U pin log require_attestation pinned refusals)) (map_err Inr)"

subsection \<open>The owner's push\<close>

record pinned_history =
  ph_pin :: resolver_pin
  ph_log :: "jval option"
  ph_refusals :: "jval list"

text \<open>The acknowledgement: refused for a reason, or the outcome and the binding that the party now holds.\<close>

datatype push_ack =
    AckRefused "jstr option" admission_refusal
  | AckAdmitted jstr admission_outcome resolver_pin

definition IDENTITY_LOG_PUSH_FORMAT :: jstr where "IDENTITY_LOG_PUSH_FORMAT = js ''dtp-identity-log-push-1''"

definition read_push ::
  "(byte list \<Rightarrow> byte list \<Rightarrow> byte list \<Rightarrow> bool) \<Rightarrow> (byte list \<Rightarrow> jstr) \<Rightarrow> (jstr \<Rightarrow> jstr option) \<Rightarrow> jval \<Rightarrow> bool \<Rightarrow>
   log_refusal + verified_log \<times> jval" where
  "read_push V H U message require_attestation =
     ebind (control_step (copyIdentityData message)) (\<lambda>m.
     ebind (needs [(closed_object [''format'', ''log''] m, NotClosed),
         (ev m ''format'' = JStr IDENTITY_LOG_PUSH_FORMAT, UnsupportedFormat)]) (\<lambda>_.
     ebind (verifyIdentityLog V H U require_attestation (ev m ''log'')) (\<lambda>v. Inr (v, ev m ''log''))))"

definition receiveIdentityLogPush ::
  "(byte list \<Rightarrow> byte list \<Rightarrow> byte list \<Rightarrow> bool) \<Rightarrow> (byte list \<Rightarrow> jstr) \<Rightarrow> (jstr \<Rightarrow> jstr option) \<Rightarrow> jval \<Rightarrow>
   (jstr \<Rightarrow> pinned_history option) \<Rightarrow> bool \<Rightarrow> log_refusal + push_ack \<times> admission option" where
  "receiveIdentityLogPush V H U message lookup require_attestation =
     (case read_push V H U message require_attestation of
        Inl _ \<Rightarrow> Inr (AckRefused None InvalidLog, None)
      | Inr (v, log) \<Rightarrow>
          (case lookup (vl_identity v) of
             None \<Rightarrow> Inr (AckRefused (Some (vl_identity v)) UnknownIdentity, None)
           | Some held \<Rightarrow>
               ebind (checkPin (ph_pin held)) (\<lambda>_.
               ebind (case ph_log held of None \<Rightarrow> Inr None
                 | Some l \<Rightarrow> ebind (pinnedHistory V H U (ph_pin held) l) (\<lambda>p. Inr (Some p))) (\<lambda>pinned.
               ebind (refusedMove V H log (ph_refusals held)) (\<lambda>refused.
               ebind (judgeVerified (ph_pin held) v pinned refused) (\<lambda>judged.
               case judged of
                 Inl reason \<Rightarrow> Inr (AckRefused (Some (vl_identity v)) reason, None)
               | Inr admission \<Rightarrow>
                   Inr (AckAdmitted (vl_identity v) (ad_outcome admission) (ad_pin admission), Some admission)))))))"

definition IDENTITY_LOG_PUSH_ACK_FORMAT :: jstr where "IDENTITY_LOG_PUSH_ACK_FORMAT = js ''dtp-identity-log-push-ack-1''"

fun refusal_text :: "admission_refusal \<Rightarrow> jstr" where
  "refusal_text InvalidLog = js ''invalid-log''"
| "refusal_text AnotherIdentity = js ''another-identity''"
| "refusal_text UnknownIdentity = js ''unknown-identity''"
| "refusal_text ForeignLineage = js ''foreign-lineage''"
| "refusal_text Behind = js ''behind''"
| "refusal_text ConflictingHistory = js ''conflict''"
| "refusal_text UnadoptedMove = js ''unadopted-move''"
| "refusal_text RefusedMove = js ''refused-move''"

fun outcome_text :: "admission_outcome \<Rightarrow> jstr" where
  "outcome_text Unchanged = js ''unchanged''"
| "outcome_text Advanced = js ''advanced''"
| "outcome_text Superseded = js ''superseded''"

fun ack_value :: "push_ack \<Rightarrow> jval" where
  "ack_value (AckRefused i reason) = JObj
     [(js ''format'', JStr IDENTITY_LOG_PUSH_ACK_FORMAT), (js ''identity_id'', opt_text i), (js ''outcome'', JStr (js ''refused'')),
      (js ''reason'', JStr (refusal_text reason)), (js ''binding'', JNull)]"
| "ack_value (AckAdmitted i outcome p) = JObj
     [(js ''format'', JStr IDENTITY_LOG_PUSH_ACK_FORMAT), (js ''identity_id'', JStr i), (js ''outcome'', JStr (outcome_text outcome)),
      (js ''reason'', JNull),
      (js ''binding'', JObj [(js ''resolver_id'', JStr (pi_resolver p)), (js ''resolver_epoch'', jint (pi_epoch p)),
        (js ''sequence'', jint (pi_sequence p)), (js ''head_digest'', opt_text (pi_digest p))])]"

text \<open>The wallet's check of an answer.\<close>

definition is_text :: "jval \<Rightarrow> bool" where
  "is_text v \<longleftrightarrow> str_of v \<noteq> None"

definition parseIdentityLogPushAck :: "jval \<Rightarrow> log_refusal + jval" where
  "parseIdentityLogPushAck value =
     ebind (control_step (copyIdentityData value)) (\<lambda>a.
     let refused = (ev a ''outcome'' = JStr (js ''refused'')); bound = ev a ''binding'' in
     ebind (needs [(closed_object [''format'', ''identity_id'', ''outcome'', ''reason'', ''binding''] a, NotClosed),
         (ev a ''format'' = JStr IDENTITY_LOG_PUSH_ACK_FORMAT, UnsupportedFormat),
         (ev a ''identity_id'' = JNull \<or> is_text (ev a ''identity_id''), BadAck),
         (ev a ''outcome'' \<in> set (map (JStr \<circ> js) [''unchanged'', ''advanced'', ''superseded'', ''refused'']), BadAck),
         (ev a ''reason'' = JNull \<or> ev a ''reason'' \<in> set (map (JStr \<circ> js) [''invalid-log'', ''another-identity'', ''unknown-identity'',
            ''foreign-lineage'', ''behind'', ''conflict'', ''unadopted-move'', ''refused-move'']), BadAck),
         (refused = (ev a ''reason'' \<noteq> JNull) \<and> refused = (bound = JNull), BadAck)]) (\<lambda>_.
     ebind (needs (if bound = JNull then []
         else [(closed_object [''resolver_id'', ''resolver_epoch'', ''sequence'', ''head_digest''] bound, NotClosed),
           (is_text (ev bound ''resolver_id'') \<and> instant (ev bound ''resolver_epoch'') \<noteq> None \<and> instant (ev bound ''sequence'') \<noteq> None \<and>
              hex64_text (ev bound ''head_digest''), BadAck)])) (\<lambda>_.
     Inr a)))"

subsection \<open>The host that builds a log, and the destination's refusal against one\<close>

definition attestHead ::
  "(byte list \<Rightarrow> jstr) \<Rightarrow> (byte list \<Rightarrow> byte list \<Rightarrow> byte list) \<Rightarrow> control \<Rightarrow> jstr \<Rightarrow> int \<Rightarrow> jstr \<times> jstr \<Rightarrow> log_refusal + jval" where
  "attestHead H ed25519_sign head resolver epoch key =
     ebind (control_step (copyIdentityData (control_value head))) (\<lambda>_.
     ebind (control_step (digest_of H (control_value head))) (\<lambda>head_digest.
     control_step (signIdentity ed25519_sign HEAD_ATTESTATION_DOMAIN (attestation_value head head_digest resolver epoch) [key])))"

text \<open>The entry of position n, attested when the key resolved its epoch and the entry lacks an attestation.\<close>

definition attest_entry ::
  "(byte list \<Rightarrow> jstr) \<Rightarrow> (byte list \<Rightarrow> byte list \<Rightarrow> byte list) \<Rightarrow> verified_log \<Rightarrow> jstr \<times> jstr \<Rightarrow> nat \<times> jval \<Rightarrow> log_refusal + jval" where
  "attest_entry H sg v key ne =
     (case ne of (n, e) \<Rightarrow>
        let h = vl_heads v ! n; r = vl_resolvers v ! nat (vh_epoch h) in
        if ev e ''attestation'' = JNull \<and> rb_key r = fst key
        then ebind (attestHead H sg (vh_head h) (rb_id r) (rb_epoch r) key) (\<lambda>a.
          Inr (JObj (map (\<lambda>(k, x). (k, if k = js ''attestation'' then a else x)) (case object_of e of None \<Rightarrow> [] | Some kvs \<Rightarrow> kvs))))
        else Inr e)"

definition buildIdentityLog ::
  "(byte list \<Rightarrow> byte list \<Rightarrow> byte list \<Rightarrow> bool) \<Rightarrow> (byte list \<Rightarrow> jstr) \<Rightarrow> (jstr \<Rightarrow> jstr option) \<Rightarrow>
   (byte list \<Rightarrow> byte list \<Rightarrow> byte list) \<Rightarrow> jval \<Rightarrow> (jstr \<times> jstr) option \<Rightarrow> log_refusal + jval" where
  "buildIdentityLog V H U ed25519_sign parts resolverKey =
     ebind (copyLog (JObj [(js ''format'', JStr IDENTITY_LOG_FORMAT), (js ''genesis'', ev parts ''genesis''),
       (js ''enrollment'', ev parts ''enrollment''), (js ''entries'', ev parts ''entries'')])) (\<lambda>log.
     ebind (verifyIdentityLog V H U False log) (\<lambda>verified.
     case resolverKey of
       None \<Rightarrow> Inr log
     | Some key \<Rightarrow>
         ebind (needs [(list_ex (\<lambda>r. rb_key r = fst key) (vl_resolvers verified), NotEnrolled)]) (\<lambda>_.
         ebind (require NotBounded (array_of (ev log ''entries''))) (\<lambda>entries.
         ebind (traverse (attest_entry H ed25519_sign verified key) (List.enumerate 0 entries)) (\<lambda>entries'.
         let log' = JObj [(js ''format'', ev log ''format''), (js ''genesis'', ev log ''genesis''),
           (js ''enrollment'', ev log ''enrollment''), (js ''entries'', JArr entries')] in
         ebind (verifyIdentityLog V H U False log') (\<lambda>again.
         ebind (needs [(list_all (\<lambda>n. rb_key (vl_resolvers again ! nat (vh_epoch (vl_heads again ! n))) \<noteq> fst key) (vl_unattested again),
           Incomplete)]) (\<lambda>_.
         Inr log')))))))"

datatype refusal_comparison = Unrelated | DanglingConsent | Equivocation

fun compare_from ::
  "(byte list \<Rightarrow> byte list \<Rightarrow> byte list \<Rightarrow> bool) \<Rightarrow> (byte list \<Rightarrow> jstr) \<Rightarrow> jval \<Rightarrow> verified_head list \<Rightarrow> jval list \<Rightarrow>
   log_refusal + refusal_comparison" where
  "compare_from V H refusal (h # hs) (e # es) =
     (if ev e ''rehome'' = JNull then compare_from V H refusal hs es
      else
        case verifyRehomeRefusal V H refusal (ev e ''rehome'') of
          Inl _ \<Rightarrow> compare_from V H refusal hs es
        | Inr b \<Rightarrow>
            ebind (needs [(opt_text (co_previous (vh_head h)) = ev b ''rehome_digest'', UncommittedRehome)]) (\<lambda>_.
            Inr (if vh_attested h then Equivocation else DanglingConsent)))"
| "compare_from V H refusal _ _ = Inr Unrelated"

definition compareRehomeRefusal ::
  "(byte list \<Rightarrow> byte list \<Rightarrow> byte list \<Rightarrow> bool) \<Rightarrow> (byte list \<Rightarrow> jstr) \<Rightarrow> (jstr \<Rightarrow> jstr option) \<Rightarrow> jval \<Rightarrow> jval \<Rightarrow>
   log_refusal + refusal_comparison" where
  "compareRehomeRefusal V H U refusal log =
     ebind (verifyIdentityLog V H U False log) (\<lambda>v.
     ebind (copyLog log) (\<lambda>copy.
     ebind (require NotBounded (array_of (ev copy ''entries''))) (\<lambda>entries.
     compare_from V H refusal (tl (vl_heads v)) (tl entries))))"


subsection \<open>The lost instant of a genesis head\<close>

text \<open>
  The instants of the enrollment window, tried in order.  The member \<open>effective_at\<close> comes first in the canonical text of
  a head, so only the number after \<open>lead\<close> varies.
\<close>

definition lead_text :: jstr where "lead_text = js ''{\"effective_at\":''"

fun first_instant :: "jstr \<Rightarrow> jstr \<Rightarrow> int list \<Rightarrow> log_refusal + int option" where
  "first_instant rest expected [] = Inr None"
| "first_instant rest expected (at # ats) =
     ebind (map_err NotHashed (sha256HexSync (utf8_encode (lead_text @ int_str at @ rest)))) (\<lambda>h.
     if h = expected then Inr (Some at) else first_instant rest expected ats)"

definition recoverGenesisInstant ::
  "(byte list \<Rightarrow> byte list \<Rightarrow> byte list \<Rightarrow> bool) \<Rightarrow> (byte list \<Rightarrow> jstr) \<Rightarrow> jval \<Rightarrow> jval \<Rightarrow> jstr \<Rightarrow> log_refusal + int option" where
  "recoverGenesisInstant V H genesis enrollment expectedDigest =
     ebind (control_step (copyIdentityData genesis)) (\<lambda>genesis.
     ebind (control_step (copyIdentityData enrollment)) (\<lambda>enrollment.
     let b = ev enrollment ''body'' in
     ebind (needs [(closed_object [''body'', ''signatures''] enrollment, NotClosed)]) (\<lambda>_.
     case (instant (ev b ''issued_at''), instant (ev b ''expires_at'')) of
       (Some issued, Some expires) \<Rightarrow>
         ebind (needs [(expires - issued \<le> 300000, BadEnrollmentWindow), (hex64 expectedDigest, BadDigestText)]) (\<lambda>_.
         ebind (control_step (createIdentity V H genesis (enrolled_resolver enrollment) issued)) (\<lambda>s.
         ebind (control_step (map_err NotCanonical (canonicalize (control_value ((st_head s)\<lparr>co_effective := 0\<rparr>))))) (\<lambda>text.
         let prefix = lead_text @ js ''0,'' in
         ebind (needs [(take (length prefix) text = prefix, UnexpectedHead)]) (\<lambda>_.
         first_instant (drop (length lead_text + 1) text) expectedDigest [issued..expires - 1]))))
     | _ \<Rightarrow> Inl BadEnrollmentWindow)))"

end
