(* ===== verification/LogAdmissionRules.thy ===== *)
theory LogAdmissionRules
  imports LogAdmission
begin

text \<open>What a relying party can trust: its pin never goes back, a fork is ranked one way only, and admission is idempotent.\<close>

subsection \<open>Precedence\<close>

fun mirror :: "ranking \<Rightarrow> ranking" where
  "mirror AExtendsB = BExtendsA"
| "mirror BExtendsA = AExtendsB"
| "mirror ASupersedesB = BSupersedesA"
| "mirror BSupersedesA = ASupersedesB"
| "mirror r = r"

lemma first_difference_sym: "first_difference bs as i = first_difference as bs i"
  by (induction as bs i rule: first_difference.induct) auto

text \<open>
  The ranking of two histories does not depend on which one is called first: the other order gives the mirrored answer,
  so two parties that hold the same two histories agree on which of them stands.
\<close>
theorem precedence_mirrored: "precedence b a = map_sum id mirror (precedence a b)"
proof (cases "vl_identity a = vl_identity b \<and> st_genesis_digest (vl_state a) = st_genesis_digest (vl_state b)")
  case True
  show ?thesis
  proof (cases "first_difference (vl_heads a) (vl_heads b) 0")
    case None
    then show ?thesis using True by (simp add: precedence_def first_difference_sym [of "vl_heads a"])
  next
    case (Some i)
    have "vl_epoch a < vl_epoch b \<or> vl_epoch a = vl_epoch b \<or> vl_epoch b < vl_epoch a" by linarith
    then show ?thesis using True Some by (auto simp: precedence_def first_difference_sym [of "vl_heads a"] Let_def)
  qed
qed (auto simp: precedence_def)

lemma first_difference_bound:
  "first_difference as bs i = Some j \<Longrightarrow> i \<le> j \<and> j < i + length as \<and> j < i + length bs \<and>
     vh_digest (as ! (j - i)) \<noteq> vh_digest (bs ! (j - i)) \<and> (\<forall>k < j - i. vh_digest (as ! k) = vh_digest (bs ! k))"
proof (induction as bs i arbitrary: j rule: first_difference.induct)
  case (1 a as b bs i)
  show ?case
  proof (cases "vh_digest a = vh_digest b")
    case True
    then have IH: "Suc i \<le> j \<and> j < Suc i + length as \<and> j < Suc i + length bs \<and>
        vh_digest (as ! (j - Suc i)) \<noteq> vh_digest (bs ! (j - Suc i)) \<and> (\<forall>k < j - Suc i. vh_digest (as ! k) = vh_digest (bs ! k))"
      using 1 by simp
    then obtain d where "j - i = Suc d" "j - Suc i = d" by (metis Suc_diff_Suc Suc_le_lessD)
    then show ?thesis using IH True by (auto simp: nth_Cons split: nat.splits)
  qed (use 1 in auto)
qed auto

lemma first_difference_None:
  "first_difference as bs i = None \<Longrightarrow> k < length as \<Longrightarrow> k < length bs \<Longrightarrow> vh_digest (as ! k) = vh_digest (bs ! k)"
proof (induction as bs i arbitrary: k rule: first_difference.induct)
  case (1 a as b bs i)
  then show ?case by (cases k) (auto split: if_splits)
qed auto

subsection \<open>Admission\<close>

lemma vl_epoch_eq: "walk_ok V H v \<Longrightarrow> vl_epoch v = int (length (vl_resolvers v) - 1) \<and> st_epoch (vl_state v) = vl_epoch v"
  using epochs_last [of "vl_resolvers v"] by (auto simp: walk_ok_def vl_epoch_def vl_resolver_def)

lemma resolver_epochs: "walk_ok V H v \<Longrightarrow> r \<in> set (vl_resolvers v) \<Longrightarrow> 0 \<le> rb_epoch r \<and> rb_epoch r \<le> vl_epoch v"
proof -
  assume w: "walk_ok V H v" and r: "r \<in> set (vl_resolvers v)"
  then have "rb_epoch r \<in> set (map int [0..<length (vl_resolvers v)])"
    unfolding walk_ok_def by (metis image_eqI set_map)
  then show ?thesis using vl_epoch_eq [OF w] by auto
qed

lemma last_head_sequence:
  assumes "walk_ok V H v" "at_head v"
  shows "co_sequence (vl_head v) = int (length (vl_heads v) - 1) \<and> vh_digest (last (vl_heads v)) = vl_head_digest v \<and> vl_heads v \<noteq> []"
proof -
  have m: "map (\<lambda>h. co_sequence (vh_head h)) (vl_heads v) = map int [0..<length (vl_heads v)]" "vl_heads v \<noteq> []"
    using assms by (auto simp: walk_ok_def at_head_def)
  have "co_sequence (vh_head (last (vl_heads v))) = int (length (vl_heads v) - 1)"
    using arg_cong [OF m(1), of last] m(2) by (simp add: last_map)
  then show ?thesis using assms(2) by (auto simp: at_head_def head_of_def vl_head_def vl_head_digest_def)
qed

lemma judge_admits:
  assumes "judgeVerified pin v pinned refused = Inr (Inr ad)"
  obtains r where "vl_identity v = pi_identity pin" "\<not> refused" "r \<in> set (vl_resolvers v)" "rb_epoch r = pi_epoch pin" "rb_id r = pi_resolver pin" "rb_key r = pi_key pin"
    "pi_sequence pin \<le> co_sequence (vl_head v)" "\<not> unadopted (pi_epoch pin) (vl_heads v)" "ad_pin ad = pin_of v"
    "\<And>p. pinned = Some p \<Longrightarrow> precedence v p \<noteq> Inr Forked \<and> is_ok (precedence v p)"
    "ad_outcome ad = Superseded \<and> pi_epoch pin < vl_epoch v \<and> pinned \<noteq> None \<and>
        (\<exists>d. pi_digest pin = Some d \<and> compareCheckpoint v (pi_sequence pin) d = Inr Conflict) \<or>
      ad_outcome ad \<noteq> Superseded \<and> (\<forall>d. pi_digest pin = Some d \<longrightarrow> (\<exists>c. compareCheckpoint v (pi_sequence pin) d = Inr c \<and> c \<noteq> Conflict))"
proof -
  obtain forked c where j: "vl_identity v = pi_identity pin" "\<not> refused"
      "(case pinned of None \<Rightarrow> Inr False | Some p \<Rightarrow> ebind (precedence v p) (\<lambda>r. Inr (r = Forked))) = Inr forked" "\<not> forked"
      "\<not> (case find (\<lambda>r. rb_epoch r = pi_epoch pin) (vl_resolvers v) of
            None \<Rightarrow> True | Some r \<Rightarrow> rb_id r \<noteq> pi_resolver pin \<or> rb_key r \<noteq> pi_key pin)"
      "pi_sequence pin \<le> co_sequence (vl_head v)" "\<not> unadopted (pi_epoch pin) (vl_heads v)"
      "(case pi_digest pin of None \<Rightarrow> Inr Consistent | Some d \<Rightarrow> compareCheckpoint v (pi_sequence pin) d) = Inr c"
      "(if c = Conflict then
            if vl_epoch v \<le> pi_epoch pin \<or> pinned = None then Inr (Inl ConflictingHistory)
            else Inr (Inr \<lparr>ad_outcome = Superseded, ad_pin = pin_of v,
              ad_superseded = map_option (Pair (pi_sequence pin)) (pi_digest pin)\<rparr>)
          else
            Inr (Inr \<lparr>ad_outcome = (if co_sequence (vl_head v) = pi_sequence pin \<and> vl_epoch v = pi_epoch pin then Unchanged else Advanced),
              ad_pin = pin_of v, ad_superseded = None\<rparr>)) = (Inr (Inr ad) :: log_refusal + (admission_refusal + admission))"
    using assms by (auto simp: judgeVerified_def ebind_ok not_less split: if_splits)
  obtain r where r: "find (\<lambda>r. rb_epoch r = pi_epoch pin) (vl_resolvers v) = Some r" using j(5) by (auto split: option.splits)
  have "r \<in> set (vl_resolvers v)" "rb_epoch r = pi_epoch pin" "rb_id r = pi_resolver pin" "rb_key r = pi_key pin"
    using find_Some_iff [THEN iffD1, OF r] j(5) unfolding r by auto
  moreover have "precedence v p \<noteq> Inr Forked \<and> is_ok (precedence v p)" if "pinned = Some p" for p
    using j(3,4) that by (auto simp: ebind_ok is_ok_iff)
  moreover have "ad_pin ad = pin_of v" using j(9) by (auto split: if_splits)
  moreover have "ad_outcome ad = Superseded \<and> pi_epoch pin < vl_epoch v \<and> pinned \<noteq> None \<and>
        (\<exists>d. pi_digest pin = Some d \<and> compareCheckpoint v (pi_sequence pin) d = Inr Conflict) \<or>
      ad_outcome ad \<noteq> Superseded \<and> (\<forall>d. pi_digest pin = Some d \<longrightarrow> (\<exists>c. compareCheckpoint v (pi_sequence pin) d = Inr c \<and> c \<noteq> Conflict))"
    using j(8,9) by (auto split: if_splits option.splits)
  ultimately show thesis using that j(1,2,6,7) by blast
qed


lemma compare_not_behind:
  assumes "walk_ok V H v" "at_head v" "pi_sequence pin \<le> co_sequence (vl_head v)"
    and "compareCheckpoint v (pi_sequence pin) d = Inr c"
  shows "nat (pi_sequence pin) < length (vl_heads v) \<and> c \<noteq> LogBehind \<and>
    (c = Consistent \<longleftrightarrow> vh_digest (vl_heads v ! nat (pi_sequence pin)) = d) \<and> 0 \<le> pi_sequence pin"
proof -
  have "co_sequence (vl_head v) < int (length (vl_heads v))" using last_head_sequence [OF assms(1,2)] by auto
  then show ?thesis using assms(3,4) by (auto simp: compareCheckpoint_def split: if_splits)
qed

lemma conflict_supersedes:
  assumes v: "walk_ok V H v" "at_head v" and p: "walk_ok V H p" "at_head p"
    and ends: "ends_at_pin pin p" and seq: "pi_sequence pin \<le> co_sequence (vl_head v)" and digest: "pi_digest pin = Some d"
    and conflict: "compareCheckpoint v (pi_sequence pin) d = Inr Conflict"
    and higher: "pi_epoch pin < vl_epoch v" and ranked: "is_ok (precedence v p)" "precedence v p \<noteq> Inr Forked"
  shows "precedence v p = Inr ASupersedesB"
proof -
  let ?n = "nat (pi_sequence pin)"
  have n: "?n < length (vl_heads v)" "vh_digest (vl_heads v ! ?n) \<noteq> d"
    using compare_not_behind [OF v seq conflict] by auto
  have "vl_heads p \<noteq> []" "?n = length (vl_heads p) - 1" "d = vh_digest (last (vl_heads p))"
    using last_head_sequence [OF p] ends digest by (auto simp: ends_at_pin_def)
  then have "?n < length (vl_heads p)" "vh_digest (vl_heads p ! ?n) = d" by (auto simp: last_conv_nth)
  then obtain i where "first_difference (vl_heads v) (vl_heads p) 0 = Some i"
    using n first_difference_None [of "vl_heads v" "vl_heads p" 0 ?n] by (cases "first_difference (vl_heads v) (vl_heads p) 0") auto
  moreover have "vl_epoch p < vl_epoch v" using higher ends by (simp add: ends_at_pin_def)
  ultimately show ?thesis using ranked by (auto simp: precedence_def Let_def is_ok_iff split: if_splits)
qed

subsection \<open>Pins of verified logs\<close>

definition pin_sound :: "identity_state \<Rightarrow> bool" where
  "pin_sound s \<longleftrightarrow> hex64 (st_genesis_digest s) \<and> co_identity (st_head s) = identity_id_of (st_genesis_digest s) \<and>
     isUuid (st_resolver s) \<and> key_text (st_resolver_key s) \<and> safe_int (st_epoch s)"

lemma create_pin_sound: "createIdentity V H doc r now = Inr s \<Longrightarrow> \<forall>b. hex64 (H b) \<Longrightarrow> pin_sound s"
  using create_sound [of V H doc r now s] create_facts [of V H doc r now s] by (simp add: pin_sound_def state_sound_def)

lemma rehome_pin_sound:
  assumes "rehomeIdentity V H U s doc now = Inr s'" "identity_ok H s" "pin_sound s"
  shows "pin_sound s'"
proof -
  let ?to = "ev (ev doc ''body'') ''to''"
  have t: "uuid_text (ev ?to ''resolver_id'')" "is_int (ev ?to ''resolver_epoch'') (st_epoch s + 1)" "safe_integer (ev ?to ''resolver_epoch'') \<noteq> None"
      "is_ok (check_key (ev ?to ''resolver_key''))"
    using assms(1) by (auto simp: rehomeIdentity_def Let_def ok_iff is_ok_iff)
  have "safe_int (st_epoch s + 1)"
    using t(2,3) max_safe_pos by (auto simp: is_int_def jint_def safe_int_def elim!: strict_eq.elims split: if_splits)
  then show ?thesis
    using t rehome_facts [OF assms(1,2)] assms(3) by (auto simp: pin_sound_def uuid_text_def key_text_def is_ok_iff check_key_ok)
qed

lemma replay_command_pin_sound:
  assumes "replay_command V H U v n e = Inr (s', rs)" "identity_ok H (vl_state v)" "pin_sound (vl_state v)"
  shows "pin_sound s'"
proof (cases "en_transition e = JNull")
  case False
  then obtain w doc t where "transitionIdentity V H w doc t = Inr s'" "same_control (vl_state v) w" "identity_ok H w"
    using assms(1,2) by (fastforce simp: replay_command_def replay_transition_def Let_def ok_iff if_Inl_ok same_control_iff
        transition_same_witness split: if_splits)
  then show ?thesis using transition_facts assms(3) by (auto simp: pin_sound_def same_control_iff)
next
  case True
  then obtain w doc t where "rehomeIdentity V H U w doc t = Inr s'" "same_control (vl_state v) w" "identity_ok H w"
    using assms(1,2) by (fastforce simp: replay_command_def replay_rehome_def Let_def ok_iff if_Inl_ok same_control_iff
        transition_same_witness split: if_splits)
  then show ?thesis using rehome_pin_sound assms(3) by (auto simp: pin_sound_def same_control_iff)
qed

lemma replay_entries_pin_sound:
  "replay_entries V H U strict v n es = Inr v' \<Longrightarrow> walk_ok V H v \<Longrightarrow> at_head v \<Longrightarrow> n = length (vl_heads v) \<Longrightarrow>
     pin_sound (vl_state v) \<Longrightarrow> pin_sound (vl_state v')"
proof (induction es arbitrary: v n)
  case (Cons e es)
  obtain s' rs w where w: "replay_command V H U v n e = Inr (s', rs)"
      "note_head V strict (v\<lparr>vl_state := s', vl_resolvers := rs\<rparr>) n e = Inr w" "replay_entries V H U strict w (Suc n) es = Inr v'"
    using Cons.prems(1) by (auto simp: ok_iff)
  note c = replay_command_facts [OF w(1) Cons.prems(2,3)]
  have "walk_ok V H w \<and> at_head w \<and> vl_state w = s' \<and> length (vl_heads w) = Suc (length (vl_heads v))"
    using note_head_facts [OF w(2), of H] c Cons.prems(4) by auto
  moreover have "pin_sound s'" using replay_command_pin_sound [OF w(1)] Cons.prems(2,5) by (simp add: walk_ok_def)
  ultimately show ?case using Cons.IH [OF w(3)] Cons.prems(4) by simp
qed simp

lemma verified_log_pin_sound:
  assumes "verifyIdentityLog V H U strict input = Inr v" "\<forall>b. hex64 (H b)"
  shows "pin_sound (vl_state v) \<and> length (vl_heads v) \<le> MAX_LOG_ENTRIES \<and> hex64 (vl_head_digest v)"
proof -
  obtain raw entries legacy v0 v1 where e: "length raw \<le> MAX_LOG_ENTRIES" "ev input ''entries'' = JArr raw"
      "replay_genesis V H U (ev input ''genesis'') (ev input ''enrollment'') (en_effective (hd entries)) = Inr v0"
      "note_head V strict v0 0 (hd entries) = Inr v1" "replay_entries V H U strict v1 1 (tl entries) = Inr v"
    using assms(1) by (auto simp: verifyIdentityLog_def verify_parts_def bounded_list_def Let_def ok_iff if_Inl_ok dest!: copy_id split: option.splits if_splits)
  note g = replay_genesis_facts [OF e(3)]
  have "pin_sound (vl_state v0)"
    using e(3) create_pin_sound assms(2) by (auto simp: replay_genesis_def Let_def ok_iff)
  moreover have "walk_ok V H v1 \<and> at_head v1 \<and> vl_state v1 = vl_state v0 \<and> length (vl_heads v1) = 1"
    using note_head_facts [OF e(4), of H] g by auto
  ultimately have "pin_sound (vl_state v)" using replay_entries_pin_sound [OF e(5)] by simp
  moreover have "hex64 (vl_head_digest v)" 
  proof -
    have "digest_of H (control_value (st_head (vl_state v))) = Inr (st_head_digest (vl_state v))"
      using verify_log_facts [OF assms(1)] by (simp add: walk_ok_def identity_ok_def)
    from digest_of_hash [OF this] show ?thesis using assms(2) by (auto simp: vl_head_digest_def)
  qed
  ultimately show ?thesis using verify_log_facts [OF assms(1)] e(1,2) by auto
qed

lemma verified_pin_facts:
  assumes "verifyIdentityLog V H U strict log = Inr v" "\<forall>b. hex64 (H b)"
  shows "clean (vl_identity v) \<and> length (vl_identity v) \<le> 36 \<and> clean (rb_id (vl_resolver v)) \<and> length (rb_id (vl_resolver v)) = 36 \<and>
    clean (rb_key (vl_resolver v)) \<and> length (rb_key (vl_resolver v)) \<le> 64 \<and> 0 \<le> vl_epoch v \<and> vl_epoch v \<le> MAX_SAFE \<and>
    0 \<le> co_sequence (vl_head v) \<and> co_sequence (vl_head v) \<le> 4096 \<and>
    hex64 (vl_head_digest v) \<and> clean (vl_head_digest v) \<and> length (vl_head_digest v) = 64"
proof -
  note s = verified_log_pin_sound [OF assms] and w = verify_log_facts [OF assms(1)]
  have "clean (vl_identity v) \<and> length (vl_identity v) \<le> 36"
    using s clean_identity_id clean_hex64 by (auto simp: pin_sound_def vl_identity_def)
  moreover have p: "isUuid (st_resolver (vl_state v))" "key_text (st_resolver_key (vl_state v))" "safe_int (st_epoch (vl_state v))"
    using s by (simp_all add: pin_sound_def)
  moreover have "vl_epoch v = int (length (vl_resolvers v) - 1)" "st_epoch (vl_state v) = vl_epoch v"
      "rb_id (vl_resolver v) = st_resolver (vl_state v)" "rb_key (vl_resolver v) = st_resolver_key (vl_state v)"
    using vl_epoch_eq [of V H v] w by (auto simp: walk_ok_def)
  moreover have "0 \<le> co_sequence (vl_head v) \<and> co_sequence (vl_head v) \<le> 4096"
    using last_head_sequence [of V H v] w s by (auto simp: MAX_LOG_ENTRIES_def)
  ultimately show ?thesis
    using s clean_uuid [OF p(1)] clean_key [OF p(2)] clean_hex64 by (auto simp: safe_int_def)
qed

lemma pin_of_checks:
  assumes "verifyIdentityLog V H U strict log = Inr v" "\<forall>b. hex64 (H b)"
  shows "checkPin (pin_of v) = Inr ()"
proof -
  note f = verified_pin_facts [OF assms]
  have "copyIdentityData (pin_value (pin_of v)) = Inr (pin_value (pin_of v))"
    by (rule copy_ok) (use f in \<open>simp_all add: pin_value_def pin_of_def jint_def opt_text_def FORBIDDEN_NAMES_def MAX_SAFE_def\<close>)
  then show ?thesis using f by (simp add: checkPin_def control_step_def needs.simps pin_of_def MAX_SAFE_def)
qed

subsection \<open>Repeated admission\<close>

lemma note_head_lenient: "note_head V strict v n e = Inr v' \<Longrightarrow> note_head V False v n e = Inr v'"
  by (auto simp: note_head_def Let_def ok_iff split: if_splits)

lemma replay_entries_lenient: "replay_entries V H U strict v n es = Inr v' \<Longrightarrow> replay_entries V H U False v n es = Inr v'"
proof (induction es arbitrary: v n)
  case (Cons e es)
  obtain s' rs w where w: "replay_command V H U v n e = Inr (s', rs)"
      "note_head V strict (v\<lparr>vl_state := s', vl_resolvers := rs\<rparr>) n e = Inr w" "replay_entries V H U strict w (Suc n) es = Inr v'"
    using Cons.prems(1) by (auto simp: ok_iff)
  then show ?case using Cons.IH note_head_lenient by simp
qed simp

lemma verify_lenient: "verifyIdentityLog V H U strict log = Inr v \<Longrightarrow> verifyIdentityLog V H U False log = Inr v"
proof -
  have "verify_parts V H U False g e es = Inr v" if "verify_parts V H U strict g e es = Inr v" for g e es
    using that note_head_lenient replay_entries_lenient unfolding verify_parts_def ebind_ok by blast
  then show "verifyIdentityLog V H U strict log = Inr v \<Longrightarrow> verifyIdentityLog V H U False log = Inr v"
    unfolding verifyIdentityLog_def Let_def ebind_ok by blast
qed

lemma unadopted_past: "\<forall>h \<in> set hs. vh_epoch h \<le> e \<Longrightarrow> \<not> unadopted e hs"
  by (induction e hs rule: unadopted.induct) auto

lemma precedence_refl: "precedence v v = Inr Equal"
proof -
  have "first_difference hs hs i = None" for hs i by (induction hs arbitrary: i) auto
  then show ?thesis by (simp add: precedence_def)
qed

lemma find_resolver:
  assumes "walk_ok V H v"
  shows "find (\<lambda>r. rb_epoch r = vl_epoch v) (vl_resolvers v) = Some (vl_resolver v)"
proof -
  let ?rs = "vl_resolvers v"
  have rs: "map rb_epoch ?rs = map int [0..<length ?rs]" "?rs \<noteq> []" using assms by (auto simp: walk_ok_def)
  have "rb_epoch (?rs ! j) = int j" if "j < length ?rs" for j
    using arg_cong [OF rs(1), of "\<lambda>xs. xs ! j"] that by simp
  then show ?thesis
    using rs(2) vl_epoch_eq [OF assms] by (auto simp: find_Some_iff vl_resolver_def last_conv_nth intro!: exI [of _ "length ?rs - 1"])
qed

lemma judged_again:
  assumes "verifyIdentityLog V H U strict log = Inr v" "\<forall>b. hex64 (H b)" "pinned = None \<or> pinned = Some v"
  shows "judgeVerified (pin_of v) v pinned False = Inr (Inr \<lparr>ad_outcome = Unchanged, ad_pin = pin_of v, ad_superseded = None\<rparr>)"
proof -
  have w: "walk_ok V H v" "at_head v" using verify_log_facts [OF assms(1)] by auto
  note h = last_head_sequence [OF w]
  have "vh_digest (vl_heads v ! (length (vl_heads v) - 1)) = vl_head_digest v" "length (vl_heads v) - 1 < length (vl_heads v)"
    using h by (metis last_conv_nth, simp)
  then have "compareCheckpoint v (int (length (vl_heads v) - 1)) (vl_head_digest v) = Inr Consistent"
    using verified_log_pin_sound [OF assms(1,2)]
    by (simp add: compareCheckpoint_def MAX_LOG_ENTRIES_def MAX_SAFE_def del: of_nat_diff One_nat_def)
  then have "compareCheckpoint v (co_sequence (vl_head v)) (vl_head_digest v) = Inr Consistent" using h by (simp only:)
  moreover have "\<not> unadopted (vl_epoch v) (vl_heads v)"
    using w(1) vl_epoch_eq [OF w(1)] by (intro unadopted_past) (auto simp: walk_ok_def)
  ultimately show ?thesis
    using assms(3) find_resolver [OF w(1)] precedence_refl [of v] by (auto simp: judgeVerified_def pin_of_def)
qed

text \<open>C30. 
  A relying party's pin only goes forward.  Whatever log it admits is for the pinned identity, continues the lineage of
  the pinned resolver, and replaces the pin by one whose epoch and sequence are at least the pinned ones.  Every move
  past the pinned epoch was attested by its destination.  The head at the pinned sequence is the pinned head, unless the
  log reached a higher epoch and supersedes the history that the party holds by the fork-point rule; so without that
  history no conflicting head is ever admitted.
\<close>
theorem admission_never_goes_back:
  assumes "judgeIdentityLog V H U pin log strict pinned refusals = Inr (Inr ad)"
  shows "\<exists>v. verifyIdentityLog V H U strict log = Inr v \<and> ad_pin ad = pin_of v \<and>
    pi_identity (ad_pin ad) = pi_identity pin \<and> pi_epoch pin \<le> pi_epoch (ad_pin ad) \<and> pi_sequence pin \<le> pi_sequence (ad_pin ad) \<and>
    (\<exists>r \<in> set (vl_resolvers v). rb_epoch r = pi_epoch pin \<and> rb_id r = pi_resolver pin \<and> rb_key r = pi_key pin) \<and>
    \<not> unadopted (pi_epoch pin) (vl_heads v) \<and>
    (if ad_outcome ad = Superseded
     then pi_epoch pin < pi_epoch (ad_pin ad) \<and>
       (\<exists>held p. pinned = Some held \<and> pinnedHistory V H U pin held = Inr p \<and> precedence v p = Inr ASupersedesB)
     else \<forall>d. pi_digest pin = Some d \<longrightarrow> vh_digest (vl_heads v ! nat (pi_sequence pin)) = d)"
proof -
  obtain held v refused where j: "verifyIdentityLog V H U strict log = Inr v" "judgeVerified pin v held refused = Inr (Inr ad)"
      and held: "(case pinned of None \<Rightarrow> Inr None | Some l \<Rightarrow> ebind (pinnedHistory V H U pin l) (\<lambda>p. Inr (Some p))) = Inr held"
    using assms by (cases "verifyIdentityLog V H U strict log") (fastforce simp: judgeIdentityLog_def ebind_ok)+
  obtain r where r: "vl_identity v = pi_identity pin" "r \<in> set (vl_resolvers v)" "rb_epoch r = pi_epoch pin"
      "rb_id r = pi_resolver pin" "rb_key r = pi_key pin" "pi_sequence pin \<le> co_sequence (vl_head v)"
      "\<not> unadopted (pi_epoch pin) (vl_heads v)" "ad_pin ad = pin_of v"
      "\<And>p. held = Some p \<Longrightarrow> precedence v p \<noteq> Inr Forked \<and> is_ok (precedence v p)"
      "ad_outcome ad = Superseded \<and> pi_epoch pin < vl_epoch v \<and> held \<noteq> None \<and>
          (\<exists>d. pi_digest pin = Some d \<and> compareCheckpoint v (pi_sequence pin) d = Inr Conflict) \<or>
        ad_outcome ad \<noteq> Superseded \<and> (\<forall>d. pi_digest pin = Some d \<longrightarrow> (\<exists>c. compareCheckpoint v (pi_sequence pin) d = Inr c \<and> c \<noteq> Conflict))"
    by (rule judge_admits [OF j(2)]) blast
  have w: "walk_ok V H v" "at_head v" using verify_log_facts [OF j(1)] by auto
  have forward: "pi_epoch pin \<le> vl_epoch v" using resolver_epochs [OF w(1) r(2)] r(3) by simp
  have rank: "if ad_outcome ad = Superseded
     then pi_epoch pin < vl_epoch v \<and>
       (\<exists>l p. pinned = Some l \<and> pinnedHistory V H U pin l = Inr p \<and> precedence v p = Inr ASupersedesB)
     else \<forall>d. pi_digest pin = Some d \<longrightarrow> vh_digest (vl_heads v ! nat (pi_sequence pin)) = d"
  proof (cases "ad_outcome ad = Superseded")
    case True
    then obtain p d where p: "held = Some p" "pi_epoch pin < vl_epoch v" "pi_digest pin = Some d"
        "compareCheckpoint v (pi_sequence pin) d = Inr Conflict"
      using r(10) by auto
    obtain l where l: "pinned = Some l" "pinnedHistory V H U pin l = Inr p"
      using held p(1) by (cases pinned) (auto simp: ebind_ok)
    then have "ends_at_pin pin p" "verifyIdentityLog V H U False l = Inr p"
      by (auto simp: pinnedHistory_def ebind_ok needs_ok)
    then have "precedence v p = Inr ASupersedesB"
      using conflict_supersedes [OF w _ _ _ r(6) p(3,4,2)] verify_log_facts r(9) [OF p(1)] by blast
    then show ?thesis using True p(2) l by simp
  next
    case False
    then show ?thesis using r(10) compare_not_behind [OF w r(6)] by simp (metis checkpoint.exhaust)
  qed
  then show ?thesis using j(1) r forward by (auto simp: pin_of_def)
qed


lemma admission_never_goes_back_witness:
  "\<exists>v. verifyIdentityLog (\<lambda>_ _ _. True) id_hash Some False id_log = Inr v \<and> pi_identity (pin_of id_verified_log) = vl_identity v"
proof -
  have h: "\<forall>b. hex64 (id_hash b)" by (simp add: id_hash_def hex64_def hex_lower_def list_all_iff)
  have "judgeIdentityLog (\<lambda>_ _ _. True) id_hash Some (pin_of id_verified_log) id_log False None [] =
      Inr (Inr \<lparr>ad_outcome = Unchanged, ad_pin = pin_of id_verified_log, ad_superseded = None\<rparr>)"
    using judged_again [OF id_log_verifies h, of None] pin_of_checks [OF id_log_verifies h]
    by (simp add: judgeIdentityLog_def id_log_verifies refusedMove_def needs.simps)
  from admission_never_goes_back [OF this] show ?thesis by (auto simp: pin_of_def)
qed

text \<open>C31. 
  A repeated push is answered the same way.  Once a party has admitted a pushed log and stored the pin (with or without
  the log) in place of the one it held, the same push changes nothing: it is answered \<open>unchanged\<close>, with the binding that
  the party holds.  (SHA-256 prints 64 hexadecimal digits.)
\<close>
theorem repeated_push_is_unchanged:
  assumes "receiveIdentityLogPush V H U message lookup strict = Inr (AckAdmitted i outcome pin, Some ad)" "\<forall>b. hex64 (H b)"
    and "lookup i = Some held" "held' = held\<lparr>ph_pin := ad_pin ad, ph_log := stored\<rparr>" "stored \<in> {None, Some (ev message ''log'')}"
  shows "receiveIdentityLogPush V H U message (lookup(i \<mapsto> held')) strict =
    Inr (AckAdmitted i Unchanged pin, Some \<lparr>ad_outcome = Unchanged, ad_pin = ad_pin ad, ad_superseded = None\<rparr>)"
proof -
  obtain v log where rp: "read_push V H U message strict = Inr (v, log)"
    using assms(1) by (cases "read_push V H U message strict") (auto simp: receiveIdentityLogPush_def)
  obtain h where h: "lookup (vl_identity v) = Some h"
    using assms(1) rp by (cases "lookup (vl_identity v)") (auto simp: receiveIdentityLogPush_def)
  have p: "i = vl_identity v" "pin = ad_pin ad"
      "\<exists>refused pinned. refusedMove V H log (ph_refusals h) = Inr refused \<and> judgeVerified (ph_pin h) v pinned refused = Inr (Inr ad)"
  proof -
    obtain pinned refused judged where j: "refusedMove V H log (ph_refusals h) = Inr refused"
        "judgeVerified (ph_pin h) v pinned refused = Inr judged"
        "(case judged of Inl reason \<Rightarrow> Inr (AckRefused (Some (vl_identity v)) reason, None)
          | Inr admission \<Rightarrow> Inr (AckAdmitted (vl_identity v) (ad_outcome admission) (ad_pin admission), Some admission)) =
        (Inr (AckAdmitted i outcome pin, Some ad) :: log_refusal + push_ack \<times> admission option)"
      using assms(1) rp h unfolding receiveIdentityLogPush_def by (auto simp only: ebind_ok sum.case option.case prod.case)
    then show "i = vl_identity v" "pin = ad_pin ad"
        "\<exists>refused pinned. refusedMove V H log (ph_refusals h) = Inr refused \<and> judgeVerified (ph_pin h) v pinned refused = Inr (Inr ad)"
      by (cases judged; auto)+
  qed
  then obtain pinned refused where r: "refusedMove V H log (ph_refusals held) = Inr refused"
      "judgeVerified (ph_pin held) v pinned refused = Inr (Inr ad)" using h assms(3) by auto
  have ad: "\<not> refused" "ad_pin ad = pin_of v" by (rule judge_admits [OF r(2)], simp)+
  have v: "verifyIdentityLog V H U strict log = Inr v" "log = ev message ''log''"
    using rp by (auto simp: read_push_def ok_iff dest!: copy_id)
  have ends: "pinnedHistory V H U (pin_of v) log = Inr v"
    using verify_lenient [OF v(1)] by (simp add: pinnedHistory_def needs.simps ends_at_pin_def pin_of_def vl_epoch_def)
  obtain again where again: "(case stored of None \<Rightarrow> Inr None | Some l \<Rightarrow> ebind (pinnedHistory V H U (pin_of v) l) (\<lambda>p. Inr (Some p))) = Inr again"
      "again = None \<or> again = Some v"
    using assms(5) ends v(2) by auto
  have "judgeVerified (pin_of v) v again False = Inr (Inr \<lparr>ad_outcome = Unchanged, ad_pin = pin_of v, ad_superseded = None\<rparr>)"
    by (rule judged_again [OF v(1) assms(2) again(2)])
  then show ?thesis
    using p(1,2) rp r(1) ad again(1) assms(4) pin_of_checks [OF v(1) assms(2)]
    by (cases stored) (simp_all add: receiveIdentityLogPush_def)
qed


text \<open>The sample log, pushed to a party that holds its pin.\<close>

definition id_push :: jval where
  "id_push = JObj [(js ''format'', JStr IDENTITY_LOG_PUSH_FORMAT), (js ''log'', id_log)]"

definition id_held :: pinned_history where
  "id_held = \<lparr>ph_pin = pin_of id_verified_log, ph_log = None, ph_refusals = []\<rparr>"

lemma id_hash_hex: "\<forall>b. hex64 (id_hash b)"
  by (simp add: id_hash_def hex64_def hex_lower_def list_all_iff)

lemma id_push_log: "ev id_push ''log'' = id_log"
  by (simp add: id_push_def ev_JObj)

lemma id_push_read: "read_push (\<lambda>_ _ _. True) id_hash Some id_push False = Inr (id_verified_log, id_log)"
proof -
  have "copyIdentityData id_push = Inr id_push"
    by (rule copy_ok; simp add: id_push_def id_log_def id_genesis_eq id_body_def id_enrollment_def id_enrollment_body_def id_entry_def
      id_state_def id_head_def jint_def MAX_SAFE_def FORBIDDEN_NAMES_def id_sig_def id_signature_def clean_id_key id_hash_def
      IDENTITY_LOG_PUSH_FORMAT_def IDENTITY_LOG_FORMAT_def id_set_def key_set_value_def identity_id_of_def clean_unit_def list_all_iff)
  moreover have "ev id_push ''format'' = JStr IDENTITY_LOG_PUSH_FORMAT" "closed_object [''format'', ''log''] id_push"
    by (simp_all add: id_push_def ev_JObj closed_object_def)
  ultimately show ?thesis by (simp add: read_push_def control_step_def needs.simps id_log_verifies id_push_log)
qed

lemma id_push_admitted:
  "receiveIdentityLogPush (\<lambda>_ _ _. True) id_hash Some id_push [vl_identity id_verified_log \<mapsto> id_held] False =
   Inr (AckAdmitted (vl_identity id_verified_log) Unchanged (pin_of id_verified_log),
     Some \<lparr>ad_outcome = Unchanged, ad_pin = pin_of id_verified_log, ad_superseded = None\<rparr>)"
  using judged_again [OF id_log_verifies id_hash_hex, of None] pin_of_checks [OF id_log_verifies id_hash_hex]
  by (simp add: receiveIdentityLogPush_def id_push_read id_held_def refusedMove_def needs.simps)

lemma repeated_push_is_unchanged_witness:
  "receiveIdentityLogPush (\<lambda>_ _ _. True) id_hash Some id_push
     [vl_identity id_verified_log \<mapsto> id_held\<lparr>ph_log := Some id_log\<rparr>] False =
   Inr (AckAdmitted (vl_identity id_verified_log) Unchanged (pin_of id_verified_log),
     Some \<lparr>ad_outcome = Unchanged, ad_pin = pin_of id_verified_log, ad_superseded = None\<rparr>)"
  using repeated_push_is_unchanged [OF id_push_admitted id_hash_hex, of id_held _ "Some id_log"] by (simp add: id_push_log id_held_def)

subsection \<open>Answers\<close>

lemma refused_ack_parses:
  assumes "\<And>t. i = Some t \<Longrightarrow> clean t \<and> length t \<le> 36"
  shows "parseIdentityLogPushAck (ack_value (AckRefused i reason)) = Inr (ack_value (AckRefused i reason))"
proof -
  let ?a = "ack_value (AckRefused i reason)"
  have i: "wire (opt_text i) \<and> fits_copy (Suc 0) (opt_text i) \<and> node_count (opt_text i) = 1 \<and> width (opt_text i) \<le> 40 \<and>
      (opt_text i = JNull \<or> is_text (opt_text i))"
    using assms by (auto simp: opt_text_def is_text_def split: option.splits)
  have "copyIdentityData ?a = Inr ?a"
    by (rule copy_ok; use i in \<open>cases reason; simp add: IDENTITY_LOG_PUSH_ACK_FORMAT_def FORBIDDEN_NAMES_def\<close>)
  then show ?thesis
    using i by (cases reason) (simp_all add: parseIdentityLogPushAck_def control_step_def needs.simps ev_JObj closed_object_def is_text_def)
qed

lemma admitted_ack_parses:
  assumes "verifyIdentityLog V H U strict log = Inr v" "\<forall>b. hex64 (H b)"
  shows "parseIdentityLogPushAck (ack_value (AckAdmitted (vl_identity v) outcome (pin_of v))) =
    Inr (ack_value (AckAdmitted (vl_identity v) outcome (pin_of v)))"
proof -
  let ?a = "ack_value (AckAdmitted (vl_identity v) outcome (pin_of v))"
  note f = verified_pin_facts [OF assms]
  have "copyIdentityData ?a = Inr ?a"
    by (rule copy_ok; use f in \<open>cases outcome; simp add: IDENTITY_LOG_PUSH_ACK_FORMAT_def FORBIDDEN_NAMES_def pin_of_def jint_def opt_text_def MAX_SAFE_def\<close>)
  moreover have "instant (jint (vl_epoch v)) \<noteq> None" "instant (jint (co_sequence (vl_head v))) \<noteq> None"
    using f by (auto simp: instant_def jint_def MAX_SAFE_def)
  ultimately show ?thesis
    using f by (cases outcome) (simp_all add: parseIdentityLogPushAck_def control_step_def needs.simps ev_JObj closed_object_def is_text_def
        pin_of_def opt_text_def hex64_text_def)
qed

lemma lookup_identity:
  assumes "verifyIdentityLog V H U strict log = Inr v" "\<forall>b. hex64 (H b)"
  shows "clean (vl_identity v) \<and> length (vl_identity v) \<le> 36"
  using verified_pin_facts [OF assms] by simp

text \<open>
  Whatever a party answers to a push, the wallet that sent it can read: every answer of \<open>receiveIdentityLogPush\<close>, refused or
  admitted, passes the wallet's check, which returns it unchanged.  (SHA-256 prints 64 hexadecimal digits.)
\<close>
theorem push_answers_parse:
  assumes "receiveIdentityLogPush V H U message lookup strict = Inr (ack, admission)" "\<forall>b. hex64 (H b)"
  shows "parseIdentityLogPushAck (ack_value ack) = Inr (ack_value ack)"
proof (cases "read_push V H U message strict")
  case (Inl e)
  then show ?thesis using assms(1) refused_ack_parses [of None InvalidLog] by (auto simp: receiveIdentityLogPush_def simp del: ack_value.simps)
next
  case (Inr vl)
  obtain v log where vl: "vl = (v, log)" by (cases vl)
  have v: "verifyIdentityLog V H U strict log = Inr v" using Inr vl by (auto simp: read_push_def ok_iff)
  note refused = refused_ack_parses [of "Some (vl_identity v)"] lookup_identity [OF v assms(2)]
  show ?thesis
  proof (cases "lookup (vl_identity v)")
    case None
    then show ?thesis using assms(1) Inr vl refused by (auto simp: receiveIdentityLogPush_def simp del: ack_value.simps)
  next
    case (Some held)
    obtain pinned r judged where j: "judgeVerified (ph_pin held) v pinned r = Inr judged"
        "(case judged of Inl reason \<Rightarrow> Inr (AckRefused (Some (vl_identity v)) reason, None)
          | Inr admission \<Rightarrow> Inr (AckAdmitted (vl_identity v) (ad_outcome admission) (ad_pin admission), Some admission)) =
        (Inr (ack, admission) :: log_refusal + push_ack \<times> admission option)"
      using assms(1) Inr vl Some unfolding receiveIdentityLogPush_def by (auto simp only: ebind_ok sum.case option.case prod.case)
    show ?thesis
    proof (cases judged)
      case (Inl reason)
      then show ?thesis using j(2) refused by (auto simp del: ack_value.simps)
    next
      case (Inr ad)
      then have "ad_pin ad = pin_of v" using j(1) by (auto elim: judge_admits)
      then show ?thesis using j(2) Inr admitted_ack_parses [OF v assms(2)] by (auto simp del: ack_value.simps)
    qed
  qed
qed

lemma push_answers_parse_witness:
  "parseIdentityLogPushAck (ack_value (AckAdmitted (vl_identity id_verified_log) Unchanged (pin_of id_verified_log))) =
   Inr (ack_value (AckAdmitted (vl_identity id_verified_log) Unchanged (pin_of id_verified_log)))"
  by (rule push_answers_parse [OF id_push_admitted id_hash_hex])

subsection \<open>Logs of the older format\<close>

lemma closed_object_other:
  assumes "closed_object names v" "js k \<notin> set (map js names)"
  shows "ev v k = JUndef"
proof -
  obtain kvs where kvs: "v = JObj kvs" "list_all (\<lambda>kv. fst kv \<in> set (map js names)) kvs"
    using assms(1) by (auto simp: closed_object_def split: option.splits)
  then have "js k \<notin> fst ` set kvs" using assms(2) by (auto simp: list_all_iff)
  then have "map_of kvs (js k) = None" by (simp add: map_of_eq_None_iff)
  then show ?thesis using kvs(1) by (simp add: ev_JObj member_def)
qed

lemma legacy_first_entry:
  assumes "verifyIdentityLog V H U strict log = Inr v" "ev log ''format'' = JStr LEGACY_IDENTITY_LOG_FORMAT"
  obtains e es where "copyLog log = Inr (JObj [(js ''format'', ev log ''format''), (js ''genesis'', ev log ''genesis''),
      (js ''enrollment'', ev log ''enrollment''), (js ''entries'', JArr (e # es))])" "ev e ''rehome'' = JUndef"
proof -
  obtain raw entries where r: "ev log ''entries'' = JArr raw" "1 \<le> length raw" "traverse (read_entry True) raw = Inr entries"
      "is_ok (copyIdentityData (ev log ''genesis''))" "is_ok (copyIdentityData (ev log ''enrollment''))"
    using assms by (auto simp: verifyIdentityLog_def bounded_list_def Let_def ok_iff if_Inl_ok is_ok_iff split: option.splits if_splits)
  have all: "list_all (\<lambda>e. copyIdentityData e = Inr e \<and> closed_object [''effective_at'', ''transition'', ''attestation''] e) raw"
  proof -
    have "copyIdentityData e = Inr e \<and> closed_object [''effective_at'', ''transition'', ''attestation''] e"
      if "read_entry True e = Inr x" for e x
      using that by (auto simp: read_entry_def ok_iff dest!: copy_id split: option.splits)
    moreover have "\<exists>x. read_entry True e = Inr x" if "e \<in> set raw" for e
      using r(3) that by (auto simp: traverse_ok_iff list_all2_conv_all_nth in_set_conv_nth)
    ultimately show ?thesis unfolding list_all_iff by blast
  qed
  then have "traverse (\<lambda>e. control_step (copyIdentityData e)) raw = Inr raw"
    by (auto simp: traverse_ok_iff control_step_def list_all_iff list_all2_same)
  moreover obtain e es where "raw = e # es" using r(2) by (cases raw) auto
  moreover have "ev e ''rehome'' = JUndef" if "raw = e # es" for e es
    using all that by (intro closed_object_other [of "[''effective_at'', ''transition'', ''attestation'']"]) auto
  moreover have "copyIdentityData (ev log ''genesis'') = Inr (ev log ''genesis'')"
      "copyIdentityData (ev log ''enrollment'') = Inr (ev log ''enrollment'')"
    using r(4,5) copy_id by (auto simp: is_ok_iff)
  ultimately show thesis using that r(1) by (simp add: copyLog_def control_step_def require_def del: traverse.simps)
qed

text \<open>
  A log of the older format cannot be judged once a party holds any refusal.  An entry of that format has no member
  \<open>rehome\<close>, which the search for refused moves takes for a move and then fails on, so the judgement of a valid log throws,
  whatever the refusals say, where it promises an outcome.
\<close>
theorem legacy_log_breaks_refusals:
  assumes "verifyIdentityLog V H U strict log = Inr v" "ev log ''format'' = JStr LEGACY_IDENTITY_LOG_FORMAT" "refusals \<noteq> []"
  shows "\<exists>e. judgeIdentityLog V H U pin log strict None refusals = Inl e"
proof -
  obtain e es where e: "copyLog log = Inr (JObj [(js ''format'', ev log ''format''), (js ''genesis'', ev log ''genesis''),
      (js ''enrollment'', ev log ''enrollment''), (js ''entries'', JArr (e # es))])" "ev e ''rehome'' = JUndef"
    using legacy_first_entry [OF assms(1,2)] .
  have "rehomeDigest H JUndef = Inl (Control DataRequired)"
    by (simp add: rehomeDigest_def copyIdentityData_def control_step_def)
  then have "\<exists>x. refusedMove V H log refusals = Inl x"
    using e assms(3) by (cases "length refusals \<le> MAX_LOG_ENTRIES") (simp_all add: refusedMove_def ev_JObj require_def Let_def needs.simps)
  then show ?thesis using assms(1) by (cases "checkPin pin") (auto simp: judgeIdentityLog_def)
qed

definition id_legacy_entry :: jval where
  "id_legacy_entry = JObj [(js ''effective_at'', jint 1000), (js ''transition'', JNull), (js ''attestation'', JNull)]"

definition id_legacy_log :: jval where
  "id_legacy_log = JObj [(js ''format'', JStr LEGACY_IDENTITY_LOG_FORMAT), (js ''genesis'', id_genesis), (js ''enrollment'', id_enrollment),
     (js ''entries'', JArr [id_legacy_entry])]"

lemma id_legacy_log_verifies: "verifyIdentityLog (\<lambda>_ _ _. True) id_hash Some False id_legacy_log = Inr id_verified_log"
proof -
  have c: "copyIdentityData id_legacy_entry = Inr id_legacy_entry"
    by (rule copy_ok; simp add: id_legacy_entry_def jint_def MAX_SAFE_def FORBIDDEN_NAMES_def)
  have "closed_object [''effective_at'', ''transition'', ''attestation''] id_legacy_entry" "instant (ev id_legacy_entry ''effective_at'') = Some 1000"
      "ev id_legacy_entry ''transition'' = JNull" "ev id_legacy_entry ''attestation'' = JNull"
    by (simp_all add: id_legacy_entry_def ev_JObj closed_object_def instant_def jint_def MAX_SAFE_def)
  then have "read_entry True id_legacy_entry = Inr \<lparr>en_effective = 1000, en_transition = JNull, en_rehome = JNull, en_attestation = JNull\<rparr>"
    by (simp add: read_entry_def c control_step_def needs.simps)
  moreover have "closed_object [''format'', ''genesis'', ''enrollment'', ''entries''] id_legacy_log"
      "ev id_legacy_log ''format'' = JStr LEGACY_IDENTITY_LOG_FORMAT" "ev id_legacy_log ''genesis'' = id_genesis"
      "ev id_legacy_log ''enrollment'' = id_enrollment" "ev id_legacy_log ''entries'' = JArr [id_legacy_entry]"
    by (simp_all add: id_legacy_log_def ev_JObj closed_object_def)
  ultimately show ?thesis
    using id_log_parts by (simp add: verifyIdentityLog_def bounded_list_def MAX_LOG_ENTRIES_def copy_genesis copy_enrollment control_step_def needs.simps)
qed

lemma legacy_log_breaks_refusals_witness:
  "\<exists>e. judgeIdentityLog (\<lambda>_ _ _. True) id_hash Some (pin_of id_verified_log) id_legacy_log False None [JNull] = Inl e"
  by (rule legacy_log_breaks_refusals [OF id_legacy_log_verifies]) (simp_all add: id_legacy_log_def ev_JObj)

end
