(* ===== verification/Invoice.thy ===== *)
theory Invoice
  imports TextForms Decimal
begin

text \<open>
  \<^verbatim>\<open>sdk/src/profiles/invoice.ts\<close>: the arithmetic of an invoice, in exact decimals.  The body is any value.  The
  validator reports every issue it meets, so each step returns the issues that it added; the messages are left out.  The
  resolver of references is a parameter that returns any value, or \<open>None\<close> where it is absent or throws.
\<close>

datatype issue_code =
    InvalidShape | InvalidDecimal | UnsupportedCurrency | UnsupportedUnit | ArithmeticMismatch | InvalidPaymentState | InvalidDate
  | ReferenceMissing | ReferenceUnknown | ReferenceInaccessible | ReferenceMismatch

datatype severity = Error | Unresolved

record invoice_issue =
  is_code :: issue_code
  is_path :: jstr
  is_severity :: severity

type_synonym 'a checked = "invoice_issue list \<times> 'a"

definition add_issue :: "issue_code \<Rightarrow> jstr \<Rightarrow> invoice_issue list" where
  "add_issue code path = [\<lparr>is_code = code, is_path = path, is_severity = Error\<rparr>]"

definition INVOICE_UNITS :: "jstr list" where
  "INVOICE_UNITS = map js [''lb'', ''kg'', ''oz'', ''ton'', ''case'', ''pallet'', ''unit'']"

definition CURRENCIES :: "jstr list" where
  "CURRENCIES = map js [''USD'', ''USDC'']"

definition text_in :: "jstr list \<Rightarrow> jval \<Rightarrow> bool" where
  "text_in ts v = (case str_of v of None \<Rightarrow> False | Some t \<Rightarrow> t \<in> set ts)"

definition isObject :: "jval \<Rightarrow> bool" where
  "isObject v \<longleftrightarrow> object_of v \<noteq> None"

text \<open>\<open>parseDecimal\<close> under its handler\<close>

definition decimal_at :: "jval \<Rightarrow> int \<Rightarrow> jstr \<Rightarrow> int option checked" where
  "decimal_at v scale path =
     (case parseDecimal v scale False of Inl _ \<Rightarrow> (add_issue InvalidDecimal path, None) | Inr n \<Rightarrow> ([], Some n))"

text \<open>
  \<open>amount\<close>: the currency of the invoice is the currency of its total, so the comparison for the total itself compares a
  value with itself and finds no difference.
\<close>

definition amount :: "jval \<Rightarrow> bool \<Rightarrow> jval \<Rightarrow> jstr \<Rightarrow> int option checked" where
  "amount currency is_total raw path =
     (if \<not> isObject raw then (add_issue InvalidShape path, None)
      else
        let mixed = (if is_total \<or> strict_eq (ev raw ''currency'') currency then []
              else add_issue UnsupportedCurrency (path @ js ''.currency''));
            (issues, n) = decimal_at (ev raw ''amount'') 6 (path @ js ''.amount'') in
        (mixed @ issues, n))"

text \<open>\<open>equal\<close>: the formatted expectation must fit the profile, and a known amount must equal it.\<close>

definition check_equal :: "int option \<Rightarrow> int \<Rightarrow> jstr \<Rightarrow> invoice_issue list" where
  "check_equal actual expected path =
     (case formatDecimal expected 6 of
        Inl _ \<Rightarrow> add_issue InvalidDecimal path
      | Inr _ \<Rightarrow> if actual \<noteq> None \<and> actual \<noteq> Some expected then add_issue ArithmeticMismatch path else [])"

definition item_path :: "string \<Rightarrow> nat \<Rightarrow> jstr" where
  "item_path name i = js name @ js ''['' @ nat_str i @ js '']''"

text \<open>One line: its value, when every part of it was read.  \<open>multiplyRounded\<close> fails only for scales outside the profile.\<close>

definition check_line :: "jval \<Rightarrow> jstr \<Rightarrow> jval \<Rightarrow> int option checked" where
  "check_line currency path line =
     (if \<not> (isObject line \<and> isObject (ev line ''quantity'')) then (add_issue InvalidShape path, None)
      else
        let unit_issues = (if text_in INVOICE_UNITS (ev (ev line ''quantity'') ''unit'') then []
              else add_issue UnsupportedUnit (path @ js ''.quantity.unit''));
            (quantity_issues, quantity) = decimal_at (ev (ev line ''quantity'') ''amount'') 3 (path @ js ''.quantity.amount'');
            (price_issues, price) = amount currency False (ev line ''unit_price'') (path @ js ''.unit_price'');
            (value_issues, value) = amount currency False (ev line ''amount'') (path @ js ''.amount'');
            read = unit_issues @ quantity_issues @ price_issues @ value_issues in
        case (quantity, price, value) of
          (Some q, Some p, Some v) \<Rightarrow>
            (case multiplyRounded q 3 p 6 6 of
               Inl _ \<Rightarrow> (read, None)
             | Inr expected \<Rightarrow> (read @ check_equal (Some v) expected (path @ js ''.amount''), Some v))
        | _ \<Rightarrow> (read, None))"

text \<open>The loop over the lines: whether all were read, and their sum.\<close>

fun check_lines :: "jval \<Rightarrow> nat \<Rightarrow> jval list \<Rightarrow> (bool \<times> int) checked" where
  "check_lines currency i [] = ([], True, 0)"
| "check_lines currency i (line # ls) =
     (let (issues, v) = check_line currency (item_path ''line_items'' i) line;
          (rest, valid, sum) = check_lines currency (Suc i) ls in
      (issues @ rest, valid \<and> v \<noteq> None, sum + (case v of None \<Rightarrow> 0 | Some n \<Rightarrow> n)))"

fun check_deductions :: "jval \<Rightarrow> nat \<Rightarrow> jval list \<Rightarrow> (bool \<times> int) checked" where
  "check_deductions currency i [] = ([], True, 0)"
| "check_deductions currency i (d # ds) =
     (let (issues, v) = amount currency False (if isObject d then ev d ''amount'' else JUndef) (item_path ''deductions'' i @ js ''.amount'');
          (rest, valid, sum) = check_deductions currency (Suc i) ds in
      (issues @ rest, valid \<and> v \<noteq> None, sum + (case v of None \<Rightarrow> 0 | Some n \<Rightarrow> n)))"

definition check_all_lines :: "jval \<Rightarrow> jval \<Rightarrow> (bool \<times> int) checked" where
  "check_all_lines currency v =
     (case array_of v of
        None \<Rightarrow> (add_issue InvalidShape (js ''line_items''), False, 0)
      | Some ls \<Rightarrow>
          if length ls < 1 \<or> length ls > 1000 then (add_issue InvalidShape (js ''line_items''), False, 0)
          else check_lines currency 0 ls)"

definition check_all_deductions :: "jval \<Rightarrow> jval \<Rightarrow> (bool \<times> int) checked" where
  "check_all_deductions currency v =
     (case array_of v of
        None \<Rightarrow> (add_issue InvalidShape (js ''deductions''), False, 0)
      | Some ds \<Rightarrow>
          if length ds > 1000 then (add_issue InvalidShape (js ''deductions''), False, 0)
          else check_deductions currency 0 ds)"

definition check_total :: "int option \<Rightarrow> int option \<Rightarrow> bool \<Rightarrow> int \<Rightarrow> invoice_issue list" where
  "check_total subtotal whole deductions_valid deductions =
     (case subtotal of
        Some st \<Rightarrow>
          if deductions_valid
          then (if deductions > st then add_issue ArithmeticMismatch (js ''deductions'') else []) @
            check_equal whole (st - deductions) (js ''total.amount'')
          else []
      | None \<Rightarrow> [])"

definition check_payment :: "jval \<Rightarrow> int option \<Rightarrow> int option \<Rightarrow> invoice_issue list" where
  "check_payment status paid whole =
     (case (paid, whole) of
        (Some p, Some t) \<Rightarrow>
          (if p > t then add_issue InvalidPaymentState (js ''paid_amount'') else []) @
          (if status = JStr (js ''paid'') \<and> p \<noteq> t then add_issue InvalidPaymentState (js ''status'') else []) @
          (if status = JStr (js ''partially_paid'') \<and> \<not> (0 < p \<and> p < t) then add_issue InvalidPaymentState (js ''status'') else [])
      | _ \<Rightarrow> [])"

subsection \<open>Dates and references\<close>

text \<open>The instant with its fraction filled up to microseconds, so that instants compare as texts.\<close>

definition micro_text :: "jstr \<Rightarrow> jstr" where
  "micro_text s =
     take 19 s @ js ''.'' @
     (let f = (if jc (CHR ''.'') \<in> set s then butlast (drop 20 s) else []) in f @ replicate (6 - length f) (jc (CHR ''0''))) @ js ''Z''"

definition date_at :: "jval \<Rightarrow> jstr \<Rightarrow> jstr option checked" where
  "date_at v path =
     (if utc_time v then ([], map_option micro_text (str_of v)) else (add_issue InvalidDate path, None))"

definition check_due :: "jstr option \<Rightarrow> jstr option \<Rightarrow> invoice_issue list" where
  "check_due issued due =
     (case (issued, due) of
        (Some a, Some b) \<Rightarrow> if b < a then add_issue InvalidDate (js ''due_at'') else []
      | _ \<Rightarrow> [])"

text \<open>A set of references is smaller than the list when two members are the same value.\<close>

fun repeats :: "jval list \<Rightarrow> bool" where
  "repeats [] = False"
| "repeats (v # vs) = (list_ex (strict_eq v) vs \<or> repeats vs)"

definition settlement_references :: "jval \<Rightarrow> ((jval \<times> string \<times> jstr) list) checked" where
  "settlement_references v =
     (case array_of v of
        None \<Rightarrow> (add_issue InvalidShape (js ''settlement_event_ids''), [])
      | Some vs \<Rightarrow>
          if length vs > 1000 then (add_issue InvalidShape (js ''settlement_event_ids''), [])
          else (if repeats vs then add_issue ReferenceMismatch (js ''settlement_event_ids'') else [],
            map (\<lambda>(i, r). (r, ''finance.settlement_event'', item_path ''settlement_event_ids'' i)) (List.enumerate 0 vs)))"

definition invoice_references :: "jval \<Rightarrow> ((jval \<times> string \<times> jstr) list) checked" where
  "invoice_references body =
     (let (issues, settlements) = settlement_references (ev body ''settlement_event_ids'');
          fulfillment = ev body ''fulfillment_id'' in
      (issues, [(ev body ''contract_id'', ''trade.contract'', js ''contract_id'')] @
        (if nullish fulfillment then [] else [(fulfillment, ''trade.fulfillment'', js ''fulfillment_id'')]) @ settlements))"

type_synonym resolver = "jstr \<Rightarrow> jstr \<Rightarrow> jval option"

text \<open>The observation of a reference, \<open>unknown\<close> unless the resolver gave one of the four.\<close>

definition UNKNOWN :: jval where
  "UNKNOWN = JObj [(js ''status'', JStr (js ''unknown''))]"

definition observe :: "resolver \<Rightarrow> jstr \<Rightarrow> string \<Rightarrow> jval" where
  "observe R r expected =
     (case R r (js expected) of
        None \<Rightarrow> UNKNOWN
      | Some obs \<Rightarrow> if text_in (map js [''present'', ''missing'', ''unknown'', ''inaccessible'']) (ev obs ''status'') then obs else UNKNOWN)"

definition unresolved_code :: "jval \<Rightarrow> issue_code" where
  "unresolved_code status =
     (if status = JStr (js ''missing'') then ReferenceMissing
      else if status = JStr (js ''inaccessible'') then ReferenceInaccessible else ReferenceUnknown)"

definition party_issue :: "jval \<Rightarrow> jval \<Rightarrow> jstr \<Rightarrow> string \<Rightarrow> invoice_issue list" where
  "party_issue body obs path party =
     (if ev obs party \<noteq> JUndef \<and> \<not> strict_eq (ev obs party) (ev body party) then add_issue ReferenceMismatch path else [])"

definition check_reference :: "jval \<Rightarrow> resolver \<Rightarrow> jval \<times> string \<times> jstr \<Rightarrow> invoice_issue list" where
  "check_reference body R reference =
     (case reference of (v, expected, path) \<Rightarrow>
        if \<not> uuid_value v then add_issue InvalidShape path
        else
          let obs = observe R (case str_of v of None \<Rightarrow> [] | Some r \<Rightarrow> r) expected in
          if ev obs ''status'' \<noteq> JStr (js ''present'')
          then [\<lparr>is_code = unresolved_code (ev obs ''status''), is_path = path, is_severity = Unresolved\<rparr>]
          else (if ev obs ''type'' \<noteq> JStr (js expected) then add_issue ReferenceMismatch path else []) @
            party_issue body obs path ''seller_company_id'' @ party_issue body obs path ''buyer_company_id'')"

subsection \<open>The validator\<close>

definition money_issues :: "jval \<Rightarrow> invoice_issue list" where
  "money_issues body =
     (let currency = (if isObject (ev body ''total'') then ev (ev body ''total'') ''currency'' else JUndef);
          currency_issues = (if text_in CURRENCIES currency then [] else add_issue UnsupportedCurrency (js ''total.currency''));
          (subtotal_issues, subtotal) = amount currency False (ev body ''subtotal'') (js ''subtotal'');
          (total_issues, whole) = amount currency True (ev body ''total'') (js ''total'');
          (paid_issues, paid) = amount currency False (ev body ''paid_amount'') (js ''paid_amount'');
          (line_issues, lines_valid, sum) = check_all_lines currency (ev body ''line_items'');
          sum_issues = (if lines_valid then check_equal subtotal sum (js ''subtotal.amount'') else []);
          (deduction_issues, deductions_valid, deductions) = check_all_deductions currency (ev body ''deductions'') in
      currency_issues @ subtotal_issues @ total_issues @ paid_issues @ line_issues @ sum_issues @ deduction_issues @
      check_total subtotal whole deductions_valid deductions @ check_payment (ev body ''status'') paid whole)"

definition date_issues :: "jval \<Rightarrow> invoice_issue list" where
  "date_issues body =
     (let (issued_issues, issued) = date_at (ev body ''issued_at'') (js ''issued_at'');
          (due_issues, due) = date_at (ev body ''due_at'') (js ''due_at'') in
      issued_issues @ due_issues @ check_due issued due)"

definition reference_issues :: "jval \<Rightarrow> resolver \<Rightarrow> invoice_issue list" where
  "reference_issues body R =
     (let (issues, references) = invoice_references body in issues @ concat (map (check_reference body R) references))"

definition invoice_issues :: "jval \<Rightarrow> resolver \<Rightarrow> invoice_issue list" where
  "invoice_issues body R =
     (if \<not> isObject body then add_issue InvalidShape (js ''$'')
      else money_issues body @ date_issues body @ reference_issues body R)"

record validation_report =
  vr_valid :: bool
  vr_complete :: bool
  vr_issues :: "invoice_issue list"

definition validateInvoice :: "jval \<Rightarrow> resolver \<Rightarrow> validation_report" where
  "validateInvoice body R =
     (let issues = invoice_issues body R in
      \<lparr>vr_valid = \<not> list_ex (\<lambda>i. is_severity i = Error) issues, vr_complete = (issues = []), vr_issues = issues\<rparr>)"

end
