(* ===== verification/InvoiceRules.thy ===== *)
theory InvoiceRules
  imports Invoice
begin

text \<open>What the validity of an invoice means, and what the evidence about its references can change.\<close>

subsection \<open>Issues\<close>

definition faultless :: "invoice_issue list \<Rightarrow> bool" where
  "faultless issues \<longleftrightarrow> list_all (\<lambda>i. is_severity i \<noteq> Error) issues"

lemma faultless_simps [simp]:
  "faultless []" "faultless (a @ b) \<longleftrightarrow> faultless a \<and> faultless b" "\<not> faultless (add_issue code path)"
  by (simp_all add: faultless_def add_issue_def)

lemma faultless_if [simp]: "faultless (if b then add_issue code path else []) \<longleftrightarrow> \<not> b" "faultless (if b then [] else add_issue code path) \<longleftrightarrow> b"
  by simp_all

lemma valid_iff: "vr_valid (validateInvoice body R) \<longleftrightarrow> faultless (invoice_issues body R)"
  by (auto simp: validateInvoice_def Let_def faultless_def list_ex_iff list_all_iff)

subsection \<open>What an invoice promises\<close>

definition money :: "jstr \<Rightarrow> jval \<Rightarrow> int \<Rightarrow> bool" where
  "money c raw n \<longleftrightarrow> isObject raw \<and> ev raw ''currency'' = JStr c \<and> parseDecimal (ev raw ''amount'') 6 False = Inr n"

text \<open>One line: its amount is its quantity times its unit price, rounded half away from zero to the sixth place.\<close>

definition line_adds_up :: "jstr \<Rightarrow> jval \<Rightarrow> int \<Rightarrow> bool" where
  "line_adds_up c line v \<longleftrightarrow> isObject line \<and> isObject (ev line ''quantity'') \<and> text_in INVOICE_UNITS (ev (ev line ''quantity'') ''unit'') \<and>
     (\<exists>q p. parseDecimal (ev (ev line ''quantity'') ''amount'') 3 False = Inr q \<and> money c (ev line ''unit_price'') p \<and>
       money c (ev line ''amount'') v \<and> multiplyRounded q 3 p 6 6 = Inr v)"

definition payment_ok :: "jval \<Rightarrow> int \<Rightarrow> int \<Rightarrow> bool" where
  "payment_ok status paid due \<longleftrightarrow> 0 \<le> paid \<and> paid \<le> due \<and> (status = JStr (js ''paid'') \<longrightarrow> paid = due) \<and>
     (status = JStr (js ''partially_paid'') \<longrightarrow> 0 < paid \<and> paid < due)"

text \<open>
  The books: one currency, every line right, the subtotal their sum, the total the subtotal less the deductions, and a
  payment that the status allows.
\<close>

definition books :: "jstr \<Rightarrow> jval \<Rightarrow> bool" where
  "books c body \<longleftrightarrow>
     (\<exists>lines values reductions cuts paid.
       ev body ''line_items'' = JArr lines \<and> 1 \<le> length lines \<and> length lines \<le> 1000 \<and> list_all2 (line_adds_up c) lines values \<and>
       ev body ''deductions'' = JArr reductions \<and> length reductions \<le> 1000 \<and>
       list_all2 (\<lambda>d n. isObject d \<and> money c (ev d ''amount'') n) reductions cuts \<and>
       money c (ev body ''subtotal'') (sum_list values) \<and> money c (ev body ''total'') (sum_list values - sum_list cuts) \<and>
       money c (ev body ''paid_amount'') paid \<and> payment_ok (ev body ''status'') paid (sum_list values - sum_list cuts))"

definition adds_up :: "jval \<Rightarrow> bool" where
  "adds_up body \<longleftrightarrow> (\<exists>c \<in> set CURRENCIES. books c body)"

definition dated :: "jval \<Rightarrow> bool" where
  "dated body \<longleftrightarrow> (\<exists>a b. ev body ''issued_at'' = JStr a \<and> ev body ''due_at'' = JStr b \<and> utc_time (JStr a) \<and> utc_time (JStr b) \<and>
     micro_text a \<le> micro_text b)"

subsection \<open>The steps\<close>

lemma money_nonneg: "money c raw n \<Longrightarrow> 0 \<le> n"
  by (auto simp: money_def dest: parse_nonneg)

lemma money_eq: "money c raw n \<Longrightarrow> money c raw m \<longleftrightarrow> m = n"
  by (auto simp: money_def)

lemma amount_money:
  assumes "t \<Longrightarrow> ev raw ''currency'' = JStr c"
  shows "faultless (fst (amount (JStr c) t raw path)) \<longleftrightarrow> (\<exists>n. money c raw n)"
    and "money c raw n \<Longrightarrow> snd (amount (JStr c) t raw path) = Some n"
  using assms by (auto simp: amount_def money_def decimal_at_def Let_def split: sum.splits)

lemma money_fits: "money c raw n \<Longrightarrow> is_ok (formatDecimal n 6)"
  using parse_within formatDecimal_ok_iff by (fastforce simp: money_def)

lemma check_equal_iff: "money c raw n \<Longrightarrow> faultless (check_equal (Some n) e path) \<longleftrightarrow> n = e"
  using money_fits [of c raw n] by (auto simp: check_equal_def split: sum.splits)

lemma multiply_lines: "\<exists>v. multiplyRounded q 3 p 6 6 = Inr v"
  by (simp add: multiplyRounded_def checkScale_def guard_def Let_def)

lemma check_line_iff:
  "faultless (fst (check_line (JStr c) path l)) \<longleftrightarrow> (\<exists>v. line_adds_up c l v)"
  "line_adds_up c l v \<Longrightarrow> snd (check_line (JStr c) path l) = Some v"
proof -
  let ?u = "ev (ev l ''quantity'') ''unit''" and ?q = "parseDecimal (ev (ev l ''quantity'') ''amount'') 3 False"
  let ?p = "amount (JStr c) False (ev l ''unit_price'') (path @ js ''.unit_price'')"
  let ?v = "amount (JStr c) False (ev l ''amount'') (path @ js ''.amount'')"
  note am = amount_money [where t = False]
  show "snd (check_line (JStr c) path l) = Some v" if "line_adds_up c l v"
    using that am(2) by (fastforce simp: line_adds_up_def check_line_def decimal_at_def Let_def split_beta)
  show "faultless (fst (check_line (JStr c) path l)) \<longleftrightarrow> (\<exists>v. line_adds_up c l v)"
  proof (cases "isObject l \<and> isObject (ev l ''quantity'') \<and> text_in INVOICE_UNITS ?u \<and> is_ok ?q \<and> faultless (fst ?p) \<and> faultless (fst ?v)")
    case True
    then obtain q p v where r: "?q = Inr q" "money c (ev l ''unit_price'') p" "money c (ev l ''amount'') v"
      using am(1) by (auto simp: is_ok_iff)
    obtain e where e: "multiplyRounded q 3 p 6 6 = Inr e" using multiply_lines by blast
    have "fst (check_line (JStr c) path l) = fst ?p @ fst ?v @ check_equal (Some v) e (path @ js ''.amount'')"
      using True r(1) am(2) [OF _ r(2)] am(2) [OF _ r(3)] e by (simp add: check_line_def decimal_at_def Let_def split_beta)
    then show ?thesis
      using True r(1) e by (simp add: line_adds_up_def check_equal_iff [OF r(3)] money_eq [OF r(2)] money_eq [OF r(3)]) auto
  next
    case False
    then have "\<not> faultless (fst (check_line (JStr c) path l))"
      by (auto simp: check_line_def decimal_at_def Let_def split_beta split: sum.splits option.splits)
    moreover have "\<not> line_adds_up c l v" for v using False am(1) by (auto simp: line_adds_up_def)
    ultimately show ?thesis by blast
  qed
qed

lemma list_all2_Cons_ex: "(\<exists>vs. list_all2 R (x # xs) vs) \<longleftrightarrow> (\<exists>v. R x v) \<and> (\<exists>vs. list_all2 R xs vs)"
  by (auto simp: list_all2_Cons1)

lemma list_all2_Nil_ex [simp]: "Ex (list_all2 R [])"
  using list_all2_Nil by blast

lemma check_lines_iff:
  "faultless (fst (check_lines (JStr c) i ls)) \<longleftrightarrow> (\<exists>vs. list_all2 (line_adds_up c) ls vs)"
  "list_all2 (line_adds_up c) ls vs \<Longrightarrow> snd (check_lines (JStr c) i ls) = (True, sum_list vs)"
proof (induction ls arbitrary: i vs)
  case (Cons l ls)
  case 1
  show ?case using Cons.IH(1) by (simp add: list_all2_Cons_ex check_line_iff(1) split_beta)
  case 2
  then show ?case using Cons.IH(2) check_line_iff(2) by (auto simp: list_all2_Cons1 split_beta)
qed simp_all

lemma check_deductions_iff:
  "faultless (fst (check_deductions (JStr c) i ds)) \<longleftrightarrow> (\<exists>ns. list_all2 (\<lambda>d n. isObject d \<and> money c (ev d ''amount'') n) ds ns)"
  "list_all2 (\<lambda>d n. isObject d \<and> money c (ev d ''amount'') n) ds ns \<Longrightarrow> snd (check_deductions (JStr c) i ds) = (True, sum_list ns)"
proof (induction ds arbitrary: i ns)
  case (Cons d ds)
  have u: "\<not> money c JUndef n" for n by (simp add: money_def isObject_def)
  case 1
  show ?case using Cons.IH(1) u by (simp add: list_all2_Cons_ex amount_money(1) split_beta)
  case 2
  then show ?case using Cons.IH(2) amount_money(2) [where t = False] by (auto simp: list_all2_Cons1 split_beta)
qed simp_all


subsection \<open>The books\<close>

lemma check_payment_iff:
  "0 \<le> p \<Longrightarrow> faultless (check_payment status (Some p) (Some t)) \<longleftrightarrow> payment_ok status p t"
  by (auto simp: check_payment_def payment_ok_def)

lemma check_all_lines_iff:
  "faultless (fst (check_all_lines (JStr c) v)) \<longleftrightarrow>
     (\<exists>ls vs. v = JArr ls \<and> 1 \<le> length ls \<and> length ls \<le> 1000 \<and> list_all2 (line_adds_up c) ls vs)"
  by (auto simp: check_all_lines_def check_lines_iff(1) Suc_le_eq split: option.splits)

lemma check_all_deductions_iff:
  "faultless (fst (check_all_deductions (JStr c) v)) \<longleftrightarrow>
     (\<exists>ds ns. v = JArr ds \<and> length ds \<le> 1000 \<and> list_all2 (\<lambda>d n. isObject d \<and> money c (ev d ''amount'') n) ds ns)"
  by (auto simp: check_all_deductions_def check_deductions_iff(1) split: option.splits)

lemma money_issues_iff: "faultless (money_issues body) \<longleftrightarrow> adds_up body"
proof -
  let ?cur = "if isObject (ev body ''total'') then ev (ev body ''total'') ''currency'' else JUndef"
  show ?thesis
  proof (cases "text_in CURRENCIES ?cur")
    case False
    have "\<not> adds_up body"
      using False by (auto simp: adds_up_def books_def money_def text_in_def)
    moreover have "\<not> faultless (money_issues body)" using False by (simp add: money_issues_def Let_def split_beta)
    ultimately show ?thesis by simp
  next
    case True
    then obtain c where c: "?cur = JStr c" "c \<in> set CURRENCIES" "ev (ev body ''total'') ''currency'' = JStr c"
      by (auto simp: text_in_def split: option.splits if_splits)
    let ?st = "amount (JStr c) False (ev body ''subtotal'') (js ''subtotal'')"
    let ?t = "amount (JStr c) True (ev body ''total'') (js ''total'')"
    let ?p = "amount (JStr c) False (ev body ''paid_amount'') (js ''paid_amount'')"
    let ?ls = "check_all_lines (JStr c) (ev body ''line_items'')" and ?ds = "check_all_deductions (JStr c) (ev body ''deductions'')"
    have m: "faultless (money_issues body) \<longleftrightarrow> faultless (fst ?st) \<and> faultless (fst ?t) \<and> faultless (fst ?p) \<and> faultless (fst ?ls) \<and>
        faultless (if fst (snd ?ls) then check_equal (snd ?st) (snd (snd ?ls)) (js ''subtotal.amount'') else []) \<and> faultless (fst ?ds) \<and>
        faultless (check_total (snd ?st) (snd ?t) (fst (snd ?ds)) (snd (snd ?ds))) \<and>
        faultless (check_payment (ev body ''status'') (snd ?p) (snd ?t))"
      using True c(2) unfolding money_issues_def c(1) by (simp add: Let_def split_beta text_in_def)
    have one: "adds_up body \<longleftrightarrow> books c body"
    proof -
      have "c' = c" if "books c' body" for c' using that c(3) by (auto simp: books_def money_def)
      then show ?thesis using c(2) by (auto simp: adds_up_def)
    qed
    have am: "faultless (fst ?st) \<longleftrightarrow> (\<exists>n. money c (ev body ''subtotal'') n)" "faultless (fst ?t) \<longleftrightarrow> (\<exists>n. money c (ev body ''total'') n)"
        "faultless (fst ?p) \<longleftrightarrow> (\<exists>n. money c (ev body ''paid_amount'') n)"
        "\<And>n. money c (ev body ''subtotal'') n \<Longrightarrow> snd ?st = Some n" "\<And>n. money c (ev body ''total'') n \<Longrightarrow> snd ?t = Some n"
        "\<And>n. money c (ev body ''paid_amount'') n \<Longrightarrow> snd ?p = Some n"
      using amount_money [of False "ev body ''subtotal''" c] amount_money [of True "ev body ''total''" c]
        amount_money [of False "ev body ''paid_amount''" c] c(3) by simp_all
    show ?thesis
    proof (cases "faultless (fst ?st) \<and> faultless (fst ?t) \<and> faultless (fst ?p) \<and> faultless (fst ?ls) \<and> faultless (fst ?ds)")
      case False
      moreover have "\<not> adds_up body"
        using False unfolding one books_def am(1-3) check_all_lines_iff check_all_deductions_iff by clarsimp blast
      ultimately show ?thesis using m by blast
    next
      case True
      then obtain s t p ls vs ds ns where r: "money c (ev body ''subtotal'') s" "money c (ev body ''total'') t" "money c (ev body ''paid_amount'') p"
          "ev body ''line_items'' = JArr ls" "1 \<le> length ls" "length ls \<le> 1000" "list_all2 (line_adds_up c) ls vs"
          "ev body ''deductions'' = JArr ds" "length ds \<le> 1000" "list_all2 (\<lambda>d n. isObject d \<and> money c (ev d ''amount'') n) ds ns"
        using am(1-3) by (auto simp: check_all_lines_iff check_all_deductions_iff)
      have l: "snd ?ls = (True, sum_list vs)" "snd ?ds = (True, sum_list ns)"
        using check_lines_iff(2) [OF r(7)] check_deductions_iff(2) [OF r(10)] r(4-6,8,9) by (auto simp: check_all_lines_def check_all_deductions_def)
      have "faultless (money_issues body) \<longleftrightarrow> s = sum_list vs \<and> sum_list ns \<le> s \<and> t = s - sum_list ns \<and> payment_ok (ev body ''status'') p t"
        using m True am(4) [OF r(1)] am(5) [OF r(2)] am(6) [OF r(3)]
        by (simp add: l check_equal_iff [OF r(1)] check_equal_iff [OF r(2)] check_payment_iff [OF money_nonneg [OF r(3)]] check_total_def not_less)
      also have "\<dots> \<longleftrightarrow> adds_up body"
      proof
        assume "s = sum_list vs \<and> sum_list ns \<le> s \<and> t = s - sum_list ns \<and> payment_ok (ev body ''status'') p t"
        then show "adds_up body" using r unfolding one books_def by blast
      next
        assume "adds_up body"
        then obtain vs' ns' p' where a: "list_all2 (line_adds_up c) ls vs'" "list_all2 (\<lambda>d n. isObject d \<and> money c (ev d ''amount'') n) ds ns'"
            "money c (ev body ''subtotal'') (sum_list vs')" "money c (ev body ''total'') (sum_list vs' - sum_list ns')"
            "money c (ev body ''paid_amount'') p'" "payment_ok (ev body ''status'') p' (sum_list vs' - sum_list ns')"
          using r(4,8) unfolding one books_def by auto
        have "sum_list vs' = sum_list vs" using check_lines_iff(2) [OF a(1)] check_lines_iff(2) [OF r(7)] by simp
        moreover have "sum_list ns' = sum_list ns" using check_deductions_iff(2) [OF a(2)] check_deductions_iff(2) [OF r(10)] by simp
        ultimately show "s = sum_list vs \<and> sum_list ns \<le> s \<and> t = s - sum_list ns \<and> payment_ok (ev body ''status'') p t"
          using a(3-6) money_nonneg [OF r(2)] by (simp add: money_eq [OF r(1)] money_eq [OF r(2)] money_eq [OF r(3)])
      qed
      finally show ?thesis .
    qed
  qed
qed

lemma date_issues_iff: "faultless (date_issues body) \<longleftrightarrow> dated body"
  by (auto simp: date_issues_def dated_def date_at_def check_due_def utc_time_def not_less split_beta split: option.splits)

subsection \<open>Validity\<close>

text \<open>C32. 
  An invoice is valid exactly when its books are right, its dates are real and in order, and no reference speaks against
  it.  Whatever the resolver says, validity implies exact arithmetic in one currency, line by line; and an invoice whose
  books, dates and references are in order is never rejected.
\<close>
theorem invoice_valid_iff:
  "vr_valid (validateInvoice body R) \<longleftrightarrow> isObject body \<and> adds_up body \<and> dated body \<and> faultless (reference_issues body R)"
  by (simp add: valid_iff invoice_issues_def money_issues_iff date_issues_iff)


definition contradicts :: "jval \<Rightarrow> jval \<Rightarrow> string \<Rightarrow> bool" where
  "contradicts body obs expected \<longleftrightarrow> ev obs ''status'' = JStr (js ''present'') \<and>
     (ev obs ''type'' \<noteq> JStr (js expected) \<or>
      (\<exists>party \<in> {''seller_company_id'', ''buyer_company_id''}. ev obs party \<noteq> JUndef \<and> \<not> strict_eq (ev obs party) (ev body party)))"

lemma check_reference_iff:
  "faultless (check_reference body R (v, expected, path)) \<longleftrightarrow>
     (\<exists>r. v = JStr r \<and> uuid_value v \<and> \<not> contradicts body (observe R r expected) expected)"
proof (cases "uuid_value v")
  case True
  then obtain r where "v = JStr r" by (auto simp: uuid_value_def split: option.splits)
  moreover have "faultless [\<lparr>is_code = c, is_path = path, is_severity = Unresolved\<rparr>]" for c by (simp add: faultless_def)
  ultimately show ?thesis using True by (auto simp: check_reference_def Let_def contradicts_def party_issue_def)
qed (auto simp: check_reference_def uuid_value_def)

lemma unknown_never_contradicts: "\<not> contradicts body (observe (\<lambda>_ _. None) r expected) expected"
  by (simp add: observe_def UNKNOWN_def contradicts_def ev_def)

lemma faultless_concat: "faultless (concat xss) \<longleftrightarrow> (\<forall>xs \<in> set xss. faultless xs)"
  by (auto simp: faultless_def list_all_iff)

lemma reference_issues_iff:
  "faultless (reference_issues body R) \<longleftrightarrow> faultless (fst (invoice_references body)) \<and>
     (\<forall>(v, expected, path) \<in> set (snd (invoice_references body)).
        \<exists>r. v = JStr r \<and> uuid_value v \<and> \<not> contradicts body (observe R r expected) expected)"
  by (auto simp: reference_issues_def faultless_concat check_reference_iff split_beta)

text \<open>C33. 
  Evidence can only speak against an invoice.  An invoice is valid under a resolver exactly when it is valid with no
  evidence at all and no reference that the resolver shows contradicts it, by its type or its parties.  So a missing,
  unknown or withheld reference, or a resolver that throws, never makes an invoice invalid, and no evidence repairs one.
\<close>
theorem evidence_can_only_contradict:
  "vr_valid (validateInvoice body R) \<longleftrightarrow> vr_valid (validateInvoice body (\<lambda>_ _. None)) \<and>
     \<not> (\<exists>r expected path. (JStr r, expected, path) \<in> set (snd (invoice_references body)) \<and> contradicts body (observe R r expected) expected)"
  unfolding invoice_valid_iff reference_issues_iff using unknown_never_contradicts by (fastforce simp: split_beta)

end
