(* ===== verification/Wire04.thy ===== *)
theory Wire04
  imports TextForms Envelope
begin

text \<open>
  \<^verbatim>\<open>sdk/src/v04/wire.ts\<close>: the signed command of protocol 0.4, its instants and its tokens.  An input is any value;
  a command that was read is typed and keeps the document it was read from.  Parameters: the third-party validator of the
  command schema, WebCrypto's verification, and SHA-256.
\<close>

datatype dtp_error = DtpError string nat | Thrown

definition demand :: "bool \<Rightarrow> string \<Rightarrow> nat \<Rightarrow> dtp_error + unit" where
  "demand ok code status = guard ok (DtpError code status)"

lemma demand_ok [ok_iff]: "demand ok code status = Inr u \<longleftrightarrow> ok"
  by (simp add: demand_def guard_ok)

lemma demand_simps [simp]: "demand True code status = Inr ()" "demand False code status = Inl (DtpError code status)"
  by (simp_all add: demand_def)

text \<open>The canonical digest, and whether two values have the same canonical text; both throw where the text does not exist.\<close>

definition wire_digest :: "(byte list \<Rightarrow> jstr) \<Rightarrow> jval \<Rightarrow> dtp_error + jstr" where
  "wire_digest sha256Hex v = ebind (map_err (\<lambda>_. Thrown) (canonicalBytes v)) (\<lambda>b. Inr (sha256Hex b))"

definition wire_same :: "jval \<Rightarrow> jval \<Rightarrow> dtp_error + bool" where
  "wire_same a b = ebind (map_err (\<lambda>_. Thrown) (canonicalize a)) (\<lambda>s. ebind (map_err (\<lambda>_. Thrown) (canonicalize b)) (\<lambda>t. Inr (s = t)))"

definition exact_fields :: "string list \<Rightarrow> jval \<Rightarrow> dtp_error + unit" where
  "exact_fields names v = demand (exact_members names v) ''invalid'' 400"

subsection \<open>Instants\<close>

text \<open>Days from the first of January of year 0 to a date, and from there to the epoch of \<open>Date\<close>.\<close>

definition days_from_zero :: "nat \<Rightarrow> nat \<Rightarrow> nat \<Rightarrow> nat" where
  "days_from_zero y m d =
     365 * y + (y + 3) div 4 - (y + 99) div 100 + (y + 399) div 400 + sum_list (map (month_days y) [1..<m]) + (d - 1)"

definition EPOCH_DAYS :: nat where "EPOCH_DAYS = 719528"

definition instant_millis :: "jstr \<Rightarrow> nat" where
  "instant_millis s =
     (((days_from_zero (number_at 0 4 s) (number_at 5 2 s) (number_at 8 2 s) * 24 + number_at 11 2 s) * 60 + number_at 14 2 s) * 60 +
       number_at 17 2 s) * 1000 + number_at 20 3 s"

definition instant_text :: "jstr \<Rightarrow> bool" where
  "instant_text s \<longleftrightarrow> fits ''dddd-dd-ddTdd:dd:dd.dddZ'' s \<and> real_date s \<and> real_time s"

text \<open>\<open>instant\<close>: an existing UTC time in milliseconds, as \<open>Date.parse\<close> counts it.\<close>

definition read_instant :: "jval \<Rightarrow> dtp_error + int" where
  "read_instant v =
     (case str_of v of
        None \<Rightarrow> Inl (DtpError ''invalid'' 400)
      | Some s \<Rightarrow> if instant_text s then Inr (int (instant_millis s) - int EPOCH_DAYS * 86400000) else Inl (DtpError ''invalid'' 400))"

subsection \<open>Identifiers\<close>

definition valid_key :: "jval \<Rightarrow> dtp_error + jstr" where
  "valid_key v =
     (case str_of v of
        None \<Rightarrow> Inl (DtpError ''invalid'' 400)
      | Some k \<Rightarrow> if is_ok (decodeKeyId k) then Inr k else Inl (DtpError ''invalid'' 400))"

definition idHash :: "(byte list \<Rightarrow> jstr) \<Rightarrow> jval \<Rightarrow> dtp_error + jstr" where
  "idHash H v = ebind (wire_digest H v) (\<lambda>h.
     Inr (take 8 h @ js ''-'' @ take 4 (drop 8 h) @ js ''-'' @ take 4 (drop 12 h) @ js ''-'' @ take 4 (drop 16 h) @ js ''-'' @
       take 12 (drop 20 h)))"

definition personId :: "(byte list \<Rightarrow> jstr) \<Rightarrow> jstr \<Rightarrow> dtp_error + jstr" where
  "personId H key = idHash H (JObj [(js ''domain'', JStr (js ''DTP-PERSON-0.4'')), (js ''genesis_key'', JStr key)])"

definition organizationId :: "(byte list \<Rightarrow> jstr) \<Rightarrow> jstr \<Rightarrow> jval \<Rightarrow> dtp_error + jstr" where
  "organizationId H founder nonce =
     idHash H (JObj [(js ''domain'', JStr (js ''DTP-ORGANIZATION-0.4'')), (js ''founder_id'', JStr founder), (js ''nonce'', nonce)])"

subsection \<open>Texts without U+0000\<close>

text \<open>The queue is popped from its end; a composite value pushes its children.\<close>

partial_function (option) nul_loop :: "jval list \<Rightarrow> bool option" where
  "nul_loop queue =
     (if queue = [] then Some True
      else
        let v = last queue; rest = butlast queue in
        case str_of v of
          Some s \<Rightarrow> if 0 \<in> set s then Some False else nul_loop rest
        | None \<Rightarrow> nul_loop (rest @ children v))"

definition assertNoNulStrings :: "jval \<Rightarrow> (dtp_error + unit) option" where
  "assertNoNulStrings v = map_option (\<lambda>ok. demand ok ''nul_character'' 400) (nul_loop [v])"

fun no_nul :: "jval \<Rightarrow> bool" where
  "no_nul (JStr s) = (0 \<notin> set s)"
| "no_nul (JArr vs) = list_all no_nul vs"
| "no_nul (JObj kvs) = list_all (\<lambda>kv. no_nul (snd kv)) kvs"
| "no_nul _ = True"

lemma no_nul_children: "str_of v = None \<Longrightarrow> no_nul v \<longleftrightarrow> list_all no_nul (children v)"
  by (cases v) (auto simp: list_all_iff)

lemma nul_loop_eq: "nul_loop queue = Some (list_all no_nul queue)"
proof (induction "size_list size queue" arbitrary: queue rule: less_induct)
  case less
  show ?case
  proof (cases queue rule: rev_cases)
    case (snoc rest v)
    show ?thesis
    proof (cases "str_of v")
      case (Some s)
      then have v: "v = JStr s" by simp
      have "nul_loop rest = Some (list_all no_nul rest)" by (intro less) (simp add: snoc v)
      then show ?thesis unfolding nul_loop.simps [of queue] by (simp add: snoc v)
    next
      case None
      have "size_list size (children v) < size_list size [v]" using size_list_children [of v] by simp
      then have "nul_loop (rest @ children v) = Some (list_all no_nul (rest @ children v))"
        by (intro less) (simp add: snoc)
      then show ?thesis unfolding nul_loop.simps [of queue] using None no_nul_children by (simp add: snoc)
    qed
  qed (simp add: nul_loop.simps)
qed

text \<open>C34. 
  The search for U+0000 ends on every value, whatever its shape and size, and refuses it exactly when some string in it,
  at any depth, contains that character.
\<close>
theorem nul_search_ends: "assertNoNulStrings v = Some (demand (no_nul v) ''nul_character'' 400)"
  by (simp add: assertNoNulStrings_def nul_loop_eq)

subsection \<open>Commands\<close>

record command =
  cm_document :: jval
  cm_request :: jstr
  cm_issued :: int
  cm_expires :: int
  cm_org :: "jstr option"
  cm_by_person :: bool
  cm_actor :: jstr
  cm_key :: jstr
  cm_requested_by :: "jstr option"
  cm_action :: jstr
  cm_payload :: jval

definition without_signatures :: "jval \<Rightarrow> jval" where
  "without_signatures v = (case object_of v of None \<Rightarrow> v | Some kvs \<Rightarrow> JObj (filter (\<lambda>kv. fst kv \<noteq> js ''signatures'') kvs))"

definition commandBytes :: "jval \<Rightarrow> canon_error + byte list" where
  "commandBytes c = canonicalBytes (JObj [(js ''domain'', JStr (js ''DTP-COMMAND-0.4'')), (js ''command'', without_signatures c)])"

definition validateCommand :: "(jval \<Rightarrow> bool) \<Rightarrow> jstr \<Rightarrow> int \<Rightarrow> jval \<Rightarrow> dtp_error + command" where
  "validateCommand schema_valid audience now input =
     ebind (demand (schema_valid input) ''invalid'' 400) (\<lambda>_.
     ebind (exact_fields [''version'', ''audience'', ''request_id'', ''issued_at'', ''expires_at'', ''organization_id'', ''actor'', ''requested_by'',
         ''action'', ''payload'', ''signatures''] input) (\<lambda>_.
     ebind (demand (ev input ''version'' = JStr (js ''0.4'') \<and> ev input ''audience'' = JStr audience) ''wrong_audience'' 400) (\<lambda>_.
     ebind (demand (uuid_value (ev input ''request_id'') \<and> null_or_uuid (ev input ''organization_id'')) ''invalid'' 400) (\<lambda>_.
     let actor = ev input ''actor'' in
     ebind (exact_fields [''kind'', ''id'', ''key_id''] actor) (\<lambda>_.
     ebind (demand (ev actor ''kind'' \<in> {JStr (js ''person''), JStr (js ''installation'')} \<and> uuid_value (ev actor ''id'')) ''invalid'' 400) (\<lambda>_.
     ebind (valid_key (ev actor ''key_id'')) (\<lambda>key.
     ebind (demand (null_or_uuid (ev input ''requested_by'')) ''invalid'' 400) (\<lambda>_.
     ebind (demand ((case str_of (ev input ''action'') of None \<Rightarrow> False | Some a \<Rightarrow> length a \<le> 80) \<and> object_of (ev input ''payload'') \<noteq> None)
         ''invalid'' 400) (\<lambda>_.
     ebind (read_instant (ev input ''issued_at'')) (\<lambda>start.
     ebind (read_instant (ev input ''expires_at'')) (\<lambda>end.
     ebind (demand (start \<le> now + 30000 \<and> end > now \<and> end > start \<and> end - start \<le> 300000) ''expired'' 401) (\<lambda>_.
     ebind (map_err (\<lambda>_. Thrown) (assertNoFloats input (js ''$''))) (\<lambda>_.
     ebind (case assertNoNulStrings input of None \<Rightarrow> Inl Thrown | Some m \<Rightarrow> m) (\<lambda>_.
     case (str_of (ev input ''request_id''), str_of (ev actor ''id''), str_of (ev input ''action'')) of
       (Some request, Some actor_id, Some action) \<Rightarrow> Inr
         \<lparr>cm_document = input, cm_request = request, cm_issued = start, cm_expires = end, cm_org = str_of (ev input ''organization_id''),
          cm_by_person = (ev actor ''kind'' = JStr (js ''person'')), cm_actor = actor_id, cm_key = key,
          cm_requested_by = str_of (ev input ''requested_by''), cm_action = action, cm_payload = ev input ''payload''\<rparr>
     | _ \<Rightarrow> Inl Thrown))))))))))))))"

text \<open>One proof; every exception of the key and signature texts counts as a signature that does not verify.\<close>

definition proof_verifies ::
  "(byte list \<Rightarrow> byte list \<Rightarrow> byte list \<Rightarrow> bool) \<Rightarrow> (canon_error + byte list) \<Rightarrow> jval \<Rightarrow> jval \<Rightarrow> bool" where
  "proof_verifies V bytes key signature =
     (case (bytes, str_of key, str_of signature) of
        (Inr m, Some k, Some t) \<Rightarrow>
          (case decodeSignature t of Inl _ \<Rightarrow> False | Inr raw \<Rightarrow> verifyBytes V k m raw = Inr True)
      | _ \<Rightarrow> False)"

fun verify_proofs ::
  "(byte list \<Rightarrow> byte list \<Rightarrow> byte list \<Rightarrow> bool) \<Rightarrow> (canon_error + byte list) \<Rightarrow> jstr list \<Rightarrow> jval list \<Rightarrow> dtp_error + jstr list" where
  "verify_proofs V bytes found [] = Inr found"
| "verify_proofs V bytes found (s # ss) =
     ebind (exact_fields [''key_id'', ''signature''] s) (\<lambda>_.
     ebind (demand (\<not> (\<exists>k \<in> set found. ev s ''key_id'' = JStr k)) ''invalid'' 400) (\<lambda>_.
     ebind (demand (proof_verifies V bytes (ev s ''key_id'') (ev s ''signature'')) ''signature_invalid'' 401) (\<lambda>_.
     verify_proofs V bytes (found @ (case str_of (ev s ''key_id'') of None \<Rightarrow> [] | Some k \<Rightarrow> [k])) ss)))"

text \<open>The keys that signed the command, the actor's among them.\<close>

definition verifyCommand :: "(byte list \<Rightarrow> byte list \<Rightarrow> byte list \<Rightarrow> bool) \<Rightarrow> command \<Rightarrow> dtp_error + jstr list" where
  "verifyCommand V c =
     (case array_of (ev (cm_document c) ''signatures'') of
        None \<Rightarrow> Inl (DtpError ''invalid'' 400)
      | Some ss \<Rightarrow>
          ebind (demand (0 < length ss \<and> length ss \<le> 16) ''invalid'' 400) (\<lambda>_.
          ebind (verify_proofs V (commandBytes (cm_document c)) [] ss) (\<lambda>found.
          ebind (demand (cm_key c \<in> set found) ''signature_invalid'' 401) (\<lambda>_.
          Inr found))))"

definition key_signed :: "(byte list \<Rightarrow> byte list \<Rightarrow> byte list \<Rightarrow> bool) \<Rightarrow> command \<Rightarrow> jstr \<Rightarrow> bool" where
  "key_signed V c k \<longleftrightarrow> (\<exists>m pk t raw. commandBytes (cm_document c) = Inr m \<and> decodeKeyId k = Inr pk \<and> decodeSignature t = Inr raw \<and> V pk raw m)"

lemma proof_verifies_iff:
  "proof_verifies V bytes key signature \<longleftrightarrow>
     (\<exists>m k t raw. bytes = Inr m \<and> key = JStr k \<and> signature = JStr t \<and> decodeSignature t = Inr raw \<and> verifyBytes V k m raw = Inr True)"
  by (cases bytes; cases "str_of key"; cases "str_of signature") (auto simp: proof_verifies_def split: sum.splits)

lemma verifyBytes_V: "verifyBytes V k m raw = Inr True \<Longrightarrow> \<exists>pk. decodeKeyId k = Inr pk \<and> V pk raw m"
  by (auto simp: verifyBytes_def ebind_ok split: if_splits)

lemma verify_proofs_signed:
  "verify_proofs V (commandBytes (cm_document c)) found ss = Inr keys \<Longrightarrow> \<forall>k \<in> set found. key_signed V c k \<Longrightarrow> distinct found \<Longrightarrow>
     distinct keys \<and> (\<forall>k \<in> set keys. key_signed V c k)"
proof (induction ss arbitrary: found)
  case (Cons s ss)
  have "proof_verifies V (commandBytes (cm_document c)) (ev s ''key_id'') (ev s ''signature'')"
    using Cons.prems(1) by (auto simp: ok_iff)
  then obtain m k t raw where k: "commandBytes (cm_document c) = Inr m" "ev s ''key_id'' = JStr k" "decodeSignature t = Inr raw"
      "verifyBytes V k m raw = Inr True"
    by (auto simp: proof_verifies_iff)
  then have "key_signed V c k" using verifyBytes_V [OF k(4)] unfolding key_signed_def by blast
  moreover have new: "k \<notin> set found" "verify_proofs V (commandBytes (cm_document c)) (found @ [k]) ss = Inr keys"
    using Cons.prems(1) k(2) by (auto simp: ok_iff)
  ultimately have "\<forall>x \<in> set (found @ [k]). key_signed V c x" "distinct (found @ [k])" using Cons.prems(2,3) by simp_all
  then show ?case by (rule Cons.IH [OF new(2)])
qed simp

text \<open>The keys that a command counts as its signers are distinct, and each of them signed the command's bytes.\<close>

lemma verify_command_signed:
  assumes "verifyCommand V c = Inr keys"
  shows "distinct keys \<and> (\<forall>k \<in> set keys. key_signed V c k) \<and> cm_key c \<in> set keys"
  using assms verify_proofs_signed [of V c "[]"] by (auto simp: verifyCommand_def ok_iff split: option.splits)


definition sign_proofs ::
  "(byte list \<Rightarrow> byte list \<Rightarrow> byte list) \<Rightarrow> byte list \<Rightarrow> (jstr \<times> byte list) list \<Rightarrow> dtp_error + jval list" where
  "sign_proofs ed25519_sign bytes keys = traverse (\<lambda>(key, secret).
     ebind (map_err (\<lambda>_. Thrown) (encodeSignature (ed25519_sign secret bytes))) (\<lambda>t.
     Inr (JObj [(js ''key_id'', JStr key), (js ''signature'', JStr t)]))) keys"

text \<open>\<open>signCommand\<close>: the bytes leave the signatures out, so every key signs the same bytes.\<close>

definition signCommand ::
  "(byte list \<Rightarrow> byte list \<Rightarrow> byte list) \<Rightarrow> jval \<Rightarrow> (jstr \<times> byte list) list \<Rightarrow> dtp_error + jval" where
  "signCommand ed25519_sign c keys =
     ebind (map_err (\<lambda>_. Thrown) (assertSafeMemberNames c)) (\<lambda>_.
     ebind (require Thrown (object_of (without_signatures c))) (\<lambda>kvs.
     ebind (map_err (\<lambda>_. Thrown) (commandBytes c)) (\<lambda>bytes.
     ebind (sign_proofs ed25519_sign bytes keys) (\<lambda>proofs.
     Inr (JObj (kvs @ [(js ''signatures'', JArr proofs)]))))))"

subsection \<open>Host tokens\<close>

text \<open>
  What a host knows when it runs a command: its audience and key, the keys it pins for other hosts and for assessors, the
  revoked assessments, its clock, the profiles it takes for a standard business type, its registry of protocol kinds, and the
  protocol contracts it offers, by digest.
\<close>

record host =
  ho_audience :: jstr
  ho_key :: jstr
  ho_pins :: "(jstr \<times> jstr) list"
  ho_now :: int
  ho_assessors :: "(jstr \<times> jstr) list"
  ho_revoked :: "jstr list"
  ho_reference_profiles :: "(jstr \<times> jstr list) list"
  ho_kinds :: "(jstr \<times> jstr list) list option"
  ho_protocol :: "(jstr \<times> jval) list"

definition tokenBytes :: "jval \<Rightarrow> canon_error + byte list" where
  "tokenBytes body = canonicalBytes (JObj [(js ''domain'', JStr (js ''DTP-TOKEN-0.4'')), (js ''body'', body)])"

definition signToken :: "(byte list \<Rightarrow> byte list \<Rightarrow> byte list) \<Rightarrow> jval \<Rightarrow> host \<Rightarrow> byte list \<Rightarrow> dtp_error + jval" where
  "signToken ed25519_sign body ctx secret =
     ebind (demand (ev body ''issuer'' = JStr (ho_audience ctx)) ''invalid'' 400) (\<lambda>_.
     ebind (map_err (\<lambda>_. Thrown) (assertSafeMemberNames body)) (\<lambda>_.
     ebind (map_err (\<lambda>_. Thrown) (tokenBytes body)) (\<lambda>bytes.
     ebind (map_err (\<lambda>_. Thrown) (encodeSignature (ed25519_sign secret bytes))) (\<lambda>t.
     Inr (JObj [(js ''body'', body), (js ''key_id'', JStr (ho_key ctx)), (js ''signature'', JStr t)])))))"

text \<open>Pins are named by audience, so only a text can name one.\<close>

definition pinned_key :: "host \<Rightarrow> jval \<Rightarrow> jstr option" where
  "pinned_key ctx issuer =
     (case str_of issuer of None \<Rightarrow> None | Some a \<Rightarrow> if a = ho_audience ctx then Some (ho_key ctx) else map_of (ho_pins ctx) a)"

definition verifyToken :: "(byte list \<Rightarrow> byte list \<Rightarrow> byte list \<Rightarrow> bool) \<Rightarrow> jval \<Rightarrow> host \<Rightarrow> string \<Rightarrow> dtp_error + jval" where
  "verifyToken V token ctx kind =
     ebind (exact_fields [''body'', ''key_id'', ''signature''] token) (\<lambda>_.
     let body = ev token ''body'' in
     ebind (demand (object_of body \<noteq> None \<and> ev body ''kind'' = JStr (js kind)) ''invalid_token'' 403) (\<lambda>_.
     ebind (demand (case pinned_key ctx (ev body ''issuer'') of None \<Rightarrow> False | Some k \<Rightarrow> k \<noteq> [] \<and> ev token ''key_id'' = JStr k)
         ''untrusted_source'' 403) (\<lambda>_.
     ebind (demand (proof_verifies V (tokenBytes body) (ev token ''key_id'') (ev token ''signature'')) ''signature_invalid'' 401) (\<lambda>_.
     ebind (read_instant (ev body ''issued_at'')) (\<lambda>issued.
     ebind (demand (issued \<le> ho_now ctx + 30000) ''expired'' 401) (\<lambda>_.
     ebind (read_instant (ev body ''expires_at'')) (\<lambda>expires.
     ebind (demand (expires > ho_now ctx \<and> expires > issued) ''expired'' 401) (\<lambda>_.
     Inr body))))))))"

text \<open>An assessment of a module's artifact, by an assessor that the operator trusts, not revoked.\<close>

definition verifyAssessment ::
  "(byte list \<Rightarrow> byte list \<Rightarrow> byte list \<Rightarrow> bool) \<Rightarrow> (byte list \<Rightarrow> jstr) \<Rightarrow> jval \<Rightarrow> host \<Rightarrow> dtp_error + jval" where
  "verifyAssessment V H token ctx =
     ebind (demand (truthy (ev token ''body'') \<and>
         (case Option.bind (str_of (ev (ev token ''body'') ''issuer'')) (map_of (ho_assessors ctx)) of
            None \<Rightarrow> ev token ''key_id'' = JUndef | Some k \<Rightarrow> ev token ''key_id'' = JStr k))
         ''untrusted_assessor'' 403) (\<lambda>_.
     ebind (wire_digest H token) (\<lambda>h.
     ebind (demand (h \<notin> set (ho_revoked ctx)) ''assessment_revoked'' 403) (\<lambda>_.
     verifyToken V token (ctx\<lparr>ho_pins := ho_assessors ctx\<rparr>) ''module-assessment'')))"

end
