(* ===== verification/Kernel.thy ===== *)
theory Kernel
  imports Wire04 Invoice "HOL-Library.AList"
begin

text \<open>
  \<^verbatim>\<open>sdk/src/v04/model.ts\<close>, \<^verbatim>\<open>permissions.ts\<close> and the reservations of \<^verbatim>\<open>migration.ts\<close>: the state of the 0.4 kernel and who may do
  what.  A \<open>Record\<close> of the code is an association list in insertion order.  An instant that the state keeps was read when
  it was accepted, so the state keeps the number.
\<close>

subsection \<open>The state\<close>

type_synonym 'a table = "(jstr \<times> 'a) list"

record person =
  pe_keys :: "jstr list"
  pe_retired :: "jstr list"
  pe_history :: "command list"

record membership =
  mb_permissions :: "jstr list"
  mb_expires :: int
  mb_active :: bool
  mb_by :: jstr

record invitation = membership +
  nv_person :: jstr
  nv_accepted :: bool

record installation =
  il_module :: jstr
  il_release :: jstr
  il_key :: jstr
  il_policies :: "jstr list"
  il_actions :: "jstr list"
  il_sponsor :: jstr
  il_expires :: int
  il_active :: bool
  il_automation :: bool

record organization =
  og_name :: jstr
  og_controllers :: "jstr list"
  og_threshold :: int
  og_generation :: int
  og_active :: bool
  og_members :: "membership table"
  og_invitations :: "invitation table"
  og_installations :: "installation table"
  og_history :: "command list"

text \<open>The resources of a grant: \<open>None\<close> for all of them.\<close>

record policy_grant =
  gr_person :: jstr
  gr_actions :: "jstr list"
  gr_resources :: "jstr list option"
  gr_expires :: int

record policy =
  po_org :: jstr
  po_revision :: int
  po_class :: jstr
  po_stewards :: "jstr list"
  po_threshold :: int
  po_grants :: "policy_grant list"
  po_history :: "command list"

record profile =
  pr_id :: jstr
  pr_publisher :: jstr
  pr_name :: jstr
  pr_version :: jstr
  pr_schema :: jval
  pr_semantics :: jstr
  pr_dependencies :: "jstr list"
  pr_community :: bool
  pr_readers :: "jstr list"

record release =
  re_module :: jstr
  re_publisher :: jstr
  re_version :: jstr
  re_artifact :: jstr
  re_profiles :: "jstr list"
  re_actions :: "jstr list"
  re_community :: bool
  re_assessment :: jval

record business_record =
  br_id :: jstr
  br_root :: jstr
  br_supersedes :: "jstr option"
  br_org :: jstr
  br_policy :: jstr
  br_resource :: jstr
  br_profile :: jstr
  br_parties :: "jstr list"
  br_body :: jval
  br_command :: command
  br_seq :: int
  br_head :: bool
  br_accepted :: int
  br_report :: "validation_report option"

text \<open>
  What a host keeps of the migrations it sends and receives.  A manifest and a token are the documents that were signed; a
  snapshot is kept with the names in it that are reserved once it is ready.
\<close>

record outbound =
  ob_manifest :: jval
  ob_chunks :: "jstr list"
  ob_token :: jval
  ob_authorization :: jval
  ob_commit :: "jval option"
  ob_cancel :: "jval option"

record snapshot =
  sn_doc :: jval
  sn_persons :: "person table"
  sn_policies :: "jstr list"
  sn_records :: "jstr list"
  sn_profiles :: "profile table"
  sn_releases :: "release table"
  sn_installations :: "installation table"

record staged =
  sg_manifest :: jval
  sg_token :: jval
  sg_chunks :: "(int \<times> jstr) list"
  sg_ready :: "jval option"
  sg_snapshot :: "snapshot option"
  sg_activated :: bool
  sg_aborted :: bool

text \<open>The authority of a company at another host, as the last accepted token of that host states it.\<close>

record authority =
  au_token :: jval
  au_generation :: int
  au_issuer :: jstr
  au_key :: jstr
  au_issued :: int
  au_expires :: int

datatype reply =
    Answer jval
  | PolicyView policy
  | ProfileView profile
  | RecordView business_record "validation_report option"
  | RecordPage jval "jstr list" "(business_record \<times> validation_report option) list" "int option"
  | Unkept

record receipt =
  rc_hash :: jstr
  rc_reply :: reply
  rc_expires :: int

record kernel =
  ks_persons :: "person table"
  ks_orgs :: "organization table"
  ks_policies :: "policy table"
  ks_profiles :: "profile table"
  ks_releases :: "release table"
  ks_records :: "business_record table"
  ks_remotes :: "authority table"
  ks_outgoing :: "outbound table"
  ks_incoming :: "staged table"
  ks_receipts :: "receipt table"
  ks_seqs :: "int table"

definition emptyState :: kernel where
  "emptyState = \<lparr>ks_persons = [], ks_orgs = [], ks_policies = [], ks_profiles = [], ks_releases = [], ks_records = [], ks_remotes = [],
     ks_outgoing = [], ks_incoming = [], ks_receipts = [], ks_seqs = []\<rparr>"

text \<open>The next sequence of an organization; a store without its counter goes on after the highest one in use.\<close>

definition nextRecordSeq :: "kernel \<Rightarrow> jstr \<Rightarrow> int" where
  "nextRecordSeq s org =
     (case map_of (ks_seqs s) org of
        Some n \<Rightarrow> n
      | None \<Rightarrow> fold (\<lambda>(_, r) high. if br_org r = org \<and> br_seq r > high then br_seq r else high) (ks_records s) 0 + 1)"

subsection \<open>Reservations\<close>

definition pending :: "staged \<Rightarrow> bool" where
  "pending x \<longleftrightarrow> \<not> sg_activated x \<and> \<not> sg_aborted x"

definition migrationReserved :: "kernel \<Rightarrow> jstr \<Rightarrow> bool" where
  "migrationReserved s org \<longleftrightarrow> list_ex (\<lambda>(_, x). pending x \<and> ev (sg_manifest x) ''organization_id'' = JStr org) (ks_incoming s)"

definition readySnapshots :: "kernel \<Rightarrow> snapshot list" where
  "readySnapshots s = List.map_filter (\<lambda>(_, x). if pending x \<and> sg_ready x \<noteq> None then sg_snapshot x else None) (ks_incoming s)"

datatype resource_kind = Persons | Policies | Profiles | Releases | Records

definition migrationResourceReserved :: "kernel \<Rightarrow> resource_kind \<Rightarrow> jstr \<Rightarrow> bool" where
  "migrationResourceReserved s kind r \<longleftrightarrow> list_ex (\<lambda>n. r \<in> set (case kind of
     Persons \<Rightarrow> map fst (sn_persons n) | Policies \<Rightarrow> sn_policies n | Profiles \<Rightarrow> map fst (sn_profiles n)
   | Releases \<Rightarrow> map fst (sn_releases n) | Records \<Rightarrow> sn_records n)) (readySnapshots s)"

definition person_keys :: "person \<Rightarrow> jstr list" where
  "person_keys p = pe_keys p @ pe_retired p"

definition migrationKeyReserved :: "kernel \<Rightarrow> jstr \<Rightarrow> bool" where
  "migrationKeyReserved s key \<longleftrightarrow> list_ex (\<lambda>n. list_ex (\<lambda>(_, p). key \<in> set (person_keys p)) (sn_persons n) \<or>
     list_ex (\<lambda>(_, i). il_key i = key) (sn_installations n)) (readySnapshots s)"

definition migrationProfileReserved :: "kernel \<Rightarrow> jstr \<Rightarrow> jstr \<Rightarrow> jstr \<Rightarrow> bool" where
  "migrationProfileReserved s publisher name version \<longleftrightarrow>
     list_ex (\<lambda>n. list_ex (\<lambda>(_, p). pr_publisher p = publisher \<and> pr_name p = name \<and> pr_version p = version) (sn_profiles n)) (readySnapshots s)"

definition migrationModuleReserved :: "kernel \<Rightarrow> jstr \<Rightarrow> bool" where
  "migrationModuleReserved s m \<longleftrightarrow> list_ex (\<lambda>n. list_ex (\<lambda>(_, r). re_module r = m) (sn_releases n)) (readySnapshots s)"

definition migrationInstallationReserved :: "kernel \<Rightarrow> jstr \<Rightarrow> bool" where
  "migrationInstallationReserved s i \<longleftrightarrow> list_ex (\<lambda>n. i \<in> set (map fst (sn_installations n))) (readySnapshots s)"

subsection \<open>Permissions\<close>

definition MANAGEMENT :: "jstr list" where
  "MANAGEMENT = map js [''members.manage'', ''policies.create'', ''profiles.publish'', ''releases.publish'', ''installations.manage'',
     ''authority.manage'']"

text \<open>A list of texts, or nothing when some element is not a text.\<close>

definition texts_of :: "jval \<Rightarrow> jstr list option" where
  "texts_of v = (case array_of v of None \<Rightarrow> None | Some vs \<Rightarrow> if list_all (\<lambda>x. str_of x \<noteq> None) vs then Some (map (the \<circ> str_of) vs) else None)"

definition distinct_texts :: "nat \<Rightarrow> nat \<Rightarrow> jstr list \<Rightarrow> jval \<Rightarrow> dtp_error \<Rightarrow> dtp_error + jstr list" where
  "distinct_texts lo hi allowed v refusal =
     (case texts_of v of
        None \<Rightarrow> Inl refusal
      | Some ts \<Rightarrow> if lo \<le> length ts \<and> length ts \<le> hi \<and> distinct ts \<and> set ts \<subseteq> set allowed then Inr ts else Inl refusal)"

definition checkPermissions :: "jval \<Rightarrow> dtp_error + jstr list" where
  "checkPermissions v = ebind (distinct_texts 0 (length MANAGEMENT) MANAGEMENT v (DtpError ''invalid'' 400)) (\<lambda>ts. Inr (sort ts))"

definition activeMember :: "kernel \<Rightarrow> organization \<Rightarrow> jstr \<Rightarrow> int \<Rightarrow> bool" where
  "activeMember s o' i now \<longleftrightarrow> map_of (ks_persons s) i \<noteq> None \<and>
     (i \<in> set (og_controllers o') \<or> (case map_of (og_members o') i of None \<Rightarrow> False | Some m \<Rightarrow> mb_active m \<and> mb_expires m > now))"

text \<open>The latest revocation of a person in a company's history; \<open>None\<close> stands for minus infinity.\<close>

definition revokes :: "jstr \<Rightarrow> command \<Rightarrow> bool" where
  "revokes i c \<longleftrightarrow> cm_action c = js ''membership.revoke'' \<and> ev (cm_payload c) ''person_id'' = JStr i"

definition revokedAt :: "organization \<Rightarrow> jstr \<Rightarrow> int option" where
  "revokedAt o' i = fold (\<lambda>c at. if revokes i c then Some (case at of None \<Rightarrow> cm_issued c | Some n \<Rightarrow> max n (cm_issued c)) else at) (og_history o') None"

definition after_revocation :: "int \<Rightarrow> int option \<Rightarrow> bool" where
  "after_revocation t at = (case at of None \<Rightarrow> True | Some n \<Rightarrow> t > n)"

text \<open>A policy always has a history; the instant of its last revision is the command's that made it.\<close>

definition grantCurrent :: "organization \<Rightarrow> policy \<Rightarrow> jstr \<Rightarrow> bool" where
  "grantCurrent o' p i \<longleftrightarrow> po_history p \<noteq> [] \<and> after_revocation (cm_issued (last (po_history p))) (revokedAt o' i)"

definition management :: "kernel \<Rightarrow> organization \<Rightarrow> command \<Rightarrow> string \<Rightarrow> host \<Rightarrow> dtp_error + unit" where
  "management s o' c action ctx =
     demand (cm_by_person c \<and> activeMember s o' (cm_actor c) (ho_now ctx) \<and>
       (cm_actor c \<in> set (og_controllers o') \<or>
        (case map_of (og_members o') (cm_actor c) of None \<Rightarrow> False | Some m \<Rightarrow> js action \<in> set (mb_permissions m)))) ''forbidden'' 403"

definition person_signed :: "kernel \<Rightarrow> jstr list \<Rightarrow> jstr \<Rightarrow> bool" where
  "person_signed s signers i \<longleftrightarrow> (case map_of (ks_persons s) i of None \<Rightarrow> False | Some p \<Rightarrow> list_ex (\<lambda>k. k \<in> set signers) (pe_keys p))"

definition check_quorum :: "kernel \<Rightarrow> jstr list \<Rightarrow> int \<Rightarrow> jstr list \<Rightarrow> dtp_error + unit" where
  "check_quorum s is threshold signers = demand (int (length (filter (person_signed s signers) is)) \<ge> threshold) ''approval_required'' 403"

definition check_controller :: "kernel \<Rightarrow> organization \<Rightarrow> command \<Rightarrow> jstr list \<Rightarrow> dtp_error + unit" where
  "check_controller s o' c signers =
     ebind (demand (cm_by_person c \<and> cm_actor c \<in> set (og_controllers o')) ''forbidden'' 403) (\<lambda>_.
     check_quorum s (og_controllers o') (og_threshold o') signers)"

definition check_steward :: "kernel \<Rightarrow> organization \<Rightarrow> policy \<Rightarrow> command \<Rightarrow> jstr list \<Rightarrow> host \<Rightarrow> dtp_error + unit" where
  "check_steward s o' p c signers ctx =
     ebind (demand (cm_by_person c \<and> cm_actor c \<in> set (po_stewards p) \<and> activeMember s o' (cm_actor c) (ho_now ctx)) ''forbidden'' 403) (\<lambda>_.
     check_quorum s (filter (\<lambda>i. activeMember s o' i (ho_now ctx)) (po_stewards p)) (po_threshold p) signers)"

definition grant_applies :: "jstr \<Rightarrow> jstr \<Rightarrow> string \<Rightarrow> int \<Rightarrow> policy_grant \<Rightarrow> bool" where
  "grant_applies i resource action now g \<longleftrightarrow> gr_person g = i \<and> js action \<in> set (gr_actions g) \<and> gr_expires g > now \<and>
     (case gr_resources g of None \<Rightarrow> True | Some rs \<Rightarrow> resource \<in> set rs)"

definition granted :: "kernel \<Rightarrow> organization \<Rightarrow> policy \<Rightarrow> jstr \<Rightarrow> string \<Rightarrow> int \<Rightarrow> jstr \<Rightarrow> bool" where
  "granted s o' p resource action now i \<longleftrightarrow>
     activeMember s o' i now \<and> grantCurrent o' p i \<and> list_ex (grant_applies i resource action now) (po_grants p)"

text \<open>The person a command acts for: its actor, or the one who asked an installation, or the installation's sponsor.\<close>

definition acting_for :: "organization \<Rightarrow> command \<Rightarrow> jstr option" where
  "acting_for o' c =
     (if cm_by_person c then Some (cm_actor c)
      else case cm_requested_by c of Some i \<Rightarrow> Some i | None \<Rightarrow> map_option il_sponsor (map_of (og_installations o') (cm_actor c)))"

definition dataAllowed :: "kernel \<Rightarrow> jstr \<Rightarrow> organization \<Rightarrow> jstr \<Rightarrow> policy \<Rightarrow> jstr \<Rightarrow> string \<Rightarrow> command \<Rightarrow> host \<Rightarrow> bool" where
  "dataAllowed s org o' pid p resource action c ctx \<longleftrightarrow>
     po_org p = org \<and> og_active o' \<and>
     (cm_by_person c \<or>
      (case map_of (og_installations o') (cm_actor c) of
         None \<Rightarrow> False
       | Some i \<Rightarrow> il_active i \<and> il_expires i > ho_now ctx \<and> pid \<in> set (il_policies i) \<and> js action \<in> set (il_actions i))) \<and>
     (case acting_for o' c of None \<Rightarrow> False | Some i \<Rightarrow> granted s o' p resource action (ho_now ctx) i)"

subsection \<open>Policies\<close>

definition YEAR :: int where "YEAR = 366 * 86400000"

definition uuid_list :: "nat \<Rightarrow> nat \<Rightarrow> jval \<Rightarrow> dtp_error \<Rightarrow> dtp_error + jstr list" where
  "uuid_list lo hi v refusal =
     (case texts_of v of
        None \<Rightarrow> Inl refusal
      | Some ts \<Rightarrow> if lo \<le> length ts \<and> length ts \<le> hi \<and> distinct ts \<and> list_all isUuid ts then Inr ts else Inl refusal)"

definition read_grant :: "kernel \<Rightarrow> organization \<Rightarrow> command \<Rightarrow> host \<Rightarrow> jval \<Rightarrow> dtp_error + policy_grant" where
  "read_grant s o' c ctx g =
     ebind (demand (exact_members [''person_id'', ''actions'', ''resource_ids'', ''expires_at''] g) ''invalid'' 400) (\<lambda>_.
     ebind (require (DtpError ''invalid'' 400) (str_of (ev g ''person_id''))) (\<lambda>i.
     ebind (demand (activeMember s o' i (ho_now ctx)) ''invalid'' 400) (\<lambda>_.
     ebind (distinct_texts 1 3 (map js [''read'', ''write'', ''export'']) (ev g ''actions'') (DtpError ''invalid'' 400)) (\<lambda>actions.
     ebind (if ev g ''resource_ids'' = JStr (js ''*'') then Inr None
       else ebind (uuid_list 1 128 (ev g ''resource_ids'') (DtpError ''invalid'' 400)) (\<lambda>rs. Inr (Some rs))) (\<lambda>resources.
     ebind (read_instant (ev g ''expires_at'')) (\<lambda>expires.
     ebind (demand (expires > ho_now ctx \<and> expires \<le> ho_now ctx + YEAR) ''invalid'' 400) (\<lambda>_.
     ebind (demand (i \<in> set (og_controllers o') \<or>
         (case map_of (og_members o') i of None \<Rightarrow> False | Some m \<Rightarrow> expires \<le> mb_expires m)) ''forbidden'' 403) (\<lambda>_.
     ebind (demand (after_revocation (cm_issued c) (revokedAt o' i)) ''invalid'' 400) (\<lambda>_.
     Inr \<lparr>gr_person = i, gr_actions = actions, gr_resources = resources, gr_expires = expires\<rparr>)))))))))"

text \<open>\<open>checkPolicy\<close> of the policy that the payload describes, whose last revision is the command.\<close>

definition read_policy :: "kernel \<Rightarrow> jstr \<Rightarrow> organization \<Rightarrow> policy option \<Rightarrow> command \<Rightarrow> host \<Rightarrow> dtp_error + policy" where
  "read_policy s org o' old c ctx =
     (let p = cm_payload c in
      ebind (require (DtpError ''invalid'' 400) (str_of (ev p ''classification''))) (\<lambda>class.
      ebind (demand (class \<in> set (map js [''business'', ''personnel''])) ''invalid'' 400) (\<lambda>_.
      ebind (require (DtpError ''invalid'' 400) (texts_of (ev p ''stewards''))) (\<lambda>stewards.
      ebind (demand (0 < length stewards \<and> length stewards \<le> 8 \<and> distinct stewards \<and>
          list_all (\<lambda>i. activeMember s o' i (ho_now ctx)) stewards) ''invalid'' 400) (\<lambda>_.
      ebind (require (DtpError ''invalid'' 400) (safe_integer (ev p ''threshold''))) (\<lambda>threshold.
      ebind (demand (1 \<le> threshold \<and> threshold \<le> int (length stewards)) ''invalid'' 400) (\<lambda>_.
      ebind (require (DtpError ''invalid'' 400) (array_of (ev p ''grants''))) (\<lambda>raw.
      ebind (demand (length raw \<le> 256) ''invalid'' 400) (\<lambda>_.
      ebind (traverse (read_grant s o' c ctx) raw) (\<lambda>grants.
      Inr \<lparr>po_org = org, po_revision = (case old of None \<Rightarrow> 0 | Some q \<Rightarrow> po_revision q) + 1, po_class = class, po_stewards = stewards,
        po_threshold = threshold, po_grants = grants, po_history = (case old of None \<Rightarrow> [] | Some q \<Rightarrow> po_history q) @ [c]\<rparr>))))))))))"

end
