(* ===== verification/Instants04.thy ===== *)
theory Instants04
  imports Wire04
begin

text \<open>
  The instants of protocol 0.4 as \<open>Date\<close> prints and reads them (\<open>instant\<close> in \<^verbatim>\<open>sdk/src/v04/wire.ts\<close>, and
  \<open>new Date(n).toISOString()\<close> wherever a host writes one): between the years 0 and 9999 printing and reading are inverse.
\<close>

subsection \<open>Printing\<close>

definition year_days :: "nat \<Rightarrow> nat" where
  "year_days y = (if leap_year y then 366 else 365)"

function year_from :: "nat \<Rightarrow> nat \<Rightarrow> nat \<times> nat" where
  "year_from y d = (if d < year_days y then (y, d) else year_from (Suc y) (d - year_days y))"
  by pat_completeness auto
termination by (relation "measure snd") (auto simp: year_days_def)

function month_from :: "nat \<Rightarrow> nat \<Rightarrow> nat \<Rightarrow> nat \<times> nat" where
  "month_from y m d = (if d < month_days y m \<or> m \<ge> 12 then (m, d) else month_from y (Suc m) (d - month_days y m))"
  by pat_completeness auto
termination by (relation "measure (\<lambda>(_, m, _). 12 - m)") auto

declare year_from.simps [simp del] month_from.simps [simp del]

definition two :: "nat \<Rightarrow> jstr" where
  "two n = zero_pad 2 (nat_str n)"

definition iso_millis :: "nat \<Rightarrow> jstr" where
  "iso_millis t =
     (let (y, r) = year_from 0 (t div 86400000); (m, d) = month_from y 1 r; ms = t mod 86400000 in
      zero_pad 4 (nat_str y) @ js ''-'' @ two m @ js ''-'' @ two (d + 1) @ js ''T'' @ two (ms div 3600000) @ js '':'' @
      two (ms div 60000 mod 60) @ js '':'' @ two (ms div 1000 mod 60) @ js ''.'' @ zero_pad 3 (nat_str (ms mod 1000)) @ js ''Z'')"

text \<open>A clock between the years 0 and 9999; the expanded years beyond them are left out.\<close>

definition LAST_DAY :: nat where "LAST_DAY = 3652425"

definition clock_range :: "int \<Rightarrow> bool" where
  "clock_range n \<longleftrightarrow> - int EPOCH_DAYS * 86400000 \<le> n \<and> n < (int LAST_DAY - int EPOCH_DAYS) * 86400000"

definition toISOString :: "int \<Rightarrow> dtp_error + jstr" where
  "toISOString n = (if clock_range n then Inr (iso_millis (nat (n + int EPOCH_DAYS * 86400000))) else Inl Thrown)"

subsection \<open>The calendar\<close>

definition days_before :: "nat \<Rightarrow> nat" where
  "days_before y = 365 * y + (y + 3) div 4 - (y + 99) div 100 + (y + 399) div 400"

lemma div_step:
  fixes y n :: nat
  assumes n: "0 < n"
  shows "(y + (n - 1)) div n + (if y mod n = 0 then 1 else 0) = Suc (y div n)"
proof -
  have split: "y = y div n * n + y mod n" by simp
  show ?thesis
  proof (cases "y mod n = 0")
    case True
    have "(n - 1 + y div n * n) div n = y div n" using n by (subst div_mult_self1) auto
    then have "(y div n * n + (n - 1)) div n = y div n" by (simp only: add.commute)
    then show ?thesis using True split by simp
  next
    case False
    have "y + (n - 1) = Suc (y div n) * n + (y mod n - 1)" using split False n by simp
    moreover have "(y mod n - 1) div n = 0" using n by (simp add: less_imp_diff_less)
    ultimately have "(y + (n - 1)) div n = Suc (y div n)" using n by (simp only: div_mult_self3)
    then show ?thesis using False by simp
  qed
qed

lemma div_up: "(Suc y + m) div Suc m = (y + m) div Suc m + (if y mod Suc m = 0 then 1 else 0)"
  using div_step [of "Suc m" y] div_add_self2 [of "Suc m" y] by simp

lemma leap_cycle: "y mod 400 = 0 \<Longrightarrow> y mod 100 = 0" "y mod 100 = 0 \<Longrightarrow> y mod 4 = 0" for y :: nat
  using dvd_trans [of 100 400 y] dvd_trans [of 4 100 y] by (simp_all add: mod_eq_0_iff_dvd)

lemma leap_arith:
  assumes "d \<le> 365 * y + (c :: nat)" "r \<Longrightarrow> q" "q \<Longrightarrow> p"
  shows "365 * Suc y + (c + (if p then 1 else 0)) - (d + (if q then 1 else 0)) + (e + (if r then 1 else 0)) =
    365 * y + c - d + e + (if p \<and> (\<not> q \<or> r) then 366 else 365)"
proof -
  obtain N where "365 * y + c = d + N" using assms(1) le_Suc_ex by blast
  then have "365 * Suc y + (c + i) = d + N + 365 + i" "365 * y + c - d = N" for i by simp_all
  then show ?thesis using assms(2,3) by (cases p; cases q; cases r) simp_all
qed

lemma days_before_Suc: "days_before (Suc y) = days_before y + year_days y"
proof -
  have up: "(Suc y + 3) div 4 = (y + 3) div 4 + (if y mod 4 = 0 then 1 else 0)"
    "(Suc y + 99) div 100 = (y + 99) div 100 + (if y mod 100 = 0 then 1 else 0)"
    "(Suc y + 399) div 400 = (y + 399) div 400 + (if y mod 400 = 0 then 1 else 0)"
    using div_up [of y 3] div_up [of y 99] div_up [of y 399] by (simp_all only: eval_nat_numeral(2) [symmetric] arith_simps Suc_numeral)
  have "(y + 99) div 100 \<le> (y + 99) div 4" by (rule div_le_mono2) simp_all
  then have "(y + 99) div 100 \<le> 365 * y + (y + 3) div 4"
    by (cases y) auto
  from leap_arith [OF this leap_cycle] show ?thesis
    unfolding days_before_def year_days_def leap_year_def up by simp
qed

lemma year_from_eq: "year_from y d = (y', r) \<Longrightarrow> days_before y' + r = days_before y + d \<and> r < year_days y' \<and> y \<le> y'"
proof (induction y d rule: year_from.induct)
  case (1 y d)
  show ?case
  proof (cases "d < year_days y")
    case True
    then show ?thesis using "1.prems" by (simp add: year_from.simps [of y d])
  next
    case False
    then have "year_from (Suc y) (d - year_days y) = (y', r)" using "1.prems" by (simp add: year_from.simps [of y d])
    from "1.IH" [OF False this] show ?thesis using False by (simp add: days_before_Suc)
  qed
qed

definition months_before :: "nat \<Rightarrow> nat \<Rightarrow> nat" where
  "months_before y m = sum_list (map (month_days y) [1..<m])"

lemma months_before_Suc: "0 < m \<Longrightarrow> months_before y (Suc m) = months_before y m + month_days y m"
  by (simp add: months_before_def)

lemma month_from_eq:
  "month_from y m d = (m', r) \<Longrightarrow> 1 \<le> m \<Longrightarrow> m \<le> 12 \<Longrightarrow> months_before y m + d < year_days y \<Longrightarrow>
     months_before y m' + r = months_before y m + d \<and> r < month_days y m' \<and> 1 \<le> m' \<and> m' \<le> 12"
proof (induction y m d rule: month_from.induct)
  case (1 y m d)
  show ?case
  proof (cases "d < month_days y m \<or> m \<ge> 12")
    case True
    have "d < month_days y 12" if "m = 12"
      using "1.prems"(4) that by (simp add: months_before_def year_days_def month_days_def upt_rec split: if_splits)
    then show ?thesis using True "1.prems" by (auto simp: month_from.simps [of y m d])
  next
    case False
    then have "month_from y (Suc m) (d - month_days y m) = (m', r)" using "1.prems"(1) by (simp add: month_from.simps [of y m d])
    from "1.IH" [OF False this] show ?thesis using False "1.prems" by (simp add: months_before_Suc)
  qed
qed

lemma year_bound: "d < LAST_DAY \<Longrightarrow> year_from 0 d = (y, r) \<Longrightarrow> y < 10000"
proof (rule ccontr)
  assume d: "d < LAST_DAY" "year_from 0 d = (y, r)" and "\<not> y < 10000"
  have "days_before a \<le> days_before b" if "a \<le> b" for a b using that by (induction rule: dec_induct) (simp_all add: days_before_Suc)
  then have "days_before 10000 \<le> days_before y" using \<open>\<not> y < 10000\<close> by simp
  moreover have "days_before 10000 = LAST_DAY" "days_before 0 = 0" by (simp_all add: days_before_def LAST_DAY_def)
  ultimately show False using year_from_eq [OF d(2)] d(1) by simp
qed

subsection \<open>Printing and reading\<close>

lemma length_padded: "0 < k \<Longrightarrow> n < 10 ^ k \<Longrightarrow> length (zero_pad k (nat_str n)) = k"
  using length_nat_str_le [of k n] by simp

lemma padded_digits: "list_all is_digit (zero_pad k (nat_str n))"
  using nat_str_digits by (auto simp: zero_pad_def list_all_iff) (simp_all add: is_digit_def)


lemma fields_of_text:
  assumes "length y = 4" "length mo = 2" "length d = 2" "length h = 2" "length mi = 2" "length se = 2" "length ms = 3"
    and s: "s = y @ js ''-'' @ mo @ js ''-'' @ d @ js ''T'' @ h @ js '':'' @ mi @ js '':'' @ se @ js ''.'' @ ms @ js ''Z''"
  shows "number_at 0 4 s = decimal_value y" "number_at 5 2 s = decimal_value mo" "number_at 8 2 s = decimal_value d"
    "number_at 11 2 s = decimal_value h" "number_at 14 2 s = decimal_value mi" "number_at 17 2 s = decimal_value se"
    "number_at 20 3 s = decimal_value ms"
    "fits ''dddd-dd-ddTdd:dd:dd.dddZ'' s \<longleftrightarrow> list_all is_digit (y @ mo @ d @ h @ mi @ se @ ms)"
proof -
  have one: "length (js [c]) = 1" for c by simp
  have "\<exists>a b c d. y = [a, b, c, d]" "\<exists>a b. mo = [a, b]" "\<exists>a b. d = [a, b]" "\<exists>a b. h = [a, b]" "\<exists>a b. mi = [a, b]" "\<exists>a b. se = [a, b]"
    "\<exists>a b c. ms = [a, b, c]"
    using assms(1-7) by (simp_all add: length_Suc_conv numeral_eq_Suc) blast+
  then show "number_at 0 4 s = decimal_value y" "number_at 5 2 s = decimal_value mo" "number_at 8 2 s = decimal_value d"
    "number_at 11 2 s = decimal_value h" "number_at 14 2 s = decimal_value mi" "number_at 17 2 s = decimal_value se"
    "number_at 20 3 s = decimal_value ms"
    "fits ''dddd-dd-ddTdd:dd:dd.dddZ'' s \<longleftrightarrow> list_all is_digit (y @ mo @ d @ h @ mi @ se @ ms)"
    unfolding s by (auto simp: number_at_def fits_def js_def)
qed

lemma millis_of_day: "((t mod 86400000 div 3600000) * 60 + t mod 86400000 div 60000 mod 60) * 60 + t mod 86400000 div 1000 mod 60 =
    t mod 86400000 div 1000" for t :: nat
proof -
  have "t mod 86400000 div 60000 = t mod 86400000 div 1000 div 60" "t mod 86400000 div 3600000 = t mod 86400000 div 1000 div 60 div 60"
    by (simp_all add: div_mult2_eq [symmetric])
  then show ?thesis by (simp add: mult.commute)
qed

lemma read_iso_millis:
  assumes "t < LAST_DAY * 86400000"
  shows "instant_text (iso_millis t) \<and> instant_millis (iso_millis t) = t"
proof -
  obtain y r where y: "year_from 0 (t div 86400000) = (y, r)" by (metis surj_pair)
  obtain m d where m: "month_from y 1 r = (m, d)" by (metis surj_pair)
  have day: "t div 86400000 < LAST_DAY" using assms by (simp add: less_mult_imp_div_less)
  have r: "days_before y + r = t div 86400000" "r < year_days y" "y < 10000"
    using year_from_eq [OF y] year_bound [OF day y] by (simp_all add: days_before_def)
  have d: "months_before y m + d = r" "d < month_days y m" "1 \<le> m" "m \<le> 12"
    using month_from_eq [OF m] r(2) by (simp_all add: months_before_def)
  have "month_days y m \<le> 31" using d(3,4) by (auto simp: month_days_def numeral_eq_Suc le_Suc_eq)
  define ms where "ms = t mod 86400000"
  have ms: "ms < 86400000" "ms div 3600000 < 24" by (simp_all add: ms_def less_mult_imp_div_less)
  have shown: "iso_millis t = zero_pad 4 (nat_str y) @ js ''-'' @ two m @ js ''-'' @ two (d + 1) @ js ''T'' @ two (ms div 3600000) @ js '':'' @
      two (ms div 60000 mod 60) @ js '':'' @ two (ms div 1000 mod 60) @ js ''.'' @ zero_pad 3 (nat_str (ms mod 1000)) @ js ''Z''"
    using m by (simp add: iso_millis_def y ms_def Let_def)
  have small: "m < 100" "d + 1 < 100" "ms div 3600000 < 100" "ms div 60000 mod 60 < 100" "ms div 1000 mod 60 < 100" "ms mod 1000 < 1000"
    using d \<open>month_days y m \<le> 31\<close> ms by (simp_all add: order.strict_trans [of _ 60 100])
  have lengths: "length (zero_pad 4 (nat_str y)) = 4" "length (two m) = 2" "length (two (d + 1)) = 2" "length (two (ms div 3600000)) = 2"
      "length (two (ms div 60000 mod 60)) = 2" "length (two (ms div 1000 mod 60)) = 2" "length (zero_pad 3 (nat_str (ms mod 1000))) = 3"
    unfolding two_def using small r(3) by (intro length_padded; simp)+
  note f = fields_of_text [OF lengths shown]
  have sixty: "a mod 60 \<le> 59" for a :: nat using mod_less_divisor [of 60 a] by simp
  have "instant_text (iso_millis t)"
    using d small ms f padded_digits sixty by (simp add: instant_text_def real_date_def real_time_def two_def Suc_le_eq)
  moreover have "days_from_zero y m (d + 1) = t div 86400000"
    using r(1) unfolding d(1) [symmetric] days_from_zero_def days_before_def months_before_def by (simp add: ac_simps)
  then have "instant_millis (iso_millis t) =
      t div 86400000 * 86400000 + ((ms div 3600000 * 60 + ms div 60000 mod 60) * 60 + ms div 1000 mod 60) * 1000 + ms mod 1000"
    using f by (simp add: instant_millis_def two_def)
  then have "instant_millis (iso_millis t) = t div 86400000 * 86400000 + (ms div 1000 * 1000 + ms mod 1000)"
    using millis_of_day [of t] unfolding ms_def by (simp only: add.assoc)
  then have "instant_millis (iso_millis t) = t" by (simp add: ms_def)
  ultimately show ?thesis by simp
qed

text \<open>
  Instants survive their text form: the text that a host writes for an instant of its clock is an instant of the protocol,
  and reading it gives the same millisecond.
\<close>
theorem instant_roundtrip:
  assumes "toISOString n = Inr s"
  shows "read_instant (JStr s) = Inr n"
proof -
  have n: "clock_range n" "s = iso_millis (nat (n + int EPOCH_DAYS * 86400000))" using assms by (auto simp: toISOString_def split: if_splits)
  then have "nat (n + int EPOCH_DAYS * 86400000) < LAST_DAY * 86400000" by (simp add: clock_range_def algebra_simps nat_less_iff)
  from read_iso_millis [OF this] n show ?thesis by (simp add: read_instant_def clock_range_def)
qed

theorem instant_roundtrip_witness: "read_instant (JStr (js ''0000-01-01T00:00:05.007Z'')) = Inr (-62167219194993)"
proof -
  have "nat_str 0 = js ''0''" "nat_str 1 = js ''1''" "nat_str 5 = js ''5''" "nat_str 7 = js ''7''"     by code_simp+
  moreover have "year_from 0 0 = (0, 0)" "month_from 0 1 0 = (1, 0)"
    by (simp_all add: year_from.simps month_from.simps year_days_def month_days_def)
  ultimately have "iso_millis 5007 = zero_pad 4 (js ''0'') @ js ''-'' @ zero_pad 2 (js ''1'') @ js ''-'' @ zero_pad 2 (js ''1'') @ js ''T'' @
      zero_pad 2 (js ''0'') @ js '':'' @ zero_pad 2 (js ''0'') @ js '':'' @ zero_pad 2 (js ''5'') @ js ''.'' @ zero_pad 3 (js ''7'') @ js ''Z''"
    by (simp add: iso_millis_def two_def)
  also have "\<dots> = js ''0000-01-01T00:00:05.007Z''" by code_simp
  finally have "iso_millis 5007 = js ''0000-01-01T00:00:05.007Z''" .
  moreover have "nat (-62167219194993 + int EPOCH_DAYS * 86400000) = 5007" "clock_range (-62167219194993)" by (simp_all add: clock_range_def EPOCH_DAYS_def LAST_DAY_def)
  ultimately have "toISOString (-62167219194993) = Inr (js ''0000-01-01T00:00:05.007Z'')" by (simp only: toISOString_def if_True)
  then show ?thesis by (rule instant_roundtrip)
qed

end
