(* ===== verification/Federation04.thy ===== *)
theory Federation04
  imports Kernel Instants04
begin

text \<open>
  \<^verbatim>\<open>sdk/src/v04/federation.ts\<close>: the short-lived tokens by which a host states that it carries a company, what another host
  accepts of them, and how a company's cached location moves on.
\<close>

text \<open>
  What the platform gives: Ed25519 verification and signing, SHA-256 with its hexadecimal text, the secret of the host's
  key, and the third-party validator of the command schema.
\<close>

record platform =
  pl_verify :: "byte list \<Rightarrow> byte list \<Rightarrow> byte list \<Rightarrow> bool"
  pl_sign :: "byte list \<Rightarrow> byte list \<Rightarrow> byte list"
  pl_secret :: "byte list"
  pl_hash :: "byte list \<Rightarrow> jstr"
  pl_schema :: "jval \<Rightarrow> bool"

definition endpoint_value :: "jstr \<Rightarrow> jstr \<Rightarrow> jval" where
  "endpoint_value audience key = JObj [(js ''audience'', JStr audience), (js ''key_id'', JStr key)]"

definition authorityIssue :: "platform \<Rightarrow> kernel \<Rightarrow> jstr \<Rightarrow> host \<Rightarrow> dtp_error + jval" where
  "authorityIssue pf s org ctx =
     ebind (require (DtpError ''not_found'' 404) (map_of (ks_orgs s) org)) (\<lambda>o'.
     ebind (demand (og_active o') ''not_found'' 404) (\<lambda>_.
     ebind (toISOString (ho_now ctx)) (\<lambda>issued.
     ebind (toISOString (ho_now ctx + 60000)) (\<lambda>expires.
     signToken (pl_sign pf) (JObj [(js ''kind'', JStr (js ''organization-authority'')), (js ''issuer'', JStr (ho_audience ctx)),
       (js ''issued_at'', JStr issued), (js ''expires_at'', JStr expires), (js ''organization_id'', JStr org),
       (js ''generation'', JNum (JInt (og_generation o'))), (js ''host'', endpoint_value (ho_audience ctx) (ho_key ctx))]) ctx (pl_secret pf)))))"

subsection \<open>Accepting an authority\<close>

definition AUTHORITY_FIELDS :: "string list" where
  "AUTHORITY_FIELDS = [''kind'', ''issuer'', ''issued_at'', ''expires_at'', ''organization_id'', ''generation'', ''host'']"

definition read_authority :: "platform \<Rightarrow> jval \<Rightarrow> host \<Rightarrow> dtp_error + jstr \<times> authority" where
  "read_authority pf token ctx =
     ebind (verifyToken (pl_verify pf) token ctx ''organization-authority'') (\<lambda>b.
     ebind (exact_fields AUTHORITY_FIELDS b) (\<lambda>_.
     ebind (exact_fields [''audience'', ''key_id''] (ev b ''host'')) (\<lambda>_.
     ebind (demand (uuid_value (ev b ''organization_id'')) ''invalid_authority'' 400) (\<lambda>_.
     ebind (require (DtpError ''invalid_authority'' 400) (safe_integer (ev b ''generation''))) (\<lambda>generation.
     ebind (demand (generation \<ge> 1) ''invalid_authority'' 400) (\<lambda>_.
     ebind (read_instant (ev b ''expires_at'')) (\<lambda>expires.
     ebind (read_instant (ev b ''issued_at'')) (\<lambda>issued.
     ebind (demand (ev b ''issuer'' \<noteq> JStr (ho_audience ctx) \<and> ev (ev b ''host'') ''audience'' = ev b ''issuer'' \<and>
         ev (ev b ''host'') ''key_id'' = ev token ''key_id'' \<and> expires - issued \<le> 60000 \<and> expires > issued) ''invalid_authority'' 403) (\<lambda>_.
     case (str_of (ev b ''organization_id''), str_of (ev b ''issuer''), str_of (ev token ''key_id'')) of
       (Some org, Some issuer, Some key) \<Rightarrow> Inr (org, \<lparr>au_token = token, au_generation = generation, au_issuer = issuer, au_key = key,
         au_issued = issued, au_expires = expires\<rparr>)
     | _ \<Rightarrow> Inl Thrown)))))))))"

definition same_host :: "authority \<Rightarrow> authority \<Rightarrow> bool" where
  "same_host a b \<longleftrightarrow> au_issuer a = au_issuer b \<and> au_key a = au_key b"

text \<open>This host handed the company to that one, and committed.\<close>

definition local_handoff :: "kernel \<Rightarrow> jstr \<Rightarrow> authority \<Rightarrow> bool" where
  "local_handoff s org a \<longleftrightarrow> list_ex (\<lambda>(_, m). ob_commit m \<noteq> None \<and> ev (ob_manifest m) ''organization_id'' = JStr org \<and>
     safe_integer (ev (ob_manifest m) ''generation'') = Some (au_generation a - 1) \<and>
     ev (ev (ob_manifest m) ''destination'') ''audience'' = JStr (au_issuer a) \<and>
     ev (ev (ob_manifest m) ''destination'') ''key_id'' = JStr (au_key a)) (ks_outgoing s)"

text \<open>The hop from the cached authority was verified: the digest of the token it started from is the cached token's.\<close>

definition verified_hop :: "platform \<Rightarrow> authority option \<Rightarrow> jstr option \<Rightarrow> dtp_error + bool" where
  "verified_hop pf previous from =
     (case (previous, from) of
        (Some q, Some d) \<Rightarrow> ebind (wire_digest (pl_hash pf) (au_token q)) (\<lambda>h. Inr (h = d))
      | _ \<Rightarrow> Inr False)"

definition check_local_company :: "organization option \<Rightarrow> authority \<Rightarrow> authority option \<Rightarrow> bool \<Rightarrow> dtp_error + unit" where
  "check_local_company local a previous moved =
     (case local of
        None \<Rightarrow> Inr ()
      | Some o' \<Rightarrow> demand (moved \<or>
          (case previous of None \<Rightarrow> False | Some q \<Rightarrow> same_host a q \<and> au_generation a = au_generation q)) ''relocation_required'' 403)"

definition check_previous :: "platform \<Rightarrow> authority \<Rightarrow> authority option \<Rightarrow> bool \<Rightarrow> dtp_error + unit" where
  "check_previous pf a previous moved =
     (case previous of
        None \<Rightarrow> Inr ()
      | Some q \<Rightarrow>
          ebind (demand (au_generation a \<ge> au_generation q) ''stale_authority'' 409) (\<lambda>_.
          ebind (demand (same_host a q \<or> moved) ''relocation_required'' 403) (\<lambda>_.
          if au_generation a = au_generation q then
            ebind (demand (same_host a q) ''conflict'' 409) (\<lambda>_.
            ebind (demand (au_issued a \<ge> au_issued q) ''stale_authority'' 409) (\<lambda>_.
            if au_issued a = au_issued q then
              ebind (wire_digest (pl_hash pf) (ev (au_token a) ''body'')) (\<lambda>h.
              ebind (wire_digest (pl_hash pf) (ev (au_token q) ''body'')) (\<lambda>h'.
              demand (h = h') ''conflict'' 409))
            else Inr ()))
          else Inr ())))"

definition acceptAuthority :: "platform \<Rightarrow> kernel \<Rightarrow> jval \<Rightarrow> host \<Rightarrow> jstr option \<Rightarrow> dtp_error + kernel \<times> jstr \<times> authority" where
  "acceptAuthority pf s token ctx from =
     ebind (read_authority pf token ctx) (\<lambda>(org, a).
     let local = map_of (ks_orgs s) org; previous = map_of (ks_remotes s) org in
     ebind (demand (case local of None \<Rightarrow> True | Some o' \<Rightarrow> \<not> og_active o' \<and> au_generation a > og_generation o') ''conflict'' 409) (\<lambda>_.
     ebind (verified_hop pf previous from) (\<lambda>hop.
     let moved = local_handoff s org a \<or> hop in
     ebind (check_local_company local a previous moved) (\<lambda>_.
     ebind (check_previous pf a previous moved) (\<lambda>_.
     Inr (s\<lparr>ks_remotes := AList.update org a (ks_remotes s)\<rparr>, org, a))))))"

definition authority_answer :: "jstr \<Rightarrow> authority \<Rightarrow> jval" where
  "authority_answer org a = JObj [(js ''organization_id'', JStr org), (js ''generation'', JNum (JInt (au_generation a))),
     (js ''host'', ev (ev (au_token a) ''body'') ''host''), (js ''expires_at'', ev (ev (au_token a) ''body'') ''expires_at'')]"

definition authorityAccept :: "platform \<Rightarrow> kernel \<Rightarrow> jval \<Rightarrow> host \<Rightarrow> dtp_error + kernel \<times> jstr \<times> authority" where
  "authorityAccept pf s token ctx = acceptAuthority pf s token ctx None"

definition requireRemoteAuthority :: "platform \<Rightarrow> kernel \<Rightarrow> jstr \<Rightarrow> host \<Rightarrow> dtp_error + kernel" where
  "requireRemoteAuthority pf s org ctx =
     ebind (require (DtpError ''authority_unavailable'' 403) (map_of (ks_remotes s) org)) (\<lambda>a.
     ebind (authorityAccept pf s (au_token a) ctx) (\<lambda>(s', _). Inr s'))"

subsection \<open>Relocation\<close>

text \<open>A token that was valid when it was issued.\<close>

definition historicalToken :: "platform \<Rightarrow> jval \<Rightarrow> string \<Rightarrow> host \<Rightarrow> dtp_error + jval" where
  "historicalToken pf token kind ctx =
     ebind (demand (truthy (ev token ''body'')) ''invalid_relocation'' 403) (\<lambda>_.
     ebind (read_instant (ev (ev token ''body'') ''issued_at'')) (\<lambda>issued.
     ebind (read_instant (ev (ev token ''body'') ''expires_at'')) (\<lambda>expires.
     ebind (demand (issued \<le> ho_now ctx + 30000 \<and> expires > issued \<and> expires - issued \<le> 3600000) ''invalid_relocation'' 403) (\<lambda>_.
     verifyToken (pl_verify pf) token (ctx\<lparr>ho_now := issued\<rparr>) kind))))"

definition hex64_value :: "jval \<Rightarrow> bool" where
  "hex64_value v = (case str_of v of None \<Rightarrow> False | Some t \<Rightarrow> hex64 t)"

definition READY_FIELDS :: "string list" where
  "READY_FIELDS = [''kind'', ''issuer'', ''issued_at'', ''expires_at'', ''manifest_hash'', ''migration_id'', ''organization_id'', ''generation'',
     ''source'', ''destination'', ''snapshot_hash'']"

text \<open>The handoff starts at the cached authority, or ended there already.\<close>

definition continues_handoff :: "authority \<Rightarrow> jval \<Rightarrow> bool \<Rightarrow> int \<Rightarrow> bool" where
  "continues_handoff previous commit current n \<longleftrightarrow>
     (case safe_integer (ev commit ''generation'') of
        None \<Rightarrow> False
      | Some g \<Rightarrow>
          if current then n = g + 1
          else g = au_generation previous \<and> n = au_generation previous + 1 \<and>
            ev (ev commit ''source'') ''audience'' = JStr (au_issuer previous) \<and> ev (ev commit ''source'') ''key_id'' = JStr (au_key previous))"

definition check_handoff :: "authority \<Rightarrow> jval \<Rightarrow> jval \<Rightarrow> jval \<Rightarrow> jval \<Rightarrow> jval \<Rightarrow> bool \<Rightarrow> dtp_error + unit" where
  "check_handoff previous nxt token commit commit_token org current =
     ebind (exact_fields (READY_FIELDS @ [''ready'']) commit) (\<lambda>_.
     ebind (exact_fields [''audience'', ''key_id''] (ev commit ''source'')) (\<lambda>_.
     ebind (exact_fields [''audience'', ''key_id''] (ev commit ''destination'')) (\<lambda>_.
     ebind (demand (hex64_value (ev commit ''manifest_hash'') \<and> hex64_value (ev commit ''snapshot_hash'') \<and> uuid_value (ev commit ''migration_id''))
         ''invalid_relocation'' 403) (\<lambda>_.
     ebind (demand (ev commit ''organization_id'' = org \<and> ev nxt ''organization_id'' = org \<and>
         ev commit ''issuer'' = ev (ev commit ''source'') ''audience'' \<and> ev commit_token ''key_id'' = ev (ev commit ''source'') ''key_id'' \<and>
         (case safe_integer (ev nxt ''generation'') of
            None \<Rightarrow> False | Some n \<Rightarrow> continues_handoff previous commit current n)) ''invalid_relocation'' 403) (\<lambda>_.
     demand (ev (ev commit ''destination'') ''audience'' = ev nxt ''issuer'' \<and> ev (ev commit ''destination'') ''key_id'' = ev token ''key_id'' \<and>
         ev (ev commit ''destination'') ''audience'' \<noteq> ev (ev commit ''source'') ''audience'' \<and>
         ev (ev commit ''destination'') ''key_id'' \<noteq> ev (ev commit ''source'') ''key_id'') ''invalid_relocation'' 403)))))"

definition same_digest :: "platform \<Rightarrow> jval \<Rightarrow> jval \<Rightarrow> dtp_error + bool" where
  "same_digest pf a b = ebind (wire_digest (pl_hash pf) a) (\<lambda>h. ebind (wire_digest (pl_hash pf) b) (\<lambda>h'. Inr (h = h')))"

definition check_readiness :: "platform \<Rightarrow> jval \<Rightarrow> jval \<Rightarrow> dtp_error + unit" where
  "check_readiness pf commit ready =
     ebind (exact_fields READY_FIELDS ready) (\<lambda>_.
     ebind (demand (ev ready ''issuer'' = ev (ev commit ''destination'') ''audience'' \<and>
         ev (ev commit ''ready'') ''key_id'' = ev (ev commit ''destination'') ''key_id'' \<and>
         list_all (\<lambda>f. ev ready f = ev commit f) [''manifest_hash'', ''migration_id'', ''organization_id'', ''generation'', ''snapshot_hash''])
         ''invalid_relocation'' 403) (\<lambda>_.
     ebind (same_digest pf (ev ready ''source'') (ev commit ''source'')) (\<lambda>source.
     ebind (demand source ''invalid_relocation'' 403) (\<lambda>_.
     ebind (same_digest pf (ev ready ''destination'') (ev commit ''destination'')) (\<lambda>destination.
     ebind (demand destination ''invalid_relocation'' 403) (\<lambda>_.
     ebind (read_instant (ev commit ''issued_at'')) (\<lambda>committed.
     ebind (read_instant (ev ready ''issued_at'')) (\<lambda>issued.
     ebind (read_instant (ev ready ''expires_at'')) (\<lambda>expires.
     demand (committed \<ge> issued \<and> committed < expires) ''invalid_relocation'' 403)))))))))"

definition authorityRelocate :: "platform \<Rightarrow> kernel \<Rightarrow> jval \<Rightarrow> jval \<Rightarrow> host \<Rightarrow> dtp_error + kernel \<times> jstr \<times> authority" where
  "authorityRelocate pf s token commit_token ctx =
     ebind (verifyToken (pl_verify pf) token ctx ''organization-authority'') (\<lambda>nxt.
     ebind (require (DtpError ''relocation_required'' 403)
       (Option.bind (str_of (ev nxt ''organization_id'')) (map_of (ks_remotes s)))) (\<lambda>previous.
     ebind (historicalToken pf (au_token previous) ''organization-authority'' ctx) (\<lambda>old.
     ebind (same_digest pf (au_token previous) token) (\<lambda>current.
     ebind (historicalToken pf commit_token ''migration-commit'' ctx) (\<lambda>commit.
     ebind (check_handoff previous nxt token commit commit_token (ev old ''organization_id'') current) (\<lambda>_.
     ebind (historicalToken pf (ev commit ''ready'') ''migration-ready'' ctx) (\<lambda>ready.
     ebind (check_readiness pf commit ready) (\<lambda>_.
     ebind (wire_digest (pl_hash pf) (au_token previous)) (\<lambda>from.
     acceptAuthority pf s token ctx (Some from))))))))))"


subsection \<open>A company's location only moves forward\<close>

text \<open>The later of two authorities: a higher generation, or the same one at the same host, observed no earlier.\<close>

definition no_later :: "authority \<Rightarrow> authority \<Rightarrow> bool" where
  "no_later a b \<longleftrightarrow> au_generation a < au_generation b \<or> (au_generation a = au_generation b \<and> same_host b a \<and> au_issued a \<le> au_issued b)"

lemma no_later_trans: "no_later a b \<Longrightarrow> no_later b c \<Longrightarrow> no_later a c"
  by (auto simp: no_later_def same_host_def)

definition moves_from :: "platform \<Rightarrow> kernel \<Rightarrow> jstr \<Rightarrow> authority \<Rightarrow> authority \<Rightarrow> jstr option \<Rightarrow> bool" where
  "moves_from pf s org a q from \<longleftrightarrow> local_handoff s org a \<or> (\<exists>h. from = Some h \<and> wire_digest (pl_hash pf) (au_token q) = Inr h)"

lemma verified_hop_ok: "verified_hop pf (Some q) from = Inr True \<longleftrightarrow> (\<exists>h. from = Some h \<and> wire_digest (pl_hash pf) (au_token q) = Inr h)"
  by (auto simp: verified_hop_def ebind_ok split: option.splits)

lemma check_previous_ok:
  assumes "check_previous pf a (Some q) moved = Inr ()"
  shows "no_later q a \<and> (same_host a q \<or> moved)"
  using assms by (auto simp: check_previous_def no_later_def ok_iff split: if_splits)

lemma acceptAuthority_ok:
  assumes "acceptAuthority pf s token ctx from = Inr (s', org, a)"
  shows "s' = s\<lparr>ks_remotes := AList.update org a (ks_remotes s)\<rparr>"
    "map_of (ks_remotes s) org = Some q \<Longrightarrow> no_later q a \<and> (same_host a q \<or> moves_from pf s org a q from)"
proof -
  let ?q = "map_of (ks_remotes s) org"
  from assms obtain hop where a: "s' = s\<lparr>ks_remotes := AList.update org a (ks_remotes s)\<rparr>" "verified_hop pf ?q from = Inr hop"
      "check_previous pf a ?q (local_handoff s org a \<or> hop) = Inr ()"
    by (auto simp: acceptAuthority_def Let_def ok_iff)
  show "s' = s\<lparr>ks_remotes := AList.update org a (ks_remotes s)\<rparr>" by (rule a(1))
  assume "map_of (ks_remotes s) org = Some q"
  then show "no_later q a \<and> (same_host a q \<or> moves_from pf s org a q from)"
    using a(2,3) check_previous_ok verified_hop_ok by (cases hop) (auto simp: moves_from_def)
qed

lemma authorityRelocate_accepts:
  "authorityRelocate pf s token commit ctx = Inr r \<Longrightarrow> \<exists>from. acceptAuthority pf s token ctx (Some from) = Inr r"
  by (auto simp: authorityRelocate_def ok_iff)

text \<open>The commands by which a host learns of authorities, each under the host's state of that moment; a refused one changes nothing.\<close>

datatype authority_command = Import jval | Relocate jval jval

definition authority_step :: "platform \<Rightarrow> kernel \<Rightarrow> host \<times> authority_command \<Rightarrow> dtp_error + kernel \<times> jstr \<times> authority" where
  "authority_step pf s x = (case x of
     (ctx, Import token) \<Rightarrow> authorityAccept pf s token ctx
   | (ctx, Relocate token commit) \<Rightarrow> authorityRelocate pf s token commit ctx)"

fun accepted :: "platform \<Rightarrow> kernel \<Rightarrow> (host \<times> authority_command) list \<Rightarrow> (jstr \<times> authority) list" where
  "accepted pf s [] = []"
| "accepted pf s (x # xs) =
     (case authority_step pf s x of
        Inl _ \<Rightarrow> accepted pf s xs
      | Inr (s', org, a) \<Rightarrow> (org, a) # accepted pf s' xs)"

lemma authority_step_accepts: "authority_step pf s x = Inr r \<Longrightarrow> \<exists>token ctx from. acceptAuthority pf s token ctx from = Inr r"
  by (cases x; cases "snd x") (auto simp: authority_step_def authorityAccept_def, use authorityRelocate_accepts in blast)

definition of_company :: "jstr \<Rightarrow> (jstr \<times> authority) list \<Rightarrow> authority list" where
  "of_company org xs = map snd (filter (\<lambda>(c, _). c = org) xs)"

lemma accepted_linear:
  "sorted_wrt no_later (of_company org (accepted pf s xs)) \<and>
   (\<forall>q. map_of (ks_remotes s) org = Some q \<longrightarrow> list_all (no_later q) (of_company org (accepted pf s xs)))"
proof (induction xs arbitrary: s)
  case (Cons x xs)
  show ?case
  proof (cases "authority_step pf s x")
    case (Inl e)
    then show ?thesis using Cons.IH by simp
  next
    case (Inr r)
    obtain s' c a where r: "r = (s', c, a)" by (cases r) auto
    obtain token ctx base where acc: "acceptAuthority pf s token ctx base = Inr (s', c, a)"
      using authority_step_accepts [OF Inr] r by auto
    note ok = acceptAuthority_ok [OF acc]
    have cached: "map_of (ks_remotes s') d = (if d = c then Some a else map_of (ks_remotes s) d)" for d
      by (simp add: ok(1) update_conv')
    have steps: "accepted pf s (x # xs) = (c, a) # accepted pf s' xs" using Inr r by simp
    show ?thesis
    proof (cases "c = org")
      case True
      have "list_all (no_later a) (of_company org (accepted pf s' xs))" "sorted_wrt no_later (of_company org (accepted pf s' xs))"
        using Cons.IH [of s'] cached True by auto
      then show ?thesis using ok(2) True unfolding steps by (auto simp: of_company_def list_all_iff intro: no_later_trans)
    next
      case False
      then show ?thesis using Cons.IH [of s'] cached unfolding steps by (simp add: of_company_def)
    qed
  qed
qed (simp add: of_company_def)

text \<open>C36. 
  A company's location only moves forward.  Of all the authorities of one company that a host accepts, by import or by
  relocation, under whatever clocks and pins, each later one has a higher generation, or the same generation at the same
  host and was issued no earlier: two hosts are never accepted for one generation, and no older observation returns.
\<close>
theorem accepted_authorities_are_linear: "sorted_wrt no_later (of_company org (accepted pf s xs))"
  using accepted_linear by simp

end
