(* ===== verification/Members04.thy ===== *)
theory Members04
  imports Federation04
begin

text \<open>
  The actions of \<^verbatim>\<open>sdk/src/v04/engine.ts\<close> on persons, companies and memberships.  An action gets the state, the
  verified command with the keys that signed it, and the kept answer when the same request was already executed; it refuses,
  or gives the new state, the answer, and whether the command goes into the company's history.
\<close>

subsection \<open>The helpers of the engine\<close>

record call =
  ca_host :: host
  ca_cmd :: command
  ca_signed :: "jstr list"
  ca_prev :: "reply option"

type_synonym effect = "dtp_error + kernel \<times> reply \<times> bool"

definition replay :: "kernel \<Rightarrow> call \<Rightarrow> effect \<Rightarrow> effect" where
  "replay s k fresh = (case ca_prev k of Some r \<Rightarrow> Inr (s, r, False) | None \<Rightarrow> fresh)"

definition text_field :: "string \<Rightarrow> jstr \<Rightarrow> jstr \<times> jval" where
  "text_field name v = (js name, JStr v)"

definition ca_now :: "call \<Rightarrow> int" where "ca_now k = ho_now (ca_host k)"

definition payload :: "call \<Rightarrow> jval" where "payload k = cm_payload (ca_cmd k)"

definition actor :: "call \<Rightarrow> jstr" where "actor k = cm_actor (ca_cmd k)"

definition read_id :: "jval \<Rightarrow> dtp_error + jstr" where
  "read_id v = (case str_of v of None \<Rightarrow> Inl (DtpError ''invalid'' 400) | Some t \<Rightarrow> if isUuid t then Inr t else Inl (DtpError ''invalid'' 400))"

definition read_ids :: "nat \<Rightarrow> nat \<Rightarrow> jval \<Rightarrow> dtp_error + jstr list" where
  "read_ids lo hi v = uuid_list lo hi v (DtpError ''invalid'' 400)"

definition read_text :: "nat \<Rightarrow> jval \<Rightarrow> dtp_error + jstr" where
  "read_text hi v =
     (case str_of v of
        None \<Rightarrow> Inl (DtpError ''invalid'' 400)
      | Some t \<Rightarrow> if t \<noteq> [] \<and> length t \<le> hi then Inr t else Inl (DtpError ''invalid'' 400))"

definition future :: "call \<Rightarrow> jval \<Rightarrow> dtp_error + int" where
  "future k v = ebind (read_instant v) (\<lambda>n. ebind (demand (n > ca_now k \<and> n \<le> ca_now k + YEAR) ''invalid'' 400) (\<lambda>_. Inr n))"

definition bound_key :: "kernel \<Rightarrow> jstr \<Rightarrow> bool" where
  "bound_key s key \<longleftrightarrow> list_ex (\<lambda>(_, p). key \<in> set (person_keys p)) (ks_persons s) \<or>
     list_ex (\<lambda>(_, o'). list_ex (\<lambda>(_, i). il_key i = key) (og_installations o')) (ks_orgs s)"

definition keyFree :: "kernel \<Rightarrow> jval \<Rightarrow> dtp_error + jstr" where
  "keyFree s v =
     ebind (valid_key v) (\<lambda>key.
     ebind (demand (registrableKey key) ''invalid'' 400) (\<lambda>_.
     ebind (demand (\<not> migrationKeyReserved s key) ''migration_reserved'' 409) (\<lambda>_.
     ebind (demand (\<not> bound_key s key) ''conflict'' 409) (\<lambda>_. Inr key))))"

fun check_new_keys :: "kernel \<Rightarrow> call \<Rightarrow> jval list \<Rightarrow> dtp_error + jstr list" where
  "check_new_keys s k [] = Inr []"
| "check_new_keys s k (v # vs) =
     ebind (keyFree s v) (\<lambda>key.
     ebind (demand (key \<in> set (ca_signed k)) ''approval_required'' 403) (\<lambda>_.
     ebind (check_new_keys s k vs) (\<lambda>keys. Inr (key # keys))))"

definition needOrg :: "kernel \<Rightarrow> call \<Rightarrow> dtp_error + jstr \<times> organization" where
  "needOrg s k =
     ebind (require (DtpError ''not_found'' 404) (cm_org (ca_cmd k))) (\<lambda>org.
     ebind (require (DtpError ''not_found'' 404) (map_of (ks_orgs s) org)) (\<lambda>o'. Inr (org, o')))"

definition currentOrg :: "kernel \<Rightarrow> call \<Rightarrow> dtp_error + jstr \<times> organization" where
  "currentOrg s k =
     ebind (needOrg s k) (\<lambda>(org, o').
     ebind (demand (cm_action (ca_cmd k) = js ''membership.accept'' \<or>
         (case acting_for o' (ca_cmd k) of None \<Rightarrow> False | Some i \<Rightarrow> activeMember s o' i (ca_now k))) ''not_found'' 404) (\<lambda>_.
     ebind (demand (og_active o') ''migrated'' 409) (\<lambda>_. Inr (org, o'))))"

definition asController :: "kernel \<Rightarrow> call \<Rightarrow> dtp_error + jstr \<times> organization" where
  "asController s k = ebind (currentOrg s k) (\<lambda>(org, o'). ebind (check_controller s o' (ca_cmd k) (ca_signed k)) (\<lambda>_. Inr (org, o')))"

definition manager :: "string \<Rightarrow> kernel \<Rightarrow> call \<Rightarrow> dtp_error + jstr \<times> organization" where
  "manager action s k =
     ebind (currentOrg s k) (\<lambda>(org, o'). ebind (management s o' (ca_cmd k) action (ca_host k)) (\<lambda>_. Inr (org, o')))"

definition put_org :: "jstr \<Rightarrow> organization \<Rightarrow> kernel \<Rightarrow> kernel" where
  "put_org org o' s = s\<lparr>ks_orgs := AList.update org o' (ks_orgs s)\<rparr>"

definition read_threshold :: "jval \<Rightarrow> jstr list \<Rightarrow> dtp_error + int" where
  "read_threshold v is =
     (case safe_integer v of
        None \<Rightarrow> Inl (DtpError ''invalid'' 400)
      | Some n \<Rightarrow> if 0 < n \<and> n \<le> int (length is) then Inr n else Inl (DtpError ''invalid'' 400))"

subsection \<open>Persons\<close>

definition person_register :: "platform \<Rightarrow> kernel \<Rightarrow> call \<Rightarrow> effect" where
  "person_register pf s k =
     (let c = ca_cmd k; p = payload k in
      ebind (exact_fields [''keys''] p) (\<lambda>_.
      ebind (demand (cm_by_person c \<and> cm_org c = None \<and> cm_requested_by c = Some (cm_actor c)) ''invalid'' 400) (\<lambda>_.
      ebind (personId (pl_hash pf) (cm_key c)) (\<lambda>i.
      ebind (demand (cm_actor c = i) ''invalid'' 400) (\<lambda>_.
      ebind (require (DtpError ''invalid'' 400) (texts_of (ev p ''keys''))) (\<lambda>keys.
      ebind (demand (keys \<noteq> [] \<and> length keys \<le> 8 \<and> distinct keys \<and> cm_key c \<in> set keys) ''invalid'' 400) (\<lambda>_.
      case ca_prev k of
        Some r \<Rightarrow>
          ebind (demand (case map_of (ks_persons s) i of None \<Rightarrow> False | Some q \<Rightarrow> cm_key c \<in> set (pe_keys q)) ''forbidden'' 403) (\<lambda>_. Inr (s, r, False))
      | None \<Rightarrow>
          ebind (demand (map_of (ks_persons s) i = None \<and> \<not> migrationResourceReserved s Persons i) ''conflict'' 409) (\<lambda>_.
          ebind (check_new_keys s k (map JStr keys)) (\<lambda>_.
          Inr (s\<lparr>ks_persons := AList.update i \<lparr>pe_keys = keys, pe_retired = [], pe_history = [c]\<rparr> (ks_persons s)\<rparr>,
            Answer (JObj [text_field ''person_id'' i]), False))))))))))"

definition person_rotate :: "kernel \<Rightarrow> call \<Rightarrow> effect" where
  "person_rotate s k =
     (let c = ca_cmd k; p = payload k; i = actor k in
      ebind (exact_fields [''add'', ''revoke''] p) (\<lambda>_.
      ebind (demand (cm_by_person c \<and> cm_org c = None) ''invalid'' 400) (\<lambda>_.
      ebind (demand (\<not> migrationResourceReserved s Persons i) ''migration_reserved'' 409) (\<lambda>_.
      replay s k (
      ebind (require Thrown (map_of (ks_persons s) i)) (\<lambda>q.
      ebind (require (DtpError ''invalid'' 400) (texts_of (ev p ''add''))) (\<lambda>new.
      ebind (require (DtpError ''invalid'' 400) (texts_of (ev p ''revoke''))) (\<lambda>old.
      ebind (demand (length new + length old \<le> 16 \<and> distinct (new @ old)) ''invalid'' 400) (\<lambda>_.
      ebind (check_new_keys s k (map JStr new)) (\<lambda>_.
      ebind (demand (set old \<subseteq> set (pe_keys q)) ''invalid'' 400) (\<lambda>_.
      let keys = filter (\<lambda>x. x \<notin> set old) (pe_keys q) @ new in
      ebind (demand (keys \<noteq> [] \<and> length keys \<le> 8) ''forbidden'' 403) (\<lambda>_.
      Inr (s\<lparr>ks_persons := AList.update i \<lparr>pe_keys = keys, pe_retired = pe_retired q @ old, pe_history = pe_history q @ [c]\<rparr> (ks_persons s)\<rparr>,
        Answer (JObj [text_field ''person_id'' i, (js ''keys'', JArr (map JStr keys))]), False)))))))))))))"

subsection \<open>Companies\<close>

definition organization_create :: "platform \<Rightarrow> kernel \<Rightarrow> call \<Rightarrow> effect" where
  "organization_create pf s k =
     (let c = ca_cmd k; p = payload k in
      ebind (exact_fields [''name'', ''nonce'', ''controllers'', ''threshold''] p) (\<lambda>_.
      ebind (require (DtpError ''invalid'' 400) (cm_org c)) (\<lambda>org.
      ebind (read_id (ev p ''nonce'')) (\<lambda>_.
      ebind (read_ids 1 8 (ev p ''controllers'')) (\<lambda>controllers.
      ebind (read_text 120 (ev p ''name'')) (\<lambda>name.
      ebind (demand (cm_by_person c) ''invalid'' 400) (\<lambda>_.
      ebind (organizationId (pl_hash pf) (cm_actor c) (ev p ''nonce'')) (\<lambda>i.
      ebind (demand (org = i \<and> cm_actor c \<in> set controllers) ''invalid'' 400) (\<lambda>_.
      ebind (read_threshold (ev p ''threshold'') controllers) (\<lambda>threshold.
      ebind (check_quorum s controllers (int (length controllers)) (ca_signed k)) (\<lambda>_.
      replay s k (
      ebind (demand (map_of (ks_orgs s) org = None \<and> \<not> migrationReserved s org) ''conflict'' 409) (\<lambda>_.
      Inr (put_org org \<lparr>og_name = name, og_controllers = controllers, og_threshold = threshold, og_generation = 1, og_active = True,
          og_members = [], og_invitations = [], og_installations = [], og_history = []\<rparr> s,
        Answer (JObj [text_field ''organization_id'' org]), True))))))))))))))"

definition organization_policy :: "kernel \<Rightarrow> call \<Rightarrow> effect" where
  "organization_policy s k =
     (let p = payload k in
      ebind (asController s k) (\<lambda>(org, o').
      ebind (exact_fields [''controllers'', ''threshold''] p) (\<lambda>_.
      ebind (read_ids 1 8 (ev p ''controllers'')) (\<lambda>controllers.
      ebind (read_threshold (ev p ''threshold'') controllers) (\<lambda>threshold.
      let new = filter (\<lambda>x. x \<notin> set (og_controllers o')) controllers in
      ebind (check_quorum s new (int (length new)) (ca_signed k)) (\<lambda>_.
      replay s k (
      Inr (put_org org (o'\<lparr>og_controllers := controllers, og_threshold := threshold\<rparr>) s, Answer (JObj [(js ''changed'', JBool True)]), True))))))))"

definition organizations_list :: "kernel \<Rightarrow> call \<Rightarrow> effect" where
  "organizations_list s k =
     ebind (exact_fields [] (payload k)) (\<lambda>_.
     ebind (demand (cm_by_person (ca_cmd k) \<and> cm_org (ca_cmd k) = None) ''invalid'' 400) (\<lambda>_.
     Inr (s, Answer (JArr (map (\<lambda>(org, o'). JObj [text_field ''id'' org, text_field ''name'' (og_name o'),
         text_field ''status'' (js (if og_active o' then ''active'' else ''migrated'')), (js ''generation'', JNum (JInt (og_generation o')))])
       (filter (\<lambda>(_, o'). activeMember s o' (actor k) (ca_now k)) (ks_orgs s)))), False)))"

subsection \<open>Memberships\<close>

definition within :: "jstr list \<Rightarrow> int \<Rightarrow> membership option \<Rightarrow> bool" where
  "within permissions expires m =
     (case m of None \<Rightarrow> False | Some m \<Rightarrow> set permissions \<subseteq> set (mb_permissions m) \<and> expires \<le> mb_expires m)"

definition map_values :: "('a \<Rightarrow> 'a) \<Rightarrow> 'a table \<Rightarrow> 'a table" where
  "map_values f = map (\<lambda>(i, x). (i, f x))"

definition membership_invite :: "kernel \<Rightarrow> call \<Rightarrow> effect" where
  "membership_invite s k =
     (let p = payload k in
      ebind (manager ''members.manage'' s k) (\<lambda>(org, o').
      ebind (exact_fields [''invitation_id'', ''person_id'', ''permissions'', ''expires_at''] p) (\<lambda>_.
      ebind (read_id (ev p ''invitation_id'')) (\<lambda>v.
      ebind (read_id (ev p ''person_id'')) (\<lambda>i.
      ebind (future k (ev p ''expires_at'')) (\<lambda>expires.
      ebind (checkPermissions (ev p ''permissions'')) (\<lambda>permissions.
      ebind (demand (map_of (ks_persons s) i \<noteq> None \<and> i \<notin> set (og_controllers o')) ''invalid'' 400) (\<lambda>_.
      ebind (demand (actor k \<in> set (og_controllers o') \<or> within permissions expires (map_of (og_members o') (actor k))) ''forbidden'' 403) (\<lambda>_.
      replay s k (
      ebind (demand (map_of (og_invitations o') v = None) ''conflict'' 409) (\<lambda>_.
      let used = map_values (\<lambda>x. if nv_person x = i then x\<lparr>nv_accepted := True\<rparr> else x) (og_invitations o');
          new = \<lparr>mb_permissions = permissions, mb_expires = expires, mb_active = True, mb_by = actor k, nv_person = i, nv_accepted = False\<rparr> in
      Inr (put_org org (o'\<lparr>og_invitations := AList.update v new used\<rparr>) s, Answer (JObj [text_field ''invitation_id'' v]), True))))))))))))"

definition membership_accept :: "kernel \<Rightarrow> call \<Rightarrow> effect" where
  "membership_accept s k =
     (let p = payload k; refused = DtpError ''forbidden'' 403 in
      ebind (currentOrg s k) (\<lambda>(org, o').
      ebind (exact_fields [''invitation_id''] p) (\<lambda>_.
      ebind (read_id (ev p ''invitation_id'')) (\<lambda>v.
      ebind (require refused (map_of (og_invitations o') v)) (\<lambda>x.
      ebind (demand (cm_by_person (ca_cmd k) \<and> nv_person x = actor k \<and> mb_active x \<and> mb_expires x > ca_now k) ''forbidden'' 403) (\<lambda>_.
      ebind (demand (activeMember s o' (mb_by x) (ca_now k) \<and> (mb_by x \<in> set (og_controllers o') \<or>
          (case map_of (og_members o') (mb_by x) of None \<Rightarrow> False | Some m \<Rightarrow> js ''members.manage'' \<in> set (mb_permissions m)))) ''forbidden'' 403) (\<lambda>_.
      ebind (demand (mb_by x \<in> set (og_controllers o') \<or> within (mb_permissions x) (mb_expires x) (map_of (og_members o') (mb_by x)))
          ''forbidden'' 403) (\<lambda>_.
      case ca_prev k of
        Some r \<Rightarrow>
          ebind (demand (case map_of (og_members o') (actor k) of None \<Rightarrow> False | Some m \<Rightarrow> mb_active m) ''forbidden'' 403) (\<lambda>_. Inr (s, r, False))
      | None \<Rightarrow>
          ebind (demand (\<not> nv_accepted x) ''conflict'' 409) (\<lambda>_.
          let m = \<lparr>mb_permissions = mb_permissions x, mb_expires = mb_expires x, mb_active = True, mb_by = mb_by x\<rparr> in
          Inr (put_org org (o'\<lparr>og_members := AList.update (actor k) m (og_members o'),
              og_invitations := AList.update v (x\<lparr>nv_accepted := True\<rparr>) (og_invitations o')\<rparr>) s,
            Answer (JObj [text_field ''joined'' org]), True))))))))))"

text \<open>A policy revision that grants the person was signed after the command.\<close>

definition granted_later :: "kernel \<Rightarrow> jstr \<Rightarrow> jstr \<Rightarrow> int \<Rightarrow> bool" where
  "granted_later s org i at \<longleftrightarrow> list_ex (\<lambda>(_, p). po_org p = org \<and> list_ex (\<lambda>g. gr_person g = i) (po_grants p) \<and>
     cm_issued (last (po_history p)) > at) (ks_policies s)"

definition membership_revoke :: "kernel \<Rightarrow> call \<Rightarrow> effect" where
  "membership_revoke s k =
     (let p = payload k in
      ebind (manager ''members.manage'' s k) (\<lambda>(org, o').
      ebind (exact_fields [''person_id''] p) (\<lambda>_.
      ebind (read_id (ev p ''person_id'')) (\<lambda>i.
      ebind (demand (i \<notin> set (og_controllers o')) ''forbidden'' 403) (\<lambda>_.
      replay s k (
      ebind (demand (\<not> granted_later s org i (cm_issued (ca_cmd k))) ''conflict'' 409) (\<lambda>_.
      let members = (case map_of (og_members o') i of
            None \<Rightarrow> og_members o' | Some m \<Rightarrow> AList.update i (m\<lparr>mb_active := False\<rparr>) (og_members o'));
          invitations = map_values (\<lambda>x. if nv_person x = i then x\<lparr>mb_active := False\<rparr> else x) (og_invitations o') in
      Inr (put_org org (o'\<lparr>og_members := members, og_invitations := invitations\<rparr>) s, Answer (JObj [(js ''revoked'', JBool True)]), True))))))))"

end
