(* ===== verification/Profiles04.thy ===== *)
theory Profiles04
  imports Kernel
begin

text \<open>
  \<^verbatim>\<open>sdk/src/v04/profiles.ts\<close>: the bounded schema dialect of profiles, the check of a body against a schema, and the kinds
  that subscribers select profiles by.
\<close>

subsection \<open>Schemas\<close>

definition own :: "jval \<Rightarrow> string \<Rightarrow> bool" where
  "own v k \<longleftrightarrow> ev v k \<noteq> JUndef"

definition schema_keys :: "jstr \<Rightarrow> string list option" where
  "schema_keys t = map_of
     [(js ''object'', [''type'', ''properties'', ''required'', ''additionalProperties'']), (js ''array'', [''type'', ''items'', ''maxItems'']),
      (js ''string'', [''type'', ''maxLength'']), (js ''integer'', [''type'', ''minimum'', ''maximum'']), (js ''boolean'', [''type'']),
      (js ''null'', [''type''])] t"

definition invalid_schema :: "bool \<Rightarrow> dtp_error + unit" where
  "invalid_schema ok = demand ok ''invalid_schema'' 400"

definition int_between :: "int \<Rightarrow> int \<Rightarrow> jval \<Rightarrow> bool" where
  "int_between lo hi v = (case safe_integer v of None \<Rightarrow> False | Some n \<Rightarrow> lo \<le> n \<and> n \<le> hi)"

text \<open>\<open>/^[a-zA-Z][a-zA-Z0-9_]{0,79}$/\<close>, and neither of two inherited names.\<close>

definition letter :: "cunit \<Rightarrow> bool" where
  "letter c \<longleftrightarrow> (0x61 \<le> c \<and> c \<le> 0x7a) \<or> (0x41 \<le> c \<and> c \<le> 0x5a)"

definition field_name :: "jstr \<Rightarrow> bool" where
  "field_name k \<longleftrightarrow> k \<noteq> [] \<and> letter (hd k) \<and> list_all (\<lambda>c. letter c \<or> is_digit c \<or> c = jc (CHR ''_'')) (tl k) \<and> length k \<le> 80 \<and>
     k \<notin> {js ''constructor'', js ''prototype''}"

text \<open>A length bound that is not an integer is refused further down, so here it refuses the values too.\<close>

definition enum_ok :: "jval \<Rightarrow> bool" where
  "enum_ok s \<longleftrightarrow> ev s ''type'' = JStr (js ''string'') \<and>
     (case (texts_of (ev s ''enum''), safe_integer (ev s ''maxLength'')) of
        (Some ts, Some n) \<Rightarrow> ts \<noteq> [] \<and> length ts \<le> 64 \<and> distinct ts \<and> list_all (\<lambda>t. int (length t) \<le> n) ts
      | _ \<Rightarrow> False)"

definition required_ok :: "jval \<Rightarrow> members \<Rightarrow> bool" where
  "required_ok v properties =
     (case texts_of v of None \<Rightarrow> False | Some ts \<Rightarrow> distinct ts \<and> list_all (\<lambda>t. map_of properties t \<noteq> None) ts)"

text \<open>What \<open>visit\<close> checks of a node before its children.\<close>

definition check_node :: "jval \<Rightarrow> dtp_error + jstr" where
  "check_node s =
     ebind (require (DtpError ''invalid_schema'' 400) (str_of (ev s ''type''))) (\<lambda>t.
     ebind (require (DtpError ''invalid_schema'' 400) (schema_keys t)) (\<lambda>keys.
     ebind (invalid_schema (own s ''nullable'' \<longrightarrow> ev s ''nullable'' = JBool True \<and> t \<noteq> js ''null'')) (\<lambda>_.
     ebind (invalid_schema (own s ''enum'' \<longrightarrow> enum_ok s)) (\<lambda>_.
     ebind (exact_fields (keys @ (if own s ''enum'' then [''enum''] else []) @ (if own s ''nullable'' then [''nullable''] else [])) s) (\<lambda>_.
     ebind (invalid_schema (t = js ''object'' \<longrightarrow> (case object_of (ev s ''properties'') of
         None \<Rightarrow> False | Some ps \<Rightarrow> length ps \<le> 64 \<and> ev s ''additionalProperties'' = JBool False \<and> required_ok (ev s ''required'') ps))) (\<lambda>_.
     ebind (invalid_schema (t = js ''array'' \<longrightarrow> int_between 0 256 (ev s ''maxItems''))) (\<lambda>_.
     ebind (invalid_schema (t = js ''string'' \<longrightarrow> int_between 1 65536 (ev s ''maxLength''))) (\<lambda>_.
     ebind (invalid_schema (t = js ''integer'' \<longrightarrow> (case (safe_integer (ev s ''minimum''), safe_integer (ev s ''maximum'')) of
         (Some a, Some b) \<Rightarrow> a \<le> b | _ \<Rightarrow> False))) (\<lambda>_.
     Inr t)))))))))"

lemma size_ev_less: "object_of s \<noteq> None \<Longrightarrow> own s k \<Longrightarrow> size (ev s k) < size s"
proof -
  assume "object_of s \<noteq> None" "own s k"
  then obtain kvs where "s = JObj kvs" "ev s k = member kvs (js k)" "member kvs (js k) \<noteq> JUndef" by (auto simp: own_def ev_def)
  then show ?thesis using member_in_set [of kvs "js k"] by (auto dest: size_member_less)
qed

function (sequential) visit_schema :: "nat \<Rightarrow> jval \<Rightarrow> nat \<Rightarrow> dtp_error + nat"
  and visit_fields :: "nat \<Rightarrow> members \<Rightarrow> nat \<Rightarrow> dtp_error + nat" where
  "visit_schema level s nodes =
     (if nodes + 1 > 256 \<or> level > 8 \<or> object_of s = None then Inl (DtpError ''invalid_schema'' 400)
      else
        ebind (check_node s) (\<lambda>t.
        if t = js ''object'' then (case ev s ''properties'' of JObj ps \<Rightarrow> visit_fields (level + 1) ps (nodes + 1) | _ \<Rightarrow> Inl Thrown)
        else if t = js ''array'' then
          (if own s ''items'' then visit_schema (level + 1) (ev s ''items'') (nodes + 1) else Inl (DtpError ''invalid_schema'' 400))
        else Inr (nodes + 1)))"
| "visit_fields level [] nodes = Inr nodes"
| "visit_fields level ((k, child) # ps) nodes =
     (if \<not> field_name k then Inl (DtpError ''invalid_schema'' 400)
      else ebind (visit_schema level child nodes) (visit_fields level ps))"
  by pat_completeness auto
termination
proof (relation "measure (case_sum (\<lambda>(_, s, _). size s) (\<lambda>(_, ps, _). Suc (size_list (size_prod (\<lambda>_. 0) size) ps)))", goal_cases)
  case (2 level s nodes t ps)
  then have "size (ev s ''properties'') < size s" by (intro size_ev_less) (auto simp: own_def)
  with 2 show ?case by simp
next
  case (3 level s nodes t)
  then show ?case using size_ev_less by auto
qed auto


definition checkSchema :: "jval \<Rightarrow> dtp_error + unit" where
  "checkSchema s = ebind (visit_schema 0 s 0) (\<lambda>_. Inr ())"

lemma size_member_value: "Some kvs = object_of v \<Longrightarrow> kv \<in> set kvs \<Longrightarrow> size (snd kv) < size v"
  by (cases kv; cases v) (auto dest: size_member_less)

text \<open>\<open>validateShape\<close>, for a schema that \<open>checkSchema\<close> admitted.\<close>

function validateShape :: "jval \<Rightarrow> jval \<Rightarrow> bool" where
  "validateShape s v =
     (if v = JNull \<and> ev s ''nullable'' = JBool True then True
      else case str_of (ev s ''type'') of
        None \<Rightarrow> False
      | Some t \<Rightarrow>
          if t = js ''null'' then v = JNull
          else if t = js ''boolean'' then v \<in> {JBool True, JBool False}
          else if t = js ''integer'' then
            (case (safe_integer v, safe_integer (ev s ''minimum''), safe_integer (ev s ''maximum'')) of
               (Some n, Some a, Some b) \<Rightarrow> a \<le> n \<and> n \<le> b | _ \<Rightarrow> False)
          else if t = js ''string'' then
            (case (str_of v, safe_integer (ev s ''maxLength'')) of
               (Some x, Some n) \<Rightarrow> int (length x) \<le> n \<and> (case array_of (ev s ''enum'') of None \<Rightarrow> True | Some es \<Rightarrow> v \<in> set es)
             | _ \<Rightarrow> False)
          else if t = js ''array'' then
            (case array_of v of
               None \<Rightarrow> False
             | Some vs \<Rightarrow> (case safe_integer (ev s ''maxItems'') of None \<Rightarrow> False | Some n \<Rightarrow> int (length vs) \<le> n) \<and> (\<forall>x \<in> set vs. validateShape (ev s ''items'') x))
          else if t = js ''object'' then
            (case (object_of v, texts_of (ev s ''required''), object_of (ev s ''properties'')) of
               (Some kvs, Some rs, Some ps) \<Rightarrow> list_all (\<lambda>k. map_of kvs k \<noteq> None) rs \<and>
                 (\<forall>kv \<in> set kvs. map_of ps (fst kv) \<noteq> None \<and> validateShape (member ps (fst kv)) (snd kv))
             | _ \<Rightarrow> False)
          else False)"
  by pat_completeness auto
termination
proof (relation "measure (\<lambda>(_, v). size v)", goal_cases)
  case 2
  then show ?case using size_children_less [of _ "JArr _"] by auto
next
  case 3
  then show ?case by (auto intro: size_member_value)
qed simp

declare validateShape.simps [simp del] visit_schema.simps [simp del]


subsection \<open>What an admitted schema bounds\<close>

text \<open>A value of at most \<open>n\<close> levels, with bounded texts, arrays and objects, and only safe integers.\<close>

fun plain_data :: "nat \<Rightarrow> jval \<Rightarrow> bool" where
  "plain_data n JNull = True"
| "plain_data n (JBool b) = True"
| "plain_data n (JNum k) = (safe_integer (JNum k) \<noteq> None)"
| "plain_data n (JStr s) = (length s \<le> 65536)"
| "plain_data n (JArr vs) = (n > 0 \<and> length vs \<le> 256 \<and> list_all (plain_data (n - 1)) vs)"
| "plain_data n (JObj kvs) = (length kvs \<le> 64 \<and> list_all (\<lambda>kv. field_name (fst kv) \<and> n > 0 \<and> plain_data (n - 1) (snd kv)) kvs)"
| "plain_data n v = False"

definition bounds_values :: "nat \<Rightarrow> jval \<Rightarrow> bool" where
  "bounds_values n s \<longleftrightarrow> (\<forall>v. wf_jval v \<longrightarrow> validateShape s v \<longrightarrow> plain_data n v)"

lemma bounds_valuesD: "bounds_values n s \<Longrightarrow> wf_jval v \<Longrightarrow> validateShape s v \<Longrightarrow> plain_data n v"
  by (simp add: bounds_values_def)

lemma invalid_schema_ok [ok_iff]: "invalid_schema b = Inr u \<longleftrightarrow> b"
  by (simp add: invalid_schema_def demand_ok)

lemma int_between_iff: "int_between lo hi v \<longleftrightarrow> (\<exists>n. safe_integer v = Some n \<and> lo \<le> n \<and> n \<le> hi)"
  by (auto simp: int_between_def split: option.splits)

lemma check_node_facts:
  "check_node s = Inr t \<Longrightarrow>
     str_of (ev s ''type'') = Some t \<and> schema_keys t \<noteq> None \<and>
     (t = js ''object'' \<longrightarrow> (case object_of (ev s ''properties'') of
         None \<Rightarrow> False | Some ps \<Rightarrow> length ps \<le> 64 \<and> ev s ''additionalProperties'' = JBool False \<and> required_ok (ev s ''required'') ps)) \<and>
     (t = js ''array'' \<longrightarrow> int_between 0 256 (ev s ''maxItems'')) \<and> (t = js ''string'' \<longrightarrow> int_between 1 65536 (ev s ''maxLength''))"
  unfolding check_node_def by (simp only: ok_iff sum.inject) blast

lemma check_node_ok:
  assumes "check_node s = Inr t"
  shows "ev s ''type'' = JStr t" "schema_keys t \<noteq> None"
    "t = js ''object'' \<Longrightarrow> \<exists>ps. ev s ''properties'' = JObj ps \<and> length ps \<le> 64"
    "t = js ''array'' \<Longrightarrow> int_between 0 256 (ev s ''maxItems'')"
    "t = js ''string'' \<Longrightarrow> int_between 1 65536 (ev s ''maxLength'')"
  using check_node_facts [OF assms] by (auto split: option.splits)

lemma plain_integer: "safe_integer v = Some i \<Longrightarrow> plain_data n v"
  by (cases v rule: safe_integer.cases) auto

lemma wf_jval_objD: "wf_jval (JObj kvs) \<Longrightarrow> kv \<in> set kvs \<Longrightarrow> wf_jval (snd kv)"
  by (auto simp: list_all_iff)

lemma shape_of_type:
  assumes "validateShape s v" "ev s ''type'' = JStr t" "v \<noteq> JNull"
  shows "t = js ''boolean'' \<Longrightarrow> v \<in> {JBool True, JBool False}"
    "t = js ''integer'' \<Longrightarrow> safe_integer v \<noteq> None"
    "t = js ''string'' \<Longrightarrow> \<exists>x n. v = JStr x \<and> safe_integer (ev s ''maxLength'') = Some n \<and> int (length x) \<le> n"
    "t = js ''array'' \<Longrightarrow> \<exists>vs n. v = JArr vs \<and> safe_integer (ev s ''maxItems'') = Some n \<and> int (length vs) \<le> n \<and>
       (\<forall>x \<in> set vs. validateShape (ev s ''items'') x)"
    "t = js ''object'' \<Longrightarrow> ev s ''properties'' = JObj ps \<Longrightarrow>
       \<exists>kvs. v = JObj kvs \<and> (\<forall>kv \<in> set kvs. map_of ps (fst kv) \<noteq> None \<and> validateShape (member ps (fst kv)) (snd kv))"
    "t = js ''null'' \<Longrightarrow> v = JNull"
proof -
  note shape = assms(1) [unfolded validateShape.simps [of s v] assms(2)]
  show "t = js ''boolean'' \<Longrightarrow> v \<in> {JBool True, JBool False}" using shape assms(3) by simp
  show "t = js ''integer'' \<Longrightarrow> safe_integer v \<noteq> None" using shape assms(3) by (simp split: option.splits)
  show "t = js ''string'' \<Longrightarrow> \<exists>x n. v = JStr x \<and> safe_integer (ev s ''maxLength'') = Some n \<and> int (length x) \<le> n"
    using shape assms(3) by (simp split: option.splits)
  show "t = js ''array'' \<Longrightarrow> \<exists>vs n. v = JArr vs \<and> safe_integer (ev s ''maxItems'') = Some n \<and> int (length vs) \<le> n \<and>
       (\<forall>x \<in> set vs. validateShape (ev s ''items'') x)"
    using shape assms(3) by (simp split: option.splits)
  show "t = js ''object'' \<Longrightarrow> ev s ''properties'' = JObj ps \<Longrightarrow>
       \<exists>kvs. v = JObj kvs \<and> (\<forall>kv \<in> set kvs. map_of ps (fst kv) \<noteq> None \<and> validateShape (member ps (fst kv)) (snd kv))"
    using shape assms(3) by (simp split: option.splits)
  show "t = js ''null'' \<Longrightarrow> v = JNull" using shape assms(3) by simp
qed

lemma bounds_valuesI: "(\<And>v. wf_jval v \<Longrightarrow> validateShape s v \<Longrightarrow> v \<noteq> JNull \<Longrightarrow> plain_data n v) \<Longrightarrow> bounds_values n s"
  unfolding bounds_values_def by (metis plain_data.simps(1))

lemma scalar_bounds:
  assumes "check_node s = Inr t" "t \<notin> {js ''object'', js ''array''}"
  shows "bounds_values n s"
proof (rule bounds_valuesI)
  fix v
  assume v: "validateShape s v" "v \<noteq> JNull"
  note t = check_node_ok [OF assms(1)]
  consider "t = js ''string''" | "t = js ''integer''" | "t = js ''boolean''" | "t = js ''null''"
    using t(2) assms(2) by (auto simp: schema_keys_def split: if_splits)
  then show "plain_data n v"
    using shape_of_type(1,2,3,6) [OF v(1) t(1) v(2)] v(2) t(5) by cases (auto simp: int_between_iff intro: plain_integer)
qed

lemma object_bounds:
  assumes "\<forall>(k, c) \<in> set ps. field_name k \<and> n > 0 \<and> bounds_values (n - 1) c" "length ps \<le> 64"
    "wf_jval (JObj kvs)" "\<forall>kv \<in> set kvs. map_of ps (fst kv) \<noteq> None \<and> validateShape (member ps (fst kv)) (snd kv)"
  shows "plain_data n (JObj kvs)"
proof -
  have in_ps: "(fst kv, member ps (fst kv)) \<in> set ps" if "kv \<in> set kvs" for kv
    using assms(4) that by (auto simp: member_def dest: map_of_SomeD split: option.splits)
  then have "set (map fst kvs) \<subseteq> set (map fst ps)" by force
  then have "length kvs \<le> length ps"
    using assms(3) by (metis card_length card_mono distinct_card finite_set le_trans length_map wf_jval.simps(2))
  moreover have "field_name (fst kv) \<and> n > 0 \<and> plain_data (n - 1) (snd kv)" if "kv \<in> set kvs" for kv
    using assms(1,4) in_ps [OF that] that bounds_valuesD wf_jval_objD [OF assms(3) that] by blast
  ultimately show ?thesis using assms(2) by (auto simp: list_all_iff)
qed

lemma visit_bounds:
  "visit_schema level s nodes = Inr m \<Longrightarrow> level \<le> 8 \<and> bounds_values (8 - level) s"
  "visit_fields level ps nodes = Inr m \<Longrightarrow> \<forall>(k, c) \<in> set ps. field_name k \<and> level \<le> 8 \<and> bounds_values (8 - level) c"
proof (induction level s nodes and level ps nodes arbitrary: m and m rule: visit_schema_visit_fields.induct)
  case (1 level s nodes)
  from "1.prems" have ok: "\<not> (nodes + 1 > 256 \<or> level > 8 \<or> object_of s = None)"
    by (subst (asm) visit_schema.simps) (auto split: if_splits)
  from "1.prems" ok obtain t where t: "check_node s = Inr t"
    by (subst (asm) visit_schema.simps) (auto simp: ebind_ok)
  note node = check_node_ok [OF t]
  note body = "1.prems" [unfolded visit_schema.simps [of level s nodes] if_not_P [OF ok] t ebind_simps]
  consider (leaf) "t \<notin> {js ''object'', js ''array''}" | (object) "t = js ''object''" | (array) "t = js ''array''" by blast
  then have "bounds_values (8 - level) s"
  proof cases
    case leaf
    then show ?thesis by (rule scalar_bounds [OF t])
  next
    case object
    then obtain ps where ps: "ev s ''properties'' = JObj ps" "length ps \<le> 64" using node(3) by auto
    have "visit_fields (level + 1) ps (nodes + 1) = Inr m" using body object ps(1) by simp
    then have fields: "\<forall>(k, c) \<in> set ps. field_name k \<and> 8 - level > 0 \<and> bounds_values (8 - level - 1) c"
      using "1.IH"(1) [OF ok t object ps(1)] by fastforce
    show ?thesis
      by (rule bounds_valuesI) (use shape_of_type(5) [OF _ node(1) _ object ps(1)] object_bounds [OF fields ps(2)] in blast)
  next
    case array
    have t': "t \<noteq> js ''object''" using array by simp
    have items: "own s ''items''" "visit_schema (level + 1) (ev s ''items'') (nodes + 1) = Inr m"
      using body array by (simp_all split: if_splits)
    then have IH: "level + 1 \<le> 8" "bounds_values (8 - level - 1) (ev s ''items'')"
      using "1.IH"(2) [OF ok t t' array items(1)] by fastforce+
    show ?thesis
    proof (rule bounds_valuesI)
      fix v
      assume v: "wf_jval v" "validateShape s v" "v \<noteq> JNull"
      obtain vs where "v = JArr vs" "int (length vs) \<le> 256" "\<forall>x \<in> set vs. validateShape (ev s ''items'') x"
        using shape_of_type(4) [OF v(2) node(1) v(3) array] node(4) [OF array] by (auto simp: int_between_iff)
      then show "plain_data (8 - level) v" using IH v(1) bounds_valuesD [OF IH(2)] by (auto simp: list_all_iff)
    qed
  qed
  then show ?case using ok by simp
next
  case (3 level k child ps nodes)
  then obtain x where "field_name k" "visit_schema level child nodes = Inr x" "visit_fields level ps x = Inr m"
    by (auto simp: ebind_ok split: if_splits)
  then show ?case using "3.IH" by fastforce
qed simp


text \<open>C35. 
  The bounds of the dialect are bounds of the data: whatever value fits an admitted schema is at most eight levels deep,
  has at most 256 elements in an array and 64 members, all named as fields, in an object, holds texts of at most 65536
  units, and no number but safe integers.
\<close>
theorem admitted_schema_bounds_values:
  assumes "checkSchema s = Inr ()" "validateShape s v" "wf_jval v"
  shows "plain_data 8 v"
proof -
  obtain m where "visit_schema 0 s 0 = Inr m" using assms(1) by (auto simp: checkSchema_def ebind_ok)
  then show ?thesis using visit_bounds(1) bounds_valuesD assms(2,3) by fastforce
qed

definition sample_schema :: jval where
  "sample_schema = JObj [(js ''type'', JStr (js ''object'')),
     (js ''properties'', JObj [(js ''tags'', JObj [(js ''type'', JStr (js ''array'')), (js ''items'', JObj [(js ''type'', JStr (js ''string'')),
        (js ''maxLength'', JNum (JInt 8))]), (js ''maxItems'', JNum (JInt 4))])]),
     (js ''required'', JArr [JStr (js ''tags'')]), (js ''additionalProperties'', JBool False)]"

definition sample_value :: jval where
  "sample_value = JObj [(js ''tags'', JArr [JStr (js ''red''), JStr (js ''blue'')])]"

lemma sample_schema_admitted: "checkSchema sample_schema = Inr ()"
  by code_simp

lemma sample_value_fits: "validateShape sample_schema sample_value"
  by code_simp

theorem admitted_schema_bounds_values_witness: "plain_data 8 sample_value"
  by (rule admitted_schema_bounds_values [OF sample_schema_admitted sample_value_fits]) code_simp

end
