(* ===== verification/Kinds04.thy ===== *)
theory Kinds04
  imports Profiles04
begin

text \<open>
  \<^verbatim>\<open>sdk/src/v04/profiles.ts\<close>: the kinds that subscribers select profiles by, the operator's registry of protocol kinds,
  and what a published profile must satisfy.
\<close>

subsection \<open>Names, versions and kinds\<close>

definition profile_name :: "jstr \<Rightarrow> bool" where
  "profile_name n \<longleftrightarrow> n \<noteq> [] \<and> 0x61 \<le> hd n \<and> hd n \<le> 0x7a \<and>
     list_all (\<lambda>c. lower_alnum c \<or> c \<in> {jc (CHR ''.''), jc (CHR ''_''), jc (CHR ''-'')}) (tl n) \<and> length n \<le> 80"

text \<open>\<open>/^\d+\.\d+\.\d+$/\<close>: this many runs of digits with a dot before each but the first.\<close>

fun dotted :: "nat \<Rightarrow> jstr \<Rightarrow> bool" where
  "dotted 0 s = (s \<noteq> [] \<and> list_all is_digit s)"
| "dotted (Suc n) s =
     (takeWhile is_digit s \<noteq> [] \<and> (case dropWhile is_digit s of [] \<Rightarrow> False | c # cs \<Rightarrow> c = jc (CHR ''.'') \<and> dotted n cs))"

definition version_text :: "jstr \<Rightarrow> bool" where
  "version_text s \<longleftrightarrow> dotted 2 s"

text \<open>The number before the first dot, as far as a number counts it exactly.\<close>

definition profileMajor :: "jstr \<Rightarrow> nat option" where
  "profileMajor v = (let n = decimal_value (takeWhile is_digit v) in if version_text v \<and> int n \<le> MAX_SAFE then Some n else None)"

definition profileKind :: "profile \<Rightarrow> jstr option" where
  "profileKind p = map_option (\<lambda>n. pr_publisher p @ js ''/'' @ pr_name p @ js ''@'' @ int_str (int n)) (profileMajor (pr_version p))"

text \<open>\<open>KIND_PATTERN\<close>: a namespace up to the slash, a name up to the at sign, and a number without a leading zero.\<close>

definition kind_text :: "jstr \<Rightarrow> bool" where
  "kind_text s \<longleftrightarrow>
     (let space = takeWhile (\<lambda>c. c \<noteq> jc (CHR ''/'')) s; rest = drop (Suc (length space)) s;
          n = takeWhile (\<lambda>c. c \<noteq> jc (CHR ''@'')) rest; number = drop (Suc (length n)) rest in
      length space < length s \<and> (space = js ''dtp'' \<or> isUuid space) \<and> profile_name n \<and> length n < length rest \<and>
      number \<noteq> [] \<and> list_all is_digit number \<and> (hd number = 0x30 \<longrightarrow> number = js ''0''))"

definition isKind :: "jval \<Rightarrow> bool" where
  "isKind v = (case str_of v of None \<Rightarrow> False | Some s \<Rightarrow> length s \<le> 160 \<and> kind_text s)"

definition protocol_kind :: "jstr \<Rightarrow> bool" where
  "protocol_kind s \<longleftrightarrow> take 4 s = js ''dtp/''"

subsection \<open>The registry of protocol kinds\<close>

definition read_digests :: "jval \<Rightarrow> dtp_error + jstr list" where
  "read_digests entry =
     (case texts_of (ev entry ''digests'') of
        None \<Rightarrow> Inl (DtpError ''invalid_registry'' 400)
      | Some ds \<Rightarrow> if 1 \<le> length ds \<and> length ds \<le> 64 \<and> distinct ds \<and> list_all hex64 ds then Inr ds else Inl (DtpError ''invalid_registry'' 400))"

definition parseKindRegistry :: "jval \<Rightarrow> dtp_error + jstr list table" where
  "parseKindRegistry v =
     ebind (demand (ev v ''format'' = JStr (js ''dtp-profile-kinds-1'')) ''invalid_registry'' 400) (\<lambda>_.
     ebind (require (DtpError ''invalid_registry'' 400) (object_of (ev v ''kinds''))) (\<lambda>kinds.
     ebind (demand (length kinds \<le> 256) ''invalid_registry'' 400) (\<lambda>_.
     traverse (\<lambda>(kind, entry).
       ebind (demand (isKind (JStr kind) \<and> protocol_kind kind) ''invalid_registry'' 400) (\<lambda>_.
       ebind (read_digests entry) (\<lambda>ds. Inr (kind, ds)))) kinds)))"

text \<open>The digests that one kind selects among the profiles that the host carries and the reader may use.\<close>

definition kind_digests :: "profile table \<Rightarrow> (profile \<Rightarrow> bool) \<Rightarrow> jstr list table option \<Rightarrow> jstr \<Rightarrow> jstr list" where
  "kind_digests profiles accessible registry kind =
     (if protocol_kind kind then
        filter (\<lambda>d. case map_of profiles d of None \<Rightarrow> False | Some p \<Rightarrow> accessible p)
          (case registry of None \<Rightarrow> [] | Some r \<Rightarrow> (case map_of r kind of None \<Rightarrow> [] | Some ds \<Rightarrow> ds))
      else map fst (filter (\<lambda>(_, p). accessible p \<and> profileKind p = Some kind) profiles))"

fun select_kinds :: "profile table \<Rightarrow> (profile \<Rightarrow> bool) \<Rightarrow> jstr list table option \<Rightarrow> jval list \<Rightarrow> jstr list \<Rightarrow> dtp_error + jstr list" where
  "select_kinds profiles accessible registry [] found = Inr found"
| "select_kinds profiles accessible registry (k # ks) found =
     ebind (demand (isKind k) ''invalid'' 400) (\<lambda>_.
     ebind (require Thrown (str_of k)) (\<lambda>kind.
     let ds = kind_digests profiles accessible registry kind in
     ebind (demand (ds \<noteq> []) ''unsupported_profile'' 422) (\<lambda>_.
     select_kinds profiles accessible registry ks (found @ ds))))"

definition expandKinds :: "profile table \<Rightarrow> jval list \<Rightarrow> (profile \<Rightarrow> bool) \<Rightarrow> jstr list table option \<Rightarrow> dtp_error + jstr list" where
  "expandKinds profiles kinds accessible registry =
     ebind (select_kinds profiles accessible registry kinds []) (\<lambda>ds. Inr (sort (remdups ds)))"

subsection \<open>Published profiles\<close>

definition SEMANTICS :: "jstr list" where
  "SEMANTICS = map js [''structural'', ''inventory-v1'', ''invoice-v1'', ''product-v1'', ''inventory-v2'', ''party-v1'', ''order-v1'',
     ''forecast-v1'', ''object-v1'', ''flow-v1'']"

definition profileContract :: "jstr \<Rightarrow> jval \<Rightarrow> jval" where
  "profileContract publisher p = JObj
     [(js ''publisher_id'', JStr publisher), (js ''name'', ev p ''name''), (js ''version'', ev p ''version''), (js ''schema'', ev p ''schema''),
      (js ''semantics'', ev p ''semantics''), (js ''dependencies'', ev p ''dependencies'')]"

definition validateProfile :: "(byte list \<Rightarrow> jstr) \<Rightarrow> profile table \<Rightarrow> jstr \<Rightarrow> jval \<Rightarrow> jval \<Rightarrow> dtp_error + unit" where
  "validateProfile H profiles publisher p pinned =
     ebind (checkSchema (ev p ''schema'')) (\<lambda>_.
     ebind (demand (case (str_of (ev p ''name''), str_of (ev p ''version'')) of
         (Some n, Some v) \<Rightarrow> profile_name n \<and> version_text v | _ \<Rightarrow> False) ''invalid_profile'' 400) (\<lambda>_.
     ebind (demand (case str_of (ev p ''semantics'') of None \<Rightarrow> False | Some t \<Rightarrow> t \<in> set SEMANTICS) ''unsupported_semantics'' 422) (\<lambda>_.
     ebind (demand (case texts_of (ev p ''dependencies'') of
         None \<Rightarrow> False
       | Some ds \<Rightarrow> length ds \<le> 8 \<and> distinct ds \<and> list_all (\<lambda>d. hex64 d \<and> map_of profiles d \<noteq> None) ds) ''unsupported_dependency'' 422) (\<lambda>_.
     ebind (wire_digest H (profileContract publisher p)) (\<lambda>h.
     demand (pinned = JStr h) ''digest_mismatch'' 422)))))"

subsection \<open>What kinds select\<close>

lemma isKind_text: "isKind k \<Longrightarrow> \<exists>t. k = JStr t"
  by (auto simp: isKind_def split: option.splits)

lemma select_kinds_step:
  "select_kinds profiles accessible registry (k # ks) found = Inr ds \<longleftrightarrow>
     (\<exists>t. k = JStr t \<and> isKind k \<and> kind_digests profiles accessible registry t \<noteq> [] \<and>
        select_kinds profiles accessible registry ks (found @ kind_digests profiles accessible registry t) = Inr ds)"
  by (auto simp: ok_iff Let_def)

lemma select_kinds_ok:
  "select_kinds profiles accessible registry ks found = Inr ds \<Longrightarrow>
     (\<forall>k \<in> set ks. \<exists>t. k = JStr t \<and> kind_digests profiles accessible registry t \<noteq> [] \<and>
        set (kind_digests profiles accessible registry t) \<subseteq> set ds) \<and>
     set found \<subseteq> set ds \<and> (\<forall>d \<in> set ds - set found. \<exists>t. d \<in> set (kind_digests profiles accessible registry t))"
proof (induction ks arbitrary: found)
  case (Cons k ks)
  then obtain t where t: "k = JStr t" "kind_digests profiles accessible registry t \<noteq> []"
    "select_kinds profiles accessible registry ks (found @ kind_digests profiles accessible registry t) = Inr ds"
    unfolding select_kinds_step by blast
  show ?case using Cons.IH [OF t(3)] t(1,2) by auto
qed simp

text \<open>
  A subscription by kinds either answers or names no profile at all: every digest it selects names a profile that the host
  carries and the reader may use, each once and in order, and every kind selects at least one of them.
\<close>
theorem kinds_select_accessible:
  assumes "expandKinds profiles kinds accessible registry = Inr ds"
  shows "sorted ds \<and> distinct ds \<and>
    (\<forall>d \<in> set ds. \<exists>p. (d, p) \<in> set profiles \<and> accessible p) \<and>
    (\<forall>k \<in> set kinds. \<exists>t d. k = JStr t \<and> d \<in> set ds \<and> d \<in> set (kind_digests profiles accessible registry t))"
proof -
  obtain raw where raw: "select_kinds profiles accessible registry kinds [] = Inr raw" "ds = sort (remdups raw)"
    using assms by (auto simp: expandKinds_def ebind_ok)
  have usable: "\<exists>p. (d, p) \<in> set profiles \<and> accessible p" if "d \<in> set (kind_digests profiles accessible registry t)" for d t
    using that by (auto simp: kind_digests_def dest: map_of_SomeD split: if_splits option.splits)
  have "\<exists>d. d \<in> set xs \<and> d \<in> set raw" if "xs \<noteq> []" "set xs \<subseteq> set raw" for xs
    using that by (cases xs) auto
  then have "\<forall>k \<in> set kinds. \<exists>t d. k = JStr t \<and> d \<in> set ds \<and> d \<in> set (kind_digests profiles accessible registry t)"
    using select_kinds_ok [OF raw(1)] raw(2) by fastforce
  then show ?thesis using select_kinds_ok [OF raw(1)] raw(2) usable by auto
qed


definition sample_profile :: profile where
  "sample_profile = \<lparr>pr_id = js ''dtp/invoice@1.0.0'', pr_publisher = js ''dtp'', pr_name = js ''invoice'', pr_version = js ''1.0.0'',
     pr_schema = sample_schema, pr_semantics = js ''structural'', pr_dependencies = [], pr_community = True, pr_readers = []\<rparr>"

lemma sample_kinds_expand:
  "expandKinds [(js ''aa'', sample_profile)] [JStr (js ''dtp/invoice@1'')] pr_community (Some [(js ''dtp/invoice@1'', [js ''bb'', js ''aa''])]) =
     Inr [js ''aa'']"
  by code_simp

theorem kinds_select_accessible_witness: "(js ''aa'', sample_profile) \<in> set [(js ''aa'', sample_profile)] \<and> pr_community sample_profile"
  using kinds_select_accessible [OF sample_kinds_expand] by auto

end
