(* ===== verification/Policies04.thy ===== *)
theory Policies04
  imports Members04 Kinds04
begin

text \<open>
  The actions of \<^verbatim>\<open>sdk/src/v04/engine.ts\<close> on policies, profiles, releases and installations.
\<close>

subsection \<open>Policies\<close>

definition find_policy :: "kernel \<Rightarrow> jstr \<Rightarrow> jval \<Rightarrow> dtp_error + jstr \<times> policy" where
  "find_policy s org v =
     ebind (read_id v) (\<lambda>pid.
     ebind (require (DtpError ''not_found'' 404) (map_of (ks_policies s) pid)) (\<lambda>p.
     ebind (demand (po_org p = org) ''not_found'' 404) (\<lambda>_. Inr (pid, p))))"

definition put_policy :: "jstr \<Rightarrow> policy \<Rightarrow> kernel \<Rightarrow> kernel" where
  "put_policy pid p s = s\<lparr>ks_policies := AList.update pid p (ks_policies s)\<rparr>"

definition authorize_policy :: "bool \<Rightarrow> kernel \<Rightarrow> call \<Rightarrow> jstr \<Rightarrow> organization \<Rightarrow> policy option \<Rightarrow> dtp_error + unit" where
  "authorize_policy create s k org o' old =
     (if create then
        ebind (management s o' (ca_cmd k) ''policies.create'' (ca_host k)) (\<lambda>_.
        demand (old = None \<or> ca_prev k \<noteq> None) ''conflict'' 409)
      else
        ebind (require (DtpError ''not_found'' 404) old) (\<lambda>p.
        ebind (demand (po_org p = org) ''not_found'' 404) (\<lambda>_.
        check_steward s o' p (ca_cmd k) (ca_signed k) (ca_host k))))"

definition policy_write :: "bool \<Rightarrow> kernel \<Rightarrow> call \<Rightarrow> effect" where
  "policy_write create s k =
     (let p = payload k in
      ebind (currentOrg s k) (\<lambda>(org, o').
      ebind (exact_fields [''policy_id'', ''expected_revision'', ''classification'', ''stewards'', ''threshold'', ''grants''] p) (\<lambda>_.
      ebind (read_id (ev p ''policy_id'')) (\<lambda>pid.
      let old = map_of (ks_policies s) pid in
      ebind (demand (\<not> migrationResourceReserved s Policies pid) ''migration_reserved'' 409) (\<lambda>_.
      ebind (authorize_policy create s k org o' old) (\<lambda>_.
      ebind (read_policy s org o' old (ca_cmd k) (ca_host k)) (\<lambda>new.
      let joining = filter (\<lambda>i. i \<notin> set (case old of None \<Rightarrow> [] | Some q \<Rightarrow> po_stewards q)) (po_stewards new) in
      ebind (check_quorum s joining (int (length joining)) (ca_signed k)) (\<lambda>_.
      replay s k (
      ebind (demand (safe_integer (ev p ''expected_revision'') = Some (case old of None \<Rightarrow> 0 | Some q \<Rightarrow> po_revision q)) ''conflict'' 409) (\<lambda>_.
      ebind (demand (case old of None \<Rightarrow> True | Some q \<Rightarrow> po_class q = po_class new) ''forbidden'' 403) (\<lambda>_.
      Inr (put_policy pid new s,
        Answer (JObj [text_field ''policy_id'' pid, (js ''revision'', JNum (JInt (po_revision new)))]), False))))))))))))"

definition policy_get :: "kernel \<Rightarrow> call \<Rightarrow> effect" where
  "policy_get s k =
     ebind (exact_fields [''policy_id''] (payload k)) (\<lambda>_.
     ebind (currentOrg s k) (\<lambda>(org, o').
     ebind (find_policy s org (ev (payload k) ''policy_id'')) (\<lambda>(pid, p).
     ebind (demand (cm_by_person (ca_cmd k) \<and> activeMember s o' (actor k) (ca_now k) \<and> actor k \<in> set (po_stewards p)) ''not_found'' 404) (\<lambda>_.
     Inr (s, PolicyView p, False)))))"

subsection \<open>Profiles\<close>

definition accessibleProfile :: "profile \<Rightarrow> jstr \<Rightarrow> bool" where
  "accessibleProfile p org \<longleftrightarrow> pr_community p \<or> pr_publisher p = org \<or> org \<in> set (pr_readers p)"

definition read_digest :: "dtp_error \<Rightarrow> jval \<Rightarrow> dtp_error + jstr" where
  "read_digest refusal v = (case str_of v of None \<Rightarrow> Inl refusal | Some t \<Rightarrow> if hex64 t then Inr t else Inl refusal)"

definition read_visibility :: "jval \<Rightarrow> dtp_error + bool" where
  "read_visibility v =
     (if v = JStr (js ''community'') then Inr True else if v = JStr (js ''private'') then Inr False else Inl (DtpError ''invalid'' 400))"

definition read_profile :: "jstr \<Rightarrow> jval \<Rightarrow> bool \<Rightarrow> jstr list \<Rightarrow> dtp_error + profile" where
  "read_profile publisher p community readers =
     (case (str_of (ev p ''name''), str_of (ev p ''version''), str_of (ev p ''semantics''), texts_of (ev p ''dependencies'')) of
        (Some name, Some version, Some semantics, Some dependencies) \<Rightarrow> Inr
          \<lparr>pr_id = publisher @ js ''/'' @ name @ js ''@'' @ version, pr_publisher = publisher, pr_name = name, pr_version = version,
           pr_schema = ev p ''schema'', pr_semantics = semantics, pr_dependencies = dependencies, pr_community = community, pr_readers = readers\<rparr>
      | _ \<Rightarrow> Inl Thrown)"

definition profile_publish :: "platform \<Rightarrow> kernel \<Rightarrow> call \<Rightarrow> effect" where
  "profile_publish pf s k =
     (let p = payload k in
      ebind (manager ''profiles.publish'' s k) (\<lambda>(org, o').
      ebind (exact_fields [''name'', ''version'', ''schema'', ''semantics'', ''dependencies'', ''visibility'', ''readers'', ''digest''] p) (\<lambda>_.
      ebind (read_ids 0 64 (ev p ''readers'')) (\<lambda>readers.
      ebind (read_visibility (ev p ''visibility'')) (\<lambda>community.
      ebind (validateProfile (pl_hash pf) (ks_profiles s) org p (ev p ''digest'')) (\<lambda>_.
      ebind (read_profile org p community readers) (\<lambda>new.
      ebind (require Thrown (str_of (ev p ''digest''))) (\<lambda>d.
      ebind (demand (list_all (\<lambda>x. case map_of (ks_profiles s) x of None \<Rightarrow> False | Some q \<Rightarrow> accessibleProfile q org) (pr_dependencies new))
          ''forbidden'' 403) (\<lambda>_.
      ebind (demand (\<not> migrationResourceReserved s Profiles d) ''migration_reserved'' 409) (\<lambda>_.
      ebind (demand (\<not> migrationProfileReserved s org (pr_name new) (pr_version new)) ''migration_reserved'' 409) (\<lambda>_.
      replay s k (
      ebind (demand (\<not> list_ex (\<lambda>(_, q). pr_id q = pr_id new) (ks_profiles s)) ''conflict'' 409) (\<lambda>_.
      Inr (s\<lparr>ks_profiles := AList.update d new (ks_profiles s)\<rparr>,
        Answer (JObj [text_field ''id'' (pr_id new), text_field ''digest'' d]), False))))))))))))))"

text \<open>\<open>profile.admit\<close>: a registered protocol contract enters under the reserved publisher.\<close>

definition profile_admit :: "platform \<Rightarrow> kernel \<Rightarrow> call \<Rightarrow> effect" where
  "profile_admit pf s k =
     (let ctx = ca_host k; publisher = js ''dtp'' in
      ebind (manager ''profiles.publish'' s k) (\<lambda>(org, o').
      ebind (exact_fields [''digest''] (payload k)) (\<lambda>_.
      ebind (read_digest (DtpError ''invalid'' 400) (ev (payload k) ''digest'')) (\<lambda>d.
      ebind (require (DtpError ''not_found'' 404) (map_of (ho_protocol ctx) d)) (\<lambda>contract.
      ebind (demand (case ho_kinds ctx of None \<Rightarrow> False | Some kinds \<Rightarrow> list_ex (\<lambda>(_, ds). d \<in> set ds) kinds) ''unsupported_profile'' 422) (\<lambda>_.
      ebind (demand (ev contract ''publisher_id'' = JStr publisher) ''digest_mismatch'' 422) (\<lambda>_.
      ebind (wire_digest (pl_hash pf) (profileContract publisher contract)) (\<lambda>h.
      ebind (demand (h = d) ''digest_mismatch'' 422) (\<lambda>_.
      ebind (validateProfile (pl_hash pf) (ks_profiles s) publisher contract (JStr d)) (\<lambda>_.
      ebind (read_profile publisher contract True []) (\<lambda>new.
      let answer = (\<lambda>admitted. Answer (JObj [text_field ''id'' (pr_id new), text_field ''digest'' d, (js ''admitted'', JBool admitted)])) in
      replay s k (
      if map_of (ks_profiles s) d \<noteq> None then Inr (s, answer False, False)
      else Inr (s\<lparr>ks_profiles := AList.update d new (ks_profiles s)\<rparr>, answer True, False)))))))))))))"

text \<open>The profiles that an installation's release declares; a person understands every profile.\<close>

definition declared_profiles :: "kernel \<Rightarrow> organization \<Rightarrow> call \<Rightarrow> jstr list" where
  "declared_profiles s o' k =
     (case map_of (og_installations o') (actor k) of
        None \<Rightarrow> []
      | Some i \<Rightarrow> (case map_of (ks_releases s) (il_release i) of None \<Rightarrow> [] | Some r \<Rightarrow> re_profiles r))"

definition understands :: "kernel \<Rightarrow> organization \<Rightarrow> call \<Rightarrow> jstr \<Rightarrow> bool" where
  "understands s o' k d \<longleftrightarrow> cm_by_person (ca_cmd k) \<or> d \<in> set (declared_profiles s o' k)"

definition profile_get :: "kernel \<Rightarrow> call \<Rightarrow> effect" where
  "profile_get s k =
     ebind (exact_fields [''digest''] (payload k)) (\<lambda>_.
     ebind (currentOrg s k) (\<lambda>(org, o').
     let reader = (case cm_requested_by (ca_cmd k) of Some i \<Rightarrow> Some i | None \<Rightarrow> map_option il_sponsor (map_of (og_installations o') (actor k))) in
     ebind (demand (case reader of None \<Rightarrow> False | Some i \<Rightarrow> activeMember s o' i (ca_now k)) ''forbidden'' 403) (\<lambda>_.
     ebind (read_digest (DtpError ''not_found'' 404) (ev (payload k) ''digest'')) (\<lambda>d.
     ebind (require (DtpError ''not_found'' 404) (map_of (ks_profiles s) d)) (\<lambda>p.
     ebind (demand (accessibleProfile p org \<and> understands s o' k d) ''not_found'' 404) (\<lambda>_.
     Inr (s, ProfileView p, False)))))))"

subsection \<open>Releases\<close>

definition data_actions :: "jval \<Rightarrow> dtp_error \<Rightarrow> dtp_error + jstr list" where
  "data_actions v refusal = distinct_texts 1 3 (map js [''read'', ''write'', ''export'']) v refusal"

definition check_assessment :: "platform \<Rightarrow> call \<Rightarrow> jval \<Rightarrow> jval \<Rightarrow> dtp_error + unit" where
  "check_assessment pf k assessment artifact =
     ebind (verifyAssessment (pl_verify pf) (pl_hash pf) assessment (ca_host k)) (\<lambda>a.
     demand (ev a ''artifact_digest'' = artifact \<and> ev a ''outcome'' = JStr (js ''approved'')) ''invalid_assessment'' 403)"

definition release_profiles :: "kernel \<Rightarrow> jstr \<Rightarrow> jval \<Rightarrow> dtp_error + jstr list" where
  "release_profiles s org v =
     (case texts_of v of
        None \<Rightarrow> Inl (DtpError ''unsupported_profile'' 422)
      | Some ds \<Rightarrow>
          if ds \<noteq> [] \<and> length ds \<le> 16 \<and> distinct ds \<and>
             list_all (\<lambda>d. hex64 d \<and> (case map_of (ks_profiles s) d of None \<Rightarrow> False | Some q \<Rightarrow> accessibleProfile q org)) ds
          then Inr ds else Inl (DtpError ''unsupported_profile'' 422))"

definition release_publish :: "platform \<Rightarrow> kernel \<Rightarrow> call \<Rightarrow> effect" where
  "release_publish pf s k =
     (let p = payload k in
      ebind (manager ''releases.publish'' s k) (\<lambda>(org, o').
      ebind (exact_fields [''module_id'', ''version'', ''artifact_digest'', ''profiles'', ''actions'', ''visibility'', ''assessment''] p) (\<lambda>_.
      ebind (read_id (ev p ''module_id'')) (\<lambda>m.
      ebind (read_text 120 (ev p ''version'')) (\<lambda>version.
      ebind (demand (version_text version) ''invalid'' 400) (\<lambda>_.
      ebind (read_digest (DtpError ''invalid'' 400) (ev p ''artifact_digest'')) (\<lambda>artifact.
      ebind (read_visibility (ev p ''visibility'')) (\<lambda>community.
      ebind (release_profiles s org (ev p ''profiles'')) (\<lambda>profiles.
      ebind (data_actions (ev p ''actions'') (DtpError ''invalid'' 400)) (\<lambda>actions.
      ebind (if ev p ''assessment'' = JNull then Inr () else check_assessment pf k (ev p ''assessment'') (ev p ''artifact_digest'')) (\<lambda>_.
      ebind (require Thrown (object_of p)) (\<lambda>kvs.
      ebind (wire_digest (pl_hash pf) (JObj ((js ''publisher_id'', JStr org) # kvs))) (\<lambda>d.
      ebind (demand (\<not> migrationResourceReserved s Releases d) ''migration_reserved'' 409) (\<lambda>_.
      ebind (demand (\<not> migrationModuleReserved s m) ''migration_reserved'' 409) (\<lambda>_.
      replay s k (
      ebind (demand (\<not> list_ex (\<lambda>(_, r). re_module r = m \<and> re_version r = version) (ks_releases s)) ''conflict'' 409) (\<lambda>_.
      ebind (demand (list_all (\<lambda>(_, r). re_module r = m \<longrightarrow> re_publisher r = org) (ks_releases s)) ''forbidden'' 403) (\<lambda>_.
      Inr (s\<lparr>ks_releases := AList.update d \<lparr>re_module = m, re_publisher = org, re_version = version, re_artifact = artifact,
          re_profiles = profiles, re_actions = actions, re_community = community, re_assessment = ev p ''assessment''\<rparr> (ks_releases s)\<rparr>,
        Answer (JObj [text_field ''digest'' d]), False)))))))))))))))))))"

subsection \<open>Installations\<close>

definition find_release :: "platform \<Rightarrow> kernel \<Rightarrow> call \<Rightarrow> jstr \<Rightarrow> jval \<Rightarrow> dtp_error + jstr \<times> release" where
  "find_release pf s k org v =
     ebind (read_digest (DtpError ''not_found'' 404) v) (\<lambda>d.
     ebind (require (DtpError ''not_found'' 404) (map_of (ks_releases s) d)) (\<lambda>r.
     ebind (demand (re_community r \<or> re_publisher r = org) ''not_found'' 404) (\<lambda>_.
     ebind (demand (re_assessment r \<noteq> JNull) ''assessment_required'' 403) (\<lambda>_.
     ebind (check_assessment pf k (re_assessment r) (JStr (re_artifact r))) (\<lambda>_. Inr (d, r))))))"

definition installation_create :: "platform \<Rightarrow> kernel \<Rightarrow> call \<Rightarrow> effect" where
  "installation_create pf s k =
     (let p = payload k in
      ebind (manager ''installations.manage'' s k) (\<lambda>(org, o').
      ebind (exact_fields [''installation_id'', ''release_digest'', ''key_id'', ''policy_ids'', ''actions'', ''mode'', ''expires_at''] p) (\<lambda>_.
      ebind (read_id (ev p ''installation_id'')) (\<lambda>i.
      ebind (read_ids 1 32 (ev p ''policy_ids'')) (\<lambda>policies.
      ebind (future k (ev p ''expires_at'')) (\<lambda>expires.
      ebind (find_release pf s k org (ev p ''release_digest'')) (\<lambda>(d, r).
      ebind (demand (list_all (\<lambda>x. case map_of (ks_policies s) x of None \<Rightarrow> False | Some q \<Rightarrow> po_org q = org) policies) ''forbidden'' 403) (\<lambda>_.
      ebind (distinct_texts 1 3 (re_actions r) (ev p ''actions'') (DtpError ''forbidden'' 403)) (\<lambda>actions.
      ebind (demand (ev p ''mode'' \<in> {JStr (js ''interactive''), JStr (js ''automation'')}) ''invalid'' 400) (\<lambda>_.
      case ca_prev k of
        Some reply \<Rightarrow>
          ebind (demand (case map_of (og_installations o') i of None \<Rightarrow> False | Some x \<Rightarrow> il_active x) ''forbidden'' 403) (\<lambda>_. Inr (s, reply, False))
      | None \<Rightarrow>
          ebind (demand (\<not> migrationInstallationReserved s i) ''migration_reserved'' 409) (\<lambda>_.
          ebind (demand (\<not> list_ex (\<lambda>(_, x). map_of (og_installations x) i \<noteq> None) (ks_orgs s)) ''conflict'' 409) (\<lambda>_.
          ebind (check_new_keys s k [ev p ''key_id'']) (\<lambda>keys.
          ebind (demand (actor k \<in> set (og_controllers o') \<or>
              (case map_of (og_members o') (actor k) of None \<Rightarrow> False | Some m \<Rightarrow> expires \<le> mb_expires m)) ''forbidden'' 403) (\<lambda>_.
          let new = \<lparr>il_module = re_module r, il_release = d, il_key = hd keys, il_policies = policies, il_actions = actions,
            il_sponsor = actor k, il_expires = expires, il_active = True, il_automation = (ev p ''mode'' = JStr (js ''automation''))\<rparr> in
          Inr (put_org org (o'\<lparr>og_installations := AList.update i new (og_installations o')\<rparr>) s,
            Answer (JObj [text_field ''installation_id'' i]), True)))))))))))))))"

definition installation_revoke :: "kernel \<Rightarrow> call \<Rightarrow> effect" where
  "installation_revoke s k =
     ebind (manager ''installations.manage'' s k) (\<lambda>(org, o').
     ebind (exact_fields [''installation_id''] (payload k)) (\<lambda>_.
     ebind (read_id (ev (payload k) ''installation_id'')) (\<lambda>i.
     ebind (require (DtpError ''not_found'' 404) (map_of (og_installations o') i)) (\<lambda>x.
     replay s k (
     Inr (put_org org (o'\<lparr>og_installations := AList.update i (x\<lparr>il_active := False\<rparr>) (og_installations o')\<rparr>) s,
       Answer (JObj [(js ''revoked'', JBool True)]), True))))))"

end
