(* ===== verification/Records04.thy ===== *)
theory Records04
  imports Policies04
begin

text \<open>
  The actions of \<^verbatim>\<open>sdk/src/v04/engine.ts\<close> on records: writing a revision, reading one, and reading pages.  Of the semantics
  that a profile can select, \<open>structural\<close> and \<open>invoice-v1\<close> are modelled.
\<close>

subsection \<open>Who may see what\<close>

text \<open>A policy that is absent, or another company's, is refused as not found.\<close>

definition can :: "kernel \<Rightarrow> call \<Rightarrow> jstr \<Rightarrow> organization \<Rightarrow> jval \<Rightarrow> jstr \<Rightarrow> string \<Rightarrow> dtp_error + bool" where
  "can s k org o' policy resource action =
     ebind (find_policy s org policy) (\<lambda>(pid, p). Inr (dataAllowed s org o' pid p resource action (ca_cmd k) (ca_host k)))"

definition visible :: "kernel \<Rightarrow> call \<Rightarrow> jstr \<Rightarrow> organization \<Rightarrow> jval \<Rightarrow> jstr \<Rightarrow> dtp_error + unit" where
  "visible s k org o' policy resource =
     ebind (can s k org o' policy resource ''read'') (\<lambda>r. demand r ''not_found'' 404)"

definition writable :: "kernel \<Rightarrow> call \<Rightarrow> jstr \<Rightarrow> organization \<Rightarrow> jval \<Rightarrow> jstr \<Rightarrow> dtp_error + unit" where
  "writable s k org o' policy resource =
     ebind (can s k org o' policy resource ''write'') (\<lambda>w.
     if w then Inr () else ebind (visible s k org o' policy resource) (\<lambda>_. Inl (DtpError ''forbidden'' 403)))"

definition can_record :: "kernel \<Rightarrow> call \<Rightarrow> jstr \<Rightarrow> organization \<Rightarrow> business_record \<Rightarrow> string \<Rightarrow> dtp_error + bool" where
  "can_record s k org o' r action = can s k org o' (JStr (br_policy r)) (br_resource r) action"

subsection \<open>Writing a record\<close>

text \<open>The revision that a new record follows, if its writer can read it.\<close>

definition predecessor :: "kernel \<Rightarrow> call \<Rightarrow> jstr \<Rightarrow> organization \<Rightarrow> jstr option \<Rightarrow> dtp_error + (jstr \<times> business_record) option" where
  "predecessor s k org o' supersedes =
     (case supersedes of
        None \<Rightarrow> Inr None
      | Some i \<Rightarrow> (case map_of (ks_records s) i of
          None \<Rightarrow> Inr None
        | Some r \<Rightarrow> if br_org r \<noteq> org then Inr None
            else ebind (can_record s k org o' r ''read'') (\<lambda>allowed. Inr (if allowed then Some (i, r) else None))))"

record draft =
  dr_id :: jstr
  dr_root :: jstr
  dr_supersedes :: "jstr option"
  dr_policy :: jstr
  dr_resource :: jstr
  dr_profile :: jstr
  dr_parties :: "jstr list"
  dr_body :: jval

definition continues_record :: "draft \<Rightarrow> (jstr \<times> business_record) option \<Rightarrow> bool" where
  "continues_record d before =
     (case before of
        Some (_, r) \<Rightarrow> br_head r \<and> br_root r = dr_root d \<and> br_policy r = dr_policy d \<and> br_resource r = dr_resource d \<and>
          br_profile r = dr_profile d \<and> br_parties r = dr_parties d
      | None \<Rightarrow> dr_supersedes d = None \<and> dr_id d = dr_root d)"

definition null_or_id :: "jval \<Rightarrow> dtp_error + jstr option" where
  "null_or_id v = (if v = JNull then Inr None else ebind (read_id v) (\<lambda>i. Inr (Some i)))"

definition read_draft :: "call \<Rightarrow> jstr \<Rightarrow> dtp_error + jstr \<times> jval \<times> (jstr \<Rightarrow> draft)" where
  "read_draft k org =
     (let p = payload k in
      ebind (exact_fields [''id'', ''root_id'', ''supersedes'', ''organization_id'', ''policy_id'', ''resource_id'', ''profile_digest'',
          ''counterparty_ids'', ''body''] p) (\<lambda>_.
      ebind (read_id (ev p ''id'')) (\<lambda>i.
      ebind (read_id (ev p ''root_id'')) (\<lambda>root.
      ebind (read_id (ev p ''organization_id'')) (\<lambda>owner.
      ebind (read_id (ev p ''policy_id'')) (\<lambda>pid.
      ebind (read_id (ev p ''resource_id'')) (\<lambda>resource.
      ebind (null_or_id (ev p ''supersedes'')) (\<lambda>supersedes.
      ebind (read_ids 0 16 (ev p ''counterparty_ids'')) (\<lambda>parties.
      ebind (demand (owner = org \<and> org \<notin> set parties) ''forbidden'' 403) (\<lambda>_.
      Inr (resource, ev p ''policy_id'', \<lambda>d. \<lparr>dr_id = i, dr_root = root, dr_supersedes = supersedes, dr_policy = pid, dr_resource = resource,
        dr_profile = d, dr_parties = parties, dr_body = ev p ''body''\<rparr>)))))))))))"

definition pinned_profile :: "kernel \<Rightarrow> call \<Rightarrow> jstr \<Rightarrow> organization \<Rightarrow> dtp_error + jstr \<times> profile" where
  "pinned_profile s k org o' =
     ebind (read_digest (DtpError ''unsupported_profile'' 422) (ev (payload k) ''profile_digest'')) (\<lambda>d.
     ebind (require (DtpError ''unsupported_profile'' 422) (map_of (ks_profiles s) d)) (\<lambda>p.
     ebind (demand (accessibleProfile p org) ''unsupported_profile'' 422) (\<lambda>_.
     ebind (demand (understands s o' k d) ''forbidden'' 403) (\<lambda>_. Inr (d, p)))))"

text \<open>A counterparty is an active company of this host, or its authority elsewhere is still fresh.\<close>

fun require_parties :: "platform \<Rightarrow> kernel \<Rightarrow> call \<Rightarrow> jstr list \<Rightarrow> dtp_error + kernel" where
  "require_parties pf s k [] = Inr s"
| "require_parties pf s k (i # is) =
     (if (case map_of (ks_orgs s) i of None \<Rightarrow> False | Some o' \<Rightarrow> og_active o') then require_parties pf s k is
      else ebind (requireRemoteAuthority pf s i (ca_host k)) (\<lambda>s'. require_parties pf s' k is))"

definition semantics_rules :: "profile \<Rightarrow> jstr \<Rightarrow> draft \<Rightarrow> dtp_error + validation_report option" where
  "semantics_rules p org d =
     (if pr_semantics p = js ''invoice-v1'' then
        ebind (demand (ev (dr_body d) ''seller_company_id'' = JStr org \<and>
            (case str_of (ev (dr_body d) ''buyer_company_id'') of None \<Rightarrow> False | Some b \<Rightarrow> b \<in> set (dr_parties d))) ''invalid_body'' 422) (\<lambda>_.
        let report = validateInvoice (dr_body d) (\<lambda>_ _. Some UNKNOWN) in
        ebind (demand (vr_valid report) ''invalid_invoice'' 422) (\<lambda>_. Inr (Some report)))
      else Inr None)"

definition unhead :: "(jstr \<times> business_record) option \<Rightarrow> business_record table \<Rightarrow> business_record table" where
  "unhead before rs = (case before of None \<Rightarrow> rs | Some (i, r) \<Rightarrow> AList.update i (r\<lparr>br_head := False\<rparr>) rs)"

definition insert_record :: "kernel \<Rightarrow> call \<Rightarrow> jstr \<Rightarrow> draft \<Rightarrow> (jstr \<times> business_record) option \<Rightarrow> validation_report option \<Rightarrow> kernel" where
  "insert_record s k org d before report =
     (let seq = nextRecordSeq s org;
          r = \<lparr>br_id = dr_id d, br_root = dr_root d, br_supersedes = dr_supersedes d, br_org = org, br_policy = dr_policy d,
            br_resource = dr_resource d, br_profile = dr_profile d, br_parties = dr_parties d, br_body = dr_body d, br_command = ca_cmd k,
            br_seq = seq, br_head = True, br_accepted = ca_now k, br_report = report\<rparr> in
      s\<lparr>ks_records := AList.update (dr_id d) r (unhead before (ks_records s)), ks_seqs := AList.update org (seq + 1) (ks_seqs s)\<rparr>)"

definition record_append :: "platform \<Rightarrow> kernel \<Rightarrow> call \<Rightarrow> effect" where
  "record_append pf s k =
     ebind (currentOrg s k) (\<lambda>(org, o').
     ebind (read_draft k org) (\<lambda>(resource, policy, draft).
     ebind (writable s k org o' policy resource) (\<lambda>_.
     ebind (pinned_profile s k org o') (\<lambda>(digest, p).
     let d = draft digest in
     replay s k (
     ebind (demand (map_of (ks_records s) (dr_id d) = None \<and> \<not> migrationResourceReserved s Records (dr_id d)) ''conflict'' 409) (\<lambda>_.
     ebind (demand (1 \<le> nextRecordSeq s org \<and> nextRecordSeq s org < MAX_SAFE) ''capacity'' 507) (\<lambda>_.
     ebind (predecessor s k org o' (dr_supersedes d)) (\<lambda>before.
     ebind (demand (continues_record d before) ''conflict'' 409) (\<lambda>_.
     ebind (require_parties pf s k (dr_parties d)) (\<lambda>s'.
     ebind (demand (validateShape (pr_schema p) (dr_body d)) ''invalid_body'' 422) (\<lambda>_.
     ebind (semantics_rules p org d) (\<lambda>report.
     Inr (insert_record s' k org d before report,
       Answer (JObj [text_field ''id'' (dr_id d), (js ''seq'', JNum (JInt (nextRecordSeq s' org))), (js ''duplicate'', JBool False)]), False)))))))))))))"

subsection \<open>Reading records\<close>

definition present_reference :: "call \<Rightarrow> business_record \<Rightarrow> jstr \<Rightarrow> jval" where
  "present_reference k r expected =
     (let seller = ev (br_body r) ''seller_company_id''; buyer = ev (br_body r) ''buyer_company_id'' in
      if (case map_of (ho_reference_profiles (ca_host k)) expected of None \<Rightarrow> False | Some ds \<Rightarrow> br_profile r \<in> set ds) \<and>
         uuid_value seller \<and> uuid_value buyer
      then JObj [text_field ''status'' (js ''present''), text_field ''type'' expected, (js ''seller_company_id'', seller),
        (js ''buyer_company_id'', buyer)]
      else UNKNOWN)"

definition resolve_reference :: "kernel \<Rightarrow> call \<Rightarrow> jstr \<Rightarrow> organization \<Rightarrow> jstr \<Rightarrow> jstr \<Rightarrow> jval option" where
  "resolve_reference s k org o' i expected =
     (case map_of (ks_records s) i of
        None \<Rightarrow> Some UNKNOWN
      | Some r \<Rightarrow> if br_org r \<noteq> org then Some UNKNOWN
          else (case can_record s k org o' r ''read'' of
              Inl _ \<Rightarrow> None
            | Inr allowed \<Rightarrow> Some (if allowed \<and> understands s o' k (br_profile r) then present_reference k r expected else UNKNOWN)))"

text \<open>An invoice is shown with what its references say to this reader now.\<close>

definition viewRecord :: "kernel \<Rightarrow> call \<Rightarrow> jstr \<Rightarrow> organization \<Rightarrow> business_record \<Rightarrow> business_record \<times> validation_report option" where
  "viewRecord s k org o' r =
     (r, case map_of (ks_profiles s) (br_profile r) of
           None \<Rightarrow> None
         | Some p \<Rightarrow> if pr_semantics p = js ''invoice-v1'' then Some (validateInvoice (br_body r) (resolve_reference s k org o')) else None)"

definition record_get :: "kernel \<Rightarrow> call \<Rightarrow> effect" where
  "record_get s k =
     ebind (exact_fields [''id'', ''profile_digest''] (payload k)) (\<lambda>_.
     ebind (read_id (ev (payload k) ''id'')) (\<lambda>i.
     ebind (require (DtpError ''not_found'' 404) (map_of (ks_records s) i)) (\<lambda>r.
     ebind (currentOrg s k) (\<lambda>(org, o').
     ebind (demand (br_org r = org) ''not_found'' 404) (\<lambda>_.
     ebind (can_record s k org o' r ''read'') (\<lambda>allowed.
     ebind (demand (allowed \<and> understands s o' k (br_profile r)) ''not_found'' 404) (\<lambda>_.
     ebind (demand (ev (payload k) ''profile_digest'' = JStr (br_profile r)) ''unsupported_profile'' 422) (\<lambda>_.
     Inr (s, (case viewRecord s k org o' r of (r', live) \<Rightarrow> RecordView r' live), False)))))))))"

fun filter_ok :: "('a \<Rightarrow> 'e + bool) \<Rightarrow> 'a list \<Rightarrow> 'e + 'a list" where
  "filter_ok f [] = Inr []"
| "filter_ok f (x # xs) = ebind (f x) (\<lambda>b. ebind (filter_ok f xs) (\<lambda>ys. Inr (if b then x # ys else ys)))"

definition listed :: "kernel \<Rightarrow> call \<Rightarrow> jstr \<Rightarrow> organization \<Rightarrow> int \<Rightarrow> jstr list \<Rightarrow> business_record \<Rightarrow> dtp_error + bool" where
  "listed s k org o' after digests r =
     (if br_org r = org \<and> br_seq r > after \<and> br_profile r \<in> set digests then
        ebind (can_record s k org o' r ''read'') (\<lambda>readable.
        if \<not> readable then Inr False
        else if cm_action (ca_cmd k) = js ''records.export'' then
          ebind (can_record s k org o' r ''export'') (\<lambda>exportable. Inr (exportable \<and> understands s o' k (br_profile r)))
        else Inr (understands s o' k (br_profile r)))
      else Inr False)"

definition read_page :: "kernel \<Rightarrow> call \<Rightarrow> jstr \<Rightarrow> dtp_error + int \<times> nat \<times> jstr list" where
  "read_page s k org =
     (let p = payload k; refused = DtpError ''invalid'' 400 in
      ebind (require refused (safe_integer (ev p ''after''))) (\<lambda>after.
      ebind (require refused (safe_integer (ev p ''limit''))) (\<lambda>limit.
      ebind (demand (after \<ge> 0 \<and> 0 < limit \<and> limit \<le> 100) ''invalid'' 400) (\<lambda>_.
      ebind (require refused (texts_of (ev p ''profile_digests''))) (\<lambda>ds.
      ebind (demand (length ds \<le> 32 \<and> list_all hex64 ds) ''invalid'' 400) (\<lambda>_.
      ebind (require refused (array_of (ev p ''kinds''))) (\<lambda>kinds.
      ebind (demand (length kinds \<le> 32 \<and> distinct kinds) ''invalid'' 400) (\<lambda>_.
      ebind (demand (list_all (\<lambda>d. case map_of (ks_profiles s) d of None \<Rightarrow> False | Some q \<Rightarrow> accessibleProfile q org) ds)
          ''unsupported_profile'' 422) (\<lambda>_.
      ebind (expandKinds (ks_profiles s) kinds (\<lambda>q. accessibleProfile q org) (ho_kinds (ca_host k))) (\<lambda>more.
      Inr (after, nat limit, sort (remdups (ds @ more)))))))))))))"

definition records_list :: "kernel \<Rightarrow> call \<Rightarrow> effect" where
  "records_list s k =
     ebind (exact_fields [''after'', ''limit'', ''profile_digests'', ''kinds''] (payload k)) (\<lambda>_.
     ebind (currentOrg s k) (\<lambda>(org, o').
     ebind (read_page s k org) (\<lambda>(after, limit, digests).
     ebind (filter_ok (listed s k org o' after digests) (map snd (ks_records s))) (\<lambda>found.
     let rows = take (limit + 1) (sort_key br_seq found); page = take limit rows in
     Inr (s, RecordPage (JObj [text_field ''id'' org, text_field ''name'' (og_name o'), (js ''generation'', JNum (JInt (og_generation o')))])
       digests (map (viewRecord s k org o') page) (if length rows > limit then Some (br_seq (last page)) else None), False)))))"

end
