(* ===== verification/Engine04.thy ===== *)
theory Engine04
  imports Records04
begin

text \<open>
  \<^verbatim>\<open>sdk/src/v04/engine.ts\<close>: the dispatch of a command to its action, authentication before it, and the history and receipts
  after it.  An action of a part that is not modelled (inventory, flow, evidence and migration, and records under their
  semantics) has no outcome here.
\<close>

subsection \<open>Authority over companies\<close>

definition authority_export :: "platform \<Rightarrow> kernel \<Rightarrow> call \<Rightarrow> effect" where
  "authority_export pf s k =
     ebind (exact_fields [] (payload k)) (\<lambda>_.
     ebind (manager ''authority.manage'' s k) (\<lambda>(org, o').
     ebind (authorityIssue pf s org (ca_host k)) (\<lambda>token. Inr (s, Answer token, False))))"

definition authority_import :: "platform \<Rightarrow> kernel \<Rightarrow> call \<Rightarrow> effect" where
  "authority_import pf s k =
     ebind (exact_fields [''token''] (payload k)) (\<lambda>_.
     ebind (manager ''authority.manage'' s k) (\<lambda>_.
     ebind (authorityAccept pf s (ev (payload k) ''token'') (ca_host k)) (\<lambda>(s', org, a).
     Inr (s', Answer (authority_answer org a), False))))"

definition authority_relocate :: "platform \<Rightarrow> kernel \<Rightarrow> call \<Rightarrow> effect" where
  "authority_relocate pf s k =
     ebind (exact_fields [''token'', ''commit''] (payload k)) (\<lambda>_.
     ebind (manager ''authority.manage'' s k) (\<lambda>_.
     ebind (authorityRelocate pf s (ev (payload k) ''token'') (ev (payload k) ''commit'') (ca_host k)) (\<lambda>(s', org, a).
     Inr (s', Answer (authority_answer org a), False))))"

subsection \<open>Dispatch\<close>

type_synonym action = "platform \<Rightarrow> kernel \<Rightarrow> call \<Rightarrow> effect"

definition ACTIONS :: "(string \<times> action) list" where
  "ACTIONS =
     [(''person.register'', person_register), (''person.rotate'', \<lambda>_. person_rotate), (''organization.create'', organization_create),
      (''organization.policy'', \<lambda>_. organization_policy), (''organizations.list'', \<lambda>_. organizations_list),
      (''membership.invite'', \<lambda>_. membership_invite), (''membership.accept'', \<lambda>_. membership_accept),
      (''membership.revoke'', \<lambda>_. membership_revoke), (''policy.create'', \<lambda>_. policy_write True), (''policy.update'', \<lambda>_. policy_write False),
      (''policy.get'', \<lambda>_. policy_get), (''profile.publish'', profile_publish), (''profile.admit'', profile_admit),
      (''profile.get'', \<lambda>_. profile_get), (''release.publish'', release_publish), (''installation.create'', installation_create),
      (''installation.revoke'', \<lambda>_. installation_revoke), (''record.append'', record_append), (''record.get'', \<lambda>_. record_get),
      (''records.list'', \<lambda>_. records_list), (''records.export'', \<lambda>_. records_list), (''workspace.view'', \<lambda>_. records_list),
      (''authority.export'', authority_export), (''authority.import'', authority_import), (''authority.relocate'', authority_relocate)]"

definition OTHER_ACTIONS :: "string list" where
  "OTHER_ACTIONS = [''inventory.create'', ''inventory.get'', ''inventory.open'', ''inventory.ledger'', ''flow.open'', ''flow.ledger.open'',
     ''flow.book'', ''evidence.issue'', ''evidence.inspect'', ''migration.prepare'', ''migration.chunk'', ''migration.commit'',
     ''migration.receipt'', ''migration.status'', ''migration.cancel'', ''migration.abort'', ''migration.stage'', ''migration.upload'',
     ''migration.ready'', ''migration.finalize'']"

text \<open>A record under one of the semantics that the model leaves out.\<close>

definition other_semantics :: "kernel \<Rightarrow> call \<Rightarrow> bool" where
  "other_semantics s k \<longleftrightarrow> cm_action (ca_cmd k) = js ''record.append'' \<and>
     (case Option.bind (str_of (ev (payload k) ''profile_digest'')) (map_of (ks_profiles s)) of
        None \<Rightarrow> False | Some p \<Rightarrow> pr_semantics p \<notin> {js ''structural'', js ''invoice-v1''})"

definition run_action :: "platform \<Rightarrow> kernel \<Rightarrow> call \<Rightarrow> effect option" where
  "run_action pf s k =
     (case find (\<lambda>(name, _). js name = cm_action (ca_cmd k)) ACTIONS of
        Some (_, act) \<Rightarrow> if other_semantics s k then None else Some (act pf s k)
      | None \<Rightarrow> if cm_action (ca_cmd k) \<in> set (map js OTHER_ACTIONS) then None else Some (Inl (DtpError ''unsupported_action'' 400)))"

subsection \<open>Authentication\<close>

definition INSTALLATION_ACTIONS :: "jstr list" where
  "INSTALLATION_ACTIONS = map js [''record.append'', ''record.get'', ''records.list'', ''records.export'', ''profile.get'', ''inventory.get'',
     ''inventory.ledger'', ''flow.book'', ''evidence.inspect'']"

definition READS :: "jstr list" where
  "READS = map js [''organizations.list'', ''workspace.view'', ''records.list'', ''records.export'', ''record.get'', ''profile.get'',
     ''policy.get'', ''evidence.inspect'', ''migration.chunk'', ''migration.receipt'', ''migration.status'', ''inventory.ledger'', ''flow.book'']"

definition own_company :: "kernel \<Rightarrow> command \<Rightarrow> organization option" where
  "own_company s c = Option.bind (cm_org c) (map_of (ks_orgs s))"

definition authenticate_installation :: "platform \<Rightarrow> kernel \<Rightarrow> call \<Rightarrow> dtp_error + unit" where
  "authenticate_installation pf s k =
     (let c = ca_cmd k in
      ebind (require (DtpError ''forbidden'' 403) (own_company s c)) (\<lambda>o'.
      ebind (require (DtpError ''forbidden'' 403) (map_of (og_installations o') (cm_actor c))) (\<lambda>x.
      ebind (demand (il_active x \<and> il_key x = cm_key c \<and> il_expires x > ca_now k \<and> cm_action c \<in> set INSTALLATION_ACTIONS) ''forbidden'' 403) (\<lambda>_.
      ebind (require (DtpError ''assessment_required'' 403) (map_of (ks_releases s) (il_release x))) (\<lambda>r.
      ebind (demand (re_assessment r \<noteq> JNull) ''assessment_required'' 403) (\<lambda>_.
      ebind (check_assessment pf k (re_assessment r) (JStr (re_artifact r))) (\<lambda>_.
      case cm_requested_by c of
        None \<Rightarrow> demand (il_automation x \<and> activeMember s o' (il_sponsor x) (ca_now k)) ''forbidden'' 403
      | Some i \<Rightarrow> demand (activeMember s o' i (ca_now k) \<and> person_signed s (ca_signed k) i) ''approval_required'' 403)))))))"

definition authenticate :: "platform \<Rightarrow> kernel \<Rightarrow> call \<Rightarrow> dtp_error + unit" where
  "authenticate pf s k =
     (let c = ca_cmd k in
      if cm_action c = js ''person.register'' then Inr ()
      else if cm_by_person c then
        demand ((case map_of (ks_persons s) (cm_actor c) of None \<Rightarrow> False | Some p \<Rightarrow> cm_key c \<in> set (pe_keys p)) \<and>
          cm_requested_by c = Some (cm_actor c)) ''forbidden'' 403
      else authenticate_installation pf s k)"

subsection \<open>Execution\<close>

definition append_history :: "command \<Rightarrow> kernel \<Rightarrow> kernel" where
  "append_history c s =
     (case cm_org c of
        None \<Rightarrow> s
      | Some org \<Rightarrow> (case map_of (ks_orgs s) org of None \<Rightarrow> s | Some o' \<Rightarrow> put_org org (o'\<lparr>og_history := og_history o' @ [c]\<rparr>) s))"

definition keep_receipt :: "call \<Rightarrow> jstr \<Rightarrow> reply \<Rightarrow> kernel \<Rightarrow> kernel" where
  "keep_receipt k h r s =
     (let c = ca_cmd k; kept = \<lparr>rc_hash = h, rc_reply = (if cm_action c \<in> set READS then Unkept else r), rc_expires = cm_expires c\<rparr> in
      s\<lparr>ks_receipts := AList.update (cm_request c) kept (filter (\<lambda>(_, x). rc_expires x > ca_now k) (ks_receipts s))\<rparr>)"

definition complete_call :: "call \<Rightarrow> jstr \<Rightarrow> kernel \<times> reply \<times> bool \<Rightarrow> reply \<times> kernel" where
  "complete_call k h x =
     (case x of (s, r, history) \<Rightarrow> (r, keep_receipt k h r (if history then append_history (ca_cmd k) s else s)))"

definition prepare_call :: "platform \<Rightarrow> host \<Rightarrow> kernel \<Rightarrow> jval \<Rightarrow> dtp_error + call \<times> jstr" where
  "prepare_call pf ctx s input =
     ebind (validateCommand (pl_schema pf) (ho_audience ctx) (ho_now ctx) input) (\<lambda>c.
     ebind (verifyCommand (pl_verify pf) c) (\<lambda>signers.
     ebind (wire_digest (pl_hash pf) input) (\<lambda>h.
     let k = \<lparr>ca_host = ctx, ca_cmd = c, ca_signed = signers, ca_prev = None\<rparr> in
     ebind (authenticate pf s k) (\<lambda>_.
     case map_of (ks_receipts s) (cm_request c) of
       None \<Rightarrow> Inr (k, h)
     | Some x \<Rightarrow> ebind (demand (rc_hash x = h) ''conflict'' 409) (\<lambda>_. Inr (k\<lparr>ca_prev := Some (rc_reply x)\<rparr>, h))))))"

definition execute :: "platform \<Rightarrow> host \<Rightarrow> kernel \<Rightarrow> jval \<Rightarrow> (dtp_error + reply \<times> kernel) option" where
  "execute pf ctx s input =
     (case prepare_call pf ctx s input of
        Inl e \<Rightarrow> Some (Inl e)
      | Inr (k, h) \<Rightarrow> map_option (\<lambda>m. ebind m (\<lambda>x. Inr (complete_call k h x))) (run_action pf s k))"

text \<open>The kernel over time: each command under the host's clock and configuration of that moment; a refusal discards the state.\<close>

definition kernel_step :: "platform \<Rightarrow> kernel \<Rightarrow> host \<times> jval \<Rightarrow> kernel" where
  "kernel_step pf s x = (case execute pf (fst x) s (snd x) of Some (Inr (_, s')) \<Rightarrow> s' | _ \<Rightarrow> s)"

definition kernel_run :: "platform \<Rightarrow> kernel \<Rightarrow> (host \<times> jval) list \<Rightarrow> kernel" where
  "kernel_run pf s xs = foldl (kernel_step pf) s xs"

end
