(* ===== verification/Changes04.thy ===== *)
theory Changes04
  imports Engine04
begin

text \<open>
  What an action may do to the state of the 0.4 kernel, as a relation: one rule per kind of change, with what must have held.
  Every action of \<^theory_text>\<open>Engine04\<close> is one of these changes, so an invariant of the kernel is a case analysis over the rules.
\<close>

subsection \<open>What the helpers guarantee\<close>

lemma needOrg_ok: "needOrg s k = Inr (org, o') \<longleftrightarrow> cm_org (ca_cmd k) = Some org \<and> map_of (ks_orgs s) org = Some o'"
  by (auto simp: needOrg_def ok_iff)

lemma currentOrg_ok:
  "currentOrg s k = Inr (org, o') \<Longrightarrow> cm_org (ca_cmd k) = Some org \<and> map_of (ks_orgs s) org = Some o' \<and> og_active o'"
  by (auto simp: currentOrg_def ok_iff needOrg_ok)

lemma manager_ok:
  "manager action s k = Inr (org, o') \<Longrightarrow> currentOrg s k = Inr (org, o') \<and> management s o' (ca_cmd k) action (ca_host k) = Inr ()"
  by (auto simp: manager_def ok_iff)

lemma asController_ok:
  "asController s k = Inr (org, o') \<Longrightarrow> currentOrg s k = Inr (org, o') \<and> check_controller s o' (ca_cmd k) (ca_signed k) = Inr ()"
  by (auto simp: asController_def ok_iff)

lemma replay_ok: "replay s k m = Inr (s', r, h) \<longleftrightarrow> (case ca_prev k of Some r' \<Rightarrow> s' = s \<and> r = r' \<and> \<not> h | None \<Rightarrow> m = Inr (s', r, h))"
  by (auto simp: replay_def split: option.splits)

definition fresh_key :: "kernel \<Rightarrow> call \<Rightarrow> jstr \<Rightarrow> bool" where
  "fresh_key s k key \<longleftrightarrow> \<not> bound_key s key \<and> key \<in> set (ca_signed k)"

lemma keyFree_ok: "keyFree s v = Inr key \<Longrightarrow> v = JStr key \<and> \<not> bound_key s key"
  by (auto simp: keyFree_def valid_key_def ok_iff split: option.splits if_splits)

lemma check_new_keys_ok: "check_new_keys s k vs = Inr keys \<Longrightarrow> vs = map JStr keys \<and> list_all (fresh_key s k) keys"
proof (induction vs arbitrary: keys)
  case (Cons v vs)
  then obtain key more where v: "keyFree s v = Inr key" "key \<in> set (ca_signed k)" "check_new_keys s k vs = Inr more" "keys = key # more"
    by (auto simp: ok_iff)
  then show ?case using Cons.IH [OF v(3)] keyFree_ok [OF v(1)] by (simp add: fresh_key_def)
qed simp

lemma new_texts: "map JStr keys = map JStr keys' \<Longrightarrow> keys = keys'"
  using inj_map_eq_map [of JStr keys keys'] by (simp add: inj_def)

subsection \<open>The changes\<close>

definition quorum_signed :: "kernel \<Rightarrow> call \<Rightarrow> jstr list \<Rightarrow> int \<Rightarrow> bool" where
  "quorum_signed s k is n \<longleftrightarrow> int (length (filter (person_signed s (ca_signed k)) is)) \<ge> n"

inductive change :: "call \<Rightarrow> kernel \<Rightarrow> kernel \<Rightarrow> bool" for k where
  unchanged: "change k s s"
| registered: "map_of (ks_persons s) i = None \<Longrightarrow> i = actor k \<Longrightarrow> list_all (fresh_key s k) keys \<Longrightarrow>
    change k s (s\<lparr>ks_persons := AList.update i \<lparr>pe_keys = keys, pe_retired = [], pe_history = [ca_cmd k]\<rparr> (ks_persons s)\<rparr>)"
| rotated: "map_of (ks_persons s) i = Some q \<Longrightarrow> i = actor k \<Longrightarrow> list_all (fresh_key s k) new \<Longrightarrow> set old \<subseteq> set (pe_keys q) \<Longrightarrow>
    change k s (s\<lparr>ks_persons := AList.update i \<lparr>pe_keys = filter (\<lambda>x. x \<notin> set old) (pe_keys q) @ new, pe_retired = pe_retired q @ old,
      pe_history = pe_history q @ [ca_cmd k]\<rparr> (ks_persons s)\<rparr>)"
| founded: "cm_org (ca_cmd k) = Some org \<Longrightarrow> map_of (ks_orgs s) org = None \<Longrightarrow> quorum_signed s k is (int (length is)) \<Longrightarrow>
    0 < n \<Longrightarrow> n \<le> int (length is) \<Longrightarrow> distinct is \<Longrightarrow>
    change k s (put_org org \<lparr>og_name = name, og_controllers = is, og_threshold = n, og_generation = 1, og_active = True, og_members = [],
      og_invitations = [], og_installations = [], og_history = []\<rparr> s)"
| governed: "cm_org (ca_cmd k) = Some org \<Longrightarrow> map_of (ks_orgs s) org = Some o' \<Longrightarrow>
    quorum_signed s k (og_controllers o') (og_threshold o') \<Longrightarrow>
    quorum_signed s k (filter (\<lambda>i. i \<notin> set (og_controllers o')) is) (int (length (filter (\<lambda>i. i \<notin> set (og_controllers o')) is))) \<Longrightarrow>
    0 < n \<Longrightarrow> n \<le> int (length is) \<Longrightarrow> distinct is \<Longrightarrow>
    change k s (put_org org (o'\<lparr>og_controllers := is, og_threshold := n\<rparr>) s)"
| membered: "cm_org (ca_cmd k) = Some org \<Longrightarrow> map_of (ks_orgs s) org = Some o' \<Longrightarrow>
    change k s (put_org org (o'\<lparr>og_members := ms, og_invitations := vs\<rparr>) s)"
| installed: "cm_org (ca_cmd k) = Some org \<Longrightarrow> map_of (ks_orgs s) org = Some o' \<Longrightarrow> map_of (og_installations o') i = None \<Longrightarrow>
    fresh_key s k (il_key x) \<Longrightarrow> change k s (put_org org (o'\<lparr>og_installations := AList.update i x (og_installations o')\<rparr>) s)"
| uninstalled: "cm_org (ca_cmd k) = Some org \<Longrightarrow> map_of (ks_orgs s) org = Some o' \<Longrightarrow> map_of (og_installations o') i = Some x \<Longrightarrow>
    change k s (put_org org (o'\<lparr>og_installations := AList.update i (x\<lparr>il_active := False\<rparr>) (og_installations o')\<rparr>) s)"
| policy_made: "cm_org (ca_cmd k) = Some org \<Longrightarrow> map_of (ks_orgs s) org = Some o' \<Longrightarrow> map_of (ks_policies s) pid = None \<Longrightarrow>
    read_policy s org o' None (ca_cmd k) (ca_host k) = Inr p \<Longrightarrow> change k s (put_policy pid p s)"
| policy_revised: "cm_org (ca_cmd k) = Some org \<Longrightarrow> map_of (ks_orgs s) org = Some o' \<Longrightarrow> map_of (ks_policies s) pid = Some old \<Longrightarrow>
    po_org old = org \<Longrightarrow> po_class p = po_class old \<Longrightarrow> check_steward s o' old (ca_cmd k) (ca_signed k) (ca_host k) = Inr () \<Longrightarrow>
    read_policy s org o' (Some old) (ca_cmd k) (ca_host k) = Inr p \<Longrightarrow> change k s (put_policy pid p s)"
| profiled: "change k s (s\<lparr>ks_profiles := AList.update d pr (ks_profiles s)\<rparr>)"
| released: "change k s (s\<lparr>ks_releases := AList.update d re (ks_releases s)\<rparr>)"
| located: "change k s (s\<lparr>ks_remotes := rm\<rparr>)"
| recorded: "cm_org (ca_cmd k) = Some org \<Longrightarrow> map_of (ks_orgs s) org = Some o' \<Longrightarrow> map_of (ks_records s) (dr_id d) = None \<Longrightarrow>
    map_of (ks_policies s) (dr_policy d) = Some p \<Longrightarrow>
    dataAllowed s org o' (dr_policy d) p (dr_resource d) ''write'' (ca_cmd k) (ca_host k) \<Longrightarrow>
    predecessor s k org o' (dr_supersedes d) = Inr before \<Longrightarrow> continues_record d before \<Longrightarrow>
    1 \<le> nextRecordSeq s org \<Longrightarrow>
    change k s (insert_record (s\<lparr>ks_remotes := rm\<rparr>) k org d before report)"

subsection \<open>Every action is a change\<close>

named_theorems action_change

lemma person_register_change [action_change]: "person_register pf s k = Inr (s', r, h) \<Longrightarrow> change k s s'"
proof -
  assume a: "person_register pf s k = Inr (s', r, h)"
  show ?thesis
  proof (cases "ca_prev k")
    case None
    with a obtain i keys where i: "actor k = i" "map_of (ks_persons s) i = None" "is_ok (check_new_keys s k (map JStr keys))"
        "s' = s\<lparr>ks_persons := AList.update i \<lparr>pe_keys = keys, pe_retired = [], pe_history = [ca_cmd k]\<rparr> (ks_persons s)\<rparr>"
      by (auto simp: person_register_def Let_def ok_iff actor_def is_ok_iff)
    then have "list_all (fresh_key s k) keys" using check_new_keys_ok new_texts by (fastforce simp: is_ok_iff)
    then show ?thesis unfolding i(4) using i(1,2) by (intro registered) auto
  next
    case (Some x)
    with a show ?thesis by (auto simp: person_register_def Let_def ok_iff intro: unchanged)
  qed
qed


lemma person_rotate_change [action_change]: "person_rotate s k = Inr (s', r, h) \<Longrightarrow> change k s s'"
proof (cases "ca_prev k")
  case None
  assume "person_rotate s k = Inr (s', r, h)"
  with None obtain q new old where q: "map_of (ks_persons s) (actor k) = Some q" "set old \<subseteq> set (pe_keys q)"
      "is_ok (check_new_keys s k (map JStr new))"
      "s' = s\<lparr>ks_persons := AList.update (actor k) \<lparr>pe_keys = filter (\<lambda>x. x \<notin> set old) (pe_keys q) @ new, pe_retired = pe_retired q @ old,
        pe_history = pe_history q @ [ca_cmd k]\<rparr> (ks_persons s)\<rparr>"
    by (auto simp: person_rotate_def Let_def ok_iff replay_ok is_ok_iff)
  then have "list_all (fresh_key s k) new" using check_new_keys_ok new_texts by (fastforce simp: is_ok_iff)
  then show ?thesis unfolding q(4) using q(1,2) by (intro rotated) auto
qed (auto simp: person_rotate_def Let_def ok_iff replay_ok intro: unchanged)

lemma read_threshold_ok: "read_threshold v is = Inr n \<Longrightarrow> 0 < n \<and> n \<le> int (length is)"
  by (auto simp: read_threshold_def split: option.splits if_splits)

lemma read_ids_distinct: "read_ids lo hi v = Inr is \<Longrightarrow> distinct is"
  by (auto simp: read_ids_def uuid_list_def split: option.splits if_splits)

lemma check_quorum_ok: "check_quorum s is n signers = Inr u \<longleftrightarrow> int (length (filter (person_signed s signers) is)) \<ge> n"
  by (simp add: check_quorum_def demand_ok)

lemma organization_create_change [action_change]: "organization_create pf s k = Inr (s', r, h) \<Longrightarrow> change k s s'"
proof (cases "ca_prev k")
  case None
  assume "organization_create pf s k = Inr (s', r, h)"
  with None obtain org cs name n where o': "cm_org (ca_cmd k) = Some org" "read_ids 1 8 (ev (payload k) ''controllers'') = Inr cs"
      "read_threshold (ev (payload k) ''threshold'') cs = Inr n" "check_quorum s cs (int (length cs)) (ca_signed k) = Inr ()"
      "map_of (ks_orgs s) org = None"
      "s' = put_org org \<lparr>og_name = name, og_controllers = cs, og_threshold = n, og_generation = 1, og_active = True, og_members = [],
        og_invitations = [], og_installations = [], og_history = []\<rparr> s"
    by (auto simp: organization_create_def Let_def ok_iff replay_ok)
  then show ?thesis using read_threshold_ok [OF o'(3)] read_ids_distinct [OF o'(2)] unfolding o'(6)
    by (intro founded) (auto simp: check_quorum_ok quorum_signed_def)
qed (auto simp: organization_create_def Let_def ok_iff replay_ok intro: unchanged)

lemma organization_policy_change [action_change]: "organization_policy s k = Inr (s', r, h) \<Longrightarrow> change k s s'"
proof (cases "ca_prev k")
  case None
  assume "organization_policy s k = Inr (s', r, h)"
  with None obtain org o' cs n where o': "asController s k = Inr (org, o')" "read_ids 1 8 (ev (payload k) ''controllers'') = Inr cs"
      "read_threshold (ev (payload k) ''threshold'') cs = Inr n"
      "is_ok (check_quorum s (filter (\<lambda>x. x \<notin> set (og_controllers o')) cs) (int (length (filter (\<lambda>x. x \<notin> set (og_controllers o')) cs))) (ca_signed k))"
      "s' = put_org org (o'\<lparr>og_controllers := cs, og_threshold := n\<rparr>) s"
    by (auto simp: organization_policy_def Let_def ok_iff replay_ok is_ok_iff)
  have "quorum_signed s k (og_controllers o') (og_threshold o')"
    using asController_ok [OF o'(1)] by (simp add: check_controller_def ebind_ok check_quorum_ok quorum_signed_def)
  then show ?thesis
    using currentOrg_ok asController_ok [OF o'(1)] read_threshold_ok [OF o'(3)] read_ids_distinct [OF o'(2)] o'(4) unfolding o'(5)
    by (intro governed) (auto simp: check_quorum_ok quorum_signed_def is_ok_iff)
qed (auto simp: organization_policy_def Let_def ok_iff replay_ok intro: unchanged)

lemma membered_org:
  assumes "currentOrg s k = Inr (org, o')" "s' = put_org org (o'\<lparr>og_members := ms, og_invitations := vs\<rparr>) s"
  shows "change k s s'"
  using currentOrg_ok [OF assms(1)] unfolding assms(2) by (auto intro: membered)

lemma invited_org:
  assumes "currentOrg s k = Inr (org, o')" "s' = put_org org (o'\<lparr>og_invitations := vs\<rparr>) s"
  shows "change k s s'"
  using membered_org [OF assms(1), where s' = s' and ms = "og_members o'" and vs = vs] assms(2) by simp

lemma membership_invite_change [action_change]: "membership_invite s k = Inr (s', r, h) \<Longrightarrow> change k s s'"
proof (cases "ca_prev k")
  case None
  assume "membership_invite s k = Inr (s', r, h)"
  with None obtain org o' vs where "manager ''members.manage'' s k = Inr (org, o')" "s' = put_org org (o'\<lparr>og_invitations := vs\<rparr>) s"
    by (auto simp: membership_invite_def Let_def ok_iff replay_ok)
  then show ?thesis using manager_ok invited_org by blast
qed (auto simp: membership_invite_def Let_def ok_iff replay_ok intro: unchanged)

lemma membership_accept_change [action_change]: "membership_accept s k = Inr (s', r, h) \<Longrightarrow> change k s s'"
  by (cases "ca_prev k") (auto simp: membership_accept_def Let_def ok_iff intro: unchanged membered_org)

lemma membership_revoke_change [action_change]: "membership_revoke s k = Inr (s', r, h) \<Longrightarrow> change k s s'"
  by (cases "ca_prev k") (auto simp: membership_revoke_def Let_def ok_iff replay_ok dest!: manager_ok intro: unchanged membered_org)


lemma find_policy_ok: "find_policy s org v = Inr (pid, p) \<Longrightarrow> v = JStr pid \<and> map_of (ks_policies s) pid = Some p \<and> po_org p = org"
  by (auto simp: find_policy_def read_id_def ok_iff split: option.splits if_splits)

lemma policy_write_change [action_change]: "policy_write create s k = Inr (s', r, h) \<Longrightarrow> change k s s'"
proof (cases "ca_prev k")
  case None
  assume "policy_write create s k = Inr (s', r, h)"
  with None obtain org o' pid new where w: "currentOrg s k = Inr (org, o')"
      "authorize_policy create s k org o' (map_of (ks_policies s) pid) = Inr ()"
      "read_policy s org o' (map_of (ks_policies s) pid) (ca_cmd k) (ca_host k) = Inr new"
      "case map_of (ks_policies s) pid of None \<Rightarrow> True | Some q \<Rightarrow> po_class q = po_class new" "s' = put_policy pid new s"
    by (auto simp: policy_write_def Let_def ok_iff replay_ok)
  show ?thesis
  proof (cases "map_of (ks_policies s) pid")
    case None
    with w show ?thesis using currentOrg_ok [OF w(1)] by (auto intro: policy_made)
  next
    case (Some old)
    with w(2) \<open>ca_prev k = None\<close> have "po_org old = org" "check_steward s o' old (ca_cmd k) (ca_signed k) (ca_host k) = Inr ()"
      by (auto simp: authorize_policy_def ok_iff split: if_splits)
    with w Some show ?thesis using currentOrg_ok [OF w(1)] by (auto intro: policy_revised)
  qed
qed (auto simp: policy_write_def Let_def ok_iff replay_ok intro: unchanged)

lemma profile_publish_change [action_change]: "profile_publish pf s k = Inr (s', r, h) \<Longrightarrow> change k s s'"
  by (cases "ca_prev k") (auto simp: profile_publish_def Let_def ok_iff replay_ok intro: unchanged profiled)

lemma profile_admit_change [action_change]: "profile_admit pf s k = Inr (s', r, h) \<Longrightarrow> change k s s'"
  by (cases "ca_prev k") (auto simp: profile_admit_def Let_def ok_iff replay_ok intro: unchanged profiled split: if_splits)

lemma release_publish_change [action_change]: "release_publish pf s k = Inr (s', r, h) \<Longrightarrow> change k s s'"
  by (cases "ca_prev k") (auto simp: release_publish_def Let_def ok_iff replay_ok intro: unchanged released)

lemma absent_installation: "map_of os org = Some o' \<Longrightarrow> \<not> list_ex (\<lambda>(_, x). map_of (og_installations x) i \<noteq> None) os \<Longrightarrow> map_of (og_installations o') i = None"
  by (drule map_of_SomeD) (fastforce simp: list_ex_iff)

lemma installed_org:
  assumes "manager action s k = Inr (org, o')" "\<not> list_ex (\<lambda>(_, x). map_of (og_installations x) i \<noteq> None) (ks_orgs s)"
    "keyFree s v = Inr (il_key x)" "il_key x \<in> set (ca_signed k)"
  shows "change k s (put_org org (o'\<lparr>og_installations := AList.update i x (og_installations o')\<rparr>) s)"
proof -
  have "currentOrg s k = Inr (org, o')" using manager_ok [OF assms(1)] by simp
  from currentOrg_ok [OF this] show ?thesis using absent_installation [OF _ assms(2)] keyFree_ok [OF assms(3)] assms(4)
    by (intro installed) (auto simp: fresh_key_def)
qed

lemma installation_create_change [action_change]: "installation_create pf s k = Inr (s', r, h) \<Longrightarrow> change k s s'"
  by (cases "ca_prev k") (auto simp: installation_create_def Let_def ok_iff intro: unchanged intro!: installed_org)

lemma installation_revoke_change [action_change]: "installation_revoke s k = Inr (s', r, h) \<Longrightarrow> change k s s'"
  by (cases "ca_prev k")
    (auto simp: installation_revoke_def Let_def ok_iff replay_ok dest!: manager_ok currentOrg_ok intro: unchanged uninstalled)

lemma acceptAuthority_change: "acceptAuthority pf s token ctx base = Inr (s', org, a) \<Longrightarrow> \<exists>rm. s' = s\<lparr>ks_remotes := rm\<rparr>"
  using acceptAuthority_ok(1) by blast

lemma authority_import_change [action_change]: "authority_import pf s k = Inr (s', r, h) \<Longrightarrow> change k s s'"
  by (auto simp: authority_import_def authorityAccept_def ok_iff dest!: acceptAuthority_change intro: located)

lemma authority_relocate_change [action_change]: "authority_relocate pf s k = Inr (s', r, h) \<Longrightarrow> change k s s'"
  by (auto simp: authority_relocate_def ok_iff dest!: authorityRelocate_accepts acceptAuthority_change intro: located)

lemma require_parties_change: "require_parties pf s k is = Inr s' \<Longrightarrow> \<exists>rm. s' = s\<lparr>ks_remotes := rm\<rparr>"
proof (induction "is" arbitrary: s)
  case Nil
  then have "s' = s\<lparr>ks_remotes := ks_remotes s\<rparr>" by simp
  then show ?case by blast
next
  case (Cons i "is")
  show ?case
  proof (cases "case map_of (ks_orgs s) i of None \<Rightarrow> False | Some o' \<Rightarrow> og_active o'")
    case True
    then show ?thesis using Cons by simp
  next
    case False
    then obtain s1 where "requireRemoteAuthority pf s i (ca_host k) = Inr s1" "require_parties pf s1 k is = Inr s'"
      using Cons.prems by (auto simp: ebind_ok)
    moreover from this(1) obtain rm where "s1 = s\<lparr>ks_remotes := rm\<rparr>"
      by (auto simp: requireRemoteAuthority_def authorityAccept_def ok_iff dest!: acceptAuthority_change)
    ultimately show ?thesis using Cons.IH [of s1] by auto
  qed
qed


lemma read_draft_ok:
  assumes "read_draft k org = Inr (resource, v, mk)"
  shows "v = ev (payload k) ''policy_id''" "dr_resource (mk d) = resource" "dr_supersedes (mk d) = dr_supersedes (mk d')"
    "read_id v = Inr (dr_policy (mk d))"
  using assms by (auto simp: read_draft_def Let_def ok_iff)

lemma writable_ok:
  "writable s k org o' v resource = Inr () \<Longrightarrow>
     \<exists>pid p. v = JStr pid \<and> map_of (ks_policies s) pid = Some p \<and> dataAllowed s org o' pid p resource ''write'' (ca_cmd k) (ca_host k)"
  by (auto simp: writable_def can_def ok_iff dest!: find_policy_ok split: if_splits)

lemma nextRecordSeq_remotes [simp]: "nextRecordSeq (s\<lparr>ks_remotes := rm\<rparr>) org = nextRecordSeq s org"
  by (simp add: nextRecordSeq_def split: option.split)

lemma read_id_text: "read_id (JStr i) = Inr j \<Longrightarrow> i = j"
  by (simp add: read_id_def split: if_splits)

lemma record_append_change [action_change]: "record_append pf s k = Inr (s', r, h) \<Longrightarrow> change k s s'"
proof (cases "ca_prev k")
  case None
  assume "record_append pf s k = Inr (s', r, h)"
  with None obtain org o' resource v mk digest before s1 report where w: "currentOrg s k = Inr (org, o')"
      "read_draft k org = Inr (resource, v, mk)" "writable s k org o' v resource = Inr ()" "map_of (ks_records s) (dr_id (mk digest)) = None"
      "1 \<le> nextRecordSeq s org" "predecessor s k org o' (dr_supersedes (mk digest)) = Inr before" "continues_record (mk digest) before"
      "require_parties pf s k (dr_parties (mk digest)) = Inr s1" "s' = insert_record s1 k org (mk digest) before report"
    by (auto simp: record_append_def Let_def ok_iff replay_ok)
  obtain rm where rm: "s1 = s\<lparr>ks_remotes := rm\<rparr>" using require_parties_change [OF w(8)] by blast
  obtain pid p where p: "v = JStr pid" "map_of (ks_policies s) pid = Some p"
      "dataAllowed s org o' pid p resource ''write'' (ca_cmd k) (ca_host k)"
    using writable_ok [OF w(3)] by blast
  have d: "dr_policy (mk digest) = pid" "dr_resource (mk digest) = resource"
    using read_draft_ok(2,4) [OF w(2)] p(1) read_id_text [of pid] by metis+
  show ?thesis unfolding w(9) rm
    using currentOrg_ok [OF w(1)] w(4-7) p(2,3) d by (intro recorded) auto
qed (auto simp: record_append_def Let_def ok_iff replay_ok intro: unchanged)

lemma reads_change [action_change]:
  "organizations_list s k = Inr (s', r, h) \<Longrightarrow> change k s s'" "policy_get s k = Inr (s', r, h) \<Longrightarrow> change k s s'"
  "profile_get s k = Inr (s', r, h) \<Longrightarrow> change k s s'" "record_get s k = Inr (s', r, h) \<Longrightarrow> change k s s'"
  "records_list s k = Inr (s', r, h) \<Longrightarrow> change k s s'" "authority_export pf s k = Inr (s', r, h) \<Longrightarrow> change k s s'"
  by (auto simp: organizations_list_def policy_get_def profile_get_def record_get_def records_list_def authority_export_def Let_def ok_iff
    intro: unchanged)

lemma find_in_list: "find f xs = Some x \<Longrightarrow> x \<in> set xs \<and> f x"
  by (induction xs) (auto split: if_splits)

lemma run_action_cases:
  assumes "run_action pf s k = Some (Inr x)"
  obtains name act where "(name, act) \<in> set ACTIONS" "js name = cm_action (ca_cmd k)" "act pf s k = Inr x" "\<not> other_semantics s k"
  using assms by (auto simp: run_action_def dest: find_in_list split: option.splits if_splits prod.splits)

theorem actions_are_changes:
  assumes "run_action pf s k = Some (Inr (s', r, h))"
  shows "change k s s'"
  using assms by (rule run_action_cases) (auto simp: ACTIONS_def dest: action_change)

end
