(* ===== verification/KernelKeys.thy ===== *)
theory KernelKeys
  imports Changes04
begin

text \<open>
  Keys of the 0.4 kernel: a key that a person or an installation ever held belongs to that one identity for ever.
\<close>

subsection \<open>Steps of the kernel\<close>

lemma kernel_step_cases:
  obtains (stays) "kernel_step pf s x = s"
  | (changes) k s1 h r b where "change k s s1" "kernel_step pf s x = keep_receipt k h r (if b then append_history (ca_cmd k) s1 else s1)"
proof (cases "execute pf (fst x) s (snd x)")
  case None
  then show ?thesis using stays by (simp add: kernel_step_def)
next
  case (Some m)
  show ?thesis
  proof (cases m)
    case (Inl e)
    then show ?thesis using Some stays by (simp add: kernel_step_def)
  next
    case (Inr y)
    obtain r s' where y: "y = (r, s')" by (cases y)
    have ex: "execute pf (fst x) s (snd x) = Some (Inr (r, s'))" using Some Inr y by simp
    then obtain k h where p: "prepare_call pf (fst x) s (snd x) = Inr (k, h)" by (auto simp: execute_def split: sum.splits)
    with ex obtain z where z: "run_action pf s k = Some (Inr z)" "complete_call k h z = (r, s')"
      by (auto simp: execute_def ebind_ok)
    obtain s1 r1 b where "z = (s1, r1, b)" by (cases z)
    then have "change k s s1" "s' = keep_receipt k h r1 (if b then append_history (ca_cmd k) s1 else s1)"
      using actions_are_changes z by (auto simp: complete_call_def)
    then show ?thesis using changes ex by (simp add: kernel_step_def)
  qed
qed

text \<open>What every change and every history entry keeps, and what does not look at receipts, every run keeps.\<close>

lemma kernel_run_induct:
  assumes "R s s" "\<And>t u v. R t u \<Longrightarrow> R u v \<Longrightarrow> R t v" "\<And>k t u. R s t \<Longrightarrow> change k t u \<Longrightarrow> R t u"
    "\<And>c t. R t (append_history c t)" "\<And>k h r t. R t (keep_receipt k h r t)"
  shows "R s (kernel_run pf s xs)"
proof (induction xs rule: rev_induct)
  case Nil
  then show ?case using assms(1) by (simp add: kernel_run_def)
next
  case (snoc x xs)
  have run: "kernel_run pf s (xs @ [x]) = kernel_step pf (kernel_run pf s xs) x" by (simp add: kernel_run_def)
  show ?case
  proof (cases rule: kernel_step_cases [of pf "kernel_run pf s xs" x])
    case stays
    then show ?thesis using snoc run by simp
  next
    case (changes k s1 h r b)
    have "R (kernel_run pf s xs) s1" using assms(3) snoc changes(1) by blast
    then have "R s s1" using assms(2) snoc by blast
    then have "R s (if b then append_history (ca_cmd k) s1 else s1)" using assms(2,4) by (cases b) auto
    then show ?thesis using run changes(2) assms(2,5) by metis
  qed
qed

subsection \<open>Owners of keys\<close>

datatype key_owner = PersonOwner jstr | InstallationOwner jstr jstr

fun binds :: "kernel \<Rightarrow> jstr \<Rightarrow> key_owner \<Rightarrow> bool" where
  "binds s key (PersonOwner i) = (case map_of (ks_persons s) i of None \<Rightarrow> False | Some p \<Rightarrow> key \<in> set (person_keys p))"
| "binds s key (InstallationOwner org i) =
     (case map_of (ks_orgs s) org of None \<Rightarrow> False
      | Some o' \<Rightarrow> (case map_of (og_installations o') i of None \<Rightarrow> False | Some x \<Rightarrow> il_key x = key))"

lemma binds_bound: "binds s key a \<Longrightarrow> bound_key s key"
proof (cases a)
  case (PersonOwner i)
  assume "binds s key a"
  then obtain p where "(i, p) \<in> set (ks_persons s)" "key \<in> set (person_keys p)"
    using PersonOwner by (auto split: option.splits dest: map_of_SomeD)
  then show ?thesis unfolding bound_key_def list_ex_iff by (intro disjI1 bexI [of _ "(i, p)"]) auto
next
  case (InstallationOwner org i)
  assume "binds s key a"
  then obtain o' x where "(org, o') \<in> set (ks_orgs s)" "(i, x) \<in> set (og_installations o')" "il_key x = key"
    using InstallationOwner by (auto split: option.splits dest: map_of_SomeD)
  then show ?thesis unfolding bound_key_def list_ex_iff by (intro disjI2 bexI [of _ "(org, o')"]) auto
qed

lemma fresh_unbound: "fresh_key s k key \<Longrightarrow> \<not> binds s key a"
  using binds_bound by (auto simp: fresh_key_def)

text \<open>Keys stay with their owners, and what is newly bound was bound to nobody and now is to one owner.\<close>

definition keeps_keys :: "kernel \<Rightarrow> kernel \<Rightarrow> bool" where
  "keeps_keys s s' \<longleftrightarrow> (\<forall>key a. binds s key a \<longrightarrow> binds s' key a) \<and>
     (\<exists>a0. \<forall>key a. binds s' key a \<longrightarrow> binds s key a \<or> a = a0 \<and> (\<forall>b. \<not> binds s key b))"

lemma keeps_keys_same: "(\<And>key a. binds s' key a = binds s key a) \<Longrightarrow> keeps_keys s s'"
  by (simp add: keeps_keys_def)

lemma binds_same: "ks_persons s' = ks_persons s \<Longrightarrow> ks_orgs s' = ks_orgs s \<Longrightarrow> binds s' key a = binds s key a"
  by (cases a) simp_all

lemma keeps_keys_frame: "ks_persons s' = ks_persons s \<Longrightarrow> ks_orgs s' = ks_orgs s \<Longrightarrow> keeps_keys s s'"
  by (intro keeps_keys_same binds_same)

lemma binds_put_org:
  "map_of (ks_orgs s) org = Some o' \<Longrightarrow> og_installations o'' = og_installations o' \<Longrightarrow> binds (put_org org o'' s) key a = binds s key a"
  by (cases a) (simp_all add: put_org_def update_conv')

lemma keeps_keys_put_org:
  "map_of (ks_orgs s) org = Some o' \<Longrightarrow> og_installations o'' = og_installations o' \<Longrightarrow> keeps_keys s (put_org org o'' s)"
  by (intro keeps_keys_same binds_put_org)

lemma keeps_keysI:
  assumes "\<And>key a. binds s' key a \<longleftrightarrow> binds s key a \<or> a = holder \<and> key \<in> set new" "list_all (fresh_key s k) new"
  shows "keeps_keys s s'"
proof -
  have "\<not> binds s key b" if "key \<in> set new" for key b using assms(2) that fresh_unbound by (auto simp: list_all_iff)
  then show ?thesis unfolding keeps_keys_def assms(1) by (intro conjI exI [of _ holder] allI impI) auto
qed

lemma keeps_keys_person:
  assumes "set (person_keys q) = (case map_of (ks_persons s) i of None \<Rightarrow> {} | Some p \<Rightarrow> set (person_keys p)) \<union> set new"
    "list_all (fresh_key s k) new"
  shows "keeps_keys s (s\<lparr>ks_persons := AList.update i q (ks_persons s)\<rparr>)"
proof (rule keeps_keysI [where holder = "PersonOwner i", OF _ assms(2)])
  fix key a
  show "binds (s\<lparr>ks_persons := AList.update i q (ks_persons s)\<rparr>) key a \<longleftrightarrow> binds s key a \<or> a = PersonOwner i \<and> key \<in> set new"
    using assms(1) by (cases a) (auto simp: update_conv' split: option.splits)
qed

lemma keeps_keys_installation:
  assumes "map_of (ks_orgs s) org = Some o'" "map_of (og_installations o') i = None" "fresh_key s k (il_key x)"
  shows "keeps_keys s (put_org org (o'\<lparr>og_installations := AList.update i x (og_installations o')\<rparr>) s)"
proof (rule keeps_keysI [where holder = "InstallationOwner org i" and new = "[il_key x]" and k = k])
  fix key a
  show "binds (put_org org (o'\<lparr>og_installations := AList.update i x (og_installations o')\<rparr>) s) key a \<longleftrightarrow>
      binds s key a \<or> a = InstallationOwner org i \<and> key \<in> set [il_key x]"
    using assms(1,2) by (cases a) (auto simp: put_org_def update_conv')
qed (simp add: assms(3))

lemma change_keeps_keys: "change k s s' \<Longrightarrow> keeps_keys s s'"
proof (induction rule: change.induct)
  case (registered s i keys)
  then show ?case by (intro keeps_keys_person) (auto simp: person_keys_def)
next
  case (rotated s i q new old)
  then show ?case by (intro keeps_keys_person) (auto simp: person_keys_def)
next
  case (founded org s "is" n name)
  show ?case
  proof (rule keeps_keys_same)
    show "binds (put_org org \<lparr>og_name = name, og_controllers = is, og_threshold = n, og_generation = 1, og_active = True,
        og_members = [], og_invitations = [], og_installations = [], og_history = []\<rparr> s) key a = binds s key a" for key a
      using founded(2) by (cases a) (auto simp: put_org_def update_conv')
  qed
next
  case (installed org s o' i x)
  then show ?case by (intro keeps_keys_installation)
next
  case (uninstalled org s o' i x)
  show ?case
  proof (rule keeps_keys_same)
    show "binds (put_org org (o'\<lparr>og_installations := AList.update i (x\<lparr>il_active := False\<rparr>) (og_installations o')\<rparr>) s) key a = binds s key a"
      for key a
      using uninstalled(2,3) by (cases a) (auto simp: put_org_def update_conv')
  qed
next
  case (recorded org s o' d p before rm report)
  show ?case by (rule keeps_keys_frame) (simp_all add: insert_record_def Let_def)
next
  case (policy_made org s o' pid p)
  show ?case by (rule keeps_keys_frame) (simp_all add: put_policy_def)
next
  case (policy_revised org s o' pid old p)
  show ?case by (rule keeps_keys_frame) (simp_all add: put_policy_def)
qed (simp_all add: keeps_keys_frame keeps_keys_put_org)

lemma append_history_binds: "binds (append_history c s) key a = binds s key a"
  by (auto simp: append_history_def binds_put_org split: option.splits)

lemma keep_receipt_binds: "binds (keep_receipt k h r s) key a = binds s key a"
  by (rule binds_same) (simp_all add: keep_receipt_def Let_def)

definition binds_less :: "kernel \<Rightarrow> kernel \<Rightarrow> bool" where
  "binds_less s s' \<longleftrightarrow> (\<forall>key a. binds s key a \<longrightarrow> binds s' key a)"

lemma run_binds_less: "binds_less s (kernel_run pf s xs)"
proof (rule kernel_run_induct [where R = binds_less])
  show "\<And>k t u. binds_less s t \<Longrightarrow> change k t u \<Longrightarrow> binds_less t u"
    using change_keeps_keys by (simp add: keeps_keys_def binds_less_def)
qed (simp_all add: binds_less_def append_history_binds keep_receipt_binds)

definition one_owner :: "kernel \<Rightarrow> bool" where
  "one_owner s \<longleftrightarrow> (\<forall>key a b. binds s key a \<longrightarrow> binds s key b \<longrightarrow> a = b)"

lemma change_one_owner: "one_owner s \<Longrightarrow> change k s s' \<Longrightarrow> one_owner s'"
proof -
  assume one: "one_owner s" and "change k s s'"
  then obtain c where c: "\<And>key a. binds s' key a \<Longrightarrow> binds s key a \<or> a = c \<and> (\<forall>b. \<not> binds s key b)"
    using change_keeps_keys [of k s s'] by (auto simp: keeps_keys_def)
  have "a = b" if "binds s' key a" "binds s' key b" for key a b
    using c [OF that(1)] c [OF that(2)] one by (auto simp: one_owner_def)
  then show "one_owner s'" by (auto simp: one_owner_def)
qed

lemma one_owner_same: "(\<And>key a. binds s' key a = binds s key a) \<Longrightarrow> one_owner s' = one_owner s"
  by (simp add: one_owner_def)

lemma one_owner_bookkeeping: "one_owner (append_history c s) = one_owner s" "one_owner (keep_receipt k h r s) = one_owner s"
  by (rule one_owner_same, rule append_history_binds) (rule one_owner_same, rule keep_receipt_binds)

definition keeps_one_owner :: "kernel \<Rightarrow> kernel \<Rightarrow> bool" where
  "keeps_one_owner s s' \<longleftrightarrow> (one_owner s \<longrightarrow> one_owner s')"

lemma run_one_owner: "keeps_one_owner s (kernel_run pf s xs)"
proof (rule kernel_run_induct [where R = keeps_one_owner])
  show "\<And>k t u. keeps_one_owner s t \<Longrightarrow> change k t u \<Longrightarrow> keeps_one_owner t u"
    using change_one_owner by (simp add: keeps_one_owner_def)
qed (simp_all add: keeps_one_owner_def one_owner_bookkeeping)


end
