(* ===== verification/KernelAccess.thy ===== *)
theory KernelAccess
  imports KernelKeys
begin

text \<open>
  Access in the 0.4 kernel: what a revocation ends, who can change the rules of a company and of a policy, what a
  refusal tells, and what a reader is shown.
\<close>

subsection \<open>Revocation\<close>

text \<open>Companies stay, and so do the commands in their histories.\<close>

definition history_grows :: "kernel \<Rightarrow> kernel \<Rightarrow> bool" where
  "history_grows s s' \<longleftrightarrow> (\<forall>org o'. map_of (ks_orgs s) org = Some o' \<longrightarrow>
     (\<exists>o''. map_of (ks_orgs s') org = Some o'' \<and> set (og_history o') \<subseteq> set (og_history o'')))"

lemma history_grows_frame: "ks_orgs s' = ks_orgs s \<Longrightarrow> history_grows s s'"
  by (simp add: history_grows_def)

lemma history_grows_put_org:
  assumes "\<And>o'. map_of (ks_orgs s) org = Some o' \<Longrightarrow> set (og_history o') \<subseteq> set (og_history o'')"
  shows "history_grows s (put_org org o'' s)"
  using assms by (auto simp: history_grows_def put_org_def update_conv')

lemma history_grows_trans: "history_grows s t \<Longrightarrow> history_grows t u \<Longrightarrow> history_grows s u"
  unfolding history_grows_def by (meson subset_trans)

lemma change_history: "change k s s' \<Longrightarrow> history_grows s s'"
proof (induction rule: change.induct)
  case (policy_made org s o' pid p)
  show ?case by (rule history_grows_frame) (simp add: put_policy_def)
next
  case (policy_revised org s o' pid old p)
  show ?case by (rule history_grows_frame) (simp add: put_policy_def)
next
  case (recorded org s o' d p before rm report)
  show ?case by (rule history_grows_frame) (simp add: insert_record_def Let_def)
qed (auto intro: history_grows_frame intro!: history_grows_put_org)

lemma append_history_grows: "history_grows s (append_history c s)"
  by (auto simp: append_history_def history_grows_frame intro!: history_grows_put_org split: option.splits)

lemma run_history: "history_grows s (kernel_run pf s xs)"
proof (rule kernel_run_induct [where R = history_grows])
  show "\<And>t u v. history_grows t u \<Longrightarrow> history_grows u v \<Longrightarrow> history_grows t v" by (rule history_grows_trans)
  show "\<And>k t u. history_grows s t \<Longrightarrow> change k t u \<Longrightarrow> history_grows t u" by (rule change_history)
qed (simp_all add: append_history_grows history_grows_frame keep_receipt_def Let_def)

definition later_revocation :: "jstr \<Rightarrow> command \<Rightarrow> int option \<Rightarrow> int option" where
  "later_revocation i c at = (if revokes i c then Some (case at of None \<Rightarrow> cm_issued c | Some n \<Rightarrow> max n (cm_issued c)) else at)"

lemma later_revocation_mono: "at = Some n \<Longrightarrow> \<exists>m. fold (later_revocation i) cs at = Some m \<and> n \<le> m"
proof (induction cs arbitrary: at n)
  case (Cons c cs)
  obtain m where m: "later_revocation i c at = Some m" "n \<le> m"
    using Cons.prems by (cases "revokes i c") (simp_all add: later_revocation_def)
  then show ?case using Cons.IH [OF m(1)] by auto
qed simp

lemma revocation_counts: "c \<in> set cs \<Longrightarrow> revokes i c \<Longrightarrow> \<exists>m. fold (later_revocation i) cs at = Some m \<and> cm_issued c \<le> m"
proof (induction cs arbitrary: at)
  case (Cons d cs)
  show ?case
  proof (cases "d = c")
    case True
    then obtain n where "later_revocation i c at = Some n" "cm_issued c \<le> n"
      using Cons.prems(2) by (auto simp: later_revocation_def split: option.splits)
    then show ?thesis using True later_revocation_mono by (fastforce dest: order_trans)
  next
    case False
    then show ?thesis using Cons by auto
  qed
qed simp

lemma revokedAt_counts: "c \<in> set (og_history o') \<Longrightarrow> revokes i c \<Longrightarrow> \<exists>m. revokedAt o' i = Some m \<and> cm_issued c \<le> m"
  using revocation_counts [of c "og_history o'" i None] unfolding revokedAt_def later_revocation_def [abs_def] by simp

lemma revoked_grant:
  assumes "c \<in> set (og_history o')" "revokes i c" "cm_issued (last (po_history p)) \<le> cm_issued c"
  shows "\<not> granted s o' p resource action now i"
  using revokedAt_counts [OF assms(1,2)] assms(3) by (auto simp: granted_def grantCurrent_def after_revocation_def)

text \<open>C37. 
  A revocation ends access for good.  Once a membership has been revoked, no policy of the company as it stood then grants
  that person anything any more: not at once, and not after any number of further commands, even when the person is invited
  back or becomes a controller, until the stewards sign a new revision of that policy.
\<close>
theorem revoked_grants_stay_dead:
  assumes "membership_revoke s k = Inr (s1, r, True)" "cm_action (ca_cmd k) = js ''membership.revoke''" "ev (payload k) ''person_id'' = JStr i"
    "cm_org (ca_cmd k) = Some org" "map_of (ks_policies s) pid = Some p" "po_org p = org"
    "s' = kernel_run pf (snd (complete_call k h (s1, r, True))) xs" "map_of (ks_policies s') pid = Some p" "map_of (ks_orgs s') org = Some o'"
  shows "\<not> granted s' o' p resource action now i"
proof (cases "list_ex (\<lambda>g. gr_person g = i) (po_grants p)")
  case False
  then show ?thesis by (auto simp: granted_def grant_applies_def list_ex_iff)
next
  case True
  let ?c = "ca_cmd k"
  have fresh: "ca_prev k = None" using assms(1) by (auto simp: membership_revoke_def Let_def ok_iff replay_ok split: option.splits)
  have rev: "revokes i ?c" using assms(2,3) by (simp add: revokes_def payload_def)
  from assms(1,4) fresh obtain o1 where "map_of (ks_orgs s1) org = Some o1" "\<not> granted_later s org i (cm_issued ?c)"
    using assms(3)
    by (auto simp: membership_revoke_def Let_def ok_iff replay_ok put_org_def update_conv' dest!: manager_ok currentOrg_ok read_id_text)
  moreover from this have "cm_issued (last (po_history p)) \<le> cm_issued ?c"
    using map_of_SomeD [OF assms(5)] assms(6) True by (fastforce simp: granted_later_def list_ex_iff)
  moreover obtain o2 where o2: "map_of (ks_orgs (snd (complete_call k h (s1, r, True)))) org = Some o2" "?c \<in> set (og_history o2)"
    using calculation(1) assms(4) by (simp add: complete_call_def keep_receipt_def Let_def append_history_def put_org_def update_conv')
  then have "\<exists>o''. map_of (ks_orgs s') org = Some o'' \<and> set (og_history o2) \<subseteq> set (og_history o'')"
    using run_history [of "snd (complete_call k h (s1, r, True))" pf xs] assms(7) unfolding history_grows_def by simp
  then have "?c \<in> set (og_history o')" using o2(2) assms(9) by auto
  ultimately show ?thesis using revoked_grant rev by blast
qed


subsection \<open>A sample company\<close>

definition uuid_of :: "char \<Rightarrow> jstr" where
  "uuid_of c = js (replicate 8 c @ ''-'' @ replicate 4 c @ ''-'' @ replicate 4 c @ ''-'' @ replicate 4 c @ ''-'' @ replicate 12 c)"

definition sample_command :: "string \<Rightarrow> char \<Rightarrow> int \<Rightarrow> (jstr \<times> jval) list \<Rightarrow> command" where
  "sample_command action i at p = \<lparr>cm_document = JNull, cm_request = uuid_of (CHR ''0''), cm_issued = at, cm_expires = at + 60000,
     cm_org = Some (uuid_of (CHR ''c'')), cm_by_person = True, cm_actor = uuid_of i, cm_key = js [i], cm_requested_by = Some (uuid_of i),
     cm_action = js action, cm_payload = JObj p\<rparr>"

definition sample_policy :: policy where
  "sample_policy = \<lparr>po_org = uuid_of (CHR ''c''), po_revision = 1, po_class = js ''business'', po_stewards = [uuid_of (CHR ''a'')],
     po_threshold = 1, po_grants = [\<lparr>gr_person = uuid_of (CHR ''b''), gr_actions = [js ''read''], gr_resources = None, gr_expires = 9000\<rparr>],
     po_history = [sample_command ''policy.create'' (CHR ''a'') 10 []]\<rparr>"

definition sample_person :: "char \<Rightarrow> person" where
  "sample_person i = \<lparr>pe_keys = [js [i]], pe_retired = [], pe_history = []\<rparr>"

definition sample_company :: organization where
  "sample_company = \<lparr>og_name = js ''Acme'', og_controllers = [uuid_of (CHR ''a'')], og_threshold = 1, og_generation = 1, og_active = True,
     og_members = [(uuid_of (CHR ''b''), \<lparr>mb_permissions = [], mb_expires = 9000, mb_active = True, mb_by = uuid_of (CHR ''a'')\<rparr>)],
     og_invitations = [], og_installations = [], og_history = []\<rparr>"

definition sample_kernel :: kernel where
  "sample_kernel = emptyState\<lparr>ks_persons := [(uuid_of (CHR ''a''), sample_person (CHR ''a'')), (uuid_of (CHR ''b''), sample_person (CHR ''b''))],
     ks_orgs := [(uuid_of (CHR ''c''), sample_company)], ks_policies := [(uuid_of (CHR ''d''), sample_policy)]\<rparr>"

definition sample_host :: host where
  "sample_host = \<lparr>ho_audience = js ''https://host'', ho_key = js ''k'', ho_pins = [], ho_now = 100, ho_assessors = [], ho_revoked = [],
     ho_reference_profiles = [], ho_kinds = None, ho_protocol = []\<rparr>"

definition sample_call :: "command \<Rightarrow> call" where
  "sample_call c = \<lparr>ca_host = sample_host, ca_cmd = c, ca_signed = [cm_key c], ca_prev = None\<rparr>"

definition sample_revocation :: call where
  "sample_revocation = sample_call (sample_command ''membership.revoke'' (CHR ''a'') 20 [(js ''person_id'', JStr (uuid_of (CHR ''b'')))])"

definition revoked_state :: "kernel \<times> reply" where
  "revoked_state = (case membership_revoke sample_kernel sample_revocation of Inr (s, r, _) \<Rightarrow> (s, r) | Inl _ \<Rightarrow> (sample_kernel, Unkept))"

lemma sample_revocation_runs: "membership_revoke sample_kernel sample_revocation = Inr (fst revoked_state, snd revoked_state, True)"
  by code_simp


definition after_sample :: kernel where
  "after_sample = snd (complete_call sample_revocation [] (fst revoked_state, snd revoked_state, True))"

theorem revoked_grants_stay_dead_witness:
  "granted sample_kernel sample_company sample_policy (uuid_of (CHR ''e'')) ''read'' 100 (uuid_of (CHR ''b'')) \<and>
   \<not> granted after_sample (the (map_of (ks_orgs after_sample) (uuid_of (CHR ''c'')))) sample_policy (uuid_of (CHR ''e'')) ''read'' 100
     (uuid_of (CHR ''b''))"
proof
  show "granted sample_kernel sample_company sample_policy (uuid_of (CHR ''e'')) ''read'' 100 (uuid_of (CHR ''b''))" by code_simp
  have at: "cm_action (ca_cmd sample_revocation) = js ''membership.revoke''" "ev (payload sample_revocation) ''person_id'' = JStr (uuid_of (CHR ''b''))"
    "cm_org (ca_cmd sample_revocation) = Some (uuid_of (CHR ''c''))" "map_of (ks_policies sample_kernel) (uuid_of (CHR ''d'')) = Some sample_policy"
    "po_org sample_policy = uuid_of (CHR ''c'')" "map_of (ks_policies after_sample) (uuid_of (CHR ''d'')) = Some sample_policy"
    "map_of (ks_orgs after_sample) (uuid_of (CHR ''c'')) \<noteq> None"
    by code_simp+
  have "after_sample = kernel_run pf (snd (complete_call sample_revocation [] (fst revoked_state, snd revoked_state, True))) []" for pf
    by (simp add: kernel_run_def after_sample_def)
  from revoked_grants_stay_dead [OF sample_revocation_runs at(1-5) this at(6)]
  show "\<not> granted after_sample (the (map_of (ks_orgs after_sample) (uuid_of (CHR ''c'')))) sample_policy (uuid_of (CHR ''e'')) ''read'' 100
     (uuid_of (CHR ''b''))"
    using at(7) by auto
qed

subsection \<open>Who changes the rules\<close>

definition company_rules :: "kernel \<Rightarrow> jstr \<Rightarrow> (jstr list \<times> int) option" where
  "company_rules s org = map_option (\<lambda>o'. (og_controllers o', og_threshold o')) (map_of (ks_orgs s) org)"

definition steward_quorum :: "kernel \<Rightarrow> call \<Rightarrow> policy \<Rightarrow> bool" where
  "steward_quorum s k p \<longleftrightarrow> (\<exists>o'. map_of (ks_orgs s) (po_org p) = Some o' \<and>
     quorum_signed s k (filter (\<lambda>i. activeMember s o' i (ca_now k)) (po_stewards p)) (po_threshold p))"

lemma company_rules_of:
  "map_of (ks_orgs s) org = Some o' \<Longrightarrow> company_rules s org = Some (og_controllers o', og_threshold o')"
  "map_of (ks_orgs s) org = None \<Longrightarrow> company_rules s org = None"
  by (simp_all add: company_rules_def)

lemma company_rules_frame [simp]:
  "company_rules (s\<lparr>ks_persons := ps\<rparr>) org = company_rules s org" "company_rules (s\<lparr>ks_policies := qs\<rparr>) org = company_rules s org"
  "company_rules (s\<lparr>ks_profiles := rs\<rparr>) org = company_rules s org" "company_rules (s\<lparr>ks_releases := ts\<rparr>) org = company_rules s org"
  "company_rules (s\<lparr>ks_remotes := us\<rparr>) org = company_rules s org" "company_rules (s\<lparr>ks_records := vs\<rparr>) org = company_rules s org"
  "company_rules (s\<lparr>ks_seqs := ws\<rparr>) org = company_rules s org"
  by (simp_all add: company_rules_def)

lemma rules_put_org: "company_rules (put_org org o' s) c = (if c = org then Some (og_controllers o', og_threshold o') else company_rules s c)"
  by (simp add: company_rules_def put_org_def update_conv')

lemma change_company_rules:
  "change k s s' \<Longrightarrow> company_rules s org = Some (is, n) \<Longrightarrow> company_rules s' org \<noteq> Some (is, n) \<Longrightarrow>
     quorum_signed s k is n \<and> (\<exists>js m. company_rules s' org = Some (js, m) \<and> 0 < m \<and> m \<le> int (length js) \<and>
       quorum_signed s k (filter (\<lambda>i. i \<notin> set is) js) (int (length (filter (\<lambda>i. i \<notin> set is) js))))"
proof (induction rule: change.induct)
  case (founded c s cs m name)
  then show ?case by (auto simp: rules_put_org company_rules_of split: if_splits)
next
  case (governed c s o' cs m)
  then show ?case by (auto simp: rules_put_org company_rules_of split: if_splits)
qed (auto simp: rules_put_org put_policy_def insert_record_def Let_def company_rules_of split: if_splits)

lemma change_policy:
  "change k s s' \<Longrightarrow> map_of (ks_policies s) pid = Some p \<Longrightarrow> map_of (ks_policies s') pid \<noteq> Some p \<Longrightarrow>
     steward_quorum s k p \<and> (\<exists>q. map_of (ks_policies s') pid = Some q \<and> po_org q = po_org p \<and> po_class q = po_class p \<and> po_revision q = po_revision p + 1)"
proof (induction rule: change.induct)
  case (policy_revised org s o' i old q)
  then have i: "i = pid" "old = p" by (auto simp: put_policy_def update_conv' split: if_splits)
  have "quorum_signed s k (filter (\<lambda>i. activeMember s o' i (ca_now k)) (po_stewards old)) (po_threshold old)"
    using policy_revised(6) by (simp add: check_steward_def ok_iff check_quorum_ok quorum_signed_def ca_now_def)
  moreover have "po_org q = org \<and> po_revision q = po_revision old + 1" using policy_revised(7) by (auto simp: read_policy_def Let_def ok_iff)
  ultimately show ?case using policy_revised(2,4,5) i by (auto simp: steward_quorum_def put_policy_def update_conv')
qed (auto simp: put_policy_def put_org_def insert_record_def Let_def update_conv' split: if_splits)


text \<open>C40. 
  Rules change only by those they name.  Whatever action a command runs, the controllers or the quorum of a company change
  only with the signatures of a quorum of the controllers so far, and of everyone who becomes one; a policy changes only
  into its next revision, of the same company and class, with the signatures of a quorum of its active stewards so far.
\<close>
theorem rules_change_by_quorum:
  assumes "run_action pf s k = Some (Inr (s', r, h))"
  shows "(company_rules s org = Some (cs, n) \<and> company_rules s' org \<noteq> Some (cs, n) \<longrightarrow>
      quorum_signed s k cs n \<and> (\<exists>new m. company_rules s' org = Some (new, m) \<and> 0 < m \<and> m \<le> int (length new) \<and>
        quorum_signed s k (filter (\<lambda>i. i \<notin> set cs) new) (int (length (filter (\<lambda>i. i \<notin> set cs) new))))) \<and>
    (map_of (ks_policies s) pid = Some p \<and> map_of (ks_policies s') pid \<noteq> Some p \<longrightarrow>
      steward_quorum s k p \<and>
      (\<exists>q. map_of (ks_policies s') pid = Some q \<and> po_org q = po_org p \<and> po_class q = po_class p \<and> po_revision q = po_revision p + 1))"
  using change_company_rules [OF actions_are_changes [OF assms]] change_policy [OF actions_are_changes [OF assms]] by blast

definition sample_platform :: platform where
  "sample_platform = \<lparr>pl_verify = \<lambda>_ _ _. True, pl_sign = \<lambda>_ _. [], pl_secret = [], pl_hash = \<lambda>_. [], pl_schema = \<lambda>_. True\<rparr>"

definition sample_election :: call where
  "sample_election = (sample_call (sample_command ''organization.policy'' (CHR ''a'') 20
     [(js ''controllers'', JArr [JStr (uuid_of (CHR ''a'')), JStr (uuid_of (CHR ''b''))]), (js ''threshold'', JNum (JInt 2))]))
     \<lparr>ca_signed := [js ''a'', js ''b'']\<rparr>"

definition elected :: "kernel \<times> reply \<times> bool" where
  "elected = (case run_action sample_platform sample_kernel sample_election of Some (Inr x) \<Rightarrow> x | _ \<Rightarrow> (sample_kernel, Unkept, False))"

lemma sample_election_runs: "run_action sample_platform sample_kernel sample_election = Some (Inr (fst elected, fst (snd elected), snd (snd elected)))"
  by code_simp

theorem rules_change_by_quorum_witness:
  "company_rules (fst elected) (uuid_of (CHR ''c'')) = Some ([uuid_of (CHR ''a''), uuid_of (CHR ''b'')], 2) \<and>
   quorum_signed sample_kernel sample_election [uuid_of (CHR ''a'')] 1"
proof -
  have at: "company_rules sample_kernel (uuid_of (CHR ''c'')) = Some ([uuid_of (CHR ''a'')], 1)"
    "company_rules (fst elected) (uuid_of (CHR ''c'')) = Some ([uuid_of (CHR ''a''), uuid_of (CHR ''b'')], 2)"
    by code_simp+
  then have "company_rules (fst elected) (uuid_of (CHR ''c'')) \<noteq> Some ([uuid_of (CHR ''a'')], 1)" by simp
  with rules_change_by_quorum [OF sample_election_runs, where org = "uuid_of (CHR ''c'')" and cs = "[uuid_of (CHR ''a'')]" and n = 1] at
  show ?thesis by blast
qed

end
