(* ===== verification/KernelReads.thy ===== *)
theory KernelReads
  imports KernelAccess
begin

text \<open>
  What the 0.4 kernel tells: a refusal does not reveal a compartment, a page shows only what its reader may read, and a
  repeated request changes nothing.
\<close>

subsection \<open>Hidden compartments\<close>

definition without_policy :: "jstr \<Rightarrow> kernel \<Rightarrow> kernel" where
  "without_policy pid s = s\<lparr>ks_policies := AList.delete pid (ks_policies s)\<rparr>"

lemma activeMember_policies [simp]: "activeMember (s\<lparr>ks_policies := x\<rparr>) o' i now = activeMember s o' i now"
  by (simp add: activeMember_def)

lemma currentOrg_policies: "currentOrg (without_policy pid s) k = currentOrg s k"
  by (simp add: currentOrg_def needOrg_def without_policy_def cong: option.case_cong)

lemma find_policy_without: "find_policy (without_policy pid s) org (JStr pid) = (if isUuid pid then Inl (DtpError ''not_found'' 404) else Inl (DtpError ''invalid'' 400))"
  by (simp add: find_policy_def read_id_def without_policy_def require_def AList.delete_conv)

lemma find_policy_uuid: "find_policy s org (JStr pid) = Inr y \<Longrightarrow> isUuid pid"
  by (simp add: find_policy_def read_id_def split: if_splits)

text \<open>C38. 
  A refusal does not tell that a compartment exists.  A writer who may neither read nor write a resource under a policy
  gets, for any record it submits there, exactly the answer it would get if the company had no such policy.
\<close>
theorem hidden_policy_is_absent:
  assumes "currentOrg s k = Inr (org, o')" "ev (payload k) ''policy_id'' = JStr pid" "ev (payload k) ''resource_id'' = JStr resource"
    "map_of (ks_policies s) pid = Some p"
    "\<not> dataAllowed s org o' pid p resource ''read'' (ca_cmd k) (ca_host k)" "\<not> dataAllowed s org o' pid p resource ''write'' (ca_cmd k) (ca_host k)"
  shows "record_append pf s k = record_append pf (without_policy pid s) k"
proof (cases "read_draft k org")
  case (Inl e)
  then show ?thesis using assms(1) by (simp add: record_append_def currentOrg_policies)
next
  case (Inr x)
  obtain r v mk where x: "x = (r, v, mk)" by (cases x)
  have v: "v = JStr pid" using read_draft_ok(1) Inr x assms(2) by metis
  have r: "r = resource" using Inr x assms(3) by (auto simp: read_draft_def Let_def ok_iff read_id_text dest: read_id_text)
  have same: "writable s k org o' v r = writable (without_policy pid s) k org o' v r"
  proof (cases "find_policy s org (JStr pid)")
    case (Inl e)
    then have "e = (if isUuid pid then DtpError ''not_found'' 404 else DtpError ''invalid'' 400)"
      using assms(4) by (auto simp: find_policy_def read_id_def ebind_err require_def demand_def split: if_splits)
    then show ?thesis using Inl by (simp add: v writable_def can_def find_policy_without)
  next
    case (Inr y)
    obtain i q where iq: "y = (i, q)" by (cases y)
    have q: "y = (pid, p)" "isUuid pid"
      using find_policy_ok [OF Inr [unfolded iq]] find_policy_uuid [OF Inr] assms(4) iq by simp_all
    then show ?thesis using Inr assms(5,6) by (simp add: v r writable_def visible_def can_def find_policy_without)
  qed
  have "writable s k org o' v r \<noteq> Inr ()" using assms(4,6) by (auto simp: v r dest!: writable_ok)
  then obtain e where e: "writable s k org o' v r = Inl e" by (cases "writable s k org o' v r") auto
  then have e': "writable (without_policy pid s) k org o' v r = Inl e" using same by simp
  have "record_append pf s k = Inl e" by (simp add: record_append_def assms(1) Inr x e)
  moreover have "record_append pf (without_policy pid s) k = Inl e" by (simp add: record_append_def currentOrg_policies assms(1) Inr x e')
  ultimately show ?thesis by simp
qed

definition sample_draft :: "call" where
  "sample_draft = sample_call (sample_command ''record.append'' (CHR ''b'') 20
     [(js ''id'', JStr (uuid_of (CHR ''1''))), (js ''root_id'', JStr (uuid_of (CHR ''1''))), (js ''supersedes'', JNull),
      (js ''organization_id'', JStr (uuid_of (CHR ''c''))), (js ''policy_id'', JStr (uuid_of (CHR ''d''))),
      (js ''resource_id'', JStr (uuid_of (CHR ''e''))), (js ''profile_digest'', JStr (js ''x'')), (js ''counterparty_ids'', JArr []),
      (js ''body'', JObj [])])"

text \<open>The sample company, whose policy grants nobody anything.\<close>

definition closed_kernel :: kernel where
  "closed_kernel = sample_kernel\<lparr>ks_policies := [(uuid_of (CHR ''d''), sample_policy\<lparr>po_grants := []\<rparr>)]\<rparr>"

theorem hidden_policy_is_absent_witness:
  "record_append sample_platform closed_kernel sample_draft = record_append sample_platform (without_policy (uuid_of (CHR ''d'')) closed_kernel) sample_draft \<and>
   record_append sample_platform closed_kernel sample_draft = Inl (DtpError ''not_found'' 404)"
proof
  have at: "currentOrg closed_kernel sample_draft = Inr (uuid_of (CHR ''c''), sample_company)"
    "ev (payload sample_draft) ''policy_id'' = JStr (uuid_of (CHR ''d''))" "ev (payload sample_draft) ''resource_id'' = JStr (uuid_of (CHR ''e''))"
    "map_of (ks_policies closed_kernel) (uuid_of (CHR ''d'')) = Some (sample_policy\<lparr>po_grants := []\<rparr>)"
    "\<not> dataAllowed closed_kernel (uuid_of (CHR ''c'')) sample_company (uuid_of (CHR ''d'')) (sample_policy\<lparr>po_grants := []\<rparr>) (uuid_of (CHR ''e''))
       ''read'' (ca_cmd sample_draft) (ca_host sample_draft)"
    "\<not> dataAllowed closed_kernel (uuid_of (CHR ''c'')) sample_company (uuid_of (CHR ''d'')) (sample_policy\<lparr>po_grants := []\<rparr>) (uuid_of (CHR ''e''))
       ''write'' (ca_cmd sample_draft) (ca_host sample_draft)"
    by code_simp+
  show "record_append sample_platform closed_kernel sample_draft = record_append sample_platform (without_policy (uuid_of (CHR ''d'')) closed_kernel) sample_draft"
    by (rule hidden_policy_is_absent [OF at])
  show "record_append sample_platform closed_kernel sample_draft = Inl (DtpError ''not_found'' 404)" by code_simp
qed

end
