(* ===== verification/Spec2Isabelle.thy ===== *)
theory Spec2Isabelle
  imports SafeJsonSpec Sha256 Core1Envelope Reads Disputes Inventory LogAdmissionRules InvoiceRules KernelReads
begin

text \<open>
  Direct Trade Protocol: a verification development for the reference SDK, the reference store and the 0.4 kernel.

  The program.  Companies exchange signed JSON records.  The SDK (\<^verbatim>\<open>src/sdk/src\<close>) defines the bytes that are signed, the
  text forms of keys and digests, the record envelope, business profiles (invoices, inventory, exact decimals) and the
  control of identities.  The reference store (\<^verbatim>\<open>src/supabase/functions/dtp-store\<close>) keeps chains of records of version 0.2
  in SQL tables behind an HTTP interface.  The 0.4 kernel (\<^verbatim>\<open>src/sdk/src/v04\<close>) is a deterministic state machine that
  executes signed commands on companies, members, policies and records, to be run in one transaction of a host.  The
  identity log (\<^verbatim>\<open>src/sdk/src/foundation\<close>) lets a relying party judge which history of an identity to follow.

  Conventions.  A JavaScript value is a \<^theory_text>\<open>jval\<close>, a text the list of its UTF-16 units, a byte an 8-bit word.  Code that
  throws returns a sum whose left side is the error; a store or kernel operation takes the state and returns the new one,
  and a refusal keeps the old.  What the repository does not contain is a parameter: WebCrypto's Ed25519 and SHA-256, the
  third-party JSON Schema validator, \<^verbatim>\<open>JSON.parse\<close>, the URL parser, the random source, the clock.  Where a proof
  relies on one, the behaviour it relies on is a hypothesis with that name.  The messages of errors are left out.

  Foundations.  \<^theory_text>\<open>Prelude\<close>: literals, the error monad with its inversion facts \<^theory_text>\<open>ok_iff\<close>, decimal text, lists.
  \<^theory_text>\<open>JsonValue\<close>: values, members, equality.  \<^theory_text>\<open>Canonical\<close>, \<^theory_text>\<open>CanonicalInj\<close>, \<^theory_text>\<open>CanonicalBytes\<close> (\<^verbatim>\<open>canonical.ts\<close>): canonical
  text and bytes, and that they determine the value up to member order.  \<^theory_text>\<open>SafeJson\<close>, \<^theory_text>\<open>SafeJsonSpec\<close> (\<^verbatim>\<open>safe-json.ts\<close>): the
  lexical guard in front of \<^verbatim>\<open>JSON.parse\<close>, equivalent to a grammar of documents.  \<^theory_text>\<open>Sha256\<close> (\<^verbatim>\<open>sha256.ts\<close>): refines FIPS
  180-4 below 2^31 - 72 bytes, the bound of the 32-bit length arithmetic of the code.  \<^theory_text>\<open>Base58\<close>, \<^theory_text>\<open>Keys\<close> (\<^verbatim>\<open>base58.ts\<close>,
  \<^verbatim>\<open>keys.ts\<close>): key and signature texts, the order of a key, and strict verification.  \<^theory_text>\<open>Envelope\<close> (\<^verbatim>\<open>envelope.ts\<close>,
  \<^verbatim>\<open>sign.ts\<close>) and \<^theory_text>\<open>Core1Envelope\<close> (\<^verbatim>\<open>core1/envelope.ts\<close>): what a signature covers, and that signing and verifying agree.
  \<^theory_text>\<open>TextForms\<close>: the regular expressions on identifiers, dates and digests as functions.  \<^theory_text>\<open>WireText\<close>: values whose
  canonical bytes always exist.

  The store.  \<^theory_text>\<open>Registry\<close> (\<^verbatim>\<open>schemas.ts\<close>, \<^verbatim>\<open>registry.ts\<close>): the record types and their \<^verbatim>\<open>x-dtp\<close> keywords.  \<^theory_text>\<open>Authz\<close>, \<^theory_text>\<open>Auth\<close>
  (\<^verbatim>\<open>scopes.ts\<close>, \<^verbatim>\<open>authz.ts\<close>, \<^verbatim>\<open>auth.ts\<close>): who may read, and the SQL condition that decides the same.  \<^theory_text>\<open>Transitions\<close> (\<^verbatim>\<open>errors.ts\<close>,
  \<^verbatim>\<open>transitions.ts\<close>, \<^verbatim>\<open>integrity.ts\<close>), \<^theory_text>\<open>Validate\<close> (\<^verbatim>\<open>validate.ts\<close>): the rules of a write.  \<^theory_text>\<open>StoreDb\<close>: tables, constraints and
  triggers of the SQL migration, and the statements on them.  \<^theory_text>\<open>Records\<close>, \<^theory_text>\<open>Identities\<close>, \<^theory_text>\<open>Events\<close>, \<^theory_text>\<open>Router\<close>
  (\<^verbatim>\<open>handlers/\<close>, \<^verbatim>\<open>router.ts\<close>): the requests.  \<^theory_text>\<open>Requests\<close>, \<^theory_text>\<open>AppendOnly\<close>, \<^theory_text>\<open>StoreLog\<close>: what one request can do.
  \<^theory_text>\<open>StoreInvariant\<close>, \<^theory_text>\<open>Provenance\<close>, \<^theory_text>\<open>Reads\<close>: what holds in every state that requests reach: linear chains with one head,
  an event log that mirrors the records, records that verify again, complete pages and feeds.
  \<^theory_text>\<open>Disputes\<close>: why no reachable store holds a resolved dispute.  \<^theory_text>\<open>Samples\<close>: the store on
  which the theorems are applied.

  Profiles.  \<^theory_text>\<open>Decimal\<close> (\<^verbatim>\<open>profiles/decimal.ts\<close>): amounts of 18 integral digits, rounding.  \<^theory_text>\<open>Inventory\<close>
  (\<^verbatim>\<open>profiles/inventory.ts\<close>): the reducer of a stock pool, which never oversells.  \<^theory_text>\<open>Invoice\<close>, \<^theory_text>\<open>InvoiceRules\<close>
  (\<^verbatim>\<open>profiles/invoice.ts\<close>): the validator pass by pass, equivalent to arithmetic on the invoice, and what evidence can do.

  Identities.  \<^theory_text>\<open>IdentityControl\<close> (\<^verbatim>\<open>foundation/identity.ts\<close>) with \<^theory_text>\<open>IdentityRules\<close> and \<^theory_text>\<open>IdentityRuns\<close>: creating, changing and
  moving an identity, and what every interleaving keeps.  \<^theory_text>\<open>IdentityLog\<close>, \<^theory_text>\<open>IdentityLogRules\<close>, \<^theory_text>\<open>IdentityLogComplete\<close>,
  \<^theory_text>\<open>LogAdmission\<close>, \<^theory_text>\<open>LogAdmissionRules\<close> (\<^verbatim>\<open>foundation/identity-log.ts\<close>): a log verifies exactly when it is a history its
  owner authorized, and what a relying party admits, refuses and answers.

  The 0.4 kernel.  \<^theory_text>\<open>Wire04\<close> (\<^verbatim>\<open>wire.ts\<close>): commands, their signatures, host tokens; the loop that looks for U+0000 is a
  partial function and shown to end.  \<^theory_text>\<open>Instants04\<close>: the texts of instants, for the years 0 to 9999.  \<^theory_text>\<open>Kernel\<close> (\<^verbatim>\<open>model.ts\<close>,
  \<^verbatim>\<open>permissions.ts\<close>, the reservations of \<^verbatim>\<open>migration.ts\<close>): the state as a record of tables in insertion order, and who may do
  what.  \<^theory_text>\<open>Profiles04\<close>, \<^theory_text>\<open>Kinds04\<close> (\<^verbatim>\<open>profiles.ts\<close>): the schema dialect, whose bounds bound every value that fits, and kinds.
  \<^theory_text>\<open>Federation04\<close> (\<^verbatim>\<open>federation.ts\<close>): where a company is, as other hosts accept it.  \<^theory_text>\<open>Members04\<close>, \<^theory_text>\<open>Policies04\<close>, \<^theory_text>\<open>Records04\<close>,
  \<^theory_text>\<open>Engine04\<close> (\<^verbatim>\<open>engine.ts\<close>): the actions, one definition each, and the execution around them.  \<^theory_text>\<open>Changes04\<close>: an inductive
  relation with one rule per kind of change, which every action refines; \<^theory_text>\<open>KernelKeys\<close>, \<^theory_text>\<open>KernelAccess\<close>, \<^theory_text>\<open>KernelReads\<close> are
  cases over its rules: a key belongs to one identity for ever, a revocation ends access for good, rules change only by
  their quorum, a refusal does not tell that a compartment exists.

  Bounds.  Recursions over values are structural or measured by the size of the value; the schema visitor is bounded by the
  eight levels and 256 nodes of the code; the loops of base58, SHA-256 and the store's feeds are measured.  Integers are
  unbounded where the code checks \<^verbatim>\<open>Number.isSafeInteger\<close> or uses \<^verbatim>\<open>bigint\<close>, and 32-bit words in \<^theory_text>\<open>Sha256\<close>.

  Not modelled.  Of the kernel: the actions on ledgers, flow, evidence and migration, and the rules of the profiles product,
  order, forecast, object, party, flow and inventory 2 (a record under them has no outcome in the model).  Snapshots, the
  0.3 protocol, the rest of \<^verbatim>\<open>foundation\<close> (organizations, commitments, persons' authentication, discovery), onboarding, and
  the HTTP clients.  The database adapters, the MCP servers, the marketplace, the demo modules and the build scripts only
  connect the parts above to services.
\<close>

end
